(* ===== verification/Mvgal_Prelude.thy ===== *)
theory Mvgal_Prelude
  imports Main "HOL-Library.Word"
begin

text \<open>
  Shared vocabulary of the development: the machine integers of the C sources, the error
  enumeration of \<^verbatim>\<open>include/mvgal/mvgal_types.h\<close>, monotonic time stamps in nanoseconds,
  the outcome of the C library's allocation and initialisation calls, and the generic facts
  on words, lists and options that the component theories use.
\<close>

unbundle bit_operations_syntax

named_theorems word_bounds \<open>the ranges of the machine integers as natural numbers\<close>

type_synonym u32 = "32 word"
type_synonym u64 = "64 word"

abbreviation UINT32_MAX :: u32 where "UINT32_MAX \<equiv> 0xFFFFFFFF"
abbreviation UINT64_MAX :: u64 where "UINT64_MAX \<equiv> 0xFFFFFFFFFFFFFFFF"

section \<open>Error codes\<close>

datatype mvgal_error_t =
    MVGAL_SUCCESS
  | MVGAL_ERROR_INVALID_ARGUMENT
  | MVGAL_ERROR_OUT_OF_MEMORY
  | MVGAL_ERROR_NOT_FOUND
  | MVGAL_ERROR_TIMEOUT
  | MVGAL_ERROR_UNSUPPORTED
  | MVGAL_ERROR_BUSY
  | MVGAL_ERROR_DEVICE_LOST
  | MVGAL_ERROR_CONTEXT_LOST
  | MVGAL_ERROR_NOT_INITIALIZED
  | MVGAL_ERROR_ALREADY_INITIALIZED
  | MVGAL_ERROR_INCOMPATIBLE
  | MVGAL_ERROR_GPU_NOT_FOUND
  | MVGAL_ERROR_NOT_SUPPORTED
  | MVGAL_ERROR_DRIVER
  | MVGAL_ERROR_MEMORY
  | MVGAL_ERROR_INITIALIZATION
  | MVGAL_ERROR_IPC
  | MVGAL_ERROR_NO_GPUS
  | MVGAL_ERROR_UNKNOWN
  | MVGAL_ERROR_INTERRUPTED
  | MVGAL_ERROR_SCHEDULER

section \<open>Outcomes of the C library\<close>

text \<open>
  Whether \<^verbatim>\<open>calloc\<close>, \<^verbatim>\<open>pthread_mutex_init\<close> and \<^verbatim>\<open>pthread_cond_init\<close> succeed is decided by the
  environment of a call; the constructors take these outcomes as an argument.
\<close>

record init_env =
  calloc_ok :: bool
  mutex_init_ok :: bool
  cond_init_ok :: bool

section \<open>Time stamps\<close>

record timespec =
  tv_sec :: u64
  tv_nsec :: u64

definition timespec_to_ns :: "timespec \<Rightarrow> u64" where
  "timespec_to_ns ts = tv_sec ts * 1000000000 + tv_nsec ts"

definition ns_to_timespec :: "u64 \<Rightarrow> timespec" where
  "ns_to_timespec ns = \<lparr>tv_sec = ns div 1000000000, tv_nsec = ns mod 1000000000\<rparr>"

text \<open>The deadline of a timed wait: the clock reading plus a relative timeout in nanoseconds.\<close>

definition deadline_ts :: "timespec \<Rightarrow> u64 \<Rightarrow> timespec" where
  "deadline_ts now timeout_ns = ns_to_timespec (timespec_to_ns now + timeout_ns)"

section \<open>Faults\<close>

text \<open>
  Running into a fault ends a computation: taking a mutex the thread already holds, following NULL
  or a pointer to an object that is not there, accessing an array out of its bounds, converting a
  floating-point value to an integer type that cannot hold it, or using up the recursion depth or
  the number of loop rounds given to a function.
\<close>

datatype fault =
    Self_Deadlock | Dangling nat | Null_Pointer | Out_Of_Bounds | Bad_Conversion | Depth_Exceeded

type_synonym 'a run = "fault + 'a"

definition bnd :: "'a run \<Rightarrow> ('a \<Rightarrow> 'b run) \<Rightarrow> 'b run" where
  "bnd m f = (case m of Inl e \<Rightarrow> Inl e | Inr x \<Rightarrow> f x)"

lemma bnd_simps [simp]: "bnd (Inl e) f = Inl e" "bnd (Inr x) f = f x"
  by (simp_all add: bnd_def)

lemma bnd_Inr_conv: "bnd m f = Inr y \<longleftrightarrow> (\<exists>x. m = Inr x \<and> f x = Inr y)"
  by (cases m) auto

section \<open>Words\<close>

text \<open>The built-in \<^verbatim>\<open>__builtin_popcount\<close>.\<close>

definition popcount :: "u32 \<Rightarrow> nat" where
  "popcount w = length (filter (bit w) [0..<32])"

lemma unat_div_ge: "unat (a div b) = unat a div unat b" for a b :: "'a::len word"
  by (simp add: unat_div)

lemma unat_add_no_wrap:
  "unat a + unat b < 2 ^ LENGTH('a) \<Longrightarrow> unat (a + b) = unat a + unat b" for a b :: "'a::len word"
  by (simp add: unat_add_lem)

lemma unat_sub_no_wrap: "b \<le> a \<Longrightarrow> unat (a - b) = unat a - unat b" for a b :: "'a::len word"
  by (simp add: unat_sub)

lemma unat_pred_pos: "0 < a \<Longrightarrow> unat (a - 1) = unat a - 1" for a :: "'a::len word"
  by (rule unat_minus_one) simp

lemma word_add_wrap_less:
  "2 ^ LENGTH('a) \<le> unat a + unat b \<Longrightarrow> unat (a + b) < unat a" for a b :: "'a::len word"
proof -
  assume h: "2 ^ LENGTH('a) \<le> unat a + unat b"
  have a: "unat a < 2 ^ LENGTH('a)" and b: "unat b < 2 ^ LENGTH('a)"
    by (rule unsigned_less)+
  have "unat a + unat b - 2 ^ LENGTH('a) < 2 ^ LENGTH('a)"
    using a b by linarith
  with h have "unat (a + b) = unat a + unat b - 2 ^ LENGTH('a)"
    by (simp add: unat_word_ariths le_mod_geq)
  with h a b show ?thesis by linarith
qed

lemma ns_to_timespec_nsec: "unat (tv_nsec (ns_to_timespec ns)) < 1000000000"
  by (simp add: ns_to_timespec_def unat_mod)

lemma timespec_round_trip: "timespec_to_ns (ns_to_timespec ns) = ns"
  by (simp add: timespec_to_ns_def ns_to_timespec_def div_mult_mod_eq)

lemma deadline_ts_ns: "timespec_to_ns (deadline_ts now t) = timespec_to_ns now + t"
  by (simp add: deadline_ts_def timespec_round_trip)

section \<open>Lists\<close>

lemma sum_list_update_nat:
  "i < length xs \<Longrightarrow> sum_list (xs[i := x]) + xs ! i = sum_list xs + (x :: nat)"
  by (induction xs arbitrary: i) (auto split: nat.splits)

lemma find_upt_None: "find P [0..<n] = None \<longleftrightarrow> (\<forall>i < n. \<not> P i)"
  by (auto simp: find_None_iff)

lemma find_upt_Some: "find P [0..<n] = Some i \<longleftrightarrow> i < n \<and> P i \<and> (\<forall>j < i. \<not> P j)"
  by (auto simp: find_Some_iff)

lemma unat_lt_u64 [word_bounds]: "unat x < 2 ^ 64" for x :: u64
  using unsigned_less [of x, where ?'a = nat] by simp

lemma unat_lt_u32 [word_bounds]: "unat x < 2 ^ 32" for x :: u32
  using unsigned_less [of x, where ?'a = nat] by simp

end
