(* ===== verification/Cond_Wait.thy ===== *)
theory Cond_Wait
  imports Mvgal_Prelude
begin

text \<open>
  Blocking waits on a condition variable. A thread that calls \<^verbatim>\<open>pthread_cond_wait\<close> or
  \<^verbatim>\<open>pthread_cond_timedwait\<close> releases the mutex of the object, sleeps, and finds the object in a
  state that other threads have made when it owns the mutex again. One such sleep is a \<open>wake\<close>: the
  return code of the library call and the state the thread finds. The environment of a wait is a
  function from the absolute deadline the code computes (\<open>None\<close> for \<^verbatim>\<open>pthread_cond_wait\<close>) to
  the sleeps it gets; when the list is used up before the loop ends the thread still sleeps, and the
  result is \<open>None\<close>.

  The locale \<open>waitable\<close> is the contract that every wait operation of the sources keeps; its clients
  use only these laws.
\<close>

datatype pthread_ret = RET_OK | ETIMEDOUT | RET_OTHER int

datatype 's wake = Wake (wake_ret: pthread_ret) (wake_state: 's)

type_synonym 's wait_env = "timespec option \<Rightarrow> 's wake list"

text \<open>\<^verbatim>\<open>while (!p) pthread_cond_wait(...)\<close>: the return code is not looked at.\<close>

fun cond_wait_loop :: "('s \<Rightarrow> bool) \<Rightarrow> 's \<Rightarrow> 's wake list \<Rightarrow> 's option" where
  "cond_wait_loop p s [] = (if p s then Some s else None)"
| "cond_wait_loop p s (w # ws) =
     (if p s then Some s else cond_wait_loop p (wake_state w) ws)"

text \<open>
  \<^verbatim>\<open>while (!p) { ret = pthread_cond_timedwait(...); if (ret is bad) return e; }\<close>: \<open>early\<close> maps the
  return code to the value the code leaves the function with, if it leaves.
\<close>

fun cond_timedwait_loop ::
    "(pthread_ret \<Rightarrow> 'e option) \<Rightarrow> ('s \<Rightarrow> bool) \<Rightarrow> 's \<Rightarrow> 's wake list \<Rightarrow> ('s \<times> 'e option) option" where
  "cond_timedwait_loop early p s [] = (if p s then Some (s, None) else None)"
| "cond_timedwait_loop early p s (w # ws) =
     (if p s then Some (s, None)
      else case early (wake_ret w) of
             Some e \<Rightarrow> Some (wake_state w, Some e)
           | None \<Rightarrow> cond_timedwait_loop early p (wake_state w) ws)"

text \<open>
  The two loops under one name: without a deadline the code calls \<^verbatim>\<open>pthread_cond_wait\<close>, with one
  \<^verbatim>\<open>pthread_cond_timedwait\<close>. The second component is the code the loop is left early with.
\<close>

definition block_until ::
    "(pthread_ret \<Rightarrow> 'e option) \<Rightarrow> ('s \<Rightarrow> bool) \<Rightarrow> timespec option \<Rightarrow> 's \<Rightarrow> 's wait_env \<Rightarrow>
       ('s \<times> 'e option) option" where
  "block_until early p dl s env =
     (case dl of
        None \<Rightarrow> map_option (\<lambda>t. (t, None)) (cond_wait_loop p s (env None))
      | Some ts \<Rightarrow> cond_timedwait_loop early p s (env (Some ts)))"

section \<open>Facts on the two loops\<close>

lemma cond_wait_loop_ready [simp]: "p s \<Longrightarrow> cond_wait_loop p s ws = Some s"
  by (cases ws) auto

lemma cond_timedwait_loop_ready [simp]: "p s \<Longrightarrow> cond_timedwait_loop early p s ws = Some (s, None)"
  by (cases ws) auto

lemma cond_wait_loop_SomeD:
  "cond_wait_loop p s ws = Some t \<Longrightarrow> p t \<and> t \<in> insert s (wake_state ` set ws)"
proof (induction ws arbitrary: s)
  case Nil
  then show ?case by (auto split: if_splits)
next
  case (Cons w ws)
  then show ?case by (cases "p s") auto
qed

lemma cond_timedwait_loop_NoneD:
  "cond_timedwait_loop early p s ws = Some (t, None) \<Longrightarrow> p t \<and> t \<in> insert s (wake_state ` set ws)"
proof (induction ws arbitrary: s)
  case Nil
  then show ?case by (auto split: if_splits)
next
  case (Cons w ws)
  then show ?case by (auto split: if_splits option.splits)
qed

lemma cond_timedwait_loop_SomeD:
  "cond_timedwait_loop early p s ws = Some (t, Some e) \<Longrightarrow>
     \<exists>w \<in> set ws. t = wake_state w \<and> early (wake_ret w) = Some e"
proof (induction ws arbitrary: s)
  case Nil
  then show ?case by (auto split: if_splits)
next
  case (Cons w ws)
  then show ?case by (auto split: if_splits option.splits)
qed

lemma cond_wait_loop_returns:
  "w \<in> set ws \<Longrightarrow> p (wake_state w) \<Longrightarrow> \<exists>t. cond_wait_loop p s ws = Some t"
  by (induction ws arbitrary: s) auto

lemma cond_timedwait_loop_returns:
  assumes "w \<in> set ws" and "p (wake_state w) \<or> early (wake_ret w) \<noteq> None"
  shows "\<exists>r. cond_timedwait_loop early p s ws = Some r"
  using assms by (induction ws arbitrary: s) (auto split: option.splits)

lemma cond_wait_loop_blocks:
  "\<not> p s \<Longrightarrow> \<forall>w \<in> set ws. \<not> p (wake_state w) \<Longrightarrow> cond_wait_loop p s ws = None"
  by (induction ws arbitrary: s) auto

lemma block_until_ready [simp]: "p s \<Longrightarrow> block_until early p dl s env = Some (s, None)"
  by (simp add: block_until_def split: option.splits)

lemma block_until_NoneD:
  "block_until early p dl s env = Some (t, None) \<Longrightarrow> p t \<and> t \<in> insert s (wake_state ` set (env dl))"
  using cond_wait_loop_SomeD [of p s "env None" t]
    cond_timedwait_loop_NoneD [of early p s "env dl" t]
  by (cases dl) (auto simp: block_until_def)

lemma block_until_SomeD:
  "block_until early p dl s env = Some (t, Some e) \<Longrightarrow>
     \<not> p s \<and> (\<exists>w \<in> set (env dl). t = wake_state w \<and> early (wake_ret w) = Some e)"
  using cond_timedwait_loop_SomeD [of early p s "env dl" t e]
  by (cases "p s"; cases dl) (auto simp: block_until_def)

lemma block_until_returns:
  "w \<in> set (env dl) \<Longrightarrow> p (wake_state w) \<Longrightarrow> \<exists>r. block_until early p dl s env = Some r"
  using cond_wait_loop_returns [of w "env None" p s]
    cond_timedwait_loop_returns [of w "env dl" p early s]
  by (cases dl) (auto simp: block_until_def)

section \<open>The contract of a wait operation\<close>

text \<open>
  \<open>ready\<close> says that the object can be granted, \<open>grant\<close> is what being granted does to it, \<open>granted\<close>
  tells the result codes that report success, and \<open>wait\<close> is the operation with the sleeps it gets.
\<close>

locale waitable =
  fixes ready :: "'s \<Rightarrow> bool"
    and grant :: "'s \<Rightarrow> 's"
    and granted :: "'r \<Rightarrow> bool"
    and wait :: "'s \<Rightarrow> 's wait_env \<Rightarrow> ('s \<times> 'r) option"
  assumes wait_ready: "ready s \<Longrightarrow> \<exists>r. wait s env = Some (grant s, r) \<and> granted r"
    and wait_grantedD: "wait s env = Some (s', r) \<Longrightarrow> granted r \<Longrightarrow>
          \<exists>t d. ready t \<and> s' = grant t \<and> (t = s \<or> t \<in> wake_state ` set (env d))"
    and wait_refusedD: "wait s env = Some (s', r) \<Longrightarrow> \<not> granted r \<Longrightarrow>
          \<not> ready s \<and> (s' = s \<or> (\<exists>d. s' \<in> wake_state ` set (env d)))"
begin

text \<open>A predicate that granting keeps, and that other threads keep, survives every wait.\<close>

lemma wait_keeps:
  assumes "wait s env = Some (s', r)" and "I s"
    and "\<And>d w. w \<in> set (env d) \<Longrightarrow> I (wake_state w)"
    and "\<And>t. I t \<Longrightarrow> ready t \<Longrightarrow> I (grant t)"
  shows "I s'"
proof (cases "granted r")
  case True
  with assms(1) obtain t d where "ready t" "s' = grant t" "t = s \<or> t \<in> wake_state ` set (env d)"
    by (blast dest: wait_grantedD)
  with assms(2-4) show ?thesis by auto
next
  case False
  with assms(1) have "s' = s \<or> (\<exists>d. s' \<in> wake_state ` set (env d))"
    by (blast dest: wait_refusedD)
  with assms(2,3) show ?thesis by auto
qed

lemma wait_not_granted_unready:
  "ready s \<Longrightarrow> wait s env = Some (s', r) \<Longrightarrow> granted r \<and> s' = grant s"
  using wait_ready [of s env] by auto

lemma wait_never_ready:
  assumes "\<not> ready s" and "\<And>d w. w \<in> set (env d) \<Longrightarrow> \<not> ready (wake_state w)"
    and "wait s env = Some (s', r)"
  shows "\<not> granted r"
proof
  assume "granted r"
  with assms(3) obtain t d where "ready t" "t = s \<or> t \<in> wake_state ` set (env d)"
    by (blast dest: wait_grantedD)
  with assms(1,2) show False by auto
qed

end

text \<open>The bare loop keeps the contract; operations built on it inherit it.\<close>

lemma waitable_block_until: "waitable p (\<lambda>s. s) (\<lambda>r. r = None) (block_until early p dl)"
proof
  fix s env
  assume "p s"
  then show "\<exists>r. block_until early p dl s env = Some (s, r) \<and> r = None" by simp
next
  fix s env s' r
  assume "block_until early p dl s env = Some (s', r)" and "r = None"
  then show "\<exists>t d. p t \<and> s' = t \<and> (t = s \<or> t \<in> wake_state ` set (env d))"
    using block_until_NoneD [of early p dl s env s'] by blast
next
  fix s env s' r
  assume "block_until early p dl s env = Some (s', r)" and "r \<noteq> None"
  then show "\<not> p s \<and> (s' = s \<or> (\<exists>d. s' \<in> wake_state ` set (env d)))"
    using block_until_SomeD [of early p dl s env s'] by blast
qed

end
