(* ===== verification/Nt_Sync.thy ===== *)
theory Nt_Sync
  imports Cond_Wait
begin

text \<open>
  The Windows NT synchronisation objects of \<^verbatim>\<open>compat/windows/mvgal_ntsync.c\<close>: events, mutexes,
  semaphores, timers and the two multi-object waits. As in \<open>Fence_Sync\<close> a handle is an option and
  an operation that holds the object's mutex throughout is one step on the object. The functions
  that return 0 or -1 have an \<open>int\<close> result. The interleavings of the mutex operations, which touch
  the object outside its lock, are the subject of theory \<open>Nt_Mutex_Race\<close>.
\<close>

section \<open>Types\<close>

datatype mvgal_ntsync_type_t =
    MVGAL_NTSYNC_TYPE_EVENT | MVGAL_NTSYNC_TYPE_MUTEX | MVGAL_NTSYNC_TYPE_SEMAPHORE | MVGAL_NTSYNC_TYPE_TIMER

datatype mvgal_nt_event_type_t =
    MVGAL_NT_EVENT_TYPE_NOTIFICATION | MVGAL_NT_EVENT_TYPE_SYNCHRONIZATION

datatype mvgal_nt_event_state_t = MVGAL_NT_EVENT_STATE_RESET | MVGAL_NT_EVENT_STATE_SIGNALED

datatype mvgal_nt_timer_type_t =
    MVGAL_NT_TIMER_TYPE_NOTIFICATION | MVGAL_NT_TIMER_TYPE_SYNCHRONIZATION

datatype mvgal_nt_wait_type_t = MVGAL_NT_WAIT_TYPE_ALL | MVGAL_NT_WAIT_TYPE_ANY

text \<open>A wait result is the enumeration's number, since the code also returns \<open>OBJECT_0 + i\<close>.\<close>

type_synonym mvgal_nt_wait_result_t = u32

abbreviation (input) MVGAL_NT_WAIT_OBJECT_0 :: mvgal_nt_wait_result_t where "MVGAL_NT_WAIT_OBJECT_0 \<equiv> 0"
abbreviation (input) MVGAL_NT_WAIT_TIMEOUT :: mvgal_nt_wait_result_t where "MVGAL_NT_WAIT_TIMEOUT \<equiv> 0x102"
abbreviation (input) MVGAL_NT_WAIT_ABANDONED :: mvgal_nt_wait_result_t where "MVGAL_NT_WAIT_ABANDONED \<equiv> 0x80"
abbreviation (input) MVGAL_NT_WAIT_FAILED :: mvgal_nt_wait_result_t where "MVGAL_NT_WAIT_FAILED \<equiv> 0xFFFFFFFF"

record mvgal_nt_event =
  ev_type :: mvgal_nt_event_type_t
  ev_signaled :: bool

record mvgal_nt_mutex =
  mx_state :: u32
  mx_owner_thread :: u64
  mx_recursion_count :: u32
  mx_abandon_count :: u32
  mx_abandoned :: bool

record mvgal_nt_semaphore =
  nts_count :: u32
  nts_max_count :: u32

record mvgal_nt_timer =
  tm_type :: mvgal_nt_timer_type_t
  tm_timer_fd :: int
  tm_signaled :: bool
  tm_periodic :: bool
  tm_period_ms :: u32

definition mvgal_nt_timeout_to_abs :: "u64 \<Rightarrow> timespec \<Rightarrow> timespec" where
  "mvgal_nt_timeout_to_abs timeout_ns now = deadline_ts now timeout_ns"

section \<open>Events\<close>

definition mvgal_nt_event_create ::
    "mvgal_nt_event_type_t \<Rightarrow> mvgal_nt_event_state_t \<Rightarrow> bool \<Rightarrow> init_env \<Rightarrow> int \<times> mvgal_nt_event option" where
  "mvgal_nt_event_create event_type initial_state out_nonnull env =
     (if \<not> out_nonnull then (-1, None)
      else if \<not> calloc_ok env then (-1, None)
      else if \<not> mutex_init_ok env then (-1, None)
      else if \<not> cond_init_ok env then (-1, None)
      else (0, Some \<lparr>ev_type = event_type,
                     ev_signaled = (initial_state = MVGAL_NT_EVENT_STATE_SIGNALED)\<rparr>))"

definition mvgal_nt_event_destroy :: "mvgal_nt_event option \<Rightarrow> mvgal_nt_event option" where
  "mvgal_nt_event_destroy event = None"

datatype wakeup = Wake_None | Wake_One | Wake_All

definition mvgal_nt_event_set :: "mvgal_nt_event option \<Rightarrow> int \<times> mvgal_nt_event option \<times> wakeup" where
  "mvgal_nt_event_set event =
     (case event of
        None \<Rightarrow> (-1, None, Wake_None)
      | Some e \<Rightarrow>
          (0, Some (e\<lparr>ev_signaled := True\<rparr>),
           if ev_type e = MVGAL_NT_EVENT_TYPE_NOTIFICATION then Wake_All else Wake_One))"

definition mvgal_nt_event_reset :: "mvgal_nt_event option \<Rightarrow> int \<times> mvgal_nt_event option" where
  "mvgal_nt_event_reset event =
     (case event of None \<Rightarrow> (-1, None) | Some e \<Rightarrow> (0, Some (e\<lparr>ev_signaled := False\<rparr>)))"

text \<open>The pulse sets the flag, wakes and clears the flag before it releases the lock.\<close>

definition mvgal_nt_event_pulse :: "mvgal_nt_event option \<Rightarrow> int \<times> mvgal_nt_event option \<times> wakeup" where
  "mvgal_nt_event_pulse event =
     (case event of
        None \<Rightarrow> (-1, None, Wake_None)
      | Some e \<Rightarrow>
          (let e1 = e\<lparr>ev_signaled := True\<rparr>;
               w = (if ev_type e1 = MVGAL_NT_EVENT_TYPE_NOTIFICATION then Wake_All else Wake_One);
               e2 = e1\<lparr>ev_signaled := False\<rparr>
           in (0, Some e2, w)))"

text \<open>The signalled flag of an event, and the event after the auto-reset that a read does.\<close>

definition event_take :: "mvgal_nt_event \<Rightarrow> bool \<times> mvgal_nt_event" where
  "event_take e =
     (ev_signaled e,
      if ev_signaled e \<and> ev_type e = MVGAL_NT_EVENT_TYPE_SYNCHRONIZATION
      then e\<lparr>ev_signaled := False\<rparr> else e)"

definition mvgal_nt_event_query ::
    "mvgal_nt_event option \<Rightarrow> bool \<Rightarrow> int \<times> mvgal_nt_event option \<times> bool option" where
  "mvgal_nt_event_query event out_nonnull =
     (case event of
        None \<Rightarrow> (-1, None, None)
      | Some e \<Rightarrow>
          if \<not> out_nonnull then (-1, Some e, None)
          else let (sig, e') = event_take e in (0, Some e', Some sig))"

section \<open>Mutexes\<close>

definition mvgal_nt_mutex_create ::
    "bool \<Rightarrow> u32 \<Rightarrow> bool \<Rightarrow> u64 \<Rightarrow> init_env \<Rightarrow> int \<times> mvgal_nt_mutex option" where
  "mvgal_nt_mutex_create initial_owner abandon_wakeup_count out_nonnull tid env =
     (if \<not> out_nonnull then (-1, None)
      else if \<not> calloc_ok env then (-1, None)
      else if \<not> mutex_init_ok env then (-1, None)
      else if \<not> cond_init_ok env then (-1, None)
      else (0, Some \<lparr>mx_state = (if initial_owner then 1 else 0),
                     mx_owner_thread = (if initial_owner then tid else 0),
                     mx_recursion_count = (if initial_owner then 1 else 0),
                     mx_abandon_count = abandon_wakeup_count,
                     mx_abandoned = False\<rparr>))"

definition mvgal_nt_mutex_destroy :: "mvgal_nt_mutex option \<Rightarrow> mvgal_nt_mutex option" where
  "mvgal_nt_mutex_destroy mutex = None"

text \<open>Only \<^verbatim>\<open>ETIMEDOUT\<close> ends a timed wait early; every other return code goes round the loop.\<close>

definition nt_timedwait_early :: "pthread_ret \<Rightarrow> mvgal_nt_wait_result_t option" where
  "nt_timedwait_early ret = (case ret of ETIMEDOUT \<Rightarrow> Some MVGAL_NT_WAIT_TIMEOUT | _ \<Rightarrow> None)"

definition nt_deadline :: "timespec \<Rightarrow> u64 \<Rightarrow> timespec option" where
  "nt_deadline now timeout_ns =
     (if timeout_ns = UINT64_MAX then None else Some (mvgal_nt_timeout_to_abs timeout_ns now))"

definition nt_mutex_acquired :: "u64 \<Rightarrow> mvgal_nt_mutex \<Rightarrow> mvgal_nt_mutex" where
  "nt_mutex_acquired tid m =
     m\<lparr>mx_state := 1, mx_owner_thread := tid, mx_recursion_count := 1, mx_abandoned := False\<rparr>"

text \<open>The blocking part of \<^verbatim>\<open>mvgal_nt_mutex_lock\<close>, after the recursion check and the trylock.\<close>

definition nt_mutex_lock_blocking ::
    "u64 \<Rightarrow> u64 \<Rightarrow> timespec \<Rightarrow> mvgal_nt_mutex \<Rightarrow> mvgal_nt_mutex wait_env \<Rightarrow>
       (mvgal_nt_mutex \<times> mvgal_nt_wait_result_t) option" where
  "nt_mutex_lock_blocking timeout_ns tid now m env =
     (case block_until nt_timedwait_early (\<lambda>m. mx_state m = 0) (nt_deadline now timeout_ns) m env of
        None \<Rightarrow> None
      | Some (m', Some e) \<Rightarrow> Some (m', e)
      | Some (m', None) \<Rightarrow>
          Some (nt_mutex_acquired tid m',
                if mx_abandoned m' then MVGAL_NT_WAIT_ABANDONED else MVGAL_NT_WAIT_OBJECT_0))"

definition mvgal_nt_mutex_lock ::
    "mvgal_nt_mutex option \<Rightarrow> u64 \<Rightarrow> u64 \<Rightarrow> timespec \<Rightarrow> mvgal_nt_mutex wait_env \<Rightarrow>
       (mvgal_nt_mutex option \<times> mvgal_nt_wait_result_t) option" where
  "mvgal_nt_mutex_lock mutex timeout_ns tid now env =
     (case mutex of
        None \<Rightarrow> Some (None, MVGAL_NT_WAIT_FAILED)
      | Some m \<Rightarrow>
          if mx_owner_thread m = tid \<and> 0 < mx_recursion_count m
          then Some (Some (m\<lparr>mx_recursion_count := mx_recursion_count m + 1\<rparr>), MVGAL_NT_WAIT_OBJECT_0)
          else if timeout_ns = 0 then
            (if mx_state m = 0 then Some (Some (nt_mutex_acquired tid m), MVGAL_NT_WAIT_OBJECT_0)
             else Some (Some m, MVGAL_NT_WAIT_TIMEOUT))
          else map_option (map_prod Some id) (nt_mutex_lock_blocking timeout_ns tid now m env))"

definition mvgal_nt_mutex_unlock :: "mvgal_nt_mutex option \<Rightarrow> int \<times> mvgal_nt_mutex option \<times> wakeup" where
  "mvgal_nt_mutex_unlock mutex =
     (case mutex of
        None \<Rightarrow> (-1, None, Wake_None)
      | Some m \<Rightarrow>
          if 1 < mx_recursion_count m
          then (0, Some (m\<lparr>mx_recursion_count := mx_recursion_count m - 1\<rparr>), Wake_None)
          else (0, Some (m\<lparr>mx_owner_thread := 0, mx_recursion_count := 0, mx_state := 0\<rparr>), Wake_One))"

definition mvgal_nt_mutex_query ::
    "mvgal_nt_mutex option \<Rightarrow> bool \<Rightarrow> bool \<Rightarrow> int \<times> u64 option \<times> u32 option" where
  "mvgal_nt_mutex_query mutex owner_nonnull count_nonnull =
     (case mutex of
        None \<Rightarrow> (-1, None, None)
      | Some m \<Rightarrow>
          (0, if owner_nonnull then Some (mx_owner_thread m) else None,
              if count_nonnull then Some (mx_recursion_count m) else None))"

section \<open>Semaphores\<close>

definition mvgal_nt_semaphore_create ::
    "u32 \<Rightarrow> u32 \<Rightarrow> bool \<Rightarrow> init_env \<Rightarrow> int \<times> mvgal_nt_semaphore option" where
  "mvgal_nt_semaphore_create initial_count max_count out_nonnull env =
     (if \<not> out_nonnull then (-1, None)
      else if max_count < initial_count \<or> max_count = 0 then (-1, None)
      else if \<not> calloc_ok env then (-1, None)
      else if \<not> mutex_init_ok env then (-1, None)
      else if \<not> cond_init_ok env then (-1, None)
      else (0, Some \<lparr>nts_count = initial_count, nts_max_count = max_count\<rparr>))"

definition mvgal_nt_semaphore_destroy :: "mvgal_nt_semaphore option \<Rightarrow> mvgal_nt_semaphore option" where
  "mvgal_nt_semaphore_destroy semaphore = None"

text \<open>The wake-up loop signals the condition variable once per \<open>i\<close> with \<open>old + i < max\<close>.\<close>

definition nt_release_wakes :: "u32 \<Rightarrow> u32 \<Rightarrow> u32 \<Rightarrow> nat" where
  "nt_release_wakes old release_count max_count =
     length (filter (\<lambda>i. old + of_nat i < max_count) [0..<unat release_count])"

definition mvgal_nt_semaphore_release ::
    "mvgal_nt_semaphore option \<Rightarrow> u32 \<Rightarrow> bool \<Rightarrow> int \<times> mvgal_nt_semaphore option \<times> u32 option \<times> nat" where
  "mvgal_nt_semaphore_release semaphore release_count prev_nonnull =
     (case semaphore of
        None \<Rightarrow> (-1, None, None, 0)
      | Some s \<Rightarrow>
          if release_count = 0 then (-1, Some s, None, 0)
          else
            (let old = nts_count s;
                 previous_count = (if prev_nonnull then Some old else None);
                 new_count = old + release_count
             in if nts_max_count s < new_count then (-1, Some s, previous_count, 0)
                else (0, Some (s\<lparr>nts_count := new_count\<rparr>), previous_count,
                      nt_release_wakes old release_count (nts_max_count s))))"

definition mvgal_nt_semaphore_wait ::
    "mvgal_nt_semaphore option \<Rightarrow> u64 \<Rightarrow> timespec \<Rightarrow> mvgal_nt_semaphore wait_env \<Rightarrow>
       (mvgal_nt_semaphore option \<times> mvgal_nt_wait_result_t) option" where
  "mvgal_nt_semaphore_wait semaphore timeout_ns now env =
     (case semaphore of
        None \<Rightarrow> Some (None, MVGAL_NT_WAIT_FAILED)
      | Some s \<Rightarrow>
          if 0 < nts_count s
          then Some (Some (s\<lparr>nts_count := nts_count s - 1\<rparr>), MVGAL_NT_WAIT_OBJECT_0)
          else if timeout_ns = 0 then Some (Some s, MVGAL_NT_WAIT_TIMEOUT)
          else case block_until nt_timedwait_early (\<lambda>s. nts_count s \<noteq> 0) (nt_deadline now timeout_ns) s env of
                 None \<Rightarrow> None
               | Some (t, Some e) \<Rightarrow> Some (Some t, e)
               | Some (t, None) \<Rightarrow>
                   (let cur = nts_count t
                    in Some (Some (t\<lparr>nts_count := cur - 1\<rparr>),
                             if 0 < cur then MVGAL_NT_WAIT_OBJECT_0 else MVGAL_NT_WAIT_TIMEOUT)))"

definition mvgal_nt_semaphore_query ::
    "mvgal_nt_semaphore option \<Rightarrow> bool \<Rightarrow> bool \<Rightarrow> int \<times> u32 option \<times> u32 option" where
  "mvgal_nt_semaphore_query semaphore cur_nonnull max_nonnull =
     (case semaphore of
        None \<Rightarrow> (-1, None, None)
      | Some s \<Rightarrow>
          (0, if cur_nonnull then Some (nts_count s) else None,
              if max_nonnull then Some (nts_max_count s) else None))"

section \<open>Timers\<close>

text \<open>
  The timer itself is a timerfd of the kernel: what \<^verbatim>\<open>timerfd_create\<close> and \<^verbatim>\<open>timerfd_settime\<close>
  return and what \<^verbatim>\<open>read\<close> delivers (\<open>None\<close> when it does not return eight bytes) are arguments.
  Arming the timer also gives the \<open>itimerspec\<close> and the flag the kernel is called with.
\<close>

record itimerspec =
  it_value :: timespec
  it_interval :: timespec

definition itimerspec_zero :: itimerspec where
  "itimerspec_zero = \<lparr>it_value = \<lparr>tv_sec = 0, tv_nsec = 0\<rparr>, it_interval = \<lparr>tv_sec = 0, tv_nsec = 0\<rparr>\<rparr>"

definition mvgal_nt_timer_create ::
    "mvgal_nt_timer_type_t \<Rightarrow> bool \<Rightarrow> init_env \<Rightarrow> int \<Rightarrow> int \<times> mvgal_nt_timer option" where
  "mvgal_nt_timer_create timer_type out_nonnull env fd =
     (if \<not> out_nonnull then (-1, None)
      else if \<not> calloc_ok env then (-1, None)
      else if \<not> mutex_init_ok env then (-1, None)
      else if fd < 0 then (-1, None)
      else (0, Some \<lparr>tm_type = timer_type, tm_timer_fd = fd, tm_signaled = False,
                     tm_periodic = False, tm_period_ms = 0\<rparr>))"

definition mvgal_nt_timer_destroy :: "mvgal_nt_timer option \<Rightarrow> mvgal_nt_timer option" where
  "mvgal_nt_timer_destroy timer = None"

definition nt_timer_spec :: "u64 \<Rightarrow> u32 \<Rightarrow> itimerspec" where
  "nt_timer_spec due_time_ns period_ms =
     (let its = itimerspec_zero\<lparr>it_value := ns_to_timespec due_time_ns\<rparr>
      in if 0 < period_ms
         then its\<lparr>it_interval := \<lparr>tv_sec = ucast (period_ms div 1000),
                                  tv_nsec = ucast ((period_ms mod 1000) * 1000000)\<rparr>\<rparr>
         else its)"

definition mvgal_nt_timer_set ::
    "mvgal_nt_timer option \<Rightarrow> u64 \<Rightarrow> u32 \<Rightarrow> bool \<Rightarrow> (itimerspec \<Rightarrow> bool \<Rightarrow> int) \<Rightarrow>
       int \<times> mvgal_nt_timer option \<times> (itimerspec \<times> bool) option" where
  "mvgal_nt_timer_set timer due_time_ns period_ms is_absolute settime =
     (case timer of
        None \<Rightarrow> (-1, None, None)
      | Some t \<Rightarrow>
          (let its = nt_timer_spec due_time_ns period_ms;
               t1 = (if 0 < period_ms then t\<lparr>tm_periodic := True, tm_period_ms := period_ms\<rparr>
                     else t\<lparr>tm_periodic := False, tm_period_ms := 0\<rparr>);
               ret = settime its is_absolute
           in (ret, Some (if ret = 0 then t1\<lparr>tm_signaled := False\<rparr> else t1), Some (its, is_absolute))))"

definition mvgal_nt_timer_cancel ::
    "mvgal_nt_timer option \<Rightarrow> int \<times> mvgal_nt_timer option \<times> (itimerspec \<times> bool) option" where
  "mvgal_nt_timer_cancel timer =
     (case timer of
        None \<Rightarrow> (-1, None, None)
      | Some t \<Rightarrow>
          (0, Some (t\<lparr>tm_signaled := False, tm_periodic := False\<rparr>), Some (itimerspec_zero, False)))"

definition expired :: "u64 option \<Rightarrow> bool" where
  "expired rd = (case rd of None \<Rightarrow> False | Some expirations \<Rightarrow> 0 < expirations)"

definition mvgal_nt_timer_query ::
    "mvgal_nt_timer option \<Rightarrow> bool \<Rightarrow> u64 option \<Rightarrow> int \<times> mvgal_nt_timer option \<times> bool option" where
  "mvgal_nt_timer_query timer out_nonnull rd =
     (case timer of
        None \<Rightarrow> (-1, None, None)
      | Some t \<Rightarrow>
          if \<not> out_nonnull then (-1, Some t, None)
          else
            (let t1 = (if expired rd then t\<lparr>tm_signaled := True\<rparr> else t)
             in (0, Some (if tm_signaled t1 \<and> tm_type t1 = MVGAL_NT_TIMER_TYPE_SYNCHRONIZATION
                          then t1\<lparr>tm_signaled := False\<rparr> else t1),
                 Some (tm_signaled t1))))"

section \<open>Waiting for several objects\<close>

text \<open>
  Both waits poll. The objects live in a store, one part per kind, and a handle is an index into
  the part its kind selects, so that one object may stand in an array twice. Between two looks at
  an object other threads run: \<open>round_interf r i\<close> is what they do to the store before the look at
  entry \<open>i\<close> of round \<open>r\<close>, \<open>round_read r i\<close> what a read of a timer delivers then, and
  \<open>round_clock r\<close> the clock reading at the end of the round. The list of rounds is what the loop
  gets to run; when it is used up the loop is still polling and the result is \<open>None\<close>.
\<close>

record nt_store =
  st_event :: "nat \<Rightarrow> mvgal_nt_event"
  st_mutex :: "nat \<Rightarrow> mvgal_nt_mutex"
  st_semaphore :: "nat \<Rightarrow> mvgal_nt_semaphore"
  st_timer :: "nat \<Rightarrow> mvgal_nt_timer"

record poll_round =
  round_interf :: "nat \<Rightarrow> nt_store \<Rightarrow> nt_store"
  round_read :: "nat \<Rightarrow> u64 option"
  round_clock :: timespec

text \<open>One look at an object: whether it counts as signalled, and the store after it.\<close>

definition nt_take :: "u64 \<Rightarrow> mvgal_ntsync_type_t \<Rightarrow> nat \<Rightarrow> u64 option \<Rightarrow> nt_store \<Rightarrow> bool \<times> nt_store" where
  "nt_take tid ty h rd st =
     (case ty of
        MVGAL_NTSYNC_TYPE_EVENT \<Rightarrow>
          (let (sig, e) = event_take (st_event st h)
           in (sig, st\<lparr>st_event := (st_event st)(h := e)\<rparr>))
      | MVGAL_NTSYNC_TYPE_MUTEX \<Rightarrow>
          (let m = st_mutex st h
           in if mx_state m = 0
              then (True, st\<lparr>st_mutex := (st_mutex st)
                     (h := m\<lparr>mx_state := 1, mx_owner_thread := tid, mx_recursion_count := 1\<rparr>)\<rparr>)
              else (False, st))
      | MVGAL_NTSYNC_TYPE_SEMAPHORE \<Rightarrow>
          (let s = st_semaphore st h; cur = nts_count s
           in if 0 < cur
              then (True, st\<lparr>st_semaphore := (st_semaphore st)(h := s\<lparr>nts_count := cur - 1\<rparr>)\<rparr>)
              else (False, st))
      | MVGAL_NTSYNC_TYPE_TIMER \<Rightarrow> (expired rd, st))"

text \<open>
  One pass over the array from entry \<open>i\<close>: the result is the index a wait for any object returns
  with, if there is one, else the number of signalled entries.
\<close>

fun nt_scan ::
    "u64 \<Rightarrow> mvgal_nt_wait_type_t \<Rightarrow> poll_round \<Rightarrow> nat \<Rightarrow> (nat option \<times> mvgal_ntsync_type_t) list \<Rightarrow>
       u32 \<Rightarrow> nt_store \<Rightarrow> nat option \<times> u32 \<times> nt_store" where
  "nt_scan tid wt r i [] signaled st = (None, signaled, st)"
| "nt_scan tid wt r i ((None, ty) # objs) signaled st = nt_scan tid wt r (Suc i) objs signaled st"
| "nt_scan tid wt r i ((Some h, ty) # objs) signaled st =
     (let (sig, st') = nt_take tid ty h (round_read r i) (round_interf r i st)
      in if sig then
           (if wt = MVGAL_NT_WAIT_TYPE_ANY then (Some i, signaled + 1, st')
            else nt_scan tid wt r (Suc i) objs (signaled + 1) st')
         else nt_scan tid wt r (Suc i) objs signaled st')"

text \<open>
  The result has the wait result, the value written to \<^verbatim>\<open>signaled_index\<close> and the final store;
  \<open>all_index\<close> is what a successful wait for all objects writes there.
\<close>

fun nt_poll ::
    "u32 option \<Rightarrow> u64 \<Rightarrow> mvgal_nt_wait_type_t \<Rightarrow> (nat option \<times> mvgal_ntsync_type_t) list \<Rightarrow> u64 \<Rightarrow> u64 \<Rightarrow>
       poll_round list \<Rightarrow> nt_store \<Rightarrow> (mvgal_nt_wait_result_t \<times> u32 option \<times> nt_store) option" where
  "nt_poll all_index tid wt objs timeout_ns deadline [] st = None"
| "nt_poll all_index tid wt objs timeout_ns deadline (r # rs) st =
     (case nt_scan tid wt r 0 objs 0 st of
        (Some i, _, st') \<Rightarrow> Some (MVGAL_NT_WAIT_OBJECT_0 + of_nat i, Some (of_nat i), st')
      | (None, signaled, st') \<Rightarrow>
          if wt = MVGAL_NT_WAIT_TYPE_ALL \<and> signaled = of_nat (length objs)
          then Some (MVGAL_NT_WAIT_OBJECT_0, all_index, st')
          else if timeout_ns = 0 then Some (MVGAL_NT_WAIT_TIMEOUT, None, st')
          else if timeout_ns \<noteq> UINT64_MAX \<and> deadline \<le> timespec_to_ns (round_clock r)
          then Some (MVGAL_NT_WAIT_TIMEOUT, None, st')
          else nt_poll all_index tid wt objs timeout_ns deadline rs st')"

definition nt_poll_deadline :: "timespec \<Rightarrow> u64 \<Rightarrow> u64" where
  "nt_poll_deadline now timeout_ns =
     (if timeout_ns \<noteq> UINT64_MAX \<and> timeout_ns \<noteq> 0 then timespec_to_ns now + timeout_ns else 0)"

definition mvgal_nt_wait_multiple ::
    "nat option list option \<Rightarrow> mvgal_nt_wait_type_t \<Rightarrow> u64 \<Rightarrow> timespec \<Rightarrow> poll_round list \<Rightarrow> nt_store \<Rightarrow>
       (mvgal_nt_wait_result_t \<times> u32 option \<times> nt_store) option" where
  "mvgal_nt_wait_multiple events wt timeout_ns now rounds st =
     (case events of
        None \<Rightarrow> Some (MVGAL_NT_WAIT_FAILED, None, st)
      | Some evs \<Rightarrow>
          if evs = [] then Some (MVGAL_NT_WAIT_FAILED, None, st)
          else nt_poll (Some 0) 0 wt (map (\<lambda>h. (h, MVGAL_NTSYNC_TYPE_EVENT)) evs) timeout_ns
                 (nt_poll_deadline now timeout_ns) rounds st)"

definition mvgal_nt_wait_multiple_any ::
    "u64 \<Rightarrow> nat option list option \<Rightarrow> mvgal_ntsync_type_t list option \<Rightarrow> mvgal_nt_wait_type_t \<Rightarrow> u64 \<Rightarrow>
       timespec \<Rightarrow> poll_round list \<Rightarrow> nt_store \<Rightarrow> (mvgal_nt_wait_result_t \<times> u32 option \<times> nt_store) option" where
  "mvgal_nt_wait_multiple_any tid objects types wt timeout_ns now rounds st =
     (case (objects, types) of
        (Some objs, Some tys) \<Rightarrow>
          if objs = [] then Some (MVGAL_NT_WAIT_FAILED, None, st)
          else nt_poll None tid wt (zip objs tys) timeout_ns (nt_poll_deadline now timeout_ns) rounds st
      | _ \<Rightarrow> Some (MVGAL_NT_WAIT_FAILED, None, st))"

definition mvgal_nt_object_get_fd :: "nt_store \<Rightarrow> nat option \<Rightarrow> mvgal_ntsync_type_t \<Rightarrow> int" where
  "mvgal_nt_object_get_fd st obj ty =
     (case obj of
        None \<Rightarrow> -1
      | Some h \<Rightarrow> if ty = MVGAL_NTSYNC_TYPE_TIMER then tm_timer_fd (st_timer st h) else -1)"

section \<open>Semaphore lemmas\<close>

definition nt_semaphore_inv :: "mvgal_nt_semaphore \<Rightarrow> bool" where
  "nt_semaphore_inv s \<longleftrightarrow> nts_count s \<le> nts_max_count s \<and> 0 < nts_max_count s"

lemma nt_timedwait_early_Some: "nt_timedwait_early r = Some e \<Longrightarrow> e = MVGAL_NT_WAIT_TIMEOUT"
  by (auto simp: nt_timedwait_early_def split: pthread_ret.splits)

lemma word_pos_iff: "(0 < x) \<longleftrightarrow> x \<noteq> 0" for x :: "'a::len word"
  by (simp add: word_neq_0_conv)

definition nt_semaphore_wait_on ::
    "u64 \<Rightarrow> timespec \<Rightarrow> mvgal_nt_semaphore \<Rightarrow> mvgal_nt_semaphore wait_env \<Rightarrow>
       (mvgal_nt_semaphore \<times> mvgal_nt_wait_result_t) option" where
  "nt_semaphore_wait_on timeout_ns now s env =
     map_option (map_prod the id) (mvgal_nt_semaphore_wait (Some s) timeout_ns now env)"

lemma nt_semaphore_wait_cases:
  assumes "nt_semaphore_wait_on timeout_ns now s env = Some (s', r)"
  shows "(r = MVGAL_NT_WAIT_OBJECT_0 \<and> (\<exists>t d. nts_count t \<noteq> 0 \<and> s' = t\<lparr>nts_count := nts_count t - 1\<rparr>
              \<and> (t = s \<or> t \<in> wake_state ` set (env d))))
       \<or> (r = MVGAL_NT_WAIT_TIMEOUT \<and> nts_count s = 0 \<and> (s' = s \<or> (\<exists>d. s' \<in> wake_state ` set (env d))))"
proof (cases "nts_count s \<noteq> 0 \<or> timeout_ns = 0")
  case True
  with assms show ?thesis
    by (auto simp: nt_semaphore_wait_on_def mvgal_nt_semaphore_wait_def word_pos_iff split: if_splits)
next
  case False
  with assms obtain t e where
    b: "block_until nt_timedwait_early (\<lambda>s. nts_count s \<noteq> 0) (nt_deadline now timeout_ns) s env = Some (t, e)"
    and c: "(case e of None \<Rightarrow> (t\<lparr>nts_count := nts_count t - 1\<rparr>, if 0 < nts_count t then 0 else 0x102)
                     | Some e \<Rightarrow> (t, e)) = (s', r)"
    by (auto simp: nt_semaphore_wait_on_def mvgal_nt_semaphore_wait_def Let_def split: option.splits prod.splits)
  show ?thesis
  proof (cases e)
    case None
    with b have "nts_count t \<noteq> 0 \<and> t \<in> insert s (wake_state ` set (env (nt_deadline now timeout_ns)))"
      by (blast dest: block_until_NoneD)
    with None c show ?thesis
      by - (rule disjI1, intro conjI exI [of _ t] exI [of _ "nt_deadline now timeout_ns"], auto simp: word_pos_iff)
  next
    case (Some x)
    with b c False show ?thesis by (auto dest!: block_until_SomeD nt_timedwait_early_Some)
  qed
qed

interpretation nt_sem: waitable "\<lambda>s. nts_count s \<noteq> 0" "\<lambda>s. s\<lparr>nts_count := nts_count s - 1\<rparr>"
  "\<lambda>r. r = MVGAL_NT_WAIT_OBJECT_0" "nt_semaphore_wait_on timeout_ns now" for timeout_ns now
proof
  fix s :: mvgal_nt_semaphore and env
  assume "nts_count s \<noteq> 0"
  then show "\<exists>r. nt_semaphore_wait_on timeout_ns now s env = Some (s\<lparr>nts_count := nts_count s - 1\<rparr>, r)
      \<and> r = MVGAL_NT_WAIT_OBJECT_0"
    by (simp add: nt_semaphore_wait_on_def mvgal_nt_semaphore_wait_def word_pos_iff)
next
  fix s s' :: mvgal_nt_semaphore and env and r :: u32
  assume "nt_semaphore_wait_on timeout_ns now s env = Some (s', r)" and "r = MVGAL_NT_WAIT_OBJECT_0"
  then show "\<exists>t d. nts_count t \<noteq> 0 \<and> s' = t\<lparr>nts_count := nts_count t - 1\<rparr>
      \<and> (t = s \<or> t \<in> wake_state ` set (env d))"
    by (auto dest!: nt_semaphore_wait_cases)
next
  fix s s' :: mvgal_nt_semaphore and env and r :: u32
  assume "nt_semaphore_wait_on timeout_ns now s env = Some (s', r)" and "r \<noteq> MVGAL_NT_WAIT_OBJECT_0"
  then show "\<not> nts_count s \<noteq> 0 \<and> (s' = s \<or> (\<exists>d. s' \<in> wake_state ` set (env d)))"
    by (auto dest!: nt_semaphore_wait_cases)
qed

lemma nt_semaphore_take_inv: "nt_semaphore_inv s \<Longrightarrow> nts_count s \<noteq> 0 \<Longrightarrow> nt_semaphore_inv (s\<lparr>nts_count := nts_count s - 1\<rparr>)"
  by (auto simp: nt_semaphore_inv_def word_le_nat_alt unat_pred_pos word_pos_iff)

lemma nt_semaphore_wait_inv:
  assumes "nt_semaphore_wait_on timeout_ns now s env = Some (s', r)" and "nt_semaphore_inv s"
    and "\<And>d t. t \<in> wake_state ` set (env d) \<Longrightarrow> nt_semaphore_inv t"
  shows "nt_semaphore_inv s'"
  using nt_semaphore_wait_cases [OF assms(1)] assms(2,3) by (auto intro!: nt_semaphore_take_inv)

lemma nt_semaphore_release_inv:
  "mvgal_nt_semaphore_release (Some s) n b = (r, Some s', p, w) \<Longrightarrow> nt_semaphore_inv s \<Longrightarrow> nt_semaphore_inv s'"
  by (auto simp: mvgal_nt_semaphore_release_def nt_semaphore_inv_def Let_def split: if_splits)

section \<open>Mutex lemmas\<close>

lemma nt_mutex_lock_blocking_cases:
  assumes "nt_mutex_lock_blocking timeout_ns tid now m env = Some (m', r)"
  shows "(r \<noteq> MVGAL_NT_WAIT_TIMEOUT \<and> (\<exists>t d. mx_state t = 0 \<and> m' = nt_mutex_acquired tid t
             \<and> r = (if mx_abandoned t then MVGAL_NT_WAIT_ABANDONED else MVGAL_NT_WAIT_OBJECT_0)
             \<and> (t = m \<or> t \<in> wake_state ` set (env d))))
       \<or> (r = MVGAL_NT_WAIT_TIMEOUT \<and> mx_state m \<noteq> 0 \<and> (\<exists>d. m' \<in> wake_state ` set (env d)))"
proof -
  from assms obtain t e where
    b: "block_until nt_timedwait_early (\<lambda>m. mx_state m = 0) (nt_deadline now timeout_ns) m env = Some (t, e)"
    and c: "(case e of None \<Rightarrow> (nt_mutex_acquired tid t, if mx_abandoned t then 0x80 else 0) | Some e \<Rightarrow> (t, e)) = (m', r)"
    by (auto simp: nt_mutex_lock_blocking_def split: option.splits prod.splits)
  show ?thesis
  proof (cases e)
    case None
    with b have "mx_state t = 0 \<and> t \<in> insert m (wake_state ` set (env (nt_deadline now timeout_ns)))"
      by (blast dest: block_until_NoneD)
    with None c show ?thesis
      by - (rule disjI1, intro conjI exI [of _ t] exI [of _ "nt_deadline now timeout_ns"], auto split: if_splits)
  next
    case (Some x)
    with b c show ?thesis by (auto dest!: block_until_SomeD nt_timedwait_early_Some)
  qed
qed

interpretation nt_mutex: waitable "\<lambda>m. mx_state m = 0" "nt_mutex_acquired tid"
  "\<lambda>r. r \<noteq> MVGAL_NT_WAIT_TIMEOUT" "nt_mutex_lock_blocking timeout_ns tid now" for tid timeout_ns now
proof
  fix m :: mvgal_nt_mutex and env
  assume "mx_state m = 0"
  then show "\<exists>r. nt_mutex_lock_blocking timeout_ns tid now m env = Some (nt_mutex_acquired tid m, r)
      \<and> r \<noteq> MVGAL_NT_WAIT_TIMEOUT"
    by (simp add: nt_mutex_lock_blocking_def)
next
  fix m m' :: mvgal_nt_mutex and env and r :: u32
  assume "nt_mutex_lock_blocking timeout_ns tid now m env = Some (m', r)" and "r \<noteq> MVGAL_NT_WAIT_TIMEOUT"
  then show "\<exists>t d. mx_state t = 0 \<and> m' = nt_mutex_acquired tid t \<and> (t = m \<or> t \<in> wake_state ` set (env d))"
    by (auto dest!: nt_mutex_lock_blocking_cases)
next
  fix m m' :: mvgal_nt_mutex and env and r :: u32
  assume "nt_mutex_lock_blocking timeout_ns tid now m env = Some (m', r)" and "\<not> r \<noteq> MVGAL_NT_WAIT_TIMEOUT"
  then show "\<not> mx_state m = 0 \<and> (m' = m \<or> (\<exists>d. m' \<in> wake_state ` set (env d)))"
    by (auto dest!: nt_mutex_lock_blocking_cases)
qed

text \<open>A nested lock or unlock of the owner, as a function on the object.\<close>

definition nt_lock_obj :: "u64 \<Rightarrow> u64 \<Rightarrow> timespec \<Rightarrow> mvgal_nt_mutex \<Rightarrow> mvgal_nt_mutex" where
  "nt_lock_obj timeout_ns tid now m =
     (case mvgal_nt_mutex_lock (Some m) timeout_ns tid now (\<lambda>_. []) of
        Some (Some m', r) \<Rightarrow> if r = MVGAL_NT_WAIT_OBJECT_0 then m' else m
      | _ \<Rightarrow> m)"

definition nt_unlock_obj :: "mvgal_nt_mutex \<Rightarrow> mvgal_nt_mutex" where
  "nt_unlock_obj m = the (fst (snd (mvgal_nt_mutex_unlock (Some m))))"

definition nt_mutex_free :: "mvgal_nt_mutex \<Rightarrow> bool" where
  "nt_mutex_free m \<longleftrightarrow> mx_state m = 0 \<and> mx_owner_thread m = 0 \<and> mx_recursion_count m = 0 \<and> \<not> mx_abandoned m"

definition nt_mutex_held :: "u64 \<Rightarrow> nat \<Rightarrow> mvgal_nt_mutex \<Rightarrow> bool" where
  "nt_mutex_held tid n m \<longleftrightarrow>
     mx_state m = 1 \<and> mx_owner_thread m = tid \<and> unat (mx_recursion_count m) = n \<and> \<not> mx_abandoned m"

lemma nt_lock_free: "nt_mutex_free m \<Longrightarrow> nt_mutex_held tid 1 (nt_lock_obj timeout_ns tid now m)"
  by (auto simp: nt_lock_obj_def mvgal_nt_mutex_lock_def nt_mutex_free_def nt_mutex_held_def
      nt_mutex_acquired_def nt_mutex_lock_blocking_def)

lemma nt_lock_nested:
  assumes "nt_mutex_held tid n m" and "0 < n" and "Suc n < 2 ^ 32"
  shows "nt_mutex_held tid (Suc n) (nt_lock_obj timeout_ns tid now m)"
proof -
  from assms have "0 < mx_recursion_count m" by (auto simp: nt_mutex_held_def word_less_nat_alt)
  moreover from assms have "unat (mx_recursion_count m + 1) = Suc n"
    by (subst unat_add_no_wrap) (auto simp: nt_mutex_held_def)
  ultimately show ?thesis
    using assms by (simp add: nt_lock_obj_def mvgal_nt_mutex_lock_def nt_mutex_held_def)
qed

lemma nt_lock_repeat:
  assumes "nt_mutex_free m"
  shows "Suc n < 2 ^ 32 \<Longrightarrow> nt_mutex_held tid (Suc n) ((nt_lock_obj timeout_ns tid now ^^ Suc n) m)"
proof (induction n)
  case 0
  with nt_lock_free [OF assms] show ?case by simp
next
  case (Suc n)
  then have "nt_mutex_held tid (Suc n) ((nt_lock_obj timeout_ns tid now ^^ Suc n) m)" by simp
  from nt_lock_nested [OF this _ Suc.prems] show ?case by simp
qed

lemma nt_unlock_nested:
  assumes "nt_mutex_held tid (Suc (Suc n)) m" shows "nt_mutex_held tid (Suc n) (nt_unlock_obj m)"
proof -
  from assms have "1 < mx_recursion_count m" by (auto simp: nt_mutex_held_def word_less_nat_alt)
  moreover from this have "unat (mx_recursion_count m - 1) = unat (mx_recursion_count m) - 1"
    by (intro unat_pred_pos) (auto simp: word_less_nat_alt)
  ultimately show ?thesis
    using assms by (simp add: nt_unlock_obj_def mvgal_nt_mutex_unlock_def nt_mutex_held_def)
qed

lemma nt_unlock_last: "nt_mutex_held tid 1 m \<Longrightarrow> nt_mutex_free (nt_unlock_obj m)"
  by (auto simp: nt_unlock_obj_def mvgal_nt_mutex_unlock_def nt_mutex_held_def nt_mutex_free_def word_less_nat_alt)

lemma nt_unlock_repeat:
  "nt_mutex_held tid n m \<Longrightarrow> k < n \<Longrightarrow> nt_mutex_held tid (n - k) ((nt_unlock_obj ^^ k) m)"
proof (induction k)
  case 0
  then show ?case by simp
next
  case (Suc k)
  then have "nt_mutex_held tid (n - k) ((nt_unlock_obj ^^ k) m)" by simp
  moreover from Suc.prems have "n - k = Suc (Suc (n - k - 2))" by simp
  ultimately have "nt_mutex_held tid (Suc (Suc (n - k - 2))) ((nt_unlock_obj ^^ k) m)" by metis
  from nt_unlock_nested [OF this] Suc.prems show ?case by (simp add: Suc_diff_Suc)
qed

section \<open>Multi-wait lemmas\<close>

definition quiet :: "poll_round \<Rightarrow> bool" where
  "quiet r \<longleftrightarrow> round_interf r = (\<lambda>_ st. st)"

text \<open>
  Whether an entry of the array is signalled in a store, and what taking a signalled object means: an auto-reset
  event is reset, a mutex gets its owner, a semaphore loses one unit, and nothing else changes.
\<close>

definition nt_signaled :: "poll_round \<Rightarrow> nat \<Rightarrow> nat option \<times> mvgal_ntsync_type_t \<Rightarrow> nt_store \<Rightarrow> bool" where
  "nt_signaled r i ob st =
     (case ob of
        (None, _) \<Rightarrow> False
      | (Some h, MVGAL_NTSYNC_TYPE_EVENT) \<Rightarrow> ev_signaled (st_event st h)
      | (Some h, MVGAL_NTSYNC_TYPE_MUTEX) \<Rightarrow> mx_state (st_mutex st h) = 0
      | (Some h, MVGAL_NTSYNC_TYPE_SEMAPHORE) \<Rightarrow> nts_count (st_semaphore st h) \<noteq> 0
      | (Some h, MVGAL_NTSYNC_TYPE_TIMER) \<Rightarrow> expired (round_read r i))"

fun nt_taken :: "u64 \<Rightarrow> mvgal_ntsync_type_t \<Rightarrow> nat \<Rightarrow> nt_store \<Rightarrow> nt_store" where
  "nt_taken tid MVGAL_NTSYNC_TYPE_EVENT h st =
     st\<lparr>st_event := (st_event st)(h := (st_event st h)\<lparr>ev_signaled := ev_type (st_event st h) \<noteq> MVGAL_NT_EVENT_TYPE_SYNCHRONIZATION\<rparr>)\<rparr>"
| "nt_taken tid MVGAL_NTSYNC_TYPE_MUTEX h st =
     st\<lparr>st_mutex := (st_mutex st)(h := (st_mutex st h)\<lparr>mx_state := 1, mx_owner_thread := tid, mx_recursion_count := 1\<rparr>)\<rparr>"
| "nt_taken tid MVGAL_NTSYNC_TYPE_SEMAPHORE h st =
     st\<lparr>st_semaphore := (st_semaphore st)(h := (st_semaphore st h)\<lparr>nts_count := nts_count (st_semaphore st h) - 1\<rparr>)\<rparr>"
| "nt_taken tid MVGAL_NTSYNC_TYPE_TIMER h st = st"

lemma nt_take_fst: "fst (nt_take tid ty h (round_read r i) st) = nt_signaled r i (Some h, ty) st"
  by (cases ty) (simp_all add: nt_take_def event_take_def nt_signaled_def word_pos_iff Let_def)

lemma nt_take_snd:
  assumes "nt_signaled r i (Some h, ty) st"
  shows "snd (nt_take tid ty h (round_read r i) st) = nt_taken tid ty h st"
  using assms by (cases ty; cases "st_event st h") (simp_all add: nt_take_def event_take_def nt_signaled_def word_pos_iff Let_def)

lemma nt_take_unsignaled: "\<not> fst (nt_take tid ty h rd st) \<Longrightarrow> snd (nt_take tid ty h rd st) = st"
  by (cases st) (auto simp: nt_take_def event_take_def Let_def split: mvgal_ntsync_type_t.splits if_splits)

lemma nt_scan_skip:
  assumes "quiet r" and "\<not> nt_signaled r i ob st"
  shows "nt_scan tid wt r i (ob # objs) n st = nt_scan tid wt r (Suc i) objs n st"
proof (cases ob)
  case (Pair h ty)
  show ?thesis
  proof (cases h)
    case None
    with Pair show ?thesis by simp
  next
    case (Some a)
    with Pair assms(2) have "\<not> fst (nt_take tid ty a (round_read r i) st)"
      using nt_take_fst [of tid ty a r i st] by simp
    with nt_take_unsignaled [OF this] have "nt_take tid ty a (round_read r i) st = (False, st)"
      by (simp add: prod_eq_iff)
    with Pair Some assms(1) show ?thesis by (simp add: quiet_def)
  qed
qed

lemma nt_scan_any:
  assumes "quiet r"
  shows "k < length objs \<Longrightarrow> objs ! k = (Some h, ty) \<Longrightarrow> nt_signaled r (i + k) (objs ! k) st \<Longrightarrow>
    (\<forall>j < k. \<not> nt_signaled r (i + j) (objs ! j) st) \<Longrightarrow>
    nt_scan tid MVGAL_NT_WAIT_TYPE_ANY r i objs n st =
      (Some (i + k), n + 1, nt_taken tid ty h st)"
proof (induction objs arbitrary: i k)
  case Nil
  then show ?case by simp
next
  case (Cons ob objs)
  show ?case
  proof (cases k)
    case 0
    with Cons.prems have "nt_signaled r i (Some h, ty) st" by simp
    then have "nt_take tid ty h (round_read r i) st = (True, nt_taken tid ty h st)"
      by (simp add: prod_eq_iff nt_take_fst nt_take_snd)
    with 0 Cons.prems assms show ?thesis by (simp add: quiet_def)
  next
    case (Suc k')
    with Cons.prems have "\<not> nt_signaled r i ob st" by auto
    moreover from Suc Cons.prems have "\<forall>j < k'. \<not> nt_signaled r (Suc i + j) (objs ! j) st" by auto
    ultimately show ?thesis
      using Cons.IH [of k' "Suc i"] Cons.prems Suc by (simp add: nt_scan_skip [OF assms])
  qed
qed

lemma nt_scan_none:
  assumes "quiet r"
  shows "(\<forall>j < length objs. \<not> nt_signaled r (i + j) (objs ! j) st) \<Longrightarrow> nt_scan tid wt r i objs n st = (None, n, st)"
proof (induction objs arbitrary: i)
  case (Cons ob objs)
  then have "\<not> nt_signaled r i ob st" by auto
  moreover have "\<forall>j < length objs. \<not> nt_signaled r (Suc i + j) (objs ! j) st" using Cons.prems by auto
  ultimately show ?case using Cons.IH [of "Suc i"] by (simp add: nt_scan_skip [OF assms])
qed simp

text \<open>A wait for several objects keeps the semaphores of the store in their bounds, if the other threads do.\<close>

definition sems_ok :: "nt_store \<Rightarrow> bool" where
  "sems_ok st \<longleftrightarrow> (\<forall>h. nt_semaphore_inv (st_semaphore st h))"

lemma nt_take_sems: "sems_ok st \<Longrightarrow> sems_ok (snd (nt_take tid ty h rd st))"
  by (cases ty) (auto simp: nt_take_def sems_ok_def Let_def word_pos_iff intro!: nt_semaphore_take_inv split: prod.splits)

lemma nt_scan_sems:
  assumes "\<And>j st. sems_ok st \<Longrightarrow> sems_ok (round_interf r j st)"
  shows "sems_ok st \<Longrightarrow> sems_ok (snd (snd (nt_scan tid wt r i objs n st)))"
proof (induction objs arbitrary: i n st)
  case (Cons ob objs)
  obtain h ty where ob: "ob = (h, ty)" by (cases ob)
  have "sems_ok u" if "nt_take tid ty a (round_read r i) (round_interf r i st) = (b, u)" for a b u
    using nt_take_sems [OF assms [OF Cons.prems], of tid ty a "round_read r i" i] that by simp
  then show ?case using Cons ob by (cases h) (auto split: prod.splits)
qed simp

lemma nt_poll_sems:
  assumes "\<And>r j st. r \<in> set rounds \<Longrightarrow> sems_ok st \<Longrightarrow> sems_ok (round_interf r j st)"
    and "nt_poll ai tid wt objs timeout_ns deadline rounds st = Some (v, i, st')" and "sems_ok st"
  shows "sems_ok st'"
  using assms
proof (induction rounds arbitrary: st)
  case (Cons r rounds)
  obtain f n u where c: "nt_scan tid wt r 0 objs 0 st = (f, n, u)" by (cases "nt_scan tid wt r 0 objs 0 st")
  have "sems_ok u" using nt_scan_sems [of r st tid wt 0 objs 0] Cons.prems(1,3) c by auto
  then show ?case using Cons.IH [of u] Cons.prems(1,2) c by (auto split: option.splits if_splits)
qed simp

lemma nt_poll_deadline_returns:
  assumes "timeout_ns \<noteq> UINT64_MAX"
  shows "r \<in> set rounds \<Longrightarrow> deadline \<le> timespec_to_ns (round_clock r) \<Longrightarrow>
    \<exists>res. nt_poll ai tid wt objs timeout_ns deadline rounds st = Some res"
  using assms by (induction rounds arbitrary: st) (auto split: prod.splits option.splits)

section \<open>Properties\<close>

text \<open>
  C15. The count of an NT semaphore stays between 0 and its maximum: creation establishes this and
  every release, wait and wait for several objects keeps it, whatever the other threads do meanwhile as long as
  they keep it too. A release either succeeds and adds the release count in 32 bits, or fails and leaves the semaphore as it
  was. It succeeds exactly when the release count is not 0 and the sum is within the maximum or wraps round 32
  bits; in the second case, a flaw of the check, the count goes down.
\<close>

theorem nt_semaphore_bounded:
  assumes "nt_semaphore_inv s"
  shows "(\<forall>initial mx out env s0. mvgal_nt_semaphore_create initial mx out env = (0, Some s0) \<longrightarrow> nt_semaphore_inv s0)
    \<and> (\<forall>n b r s' p w. mvgal_nt_semaphore_release (Some s) n b = (r, Some s', p, w) \<longrightarrow> nt_semaphore_inv s')
    \<and> (\<forall>timeout_ns now env s' r. mvgal_nt_semaphore_wait (Some s) timeout_ns now env = Some (Some s', r)
        \<and> (\<forall>d. \<forall>t \<in> wake_state ` set (env d). nt_semaphore_inv t) \<longrightarrow> nt_semaphore_inv s')
    \<and> (\<forall>tid objs tys wt timeout_ns now rounds st v i st'. sems_ok st
        \<and> (\<forall>r \<in> set rounds. \<forall>j st. sems_ok st \<longrightarrow> sems_ok (round_interf r j st))
        \<and> mvgal_nt_wait_multiple_any tid objs tys wt timeout_ns now rounds st = Some (v, i, st') \<longrightarrow> sems_ok st')
    \<and> (\<forall>n b. case mvgal_nt_semaphore_release (Some s) n b of (r, s', _) \<Rightarrow>
           if n \<noteq> 0 \<and> (unat (nts_count s) + unat n \<le> unat (nts_max_count s) \<or> 2 ^ 32 \<le> unat (nts_count s) + unat n)
           then r = 0 \<and> s' = Some (s\<lparr>nts_count := nts_count s + n\<rparr>)
             \<and> (2 ^ 32 \<le> unat (nts_count s) + unat n \<longrightarrow> nts_count s + n < nts_count s)
           else r = -1 \<and> s' = Some s)"
proof (intro conjI allI impI)
  fix initial mx out env s0
  assume "mvgal_nt_semaphore_create initial mx out env = (0, Some s0)"
  then show "nt_semaphore_inv s0"
    by (auto simp: mvgal_nt_semaphore_create_def nt_semaphore_inv_def word_pos_iff split: if_splits)
next
  fix n b r s' p w
  assume "mvgal_nt_semaphore_release (Some s) n b = (r, Some s', p, w)"
  then show "nt_semaphore_inv s'" using assms by (rule nt_semaphore_release_inv)
next
  fix timeout_ns now env s' r
  assume "mvgal_nt_semaphore_wait (Some s) timeout_ns now env = Some (Some s', r)
    \<and> (\<forall>d. \<forall>t \<in> wake_state ` set (env d). nt_semaphore_inv t)"
  then show "nt_semaphore_inv s'"
    using assms by (intro nt_semaphore_wait_inv [of timeout_ns now s env s' r])
      (auto simp: nt_semaphore_wait_on_def)
next
  fix tid objs tys wt timeout_ns now rounds st v i st'
  assume a: "sems_ok st \<and> (\<forall>r \<in> set rounds. \<forall>j st. sems_ok st \<longrightarrow> sems_ok (round_interf r j st))
    \<and> mvgal_nt_wait_multiple_any tid objs tys wt timeout_ns now rounds st = Some (v, i, st')"
  then have "v = MVGAL_NT_WAIT_FAILED \<and> st' = st
      \<or> (\<exists>os deadline. nt_poll None tid wt os timeout_ns deadline rounds st = Some (v, i, st'))"
    by (auto simp: mvgal_nt_wait_multiple_any_def split: option.splits if_splits)
  then show "sems_ok st'" using a nt_poll_sems [of rounds] by blast
next
  fix n :: u32 and b
  have w: "nts_count s + n < nts_count s \<and> \<not> nts_max_count s < nts_count s + n \<and> n \<noteq> 0" if "2 ^ 32 \<le> unat (nts_count s) + unat n"
  proof -
    have "unat (nts_count s) < 2 ^ 32" using unsigned_less [of "nts_count s"] by simp
    then show ?thesis using word_add_wrap_less [of "nts_count s" n] that assms
      by (auto simp: word_less_nat_alt word_le_nat_alt nt_semaphore_inv_def)
  qed
  have f: "nts_max_count s < nts_count s + n \<longleftrightarrow> unat (nts_max_count s) < unat (nts_count s) + unat n"
    if "\<not> 2 ^ 32 \<le> unat (nts_count s) + unat n"
    using that unat_add_no_wrap [of "nts_count s" n] by (simp add: word_less_nat_alt)
  show "case mvgal_nt_semaphore_release (Some s) n b of (r, s', _) \<Rightarrow>
      if n \<noteq> 0 \<and> (unat (nts_count s) + unat n \<le> unat (nts_max_count s) \<or> 2 ^ 32 \<le> unat (nts_count s) + unat n)
      then r = 0 \<and> s' = Some (s\<lparr>nts_count := nts_count s + n\<rparr>)
        \<and> (2 ^ 32 \<le> unat (nts_count s) + unat n \<longrightarrow> nts_count s + n < nts_count s)
      else r = -1 \<and> s' = Some s"
    using w f by (cases "2 ^ 32 \<le> unat (nts_count s) + unat n") (simp_all add: mvgal_nt_semaphore_release_def Let_def)
qed

text \<open>C15 at a semaphore of two units out of three: one unit may be released, two may not.\<close>

lemma nt_semaphore_bounded_witness:
  "nt_semaphore_inv \<lparr>nts_count = 2, nts_max_count = 3\<rparr>
   \<and> nt_semaphore_inv \<lparr>nts_count = 3, nts_max_count = 3\<rparr>
   \<and> fst (mvgal_nt_semaphore_release (Some \<lparr>nts_count = 2, nts_max_count = 3\<rparr>) 2 False) = -1"
proof -
  have "nt_semaphore_inv \<lparr>nts_count = 2, nts_max_count = 3\<rparr>" by (simp add: nt_semaphore_inv_def word_le_nat_alt)
  note nt_semaphore_bounded [OF this, THEN conjunct2, THEN conjunct1]
  from this [rule_format, of 1 False 0 "\<lparr>nts_count = 3, nts_max_count = 3\<rparr>"]
  show ?thesis
    by (simp add: nt_semaphore_inv_def mvgal_nt_semaphore_release_def word_le_nat_alt word_less_nat_alt)
qed

text \<open>
  A release count so large that the 32-bit sum wraps round is accepted: the call returns 0 and
  the count goes down instead of up, although the maximum would be exceeded.
\<close>

theorem nt_semaphore_release_wraps:
  assumes "nt_semaphore_inv s" and "2 ^ 32 \<le> unat (nts_count s) + unat n"
  shows "\<exists>s' p w. mvgal_nt_semaphore_release (Some s) n b = (0, Some s', p, w) \<and> nts_count s' < nts_count s"
proof -
  have less: "unat (nts_count s + n) < unat (nts_count s)"
    using word_add_wrap_less [of "nts_count s" n] assms(2) by simp
  moreover have "unat (nts_count s) < 2 ^ 32" using unsigned_less [of "nts_count s"] by simp
  with assms(2) have "n \<noteq> 0" by auto
  ultimately show ?thesis
    using assms(1) by (auto simp: mvgal_nt_semaphore_release_def nt_semaphore_inv_def
        word_less_nat_alt word_le_nat_alt Let_def)
qed

text \<open>The instance at a count of 5 out of 10 and a release of \<open>2 ^ 32 - 3\<close> units.\<close>

lemma nt_semaphore_release_wraps_witness:
  "\<exists>s' p w. mvgal_nt_semaphore_release (Some \<lparr>nts_count = 5, nts_max_count = 10\<rparr>) 0xFFFFFFFD False = (0, Some s', p, w)
     \<and> nts_count s' < 5"
  using nt_semaphore_release_wraps [of "\<lparr>nts_count = 5, nts_max_count = 10\<rparr>" "0xFFFFFFFD" False]
  by (simp add: nt_semaphore_inv_def word_le_nat_alt)

text \<open>
  A free mutex that one thread locks \<open>n\<close> times, with any timeouts, is held by that thread with
  recursion count \<open>n\<close>; \<open>k < n\<close> unlocks leave it held \<open>n - k\<close> times, and the \<open>n\<close>-th frees it.
\<close>

theorem nt_mutex_recursion:
  assumes "nt_mutex_free m" and "0 < n" and "n < 2 ^ 32"
    and l_def: "l = (nt_lock_obj timeout_ns tid now ^^ n) m"
  shows "nt_mutex_held tid n l
    \<and> (\<forall>k < n. nt_mutex_held tid (n - k) ((nt_unlock_obj ^^ k) l))
    \<and> nt_mutex_free ((nt_unlock_obj ^^ n) l)"
proof -
  obtain n' where n: "n = Suc n'" using assms(2) by (cases n) auto
  have h: "nt_mutex_held tid n l" using nt_lock_repeat [OF assms(1)] assms(3) n by (simp add: l_def del: funpow.simps)
  have k: "nt_mutex_held tid (n - k) ((nt_unlock_obj ^^ k) l)" if "k < n" for k
    using nt_unlock_repeat [OF h that] .
  from k [of n'] n have "nt_mutex_held tid 1 ((nt_unlock_obj ^^ n') l)" by simp
  from nt_unlock_last [OF this] n have "nt_mutex_free ((nt_unlock_obj ^^ n) l)" by simp
  with h k show ?thesis by blast
qed

text \<open>Three nested locks of thread 7.\<close>

lemma nt_mutex_recursion_witness:
  "let m = \<lparr>mx_state = 0, mx_owner_thread = 0, mx_recursion_count = 0, mx_abandon_count = 0, mx_abandoned = False\<rparr>;
       l = (nt_lock_obj 0 7 \<lparr>tv_sec = 0, tv_nsec = 0\<rparr> ^^ 3) m
   in nt_mutex_free m \<and> nt_mutex_held 7 3 l \<and> nt_mutex_free ((nt_unlock_obj ^^ 3) l)"
  using nt_mutex_recursion [of "\<lparr>mx_state = 0, mx_owner_thread = 0, mx_recursion_count = 0, mx_abandon_count = 0, mx_abandoned = False\<rparr>" 3
      _ 0 7 "\<lparr>tv_sec = 0, tv_nsec = 0\<rparr>"]
  by (simp add: nt_mutex_free_def Let_def)

text \<open>
  C16. A wait for any of several objects, undisturbed by other threads, returns with the index of the first
  signalled entry: the first set event, free mutex, non-empty semaphore or expired timer of the array. The
  object is taken, which resets an auto-reset event, gives the mutex to the caller with recursion count 1 or
  takes one unit from the semaphore, and no other object changes. With none signalled and a timeout of
  0 the wait times out and changes nothing.
\<close>

theorem nt_wait_any_first:
  assumes "length objs = length tys" and "objs \<noteq> []" and "quiet r"
  shows "(\<forall>k h. k < length objs \<and> objs ! k = Some h \<and> nt_signaled r k (objs ! k, tys ! k) st
        \<and> (\<forall>j < k. \<not> nt_signaled r j (objs ! j, tys ! j) st) \<longrightarrow>
      mvgal_nt_wait_multiple_any tid (Some objs) (Some tys) MVGAL_NT_WAIT_TYPE_ANY timeout_ns now (r # rs) st =
        Some (of_nat k, Some (of_nat k), nt_taken tid (tys ! k) h st))
    \<and> ((\<forall>j < length objs. \<not> nt_signaled r j (objs ! j, tys ! j) st) \<longrightarrow>
      mvgal_nt_wait_multiple_any tid (Some objs) (Some tys) MVGAL_NT_WAIT_TYPE_ANY 0 now (r # rs) st =
        Some (MVGAL_NT_WAIT_TIMEOUT, None, st))"
proof (intro conjI allI impI)
  fix k h
  assume a: "k < length objs \<and> objs ! k = Some h \<and> nt_signaled r k (objs ! k, tys ! k) st
      \<and> (\<forall>j < k. \<not> nt_signaled r j (objs ! j, tys ! j) st)"
  with assms have "nt_scan tid MVGAL_NT_WAIT_TYPE_ANY r 0 (zip objs tys) 0 st = (Some (0 + k), 0 + 1, nt_taken tid (tys ! k) h st)"
    by (intro nt_scan_any) auto
  with a assms(2) show "mvgal_nt_wait_multiple_any tid (Some objs) (Some tys) MVGAL_NT_WAIT_TYPE_ANY timeout_ns now (r # rs) st =
      Some (of_nat k, Some (of_nat k), nt_taken tid (tys ! k) h st)"
    by (auto simp: mvgal_nt_wait_multiple_any_def)
next
  assume "\<forall>j < length objs. \<not> nt_signaled r j (objs ! j, tys ! j) st"
  with assms(1) have "nt_scan tid MVGAL_NT_WAIT_TYPE_ANY r 0 (zip objs tys) 0 st = (None, 0, st)"
    by (intro nt_scan_none [OF assms(3)]) auto
  with assms(2) show "mvgal_nt_wait_multiple_any tid (Some objs) (Some tys) MVGAL_NT_WAIT_TYPE_ANY 0 now (r # rs) st =
      Some (MVGAL_NT_WAIT_TIMEOUT, None, st)"
    by (simp add: mvgal_nt_wait_multiple_any_def)
qed

text \<open>C16 at a NULL entry, an empty semaphore and a signalled auto-reset event.\<close>

lemma nt_wait_any_first_witness:
  "let r = \<lparr>round_interf = \<lambda>_ st. st, round_read = \<lambda>_. None, round_clock = \<lparr>tv_sec = 0, tv_nsec = 0\<rparr>\<rparr>;
       e = \<lparr>ev_type = MVGAL_NT_EVENT_TYPE_SYNCHRONIZATION, ev_signaled = True\<rparr>;
       st = \<lparr>st_event = \<lambda>_. e, st_mutex = \<lambda>_. undefined,
             st_semaphore = \<lambda>_. \<lparr>nts_count = 0, nts_max_count = 1\<rparr>, st_timer = \<lambda>_. undefined\<rparr>
   in mvgal_nt_wait_multiple_any 1 (Some [None, Some 0, Some 4])
        (Some [MVGAL_NTSYNC_TYPE_MUTEX, MVGAL_NTSYNC_TYPE_SEMAPHORE, MVGAL_NTSYNC_TYPE_EVENT])
        MVGAL_NT_WAIT_TYPE_ANY 0 \<lparr>tv_sec = 0, tv_nsec = 0\<rparr> [r] st =
      Some (2, Some 2, st\<lparr>st_event := (st_event st)(4 := e\<lparr>ev_signaled := False\<rparr>)\<rparr>)"
  using nt_wait_any_first [THEN conjunct1, rule_format, of "[None, Some 0, Some 4]"
      "[MVGAL_NTSYNC_TYPE_MUTEX, MVGAL_NTSYNC_TYPE_SEMAPHORE, MVGAL_NTSYNC_TYPE_EVENT]"
      "\<lparr>round_interf = \<lambda>_ st. st, round_read = \<lambda>_. None, round_clock = \<lparr>tv_sec = 0, tv_nsec = 0\<rparr>\<rparr>" 2 4
      "\<lparr>st_event = \<lambda>_. \<lparr>ev_type = MVGAL_NT_EVENT_TYPE_SYNCHRONIZATION, ev_signaled = True\<rparr>, st_mutex = \<lambda>_. undefined,
        st_semaphore = \<lambda>_. \<lparr>nts_count = 0, nts_max_count = 1\<rparr>, st_timer = \<lambda>_. undefined\<rparr>"
      1 0 "\<lparr>tv_sec = 0, tv_nsec = 0\<rparr>" "[]"]
  by (simp add: Let_def quiet_def nt_signaled_def less_Suc_eq numeral_2_eq_2)

text \<open>
  C17. A wait for several objects with a finite timeout returns: once a round of the poll loop ends
  with a clock reading at or after the deadline, the call has a result, whatever other threads did
  to the objects.
\<close>

theorem nt_wait_multiple_returns:
  assumes "timeout_ns \<noteq> UINT64_MAX" and "r \<in> set rounds"
    and "nt_poll_deadline now timeout_ns \<le> timespec_to_ns (round_clock r)"
  shows "(\<exists>res. mvgal_nt_wait_multiple events wt timeout_ns now rounds st = Some res)
    \<and> (\<exists>res. mvgal_nt_wait_multiple_any tid objs tys wt timeout_ns now rounds st = Some res)"
  using nt_poll_deadline_returns [OF assms]
  by (auto simp: mvgal_nt_wait_multiple_def mvgal_nt_wait_multiple_any_def split: option.splits)

text \<open>C17 at a timeout of one second, with the clock two seconds later after the first round.\<close>

lemma nt_wait_multiple_returns_witness:
  "\<exists>res. mvgal_nt_wait_multiple (Some [Some 0]) MVGAL_NT_WAIT_TYPE_ALL 1000000000 \<lparr>tv_sec = 5, tv_nsec = 0\<rparr>
     [\<lparr>round_interf = \<lambda>_ st. st, round_read = \<lambda>_. None, round_clock = \<lparr>tv_sec = 7, tv_nsec = 0\<rparr>\<rparr>]
     \<lparr>st_event = \<lambda>_. \<lparr>ev_type = MVGAL_NT_EVENT_TYPE_NOTIFICATION, ev_signaled = False\<rparr>,
      st_mutex = \<lambda>_. undefined, st_semaphore = \<lambda>_. undefined, st_timer = \<lambda>_. undefined\<rparr> = Some res"
  using nt_wait_multiple_returns
    [of 1000000000 "\<lparr>round_interf = \<lambda>_ st. st, round_read = \<lambda>_. None, round_clock = \<lparr>tv_sec = 7, tv_nsec = 0\<rparr>\<rparr>"
      "[\<lparr>round_interf = \<lambda>_ st. st, round_read = \<lambda>_. None, round_clock = \<lparr>tv_sec = 7, tv_nsec = 0\<rparr>\<rparr>]"
      "\<lparr>tv_sec = 5, tv_nsec = 0\<rparr>" "Some [Some 0]" MVGAL_NT_WAIT_TYPE_ALL]
  by (simp add: nt_poll_deadline_def timespec_to_ns_def)

text \<open>
  A wait for all of two distinct auto-reset events of which only the first is signalled times
  out and has reset the first event: its signal is lost although the wait did not succeed.
\<close>

theorem nt_wait_all_loses_signal:
  assumes "quiet r" and "a \<noteq> b"
    and "st_event st a = \<lparr>ev_type = MVGAL_NT_EVENT_TYPE_SYNCHRONIZATION, ev_signaled = True\<rparr>"
    and "\<not> ev_signaled (st_event st b)"
  shows "\<exists>st'. mvgal_nt_wait_multiple (Some [Some a, Some b]) MVGAL_NT_WAIT_TYPE_ALL 0 now (r # rs) st =
      Some (MVGAL_NT_WAIT_TIMEOUT, None, st') \<and> \<not> ev_signaled (st_event st' a)"
  using assms by (simp add: mvgal_nt_wait_multiple_def quiet_def nt_take_def event_take_def)

text \<open>The instance at events 0 and 1.\<close>

lemma nt_wait_all_loses_signal_witness:
  "\<exists>st'. mvgal_nt_wait_multiple (Some [Some 0, Some 1]) MVGAL_NT_WAIT_TYPE_ALL 0 \<lparr>tv_sec = 0, tv_nsec = 0\<rparr>
     [\<lparr>round_interf = \<lambda>_ st. st, round_read = \<lambda>_. None, round_clock = \<lparr>tv_sec = 0, tv_nsec = 0\<rparr>\<rparr>]
     \<lparr>st_event = \<lambda>h. \<lparr>ev_type = MVGAL_NT_EVENT_TYPE_SYNCHRONIZATION, ev_signaled = (h = 0)\<rparr>,
      st_mutex = \<lambda>_. undefined, st_semaphore = \<lambda>_. undefined, st_timer = \<lambda>_. undefined\<rparr> =
       Some (MVGAL_NT_WAIT_TIMEOUT, None, st') \<and> \<not> ev_signaled (st_event st' 0)"
  by (rule nt_wait_all_loses_signal) (simp_all add: quiet_def)

end
