(* ===== verification/Nt_Mutex_Race.thy ===== *)
theory Nt_Mutex_Race
  imports Nt_Sync
begin

text \<open>
  The interleavings of the calls on one NT mutex: \<^verbatim>\<open>mvgal_nt_mutex_lock\<close>, \<^verbatim>\<open>mvgal_nt_mutex_unlock\<close> and
  the mutex case of \<^verbatim>\<open>mvgal_nt_wait_multiple_any\<close>. The functions read and write the object in part outside its
  pthread mutex, so a call is a sequence of steps, one per access that other threads can observe, and a
  configuration has the shared words and a program counter for every thread. A thread unlocks only what
  it holds. The parameter of the step relation is the set of the calls in use that take the mutex by a
  compare-and-swap: the lock with timeout 0, and the wait for several objects.
\<close>

datatype nt_way = Try_Lock | Wait_Any

datatype nt_pc =
    Idle            \<comment> \<open>outside the calls, not holding\<close>
  | Lock_Check      \<comment> \<open>the recursion check\<close>
  | Lock_Inc        \<comment> \<open>\<^verbatim>\<open>recursion_count++\<close>\<close>
  | Lock_Mutex      \<comment> \<open>\<^verbatim>\<open>pthread_mutex_lock\<close>, also after a sleep on the condition variable\<close>
  | Lock_Test       \<comment> \<open>the loop condition\<close>
  | Lock_Store      \<comment> \<open>\<^verbatim>\<open>atomic_store(&mutex->state, 1)\<close>\<close>
  | Lock_Owner      \<comment> \<open>owner, recursion count and abandoned flag\<close>
  | Lock_Release    \<comment> \<open>\<^verbatim>\<open>pthread_mutex_unlock\<close>\<close>
  | Try_Cas         \<comment> \<open>\<^verbatim>\<open>atomic_compare_exchange_strong\<close>\<close>
  | Try_Mutex
  | Try_Owner
  | Try_Release
  | Wait_Cas        \<comment> \<open>the compare-and-swap of a wait, of a thread that does not hold the mutex\<close>
  | Wait_Mutex
  | Wait_Owner
  | Wait_Release
  | Held_Wait       \<comment> \<open>the compare-and-swap of a wait, of a thread that holds the mutex\<close>
  | Held            \<comment> \<open>outside the calls, holding\<close>
  | Held_Check      \<comment> \<open>the recursion check of a nested call\<close>
  | Unlock_Mutex
  | Unlock_Test     \<comment> \<open>\<^verbatim>\<open>recursion_count > 1\<close>\<close>
  | Unlock_Nested   \<comment> \<open>the unlock of a nested release\<close>
  | Unlock_Store    \<comment> \<open>\<^verbatim>\<open>atomic_store(&mutex->state, 0)\<close>\<close>
  | Unlock_Release

record nt_conf =
  sh_state :: u32
  sh_owner :: u64
  sh_rec :: u32
  sh_plock :: "u64 option"
  sh_pc :: "u64 \<Rightarrow> nt_pc"

abbreviation goto :: "u64 \<Rightarrow> nt_pc \<Rightarrow> nt_conf \<Rightarrow> nt_conf" where
  "goto t p c \<equiv> c\<lparr>sh_pc := (sh_pc c)(t := p)\<rparr>"

text \<open>
  A wait polls: a failed compare-and-swap is tried again until the call times out, which needs no step of its
  own. A wait for all objects that takes the mutex and then times out gives nothing back.
\<close>

inductive nt_step :: "nt_way set \<Rightarrow> nt_conf \<Rightarrow> nt_conf \<Rightarrow> bool" for ways where
  start_lock: "sh_pc c t = Idle \<Longrightarrow> t \<noteq> 0 \<Longrightarrow> nt_step ways c (goto t Lock_Check c)"
| check_other: "sh_pc c t \<in> {Lock_Check, Held_Check} \<Longrightarrow> \<not> (sh_owner c = t \<and> 0 < sh_rec c) \<Longrightarrow>
    nt_step ways c (goto t Lock_Mutex c)"
| check_try: "Try_Lock \<in> ways \<Longrightarrow> sh_pc c t \<in> {Lock_Check, Held_Check} \<Longrightarrow> \<not> (sh_owner c = t \<and> 0 < sh_rec c) \<Longrightarrow>
    nt_step ways c (goto t Try_Cas c)"
| check_own: "sh_pc c t \<in> {Lock_Check, Held_Check} \<Longrightarrow> sh_owner c = t \<and> 0 < sh_rec c \<Longrightarrow>
    nt_step ways c (goto t Lock_Inc c)"
| inc: "sh_pc c t = Lock_Inc \<Longrightarrow> nt_step ways c (goto t Held (c\<lparr>sh_rec := sh_rec c + 1\<rparr>))"
| lock_mutex: "sh_pc c t = Lock_Mutex \<Longrightarrow> sh_plock c = None \<Longrightarrow>
    nt_step ways c (goto t Lock_Test (c\<lparr>sh_plock := Some t\<rparr>))"
| test_sleep: "sh_pc c t = Lock_Test \<Longrightarrow> sh_state c \<noteq> 0 \<Longrightarrow>
    nt_step ways c (goto t Lock_Mutex (c\<lparr>sh_plock := None\<rparr>))"
| test_timeout: "sh_pc c t = Lock_Test \<Longrightarrow> sh_state c \<noteq> 0 \<Longrightarrow>
    nt_step ways c (goto t Idle (c\<lparr>sh_plock := None\<rparr>))"
| test_free: "sh_pc c t = Lock_Test \<Longrightarrow> sh_state c = 0 \<Longrightarrow> nt_step ways c (goto t Lock_Store c)"
| store: "sh_pc c t = Lock_Store \<Longrightarrow> nt_step ways c (goto t Lock_Owner (c\<lparr>sh_state := 1\<rparr>))"
| owner: "sh_pc c t = Lock_Owner \<Longrightarrow>
    nt_step ways c (goto t Lock_Release (c\<lparr>sh_owner := t, sh_rec := 1\<rparr>))"
| release: "sh_pc c t = Lock_Release \<Longrightarrow> nt_step ways c (goto t Held (c\<lparr>sh_plock := None\<rparr>))"
| cas_ok: "sh_pc c t = Try_Cas \<Longrightarrow> sh_state c = 0 \<Longrightarrow>
    nt_step ways c (goto t Try_Mutex (c\<lparr>sh_state := 1\<rparr>))"
| cas_fail: "sh_pc c t = Try_Cas \<Longrightarrow> sh_state c \<noteq> 0 \<Longrightarrow> nt_step ways c (goto t Idle c)"
| try_mutex: "sh_pc c t = Try_Mutex \<Longrightarrow> sh_plock c = None \<Longrightarrow>
    nt_step ways c (goto t Try_Owner (c\<lparr>sh_plock := Some t\<rparr>))"
| try_owner: "sh_pc c t = Try_Owner \<Longrightarrow>
    nt_step ways c (goto t Try_Release (c\<lparr>sh_owner := t, sh_rec := 1\<rparr>))"
| try_release: "sh_pc c t = Try_Release \<Longrightarrow> nt_step ways c (goto t Held (c\<lparr>sh_plock := None\<rparr>))"
| start_wait: "Wait_Any \<in> ways \<Longrightarrow> sh_pc c t = Idle \<Longrightarrow> t \<noteq> 0 \<Longrightarrow> nt_step ways c (goto t Wait_Cas c)"
| wait_ok: "sh_pc c t \<in> {Wait_Cas, Held_Wait} \<Longrightarrow> sh_state c = 0 \<Longrightarrow>
    nt_step ways c (goto t Wait_Mutex (c\<lparr>sh_state := 1\<rparr>))"
| wait_timeout: "sh_pc c t = Wait_Cas \<Longrightarrow> sh_state c \<noteq> 0 \<Longrightarrow> nt_step ways c (goto t Idle c)"
| wait_mutex: "sh_pc c t = Wait_Mutex \<Longrightarrow> sh_plock c = None \<Longrightarrow>
    nt_step ways c (goto t Wait_Owner (c\<lparr>sh_plock := Some t\<rparr>))"
| wait_owner: "sh_pc c t = Wait_Owner \<Longrightarrow>
    nt_step ways c (goto t Wait_Release (c\<lparr>sh_owner := t, sh_rec := 1\<rparr>))"
| wait_release: "sh_pc c t = Wait_Release \<Longrightarrow> nt_step ways c (goto t Held (c\<lparr>sh_plock := None\<rparr>))"
| wait_all_timeout: "sh_pc c t = Wait_Release \<Longrightarrow> nt_step ways c (goto t Idle (c\<lparr>sh_plock := None\<rparr>))"
| held_wait: "Wait_Any \<in> ways \<Longrightarrow> sh_pc c t = Held \<Longrightarrow> nt_step ways c (goto t Held_Wait c)"
| held_wait_timeout: "sh_pc c t = Held_Wait \<Longrightarrow> sh_state c \<noteq> 0 \<Longrightarrow> nt_step ways c (goto t Held c)"
| relock: "sh_pc c t = Held \<Longrightarrow> nt_step ways c (goto t Held_Check c)"
| start_unlock: "sh_pc c t = Held \<Longrightarrow> nt_step ways c (goto t Unlock_Mutex c)"
| unlock_mutex: "sh_pc c t = Unlock_Mutex \<Longrightarrow> sh_plock c = None \<Longrightarrow>
    nt_step ways c (goto t Unlock_Test (c\<lparr>sh_plock := Some t\<rparr>))"
| unlock_nested: "sh_pc c t = Unlock_Test \<Longrightarrow> 1 < sh_rec c \<Longrightarrow>
    nt_step ways c (goto t Unlock_Nested (c\<lparr>sh_rec := sh_rec c - 1\<rparr>))"
| nested_release: "sh_pc c t = Unlock_Nested \<Longrightarrow>
    nt_step ways c (goto t Held (c\<lparr>sh_plock := None\<rparr>))"
| unlock_clear: "sh_pc c t = Unlock_Test \<Longrightarrow> \<not> 1 < sh_rec c \<Longrightarrow>
    nt_step ways c (goto t Unlock_Store (c\<lparr>sh_owner := 0, sh_rec := 0\<rparr>))"
| unlock_store: "sh_pc c t = Unlock_Store \<Longrightarrow>
    nt_step ways c (goto t Unlock_Release (c\<lparr>sh_state := 0\<rparr>))"
| unlock_release: "sh_pc c t = Unlock_Release \<Longrightarrow>
    nt_step ways c (goto t Idle (c\<lparr>sh_plock := None\<rparr>))"

text \<open>The mutex as it is created, by a thread that owns it or not.\<close>

definition nt_init :: "u64 option \<Rightarrow> nt_conf" where
  "nt_init initial_owner =
     (case initial_owner of
        None \<Rightarrow> \<lparr>sh_state = 0, sh_owner = 0, sh_rec = 0, sh_plock = None, sh_pc = \<lambda>_. Idle\<rparr>
      | Some t \<Rightarrow> \<lparr>sh_state = 1, sh_owner = t, sh_rec = 1, sh_plock = None, sh_pc = (\<lambda>_. Idle)(t := Held)\<rparr>)"

inductive nt_reachable :: "nt_way set \<Rightarrow> nt_conf \<Rightarrow> bool" for ways where
  init: "nt_reachable ways (nt_init initial_owner)"
| step: "nt_reachable ways c \<Longrightarrow> nt_step ways c c' \<Longrightarrow> nt_reachable ways c'"

section \<open>The invariant of the blocking path\<close>

definition has_plock :: "nt_pc \<Rightarrow> bool" where
  "has_plock p \<longleftrightarrow>
     p \<in> {Lock_Test, Lock_Store, Lock_Owner, Lock_Release, Unlock_Test, Unlock_Nested, Unlock_Store, Unlock_Release}"

text \<open>Past its acquisition and before its release, and of these the ones recorded as the owner.\<close>

definition owns :: "nt_pc \<Rightarrow> bool" where
  "owns p \<longleftrightarrow> p \<in> {Lock_Release, Held, Lock_Inc, Held_Check, Unlock_Mutex, Unlock_Test, Unlock_Nested}"

definition crit :: "nt_pc \<Rightarrow> bool" where
  "crit p \<longleftrightarrow> p = Lock_Owner \<or> p = Unlock_Store \<or> owns p"

definition tries :: "nt_pc \<Rightarrow> bool" where
  "tries p \<longleftrightarrow>
     p \<in> {Try_Cas, Try_Mutex, Try_Owner, Try_Release, Wait_Cas, Wait_Mutex, Wait_Owner, Wait_Release, Held_Wait}"

lemma pc_simps [simp]:
  "\<not> has_plock Idle" "\<not> has_plock Lock_Check" "\<not> has_plock Lock_Inc" "\<not> has_plock Lock_Mutex" "has_plock Lock_Test" "has_plock Lock_Store"
  "has_plock Lock_Owner" "has_plock Lock_Release" "\<not> has_plock Try_Cas" "\<not> has_plock Try_Mutex" "\<not> has_plock Try_Owner" "\<not> has_plock Try_Release"
  "\<not> has_plock Wait_Cas" "\<not> has_plock Wait_Mutex" "\<not> has_plock Wait_Owner" "\<not> has_plock Wait_Release" "\<not> has_plock Held_Wait" "\<not> has_plock Held"
  "\<not> has_plock Held_Check" "\<not> has_plock Unlock_Mutex" "has_plock Unlock_Test" "has_plock Unlock_Nested" "has_plock Unlock_Store" "has_plock Unlock_Release"
  "\<not> owns Idle" "\<not> owns Lock_Check" "owns Lock_Inc" "\<not> owns Lock_Mutex" "\<not> owns Lock_Test" "\<not> owns Lock_Store"
  "\<not> owns Lock_Owner" "owns Lock_Release" "\<not> owns Try_Cas" "\<not> owns Try_Mutex" "\<not> owns Try_Owner" "\<not> owns Try_Release"
  "\<not> owns Wait_Cas" "\<not> owns Wait_Mutex" "\<not> owns Wait_Owner" "\<not> owns Wait_Release" "\<not> owns Held_Wait" "owns Held"
  "owns Held_Check" "owns Unlock_Mutex" "owns Unlock_Test" "owns Unlock_Nested" "\<not> owns Unlock_Store" "\<not> owns Unlock_Release"
  "\<not> crit Idle" "\<not> crit Lock_Check" "crit Lock_Inc" "\<not> crit Lock_Mutex" "\<not> crit Lock_Test" "\<not> crit Lock_Store"
  "crit Lock_Owner" "crit Lock_Release" "\<not> crit Try_Cas" "\<not> crit Try_Mutex" "\<not> crit Try_Owner" "\<not> crit Try_Release"
  "\<not> crit Wait_Cas" "\<not> crit Wait_Mutex" "\<not> crit Wait_Owner" "\<not> crit Wait_Release" "\<not> crit Held_Wait" "crit Held"
  "crit Held_Check" "crit Unlock_Mutex" "crit Unlock_Test" "crit Unlock_Nested" "crit Unlock_Store" "\<not> crit Unlock_Release"
  "\<not> tries Idle" "\<not> tries Lock_Check" "\<not> tries Lock_Inc" "\<not> tries Lock_Mutex" "\<not> tries Lock_Test" "\<not> tries Lock_Store"
  "\<not> tries Lock_Owner" "\<not> tries Lock_Release" "tries Try_Cas" "tries Try_Mutex" "tries Try_Owner" "tries Try_Release"
  "tries Wait_Cas" "tries Wait_Mutex" "tries Wait_Owner" "tries Wait_Release" "tries Held_Wait" "\<not> tries Held"
  "\<not> tries Held_Check" "\<not> tries Unlock_Mutex" "\<not> tries Unlock_Test" "\<not> tries Unlock_Nested" "\<not> tries Unlock_Store" "\<not> tries Unlock_Release"
  by (simp_all add: has_plock_def owns_def crit_def tries_def)

definition nt_inv :: "nt_conf \<Rightarrow> bool" where
  "nt_inv c \<longleftrightarrow>
     (\<forall>t. has_plock (sh_pc c t) \<longrightarrow> sh_plock c = Some t)
   \<and> (\<forall>t. sh_pc c t = Lock_Store \<longrightarrow> sh_state c = 0)
   \<and> (\<forall>t. crit (sh_pc c t) \<longrightarrow> sh_state c \<noteq> 0)
   \<and> (\<forall>t u. crit (sh_pc c t) \<longrightarrow> crit (sh_pc c u) \<longrightarrow> t = u)
   \<and> (\<forall>t. sh_pc c t = Lock_Inc \<longrightarrow> sh_owner c = t \<and> sh_rec c \<noteq> 0)
   \<and> (sh_rec c \<noteq> 0 \<longrightarrow> owns (sh_pc c (sh_owner c)))
   \<and> (\<forall>t. \<not> tries (sh_pc c t))"

lemma nt_inv_init: "nt_inv (nt_init initial_owner)"
  by (cases initial_owner) (simp_all add: nt_inv_def nt_init_def)

lemma owns_crit: "owns p \<Longrightarrow> crit p"
  by (simp add: crit_def)

text \<open>What the invariant says of one thread.\<close>

definition nt_local :: "nt_conf \<Rightarrow> u64 \<Rightarrow> bool" where
  "nt_local c t \<longleftrightarrow>
     (has_plock (sh_pc c t) \<longrightarrow> sh_plock c = Some t)
   \<and> (sh_pc c t = Lock_Store \<longrightarrow> sh_state c = 0)
   \<and> (crit (sh_pc c t) \<longrightarrow> sh_state c \<noteq> 0 \<and> (sh_rec c \<noteq> 0 \<longrightarrow> sh_owner c = t))
   \<and> (sh_pc c t = Lock_Inc \<longrightarrow> sh_owner c = t \<and> sh_rec c \<noteq> 0)
   \<and> (sh_rec c \<noteq> 0 \<and> sh_owner c = t \<longrightarrow> owns (sh_pc c t))
   \<and> \<not> tries (sh_pc c t)"

lemma nt_local: "nt_inv c \<Longrightarrow> nt_local c t"
  unfolding nt_inv_def nt_local_def by (metis owns_crit)

text \<open>
  What a step of thread \<open>t\<close> from \<open>c\<close> to \<open>c'\<close> and the program counter \<open>p\<close> has to respect so that
  the invariant survives for \<open>t\<close> and for all other threads.
\<close>

definition nt_respects :: "nt_conf \<Rightarrow> u64 \<Rightarrow> nt_pc \<Rightarrow> nt_conf \<Rightarrow> bool" where
  "nt_respects c t p c' \<longleftrightarrow>
     (if has_plock p then sh_plock c' = Some t \<and> (has_plock (sh_pc c t) \<or> sh_plock c = None)
      else has_plock (sh_pc c t) \<or> sh_plock c' = sh_plock c)
   \<and> (p = Lock_Store \<longrightarrow> sh_state c' = 0)
   \<and> (sh_state c' = sh_state c \<or> has_plock (sh_pc c t))
   \<and> (crit p \<longrightarrow> sh_state c' \<noteq> 0 \<and> (crit (sh_pc c t) \<or> sh_state c = 0))
   \<and> (sh_state c' = 0 \<longrightarrow> sh_state c = 0 \<or> crit (sh_pc c t))
   \<and> (p = Lock_Inc \<longrightarrow> sh_owner c' = t \<and> sh_rec c' \<noteq> 0)
   \<and> (sh_owner c' = sh_owner c \<and> sh_rec c' = sh_rec c \<or> crit (sh_pc c t))
   \<and> (sh_rec c' \<noteq> 0 \<longrightarrow> sh_owner c' = t \<and> owns p
       \<or> sh_rec c \<noteq> 0 \<and> sh_owner c' = sh_owner c \<and> (sh_owner c = t \<longrightarrow> owns p))
   \<and> \<not> tries p"

lemma nt_respects_parts:
  assumes "nt_respects c t p c1"
  shows "if has_plock p then sh_plock c1 = Some t \<and> (has_plock (sh_pc c t) \<or> sh_plock c = None)
      else has_plock (sh_pc c t) \<or> sh_plock c1 = sh_plock c"
    "p = Lock_Store \<longrightarrow> sh_state c1 = 0" "sh_state c1 = sh_state c \<or> has_plock (sh_pc c t)"
    "crit p \<longrightarrow> sh_state c1 \<noteq> 0 \<and> (crit (sh_pc c t) \<or> sh_state c = 0)"
    "sh_state c1 = 0 \<longrightarrow> sh_state c = 0 \<or> crit (sh_pc c t)"
    "p = Lock_Inc \<longrightarrow> sh_owner c1 = t \<and> sh_rec c1 \<noteq> 0"
    "sh_owner c1 = sh_owner c \<and> sh_rec c1 = sh_rec c \<or> crit (sh_pc c t)"
    "sh_rec c1 \<noteq> 0 \<longrightarrow> sh_owner c1 = t \<and> owns p
      \<or> sh_rec c \<noteq> 0 \<and> sh_owner c1 = sh_owner c \<and> (sh_owner c = t \<longrightarrow> owns p)"
    "\<not> tries p"
  using assms unfolding nt_respects_def by blast+

lemma nt_inv_parts:
  assumes "nt_inv c"
  shows "\<And>u. has_plock (sh_pc c u) \<Longrightarrow> sh_plock c = Some u" "\<And>u. sh_pc c u = Lock_Store \<Longrightarrow> sh_state c = 0"
    "\<And>u. crit (sh_pc c u) \<Longrightarrow> sh_state c \<noteq> 0" "\<And>u v. crit (sh_pc c u) \<Longrightarrow> crit (sh_pc c v) \<Longrightarrow> u = v"
    "\<And>u. sh_pc c u = Lock_Inc \<Longrightarrow> sh_owner c = u \<and> sh_rec c \<noteq> 0"
    "sh_rec c \<noteq> 0 \<Longrightarrow> owns (sh_pc c (sh_owner c))" "\<And>u. \<not> tries (sh_pc c u)"
  using assms unfolding nt_inv_def by blast+

lemma nt_inv_goto:
  assumes inv: "nt_inv c" and resp: "nt_local c t \<Longrightarrow> nt_respects c t p c1" and pc: "sh_pc c1 = sh_pc c"
  shows "nt_inv (goto t p c1)"
proof -
  note r = nt_respects_parts [OF resp [OF nt_local [OF inv]]] and i = nt_inv_parts [OF inv]
  have other_lock: "sh_plock c1 = Some u \<and> \<not> has_plock (sh_pc c t) \<and> \<not> has_plock p" if "u \<noteq> t" "has_plock (sh_pc c u)" for u
    using that r(1) i(1) [of u] i(1) [of t] by (auto split: if_splits)
  have other_crit: "sh_state c1 \<noteq> 0 \<and> \<not> crit p \<and> \<not> crit (sh_pc c t)" if "u \<noteq> t" "crit (sh_pc c u)" for u
    using that r(4,5) i(3) [of u] i(4) [of u t] by blast
  have other_store: "sh_state c1 = 0" if "u \<noteq> t" "sh_pc c u = Lock_Store" for u
    using that r(3) i(2) [of u] other_lock [of u] by simp
  have other_inc: "sh_owner c1 = u \<and> sh_rec c1 \<noteq> 0" if "u \<noteq> t" "sh_pc c u = Lock_Inc" for u
    using that r(7) i(5) [of u] other_crit [of u] by simp
  have rec: "owns (if sh_owner c1 = t then p else sh_pc c (sh_owner c1))" if "sh_rec c1 \<noteq> 0"
    using r(8) i(6) that by auto
  have f: "\<And>u. has_plock (if u = t then p else sh_pc c u) \<Longrightarrow> sh_plock c1 = Some u"
      "\<And>u. (if u = t then p else sh_pc c u) = Lock_Store \<Longrightarrow> sh_state c1 = 0"
      "\<And>u. crit (if u = t then p else sh_pc c u) \<Longrightarrow> sh_state c1 \<noteq> 0"
      "\<And>u v. crit (if u = t then p else sh_pc c u) \<Longrightarrow> crit (if v = t then p else sh_pc c v) \<Longrightarrow> u = v"
      "\<And>u. (if u = t then p else sh_pc c u) = Lock_Inc \<Longrightarrow> sh_owner c1 = u"
      "\<And>u. (if u = t then p else sh_pc c u) = Lock_Inc \<Longrightarrow> sh_rec c1 \<noteq> 0"
      "\<And>u. \<not> tries (if u = t then p else sh_pc c u)"
    subgoal for u using r(1) other_lock [of u] by (simp split: if_splits)
    subgoal for u using r(2) other_store [of u] by (simp split: if_splits)
    subgoal for u using r(4) other_crit [of u] by (simp split: if_splits)
    subgoal for u v using i(4) [of u v] other_crit [of u] other_crit [of v] by (simp split: if_splits)
    subgoal for u using r(6) other_inc [of u] by (simp split: if_splits)
    subgoal for u using r(6) other_inc [of u] by (simp split: if_splits)
    subgoal for u using r(9) i(7) by simp
    done
  have q: "sh_pc (goto t p c1) = (\<lambda>u. if u = t then p else sh_pc c u)" "sh_plock (goto t p c1) = sh_plock c1"
      "sh_state (goto t p c1) = sh_state c1" "sh_owner (goto t p c1) = sh_owner c1" "sh_rec (goto t p c1) = sh_rec c1"
    using pc by (simp_all add: fun_upd_def)
  show ?thesis unfolding nt_inv_def q by (intro conjI allI impI; rule f rec; assumption)
qed

lemma nt_inv_step: "nt_step {} c c' \<Longrightarrow> nt_inv c \<Longrightarrow> nt_inv c'"
  by (induction rule: nt_step.induct)
    (erule nt_inv_goto; auto simp: nt_local_def nt_respects_def word_pos_iff)+

lemma nt_reachable_inv: "nt_reachable {} c \<Longrightarrow> nt_inv c"
  by (induction rule: nt_reachable.induct) (auto intro: nt_inv_init nt_inv_step)

section \<open>Concrete runs\<close>

text \<open>Two threads with the identities 1 and 2.\<close>

definition two_threads :: "u32 \<Rightarrow> u64 \<Rightarrow> u32 \<Rightarrow> u64 option \<Rightarrow> nt_pc \<Rightarrow> nt_pc \<Rightarrow> nt_conf" where
  "two_threads st ow rc pl p1 p2 =
     \<lparr>sh_state = st, sh_owner = ow, sh_rec = rc, sh_plock = pl, sh_pc = (\<lambda>_. Idle)(1 := p1, 2 := p2)\<rparr>"

lemma reach_step: "nt_reachable b c \<Longrightarrow> nt_step b c d \<Longrightarrow> d = c' \<Longrightarrow> nt_reachable b c'"
  by (auto intro: nt_reachable.step)

lemma reach_test: "nt_reachable b (two_threads 0 0 0 (Some 1) Lock_Store Idle)"
proof -
  have "two_threads 0 0 0 None Idle Idle = nt_init None"
    by (simp add: two_threads_def nt_init_def fun_eq_iff)
  then have "nt_reachable b (two_threads 0 0 0 None Idle Idle)" using nt_reachable.init [of b None] by simp
  then have "nt_reachable b (two_threads 0 0 0 None Lock_Check Idle)"
    by (rule reach_step [OF _ start_lock [of _ 1]]) (simp_all add: two_threads_def fun_upd_twist)
  then have "nt_reachable b (two_threads 0 0 0 None Lock_Mutex Idle)"
    by (rule reach_step [OF _ check_other [of _ 1]]) (simp_all add: two_threads_def fun_upd_twist)
  then have "nt_reachable b (two_threads 0 0 0 (Some 1) Lock_Test Idle)"
    by (rule reach_step [OF _ lock_mutex [of _ 1]]) (simp_all add: two_threads_def fun_upd_twist)
  then show ?thesis
    by (rule reach_step [OF _ test_free [of _ 1]]) (simp_all add: two_threads_def fun_upd_twist)
qed

lemma reach_held:
  assumes "nt_reachable b (two_threads st 0 0 (Some 1) Lock_Store p)"
  shows "nt_reachable b (two_threads 1 1 1 None Held p)"
proof -
  from assms have "nt_reachable b (two_threads 1 0 0 (Some 1) Lock_Owner p)"
    by (rule reach_step [OF _ store [of _ 1]]) (simp_all add: two_threads_def fun_upd_twist)
  then have "nt_reachable b (two_threads 1 1 1 (Some 1) Lock_Release p)"
    by (rule reach_step [OF _ owner [of _ 1]]) (simp_all add: two_threads_def fun_upd_twist)
  then show ?thesis
    by (rule reach_step [OF _ release [of _ 1]]) (simp_all add: two_threads_def fun_upd_twist)
qed

text \<open>The two ways to race a thread that has seen the mutex free.\<close>

lemma reach_try_race:
  assumes "Try_Lock \<in> b"
  shows "nt_reachable b (two_threads 1 2 1 None Held Held)"
proof -
  have "nt_reachable b (two_threads 0 0 0 (Some 1) Lock_Store Lock_Check)"
    by (rule reach_step [OF reach_test start_lock [of _ 2]]) (simp_all add: two_threads_def)
  then have "nt_reachable b (two_threads 0 0 0 (Some 1) Lock_Store Try_Cas)"
    by (rule reach_step [OF _ check_try [of _ _ 2]]) (simp_all add: two_threads_def assms)
  then have "nt_reachable b (two_threads 1 0 0 (Some 1) Lock_Store Try_Mutex)"
    by (rule reach_step [OF _ cas_ok [of _ 2]]) (simp_all add: two_threads_def)
  from reach_held [OF this] have "nt_reachable b (two_threads 1 1 1 (Some 2) Held Try_Owner)"
    by (rule reach_step [OF _ try_mutex [of _ 2]]) (simp_all add: two_threads_def)
  then have "nt_reachable b (two_threads 1 2 1 (Some 2) Held Try_Release)"
    by (rule reach_step [OF _ try_owner [of _ 2]]) (simp_all add: two_threads_def)
  then show ?thesis
    by (rule reach_step [OF _ try_release [of _ 2]]) (simp_all add: two_threads_def)
qed

lemma reach_wait_race:
  assumes "Wait_Any \<in> b"
  shows "nt_reachable b (two_threads 1 2 1 None Held Held)"
proof -
  have "nt_reachable b (two_threads 0 0 0 (Some 1) Lock_Store Wait_Cas)"
    by (rule reach_step [OF reach_test start_wait [of _ _ 2]]) (simp_all add: two_threads_def assms)
  then have "nt_reachable b (two_threads 1 0 0 (Some 1) Lock_Store Wait_Mutex)"
    by (rule reach_step [OF _ wait_ok [of _ 2]]) (simp_all add: two_threads_def)
  from reach_held [OF this] have "nt_reachable b (two_threads 1 1 1 (Some 2) Held Wait_Owner)"
    by (rule reach_step [OF _ wait_mutex [of _ 2]]) (simp_all add: two_threads_def)
  then have "nt_reachable b (two_threads 1 2 1 (Some 2) Held Wait_Release)"
    by (rule reach_step [OF _ wait_owner [of _ 2]]) (simp_all add: two_threads_def)
  then show ?thesis
    by (rule reach_step [OF _ wait_release [of _ 2]]) (simp_all add: two_threads_def)
qed

section \<open>Properties\<close>

text \<open>
  C14. Whether the mutex excludes depends on the calls in use. If every thread locks with a non-zero timeout
  only, and unlocks only what it holds, then at most one thread holds the mutex, nested calls and an initial
  owner included, and a holder with a non-zero recursion count is the recorded owner. As soon as the lock
  with timeout 0 or the wait for several objects is used too, this fails: between the test of the state
  word and the store to it the blocking lock has only the pthread mutex, which the compare-and-swap of
  another thread does not need, and both threads end up holding the mutex.
\<close>

theorem nt_mutex_exclusion:
  "(\<forall>c t u. nt_reachable ways c \<longrightarrow> sh_pc c t = Held \<longrightarrow> sh_pc c u = Held \<longrightarrow>
      t = u \<and> sh_state c \<noteq> 0 \<and> (sh_rec c \<noteq> 0 \<longrightarrow> sh_owner c = t))
   \<longleftrightarrow> ways = {}"
proof
  let ?c = "two_threads 1 2 1 None Held Held"
  assume all: "\<forall>c t u. nt_reachable ways c \<longrightarrow> sh_pc c t = Held \<longrightarrow> sh_pc c u = Held \<longrightarrow>
      t = u \<and> sh_state c \<noteq> 0 \<and> (sh_rec c \<noteq> 0 \<longrightarrow> sh_owner c = t)"
  show "ways = {}"
  proof (rule ccontr)
    assume "ways \<noteq> {}"
    then obtain w where "w \<in> ways" by blast
    then have "nt_reachable ways ?c" by (cases w) (auto intro: reach_try_race reach_wait_race)
    moreover have "sh_pc ?c 1 = Held" "sh_pc ?c 2 = Held" by (simp_all add: two_threads_def)
    ultimately have "(1 :: u64) = 2" using all by blast
    then show False by simp
  qed
next
  assume w: "ways = {}"
  show "\<forall>c t u. nt_reachable ways c \<longrightarrow> sh_pc c t = Held \<longrightarrow> sh_pc c u = Held \<longrightarrow>
      t = u \<and> sh_state c \<noteq> 0 \<and> (sh_rec c \<noteq> 0 \<longrightarrow> sh_owner c = t)"
  proof (intro allI impI)
    fix c t u assume "nt_reachable ways c" and h: "sh_pc c t = Held" "sh_pc c u = Held"
    then have inv: "nt_inv c" using w nt_reachable_inv by simp
    from h have "crit (sh_pc c t)" "crit (sh_pc c u)" by simp_all
    with inv nt_local [OF inv, of t] show "t = u \<and> sh_state c \<noteq> 0 \<and> (sh_rec c \<noteq> 0 \<longrightarrow> sh_owner c = t)"
      unfolding nt_inv_def nt_local_def by blast
  qed
qed

text \<open>C14 at the run in which thread 1 takes the free mutex, and at the use of a wait.\<close>

lemma nt_mutex_exclusion_witness:
  "nt_reachable {} (two_threads 1 1 1 None Held Idle) \<and> sh_owner (two_threads 1 1 1 None Held Idle) = 1
   \<and> (\<exists>c t u. nt_reachable {Wait_Any} c \<and> sh_pc c t = Held \<and> sh_pc c u = Held
        \<and> \<not> (t = u \<and> sh_state c \<noteq> 0 \<and> (sh_rec c \<noteq> 0 \<longrightarrow> sh_owner c = t)))"
proof -
  have r: "nt_reachable {} (two_threads 1 1 1 None Held Idle)" by (rule reach_held [OF reach_test])
  have "sh_pc (two_threads 1 1 1 None Held Idle) 1 = Held" "sh_rec (two_threads 1 1 1 None Held Idle) \<noteq> 0"
    by (simp_all add: two_threads_def)
  then have "sh_owner (two_threads 1 1 1 None Held Idle) = 1" using nt_mutex_exclusion [of "{}"] r by blast
  moreover have "\<exists>c t u. nt_reachable {Wait_Any} c \<and> sh_pc c t = Held \<and> sh_pc c u = Held
        \<and> \<not> (t = u \<and> sh_state c \<noteq> 0 \<and> (sh_rec c \<noteq> 0 \<longrightarrow> sh_owner c = t))"
    using nt_mutex_exclusion [of "{Wait_Any}"] by blast
  ultimately show ?thesis using r by blast
qed

end
