(* ===== verification/Coherency.thy ===== *)
theory Coherency
  imports Cond_Wait
begin

unbundle bit_operations_syntax

text \<open>
  Coherency domains, CPU cache maintenance and peer-to-peer semaphores
  (\<^verbatim>\<open>src/userspace/memory/coherency.c\<close>), on x86-64: a flush and an invalidation are both a loop of
  \<^verbatim>\<open>clflush\<close> instructions and a barrier. The instructions are recorded in the order they execute.
\<close>

section \<open>Cache maintenance\<close>

datatype cache_op = Clflush u64 | Barrier

text \<open>
  The loop over the cache lines. Its counter is a 64-bit word that advances by 64; the loop need not
  end, so it is a partial function and not returning is \<open>None\<close>.
\<close>

partial_function (option) clflush_loop :: "u64 \<Rightarrow> u64 \<Rightarrow> u64 \<Rightarrow> cache_op list option" where
  "clflush_loop ptr sz offset =
     (if offset < sz
      then Option.bind (clflush_loop ptr sz (offset + 64)) (\<lambda>rest. Some (Clflush (ptr + offset) # rest))
      else Some [])"

definition cache_line_flush :: "u64 \<Rightarrow> u64 \<Rightarrow> cache_op list option" where
  "cache_line_flush addr sz = map_option (\<lambda>ops. ops @ [Barrier]) (clflush_loop addr sz 0)"

definition cache_line_invalidate :: "u64 \<Rightarrow> u64 \<Rightarrow> cache_op list option" where
  "cache_line_invalidate addr sz = map_option (\<lambda>ops. ops @ [Barrier]) (clflush_loop addr sz 0)"

section \<open>Coherency domains\<close>

text \<open>The type argument is a C \<^verbatim>\<open>int\<close>: values outside the enumeration are the last constructor.\<close>

datatype mvgal_coherency_domain_type_t =
    MVGAL_COHERENCY_DOMAIN_SYSTEM
  | MVGAL_COHERENCY_DOMAIN_DEVICE
  | MVGAL_COHERENCY_DOMAIN_CROSS_DEVICE
  | MVGAL_COHERENCY_DOMAIN_P2P
  | MVGAL_COHERENCY_DOMAIN_INVALID u32

record mvgal_coherency_domain =
  dom_type :: mvgal_coherency_domain_type_t
  dom_gpu_indices :: "u32 list"
  dom_cache_coherent :: bool
  dom_atomic_supported :: bool
  dom_domain_id :: u64

text \<open>
  What the operations use of the memory module's state: the GPUs and their vendors (\<open>None\<close> when the
  state is not there).
\<close>

record coh_gpus =
  coh_gpu_count :: u32
  coh_vendor :: "u32 \<Rightarrow> nat"

text \<open>The module's counter and the domain objects on the heap.\<close>

record coh_module =
  g_next_domain_id :: u64
  coh_live :: "mvgal_coherency_domain list"

definition validate_gpu_index :: "coh_gpus option \<Rightarrow> u32 \<Rightarrow> mvgal_error_t" where
  "validate_gpu_index state gpu_index =
     (case state of
        None \<Rightarrow> MVGAL_ERROR_UNKNOWN
      | Some g \<Rightarrow> if gpu_index < coh_gpu_count g then MVGAL_SUCCESS else MVGAL_ERROR_INVALID_ARGUMENT)"

fun validate_all :: "coh_gpus option \<Rightarrow> u32 list \<Rightarrow> mvgal_error_t" where
  "validate_all state [] = MVGAL_SUCCESS"
| "validate_all state (i # is) =
     (let ret = validate_gpu_index state i
      in if ret \<noteq> MVGAL_SUCCESS then ret else validate_all state is)"

text \<open>The coherency model of a domain type: cache coherent, atomics supported.\<close>

definition domain_model :: "mvgal_coherency_domain_type_t \<Rightarrow> (bool \<times> bool) option" where
  "domain_model ty =
     (case ty of
        MVGAL_COHERENCY_DOMAIN_SYSTEM \<Rightarrow> Some (False, True)
      | MVGAL_COHERENCY_DOMAIN_DEVICE \<Rightarrow> Some (True, True)
      | MVGAL_COHERENCY_DOMAIN_CROSS_DEVICE \<Rightarrow> Some (False, False)
      | MVGAL_COHERENCY_DOMAIN_P2P \<Rightarrow> Some (False, True)
      | MVGAL_COHERENCY_DOMAIN_INVALID _ \<Rightarrow> None)"

text \<open>
  The indices are the first \<^verbatim>\<open>gpu_count\<close> entries of the array argument. The descriptor that is
  filled in has the fields of the domain, so it is a copy of it.
\<close>

definition mvgal_coherency_domain_create ::
    "mvgal_coherency_domain_type_t \<Rightarrow> u32 list option \<Rightarrow> bool \<Rightarrow> coh_gpus option \<Rightarrow> init_env \<Rightarrow> coh_module \<Rightarrow>
       mvgal_error_t \<times> mvgal_coherency_domain option \<times> coh_module" where
  "mvgal_coherency_domain_create ty gpu_indices out_nonnull state env md =
     (if \<not> out_nonnull then (MVGAL_ERROR_INVALID_ARGUMENT, None, md)
      else case gpu_indices of
        None \<Rightarrow> (MVGAL_ERROR_INVALID_ARGUMENT, None, md)
      | Some ids \<Rightarrow>
          if length ids = 0 \<or> 16 < length ids then (MVGAL_ERROR_INVALID_ARGUMENT, None, md)
          else if validate_all state ids \<noteq> MVGAL_SUCCESS then (validate_all state ids, None, md)
          else if \<not> calloc_ok env then (MVGAL_ERROR_OUT_OF_MEMORY, None, md)
          else if \<not> mutex_init_ok env then (MVGAL_ERROR_INITIALIZATION, None, md)
          else
            (let domain_id = g_next_domain_id md;
                 md' = md\<lparr>g_next_domain_id := domain_id + 1\<rparr>
             in case domain_model ty of
                  None \<Rightarrow> (MVGAL_ERROR_INVALID_ARGUMENT, None, md')
                | Some (cc, at) \<Rightarrow>
                    (let d = \<lparr>dom_type = ty, dom_gpu_indices = ids, dom_cache_coherent = cc,
                              dom_atomic_supported = at, dom_domain_id = domain_id\<rparr>
                     in (MVGAL_SUCCESS, Some d, md'\<lparr>coh_live := d # coh_live md'\<rparr>))))"

text \<open>The descriptor is zeroed (\<^verbatim>\<open>memset\<close>); nothing else happens.\<close>

definition zero_descriptor :: mvgal_coherency_domain where
  "zero_descriptor =
     \<lparr>dom_type = MVGAL_COHERENCY_DOMAIN_SYSTEM, dom_gpu_indices = [], dom_cache_coherent = False,
      dom_atomic_supported = False, dom_domain_id = 0\<rparr>"

definition mvgal_coherency_domain_destroy ::
    "mvgal_coherency_domain option \<Rightarrow> coh_module \<Rightarrow> mvgal_error_t \<times> mvgal_coherency_domain option \<times> coh_module" where
  "mvgal_coherency_domain_destroy descriptor md =
     (case descriptor of
        None \<Rightarrow> (MVGAL_ERROR_INVALID_ARGUMENT, None, md)
      | Some d \<Rightarrow> (MVGAL_SUCCESS, Some zero_descriptor, md))"

section \<open>Synchronisation of a memory range\<close>

abbreviation (input) MVGAL_COHERENCY_FLAG_INVALIDATE :: u32 where "MVGAL_COHERENCY_FLAG_INVALIDATE \<equiv> 1"
abbreviation (input) MVGAL_COHERENCY_FLAG_FLUSH :: u32 where "MVGAL_COHERENCY_FLAG_FLUSH \<equiv> 2"
abbreviation (input) MVGAL_COHERENCY_FLAG_BIDIRECTIONAL :: u32 where "MVGAL_COHERENCY_FLAG_BIDIRECTIONAL \<equiv> 4"

definition flag_set :: "u32 \<Rightarrow> u32 \<Rightarrow> bool" where
  "flag_set flags f \<longleftrightarrow> flags AND f \<noteq> 0"

definition seq_ops :: "cache_op list option \<Rightarrow> cache_op list option \<Rightarrow> cache_op list option" where
  "seq_ops a b = Option.bind a (\<lambda>xs. map_option (\<lambda>ys. xs @ ys) b)"

text \<open>The cache operations that \<^verbatim>\<open>mvgal_coherency_sync\<close> and \<^verbatim>\<open>mvgal_coherency_p2p_sync\<close> execute.\<close>

definition sync_ops :: "u64 \<Rightarrow> u64 \<Rightarrow> u32 \<Rightarrow> cache_op list option" where
  "sync_ops ptr sz flags =
     seq_ops
       (if flag_set flags MVGAL_COHERENCY_FLAG_FLUSH \<or> flag_set flags MVGAL_COHERENCY_FLAG_BIDIRECTIONAL
        then cache_line_flush ptr sz else Some [])
     (seq_ops
       (if flag_set flags MVGAL_COHERENCY_FLAG_INVALIDATE \<or> flag_set flags MVGAL_COHERENCY_FLAG_BIDIRECTIONAL
        then cache_line_invalidate ptr sz else Some [])
     (seq_ops
       (if \<not> flag_set flags (MVGAL_COHERENCY_FLAG_FLUSH OR MVGAL_COHERENCY_FLAG_INVALIDATE
                              OR MVGAL_COHERENCY_FLAG_BIDIRECTIONAL)
        then seq_ops (cache_line_flush ptr sz) (cache_line_invalidate ptr sz) else Some [])
       (Some [Barrier])))"

definition mvgal_coherency_sync ::
    "mvgal_coherency_domain option \<Rightarrow> u64 \<Rightarrow> u64 \<Rightarrow> u32 \<Rightarrow> (mvgal_error_t \<times> cache_op list) option" where
  "mvgal_coherency_sync descriptor ptr sz flags =
     (if descriptor = None \<or> ptr = 0 \<or> sz = 0 then Some (MVGAL_ERROR_INVALID_ARGUMENT, [])
      else map_option (Pair MVGAL_SUCCESS) (sync_ops ptr sz flags))"

definition mvgal_coherency_flush :: "u64 \<Rightarrow> u64 \<Rightarrow> (mvgal_error_t \<times> cache_op list) option" where
  "mvgal_coherency_flush ptr sz =
     (if ptr = 0 \<or> sz = 0 then Some (MVGAL_ERROR_INVALID_ARGUMENT, [])
      else map_option (Pair MVGAL_SUCCESS) (cache_line_flush ptr sz))"

definition mvgal_coherency_invalidate :: "u64 \<Rightarrow> u64 \<Rightarrow> (mvgal_error_t \<times> cache_op list) option" where
  "mvgal_coherency_invalidate ptr sz =
     (if ptr = 0 \<or> sz = 0 then Some (MVGAL_ERROR_INVALID_ARGUMENT, [])
      else map_option (Pair MVGAL_SUCCESS) (cache_line_invalidate ptr sz))"

definition mvgal_coherency_p2p_sync ::
    "coh_gpus option \<Rightarrow> u32 \<Rightarrow> u32 \<Rightarrow> u64 \<Rightarrow> u64 \<Rightarrow> u32 \<Rightarrow> (mvgal_error_t \<times> cache_op list) option" where
  "mvgal_coherency_p2p_sync state src_gpu dst_gpu ptr sz flags =
     (let ret = validate_gpu_index state src_gpu in
      if ret \<noteq> MVGAL_SUCCESS then Some (ret, [])
      else let ret = validate_gpu_index state dst_gpu in
      if ret \<noteq> MVGAL_SUCCESS then Some (ret, [])
      else if ptr = 0 \<or> sz = 0 then Some (MVGAL_ERROR_INVALID_ARGUMENT, [])
      else map_option (Pair MVGAL_SUCCESS) (sync_ops ptr sz flags))"

definition mvgal_coherency_query_capabilities ::
    "coh_gpus option \<Rightarrow> u32 \<Rightarrow> u32 \<Rightarrow> bool \<Rightarrow> bool \<Rightarrow> mvgal_error_t \<times> (bool \<times> bool) option" where
  "mvgal_coherency_query_capabilities state gpu_a gpu_b cc_nonnull at_nonnull =
     (let ret = validate_gpu_index state gpu_a in
      if ret \<noteq> MVGAL_SUCCESS then (ret, None)
      else let ret = validate_gpu_index state gpu_b in
      if ret \<noteq> MVGAL_SUCCESS then (ret, None)
      else if \<not> cc_nonnull \<or> \<not> at_nonnull then (MVGAL_ERROR_INVALID_ARGUMENT, None)
      else case state of
             None \<Rightarrow> (MVGAL_ERROR_UNKNOWN, None)
           | Some g \<Rightarrow>
               (MVGAL_SUCCESS,
                Some (if gpu_a = gpu_b then (True, True)
                      else (False, coh_vendor g gpu_a = coh_vendor g gpu_b))))"

section \<open>Peer-to-peer semaphores\<close>

record mvgal_coherency_semaphore =
  csem_value :: u64
  csem_refcount :: u32
  csem_shared :: bool
  csem_shared_mem :: "nat option"
  csem_dmabuf_fd :: int

definition mvgal_coherency_semaphore_create ::
    "u64 \<Rightarrow> bool \<Rightarrow> init_env \<Rightarrow> mvgal_error_t \<times> mvgal_coherency_semaphore option" where
  "mvgal_coherency_semaphore_create initial_value out_nonnull env =
     (if \<not> out_nonnull then (MVGAL_ERROR_INVALID_ARGUMENT, None)
      else if \<not> calloc_ok env then (MVGAL_ERROR_OUT_OF_MEMORY, None)
      else if \<not> mutex_init_ok env then (MVGAL_ERROR_INITIALIZATION, None)
      else if \<not> cond_init_ok env then (MVGAL_ERROR_INITIALIZATION, None)
      else (MVGAL_SUCCESS,
            Some \<lparr>csem_value = initial_value, csem_refcount = 1, csem_shared = False,
                  csem_shared_mem = None, csem_dmabuf_fd = -1\<rparr>))"

text \<open>What is left of the object, the mapping that is unmapped and the descriptor that is closed.\<close>

definition mvgal_coherency_semaphore_destroy ::
    "mvgal_coherency_semaphore option \<Rightarrow>
       mvgal_error_t \<times> mvgal_coherency_semaphore option \<times> nat option \<times> int option" where
  "mvgal_coherency_semaphore_destroy semaphore =
     (case semaphore of
        None \<Rightarrow> (MVGAL_ERROR_INVALID_ARGUMENT, None, None, None)
      | Some s \<Rightarrow>
          (let old = csem_refcount s
           in if sint old \<le> 1
              then (MVGAL_SUCCESS, None, csem_shared_mem s,
                    if 0 \<le> csem_dmabuf_fd s then Some (csem_dmabuf_fd s) else None)
              else (MVGAL_SUCCESS, Some (s\<lparr>csem_refcount := old - 1\<rparr>), None, None)))"

definition mvgal_coherency_semaphore_signal ::
    "mvgal_coherency_semaphore option \<Rightarrow> u64 \<Rightarrow> mvgal_error_t \<times> mvgal_coherency_semaphore option" where
  "mvgal_coherency_semaphore_signal semaphore increment =
     (case semaphore of
        None \<Rightarrow> (MVGAL_ERROR_INVALID_ARGUMENT, None)
      | Some s \<Rightarrow>
          if increment = 0 then (MVGAL_ERROR_INVALID_ARGUMENT, Some s)
          else (MVGAL_SUCCESS, Some (s\<lparr>csem_value := csem_value s + increment\<rparr>)))"

definition coh_timedwait_early :: "pthread_ret \<Rightarrow> mvgal_error_t option" where
  "coh_timedwait_early ret =
     (case ret of
        ETIMEDOUT \<Rightarrow> Some MVGAL_ERROR_TIMEOUT
      | RET_OK \<Rightarrow> None
      | RET_OTHER _ \<Rightarrow> Some MVGAL_ERROR_UNKNOWN)"

definition mvgal_coherency_semaphore_wait ::
    "mvgal_coherency_semaphore option \<Rightarrow> u64 \<Rightarrow> u64 \<Rightarrow> timespec \<Rightarrow> mvgal_coherency_semaphore wait_env \<Rightarrow>
       (mvgal_coherency_semaphore option \<times> mvgal_error_t) option" where
  "mvgal_coherency_semaphore_wait semaphore value timeout_ns now env =
     (case semaphore of
        None \<Rightarrow> Some (None, MVGAL_ERROR_INVALID_ARGUMENT)
      | Some s \<Rightarrow>
          if value = 0 then Some (Some s, MVGAL_ERROR_INVALID_ARGUMENT)
          else if value \<le> csem_value s then Some (Some s, MVGAL_SUCCESS)
          else if timeout_ns = 0 then Some (Some s, MVGAL_ERROR_TIMEOUT)
          else
            (let dl = (if timeout_ns = UINT64_MAX then None else Some (deadline_ts now timeout_ns))
             in case block_until coh_timedwait_early (\<lambda>t. value \<le> csem_value t) dl s env of
                  None \<Rightarrow> None
                | Some (t, None) \<Rightarrow> Some (Some t, MVGAL_SUCCESS)
                | Some (t, Some e) \<Rightarrow> Some (Some t, e)))"

section \<open>Sleeping and waking on a peer-to-peer semaphore\<close>

text \<open>
  Who sleeps on the condition variable matters for the semaphore, because a signal wakes one
  sleeper. A waiting thread checks the threshold and goes to sleep under the mutex, a signal adds
  under the mutex and wakes one of the sleepers if there is one, and a woken thread checks again.
\<close>

datatype waiter = Outside | Sleeping u64 | Woken u64 | Returned

record csem_conf =
  cc_sem :: mvgal_coherency_semaphore
  cc_waiter :: "nat \<Rightarrow> waiter"

definition wait_now :: "mvgal_coherency_semaphore \<Rightarrow> u64 \<Rightarrow> bool" where
  "wait_now s thr \<longleftrightarrow>
     mvgal_coherency_semaphore_wait (Some s) thr UINT64_MAX \<lparr>tv_sec = 0, tv_nsec = 0\<rparr> (\<lambda>_. []) = Some (Some s, MVGAL_SUCCESS)"

definition signal_sem :: "mvgal_coherency_semaphore \<Rightarrow> u64 \<Rightarrow> mvgal_coherency_semaphore" where
  "signal_sem s inc = the (snd (mvgal_coherency_semaphore_signal (Some s) inc))"

inductive csem_step :: "csem_conf \<Rightarrow> csem_conf \<Rightarrow> bool" where
  wait_return: "cc_waiter c t = Outside \<Longrightarrow> thr \<noteq> 0 \<Longrightarrow> wait_now (cc_sem c) thr \<Longrightarrow>
    csem_step c (c\<lparr>cc_waiter := (cc_waiter c)(t := Returned)\<rparr>)"
| wait_sleep: "cc_waiter c t = Outside \<Longrightarrow> thr \<noteq> 0 \<Longrightarrow> \<not> wait_now (cc_sem c) thr \<Longrightarrow>
    csem_step c (c\<lparr>cc_waiter := (cc_waiter c)(t := Sleeping thr)\<rparr>)"
| signal_none: "inc \<noteq> 0 \<Longrightarrow> \<forall>t thr. cc_waiter c t \<noteq> Sleeping thr \<Longrightarrow>
    csem_step c (c\<lparr>cc_sem := signal_sem (cc_sem c) inc\<rparr>)"
| signal_wake: "inc \<noteq> 0 \<Longrightarrow> cc_waiter c t = Sleeping thr \<Longrightarrow>
    csem_step c (c\<lparr>cc_sem := signal_sem (cc_sem c) inc, cc_waiter := (cc_waiter c)(t := Woken thr)\<rparr>)"
| recheck_return: "cc_waiter c t = Woken thr \<Longrightarrow> wait_now (cc_sem c) thr \<Longrightarrow>
    csem_step c (c\<lparr>cc_waiter := (cc_waiter c)(t := Returned)\<rparr>)"
| recheck_sleep: "cc_waiter c t = Woken thr \<Longrightarrow> \<not> wait_now (cc_sem c) thr \<Longrightarrow>
    csem_step c (c\<lparr>cc_waiter := (cc_waiter c)(t := Sleeping thr)\<rparr>)"

definition csem_start :: "u64 \<Rightarrow> csem_conf" where
  "csem_start v =
     \<lparr>cc_sem = \<lparr>csem_value = v, csem_refcount = 1, csem_shared = False, csem_shared_mem = None, csem_dmabuf_fd = -1\<rparr>,
      cc_waiter = \<lambda>_. Outside\<rparr>"

section \<open>Cache lemmas\<close>

text \<open>The number of \<^verbatim>\<open>clflush\<close> instructions, and what the loop executes from the \<open>k\<close>-th on.\<close>

definition line_count :: "u64 \<Rightarrow> nat" where
  "line_count sz = (unat sz + 63) div 64"

lemma offset_less:
  assumes "unat sz \<le> 2 ^ 64 - 64" and "k \<le> line_count sz"
  shows "unat (of_nat (64 * k) :: u64) = 64 * k" and "(of_nat (64 * k) :: u64) < sz \<longleftrightarrow> k < line_count sz"
proof -
  from assms have "64 * k < 2 ^ 64" by (simp add: line_count_def)
  then show u: "unat (of_nat (64 * k) :: u64) = 64 * k" by (simp add: unat_of_nat take_bit_nat_eq_self del: of_nat_mult)
  show "(of_nat (64 * k) :: u64) < sz \<longleftrightarrow> k < line_count sz"
    unfolding word_less_nat_alt u line_count_def by linarith
qed

lemma clflush_loop_from:
  assumes "unat sz \<le> 2 ^ 64 - 64"
  shows "k \<le> line_count sz \<Longrightarrow>
    clflush_loop ptr sz (of_nat (64 * k)) =
      Some (map (\<lambda>i. Clflush (ptr + of_nat (64 * i))) [k..<line_count sz])"
proof (induction "line_count sz - k" arbitrary: k)
  case 0
  then show ?case using offset_less(2) [OF assms, of k] by (subst clflush_loop.simps) simp
next
  case (Suc n)
  then have k: "k < line_count sz" by simp
  have "(of_nat (64 * k) :: u64) + 64 = of_nat (64 * Suc k)" by simp
  with Suc.hyps(1) [of "Suc k"] Suc.hyps(2) k offset_less(2) [OF assms, of k] show ?case
    by (subst clflush_loop.simps) (simp add: upt_conv_Cons del: of_nat_mult of_nat_Suc mult_Suc_right)
qed

lemma clflush_loop_0:
  "unat sz \<le> 2 ^ 64 - 64 \<Longrightarrow>
     clflush_loop ptr sz 0 = Some (map (\<lambda>i. Clflush (ptr + of_nat (64 * i))) [0..<line_count sz])"
  using clflush_loop_from [of sz 0 ptr] by simp

lemma unat_plus_64_mod: "unat (offset + 64 :: u64) mod 64 = unat offset mod 64"
  by (simp add: unat_word_ariths mod_mod_cancel)

lemma clflush_loop_SomeD:
  assumes "clflush_loop ptr sz offset = Some ops" and "unat offset mod 64 = 0"
  shows "unat sz \<le> 2 ^ 64 - 64"
proof (rule clflush_loop.raw_induct
    [where P = "\<lambda>ptr sz offset ops. unat offset mod 64 = 0 \<longrightarrow> unat sz \<le> 2 ^ 64 - 64", OF _ assms(1), THEN mp, OF _ assms(2)])
  fix loop ptr and sz offset :: u64 and ops
  assume IH: "\<And>ptr sz offset ops. loop ptr sz offset = Some ops \<Longrightarrow> unat offset mod 64 = 0 \<longrightarrow> unat sz \<le> 2 ^ 64 - 64"
    and body: "(if offset < sz then Option.bind (loop ptr sz (offset + 64)) (\<lambda>rest. Some (Clflush (ptr + offset) # rest)) else Some []) = Some ops"
  show "unat offset mod 64 = 0 \<longrightarrow> unat sz \<le> 2 ^ 64 - 64"
  proof (intro impI, cases "offset < sz")
    assume "unat offset mod 64 = 0" and "offset < sz"
    with body obtain rest where "loop ptr sz (offset + 64) = Some rest" by (auto simp: bind_eq_Some_conv)
    from IH [OF this] \<open>unat offset mod 64 = 0\<close> show "unat sz \<le> 2 ^ 64 - 64" by (simp add: unat_plus_64_mod)
  next
    assume m: "unat offset mod 64 = 0" and "\<not> offset < sz"
    then have "unat sz \<le> unat offset" by (simp add: word_less_nat_alt)
    moreover have "unat offset < 2 ^ 64" using unsigned_less [of offset] by simp
    moreover from m obtain q where "unat offset = 64 * q" by (auto elim: dvdE simp: mod_eq_0_iff_dvd)
    ultimately show "unat sz \<le> 2 ^ 64 - 64" by simp
  qed
qed

text \<open>An address has its cache line flushed.\<close>

definition line_flushed :: "cache_op list \<Rightarrow> u64 \<Rightarrow> bool" where
  "line_flushed ops a \<longleftrightarrow> (\<exists>b. Clflush b \<in> set ops \<and> unat b div 64 = unat a div 64)"

lemma line_flushed_append [simp]: "line_flushed (xs @ ys) a \<longleftrightarrow> line_flushed xs a \<or> line_flushed ys a"
  by (auto simp: line_flushed_def)

lemma aligned_flush_covers:
  assumes "unat sz \<le> 2 ^ 64 - 64" and "unat ptr mod 64 = 0" and "unat ptr + unat sz \<le> 2 ^ 64"
    and "unat ptr \<le> unat a" and "unat a < unat ptr + unat sz"
  shows "line_flushed (map (\<lambda>i. Clflush (ptr + of_nat (64 * i))) [0..<line_count sz]) a"
proof -
  let ?i = "(unat a - unat ptr) div 64"
  from assms(2) obtain q where q: "unat ptr = 64 * q" by (auto elim: dvdE simp: mod_eq_0_iff_dvd)
  have a: "unat a = 64 * q + (unat a - unat ptr)" using q assms(4) by simp
  have i: "?i < line_count sz" using assms(4,5) by (simp add: line_count_def div_less_iff_less_mult)
  have le: "64 * ?i \<le> unat a - unat ptr" by simp
  have "unat (of_nat (64 * ?i) :: u64) = 64 * ?i"
    using offset_less(1) [OF assms(1), of ?i] i by simp
  then have "unat (ptr + of_nat (64 * ?i)) = unat ptr + 64 * ?i"
    using le assms(3-5) by (subst unat_add_no_wrap) simp_all
  then have "unat (ptr + of_nat (64 * ?i)) div 64 = unat a div 64"
    using q a by simp
  with i show ?thesis unfolding line_flushed_def by (intro exI [of _ "ptr + of_nat (64 * ?i)"]) auto
qed

section \<open>Semaphore lemmas\<close>

lemma coh_timedwait_early_Some:
  "coh_timedwait_early r = Some e \<Longrightarrow> e \<in> {MVGAL_ERROR_TIMEOUT, MVGAL_ERROR_UNKNOWN}"
  by (auto simp: coh_timedwait_early_def split: pthread_ret.splits)

definition coh_wait_on ::
    "u64 \<Rightarrow> u64 \<Rightarrow> timespec \<Rightarrow> mvgal_coherency_semaphore \<Rightarrow> mvgal_coherency_semaphore wait_env \<Rightarrow>
       (mvgal_coherency_semaphore \<times> mvgal_error_t) option" where
  "coh_wait_on v timeout_ns now s env =
     map_option (map_prod the id) (mvgal_coherency_semaphore_wait (Some s) v timeout_ns now env)"

lemma coh_wait_cases:
  assumes "coh_wait_on v timeout_ns now s env = Some (s', r)"
  shows "(r = MVGAL_SUCCESS \<and> v \<noteq> 0 \<and> v \<le> csem_value s' \<and> (\<exists>d. s' = s \<or> s' \<in> wake_state ` set (env d)))
    \<or> (r \<noteq> MVGAL_SUCCESS \<and> \<not> (v \<noteq> 0 \<and> v \<le> csem_value s) \<and> (s' = s \<or> (\<exists>d. s' \<in> wake_state ` set (env d))))"
proof (cases "v = 0 \<or> v \<le> csem_value s \<or> timeout_ns = 0")
  case True
  with assms show ?thesis
    by (auto simp: coh_wait_on_def mvgal_coherency_semaphore_wait_def split: if_splits)
next
  case False
  define dl where "dl = (if timeout_ns = UINT64_MAX then None else Some (deadline_ts now timeout_ns))"
  from False assms obtain t e where
    b: "block_until coh_timedwait_early (\<lambda>t. v \<le> csem_value t) dl s env = Some (t, e)"
    and c: "(t, case e of None \<Rightarrow> MVGAL_SUCCESS | Some e \<Rightarrow> e) = (s', r)"
    by (auto simp: coh_wait_on_def mvgal_coherency_semaphore_wait_def dl_def [symmetric]
        split: option.splits prod.splits)
  show ?thesis
  proof (cases e)
    case None
    with b c block_until_NoneD [OF b [unfolded None]] False show ?thesis by auto
  next
    case (Some x)
    with block_until_SomeD [OF b [unfolded Some]] c False show ?thesis
      by (auto dest!: coh_timedwait_early_Some)
  qed
qed

interpretation coh_sem: waitable "\<lambda>s. v \<noteq> 0 \<and> v \<le> csem_value s" "\<lambda>s. s"
  "\<lambda>r. r = MVGAL_SUCCESS" "coh_wait_on v timeout_ns now" for v timeout_ns now
proof
  fix s :: mvgal_coherency_semaphore and env
  assume "v \<noteq> 0 \<and> v \<le> csem_value s"
  then show "\<exists>r. coh_wait_on v timeout_ns now s env = Some (s, r) \<and> r = MVGAL_SUCCESS"
    by (simp add: coh_wait_on_def mvgal_coherency_semaphore_wait_def)
next
  fix s s' :: mvgal_coherency_semaphore and env r
  assume "coh_wait_on v timeout_ns now s env = Some (s', r)" and "r = MVGAL_SUCCESS"
  then show "\<exists>t d. (v \<noteq> 0 \<and> v \<le> csem_value t) \<and> s' = t \<and> (t = s \<or> t \<in> wake_state ` set (env d))"
    by (auto dest!: coh_wait_cases)
next
  fix s s' :: mvgal_coherency_semaphore and env r
  assume "coh_wait_on v timeout_ns now s env = Some (s', r)" and "r \<noteq> MVGAL_SUCCESS"
  then show "\<not> (v \<noteq> 0 \<and> v \<le> csem_value s) \<and> (s' = s \<or> (\<exists>d. s' \<in> wake_state ` set (env d)))"
    by (auto dest!: coh_wait_cases)
qed

lemma wait_now_iff: "thr \<noteq> 0 \<Longrightarrow> wait_now s thr \<longleftrightarrow> thr \<le> csem_value s"
  by (simp add: wait_now_def mvgal_coherency_semaphore_wait_def block_until_def)

lemma signal_sem_value: "inc \<noteq> 0 \<Longrightarrow> signal_sem s inc = s\<lparr>csem_value := csem_value s + inc\<rparr>"
  by (simp add: signal_sem_def mvgal_coherency_semaphore_signal_def)

text \<open>Runs in which only the threads of a set ever wait.\<close>

inductive csem_run :: "nat set \<Rightarrow> u64 \<Rightarrow> csem_conf \<Rightarrow> bool" for T v where
  start: "csem_run T v (csem_start v)"
| step: "csem_run T v c \<Longrightarrow> csem_step c c' \<Longrightarrow> (\<forall>t. t \<notin> T \<longrightarrow> cc_waiter c' t = Outside) \<Longrightarrow> csem_run T v c'"

lemma csem_run_outside: "csem_run T v c \<Longrightarrow> t \<notin> T \<Longrightarrow> cc_waiter c t = Outside"
  by (induction rule: csem_run.induct) (auto simp: csem_start_def)

definition csem_inv :: "nat \<Rightarrow> csem_conf \<Rightarrow> bool" where
  "csem_inv t c \<longleftrightarrow>
     (\<forall>thr. cc_waiter c t = Sleeping thr \<longrightarrow> thr \<noteq> 0 \<and> \<not> thr \<le> csem_value (cc_sem c))
   \<and> (\<forall>thr. cc_waiter c t = Woken thr \<longrightarrow> thr \<noteq> 0)"

lemma csem_inv_step:
  assumes "csem_step c c'" and "csem_inv t c" and "\<And>u. u \<noteq> t \<Longrightarrow> cc_waiter c u = Outside"
  shows "csem_inv t c'"
  using assms
proof (induction rule: csem_step.induct)
  case (signal_wake inc c u thr)
  then have "u = t" by (metis waiter.distinct(1))
  with signal_wake show ?case by (auto simp: csem_inv_def)
next
  case (recheck_sleep c u thr)
  then show ?case by (cases "u = t") (auto simp: csem_inv_def wait_now_iff)
qed (auto simp: csem_inv_def wait_now_iff)

lemma csem_run_inv: "csem_run {t} v c \<Longrightarrow> csem_inv t c"
proof (induction rule: csem_run.induct)
  case start
  then show ?case by (simp add: csem_start_def csem_inv_def)
next
  case (step c c')
  then show ?case by (intro csem_inv_step [OF step.hyps(2)]) (auto dest: csem_run_outside)
qed

section \<open>Synchronisation and domain lemmas\<close>

lemma flag_set_or: "flag_set flags (a OR b) \<longleftrightarrow> flag_set flags a \<or> flag_set flags b"
  by (simp add: flag_set_def bit.conj_disj_distrib or_eq_0_iff)

lemma seq_ops_Some: "seq_ops (Some a) (Some b) = Some (a @ b)"
  by (simp add: seq_ops_def)

lemma cache_line_ops:
  assumes "unat sz \<le> 2 ^ 64 - 64"
  shows "cache_line_flush ptr sz = Some (map (\<lambda>i. Clflush (ptr + of_nat (64 * i))) [0..<line_count sz] @ [Barrier])"
    and "cache_line_invalidate ptr sz = Some (map (\<lambda>i. Clflush (ptr + of_nat (64 * i))) [0..<line_count sz] @ [Barrier])"
  by (simp_all add: cache_line_flush_def cache_line_invalidate_def clflush_loop_0 [OF assms] del: of_nat_mult)

lemma sync_ops_flushes:
  assumes "cache_line_flush ptr sz = Some ops" and "cache_line_invalidate ptr sz = Some ops"
  shows "\<exists>pre. sync_ops ptr sz flags = Some (pre @ [Barrier]) \<and> set ops \<subseteq> set pre"
  using assms unfolding sync_ops_def flag_set_or by (auto simp: seq_ops_Some)

lemma line_flushed_mono: "set xs \<subseteq> set ys \<Longrightarrow> line_flushed xs a \<Longrightarrow> line_flushed ys a"
  by (auto simp: line_flushed_def)

definition coh_wf :: "coh_module \<Rightarrow> bool" where
  "coh_wf md \<longleftrightarrow> distinct (map dom_domain_id (coh_live md)) \<and> (\<forall>d \<in> set (coh_live md). dom_domain_id d < g_next_domain_id md)"

lemma validate_all_success:
  "validate_all (Some g) ids = MVGAL_SUCCESS \<longleftrightarrow> (\<forall>i \<in> set ids. i < coh_gpu_count g)"
  by (induction ids) (auto simp: validate_gpu_index_def)

lemma word_less_suc: "x < n \<Longrightarrow> n + 1 \<noteq> 0 \<Longrightarrow> x < n + 1" for x n :: u64
  using unatSuc [of n] by (simp add: word_less_nat_alt add.commute)

section \<open>Properties\<close>

text \<open>
  C18. Synchronising a range that starts on a cache-line boundary succeeds whatever the flags say,
  executes a \<^verbatim>\<open>clflush\<close> in the cache line of every byte of the range, and ends with a barrier.
\<close>

theorem coherency_sync_covers:
  assumes "ptr \<noteq> 0" and "sz \<noteq> 0" and "unat sz \<le> 2 ^ 64 - 64"
    and "unat ptr mod 64 = 0" and "unat ptr + unat sz \<le> 2 ^ 64"
  shows "\<exists>pre. mvgal_coherency_sync (Some d) ptr sz flags = Some (MVGAL_SUCCESS, pre @ [Barrier])
    \<and> (\<forall>a. unat ptr \<le> unat a \<and> unat a < unat ptr + unat sz \<longrightarrow> line_flushed pre a)"
proof -
  obtain pre where p: "sync_ops ptr sz flags = Some (pre @ [Barrier])"
    and sub: "set (map (\<lambda>i. Clflush (ptr + of_nat (64 * i))) [0..<line_count sz] @ [Barrier]) \<subseteq> set pre"
    using sync_ops_flushes [OF cache_line_ops [OF assms(3)]] by blast
  have "line_flushed pre a" if "unat ptr \<le> unat a" "unat a < unat ptr + unat sz" for a
    using aligned_flush_covers [OF assms(3,4,5) that] sub
    by (intro line_flushed_mono [OF sub]) simp
  with p assms(1,2) show ?thesis by (simp add: mvgal_coherency_sync_def)
qed

text \<open>C18 at the second page, for 100 bytes and no flags.\<close>

lemma coherency_sync_covers_witness:
  "\<exists>pre. mvgal_coherency_sync (Some zero_descriptor) 4096 100 0 = Some (MVGAL_SUCCESS, pre @ [Barrier])
     \<and> line_flushed pre 4195"
  using coherency_sync_covers [of 4096 100 zero_descriptor 0] by fastforce

text \<open>
  On an address that is not on a cache-line boundary the flush of 64 bytes succeeds and misses
  the second of the two cache lines the range touches.
\<close>

theorem coherency_flush_misses_tail:
  assumes "unat ptr mod 64 \<noteq> 0" and "unat ptr + 64 \<le> 2 ^ 64"
  shows "\<exists>ops. mvgal_coherency_flush ptr 64 = Some (MVGAL_SUCCESS, ops) \<and> \<not> line_flushed ops (ptr + 63)"
proof -
  have ops: "cache_line_flush ptr 64 = Some [Clflush ptr, Barrier]"
    using cache_line_ops(1) [of 64 ptr] by (simp add: line_count_def)
  have "unat (ptr + 63) = unat ptr + 63" using assms(2) by (subst unat_add_no_wrap) simp_all
  moreover define q r where "q = unat ptr div 64" and "r = unat ptr mod 64"
  then have "unat ptr = 64 * q + r" and "0 < r" and "r < 64" using assms(1) by simp_all
  ultimately have "unat ptr div 64 = q" and "64 * Suc q \<le> unat (ptr + 63)" by simp_all
  then have "unat ptr div 64 \<noteq> unat (ptr + 63) div 64" by auto
  moreover have "ptr \<noteq> 0" using assms(1) by auto
  ultimately show ?thesis using ops by (simp add: mvgal_coherency_flush_def line_flushed_def)
qed

text \<open>The instance at address 4128.\<close>

lemma coherency_flush_misses_tail_witness:
  "\<exists>ops. mvgal_coherency_flush 4128 64 = Some (MVGAL_SUCCESS, ops) \<and> \<not> line_flushed ops 4191"
  using coherency_flush_misses_tail [of 4128] by simp

text \<open>
  A flush returns exactly when the size is at most \<open>2 ^ 64 - 64\<close>: above that the 64-bit offset
  wraps round before it reaches the size and the loop runs for ever.
\<close>

theorem coherency_flush_returns_iff:
  assumes "ptr \<noteq> 0" and "sz \<noteq> 0"
  shows "mvgal_coherency_flush ptr sz \<noteq> None \<longleftrightarrow> unat sz \<le> 2 ^ 64 - 64"
proof
  assume "mvgal_coherency_flush ptr sz \<noteq> None"
  with assms obtain ops where "clflush_loop ptr sz 0 = Some ops"
    by (auto simp: mvgal_coherency_flush_def cache_line_flush_def)
  then show "unat sz \<le> 2 ^ 64 - 64" by (rule clflush_loop_SomeD) simp
next
  assume "unat sz \<le> 2 ^ 64 - 64"
  with assms show "mvgal_coherency_flush ptr sz \<noteq> None"
    using cache_line_ops(1) [of sz ptr] by (simp add: mvgal_coherency_flush_def)
qed

text \<open>The instance at the largest size, which does not return.\<close>

lemma coherency_flush_returns_iff_witness: "mvgal_coherency_flush 64 0xFFFFFFFFFFFFFFFF = None"
  using coherency_flush_returns_iff [of 64 "0xFFFFFFFFFFFFFFFF"]
  by (cases "mvgal_coherency_flush 64 0xFFFFFFFFFFFFFFFF") simp_all

text \<open>
  C19. A thread that is the only one to wait on a peer-to-peer semaphore never sleeps past its
  threshold: in every run its sleep means that the value is still below the threshold.
\<close>

theorem coherency_single_waiter:
  assumes "csem_run {t} v c" and "cc_waiter c t = Sleeping thr"
  shows "csem_value (cc_sem c) < thr"
  using csem_run_inv [OF assms(1)] assms(2) by (simp add: csem_inv_def not_le)

text \<open>C19 at a thread that waits for 3 on a semaphore at 1.\<close>

lemma coherency_single_waiter_witness:
  "csem_value (cc_sem ((csem_start 1)\<lparr>cc_waiter := (\<lambda>_. Outside)(0 := Sleeping 3)\<rparr>)) < 3"
proof (rule coherency_single_waiter [of 0 1])
  have "csem_step (csem_start 1) ((csem_start 1)\<lparr>cc_waiter := (cc_waiter (csem_start 1))(0 := Sleeping 3)\<rparr>)"
    by (rule wait_sleep) (simp_all add: csem_start_def wait_now_iff word_le_nat_alt)
  from csem_run.step [OF csem_run.start this]
  show "csem_run {0} 1 ((csem_start 1)\<lparr>cc_waiter := (\<lambda>_. Outside)(0 := Sleeping 3)\<rparr>)"
    by (simp add: csem_start_def)
qed simp

text \<open>
  With two waiting threads a wake-up is lost: a run leads to a configuration in which the
  value has reached the threshold of a sleeping thread and no thread is awake to wake it, since one
  signal satisfies both thresholds and \<^verbatim>\<open>pthread_cond_signal\<close> wakes one thread.
\<close>

theorem coherency_lost_wakeup:
  "\<exists>c thr. csem_run {0, 1} 0 c \<and> cc_waiter c 1 = Sleeping thr \<and> thr \<le> csem_value (cc_sem c)
     \<and> (\<forall>t. cc_waiter c t \<in> {Outside, Returned} \<or> t = 1)"
proof -
  let ?w = "\<lambda>v x y. (csem_start v)\<lparr>cc_waiter := (\<lambda>_. Outside)(0 := x, 1 := y)\<rparr>"
  have "csem_run {0, 1} 0 (?w 0 Outside Outside)"
    using csem_run.start [of "{0, 1}" 0] by (simp add: csem_start_def fun_upd_idem)
  then have "csem_run {0, 1} 0 (?w 0 (Sleeping 1) Outside)"
    by (rule csem_run.step) (use wait_sleep [of "?w 0 Outside Outside" 0 1] in
      \<open>simp_all add: csem_start_def wait_now_iff fun_upd_twist\<close>)
  then have "csem_run {0, 1} 0 (?w 0 (Sleeping 1) (Sleeping 1))"
    by (rule csem_run.step) (use wait_sleep [of "?w 0 (Sleeping 1) Outside" 1 1] in
      \<open>simp_all add: csem_start_def wait_now_iff\<close>)
  then have "csem_run {0, 1} 0 (?w 1 (Woken 1) (Sleeping 1))"
    by (rule csem_run.step) (use signal_wake [of 1 "?w 0 (Sleeping 1) (Sleeping 1)" 0 1] in
      \<open>simp_all add: csem_start_def signal_sem_value fun_upd_twist\<close>)
  then have "csem_run {0, 1} 0 (?w 1 Returned (Sleeping 1))"
    by (rule csem_run.step) (use recheck_return [of "?w 1 (Woken 1) (Sleeping 1)" 0 1] in
      \<open>simp_all add: csem_start_def wait_now_iff fun_upd_twist\<close>)
  then show ?thesis
    by (intro exI [of _ "?w 1 Returned (Sleeping 1)"] exI [of _ 1]) (simp add: csem_start_def)
qed

text \<open>
  The identities of live domains stay distinct and below the counter, a created domain has only
  valid GPU indices, and destroying a descriptor zeroes it and leaves its domain object allocated.
\<close>

theorem coherency_domain_lifecycle:
  assumes "coh_wf md" and "g_next_domain_id md + 1 \<noteq> 0"
    and "mvgal_coherency_domain_create ty (Some ids) True (Some g) env md = (MVGAL_SUCCESS, Some d, md')"
  shows "coh_wf md' \<and> (\<forall>i \<in> set (dom_gpu_indices d). i < coh_gpu_count g)
    \<and> (\<forall>e \<in> set (coh_live md). dom_domain_id e \<noteq> dom_domain_id d)
    \<and> mvgal_coherency_domain_destroy (Some d) md' = (MVGAL_SUCCESS, Some zero_descriptor, md')
    \<and> d \<in> set (coh_live md')"
proof -
  from assms(3) have ids: "validate_all (Some g) ids = MVGAL_SUCCESS"
    and d: "dom_gpu_indices d = ids" "dom_domain_id d = g_next_domain_id md"
    and md': "md' = \<lparr>g_next_domain_id = g_next_domain_id md + 1, coh_live = d # coh_live md\<rparr>"
    by (auto simp: mvgal_coherency_domain_create_def Let_def split: if_splits option.splits)
  have lt: "g_next_domain_id md < g_next_domain_id md + 1"
    using assms(2) unatSuc [of "g_next_domain_id md"] by (simp add: word_less_nat_alt add.commute)
  have "coh_wf md'" using assms(1,2) d lt word_less_suc by (auto simp: coh_wf_def md')
  with ids d md' assms(1) show ?thesis
    by (auto simp: validate_all_success coh_wf_def mvgal_coherency_domain_destroy_def)
qed

text \<open>The instance at the first domain of a machine with two GPUs.\<close>

lemma coherency_domain_lifecycle_witness:
  "let md = \<lparr>g_next_domain_id = 1, coh_live = []\<rparr>;
       r = mvgal_coherency_domain_create MVGAL_COHERENCY_DOMAIN_P2P (Some [0, 1]) True
             (Some \<lparr>coh_gpu_count = 2, coh_vendor = \<lambda>_. 0\<rparr>)
             \<lparr>calloc_ok = True, mutex_init_ok = True, cond_init_ok = True\<rparr> md
   in coh_wf md \<and> fst r = MVGAL_SUCCESS \<and> coh_wf (snd (snd r))"
  using coherency_domain_lifecycle [of "\<lparr>g_next_domain_id = 1, coh_live = []\<rparr>" MVGAL_COHERENCY_DOMAIN_P2P "[0, 1]"
      "\<lparr>coh_gpu_count = 2, coh_vendor = \<lambda>_. 0\<rparr>" "\<lparr>calloc_ok = True, mutex_init_ok = True, cond_init_ok = True\<rparr>"]
  by (simp add: mvgal_coherency_domain_create_def validate_gpu_index_def domain_model_def Let_def coh_wf_def word_less_nat_alt)

end
