(* ===== verification/Linked_List.thy ===== *)
theory Linked_List
  imports Mvgal_Prelude
begin

text \<open>
  Doubly linked lists in a heap, as the buffer list of the memory module and the workload queue of
  the scheduler use them. A heap maps addresses to nodes and \<open>NULL\<close> is \<open>None\<close>. The predicate \<open>dseg\<close>
  relates a chain of nodes to the HOL list of their addresses; the locale \<open>dnode\<close> is what a node
  type has to offer, and proves once what insertion and removal do to the list.
\<close>

section \<open>Segments\<close>

text \<open>
  \<open>dseg nx pv b p xs l e\<close>: following \<open>nx\<close> from \<open>p\<close> visits \<open>xs\<close> and then stands at \<open>e\<close>; the
  predecessor of the first node is \<open>b\<close>, and \<open>l\<close> is the last node (or \<open>b\<close> if there is none).
\<close>

fun dseg ::
    "('p \<Rightarrow> 'p option) \<Rightarrow> ('p \<Rightarrow> 'p option) \<Rightarrow> 'p option \<Rightarrow> 'p option \<Rightarrow> 'p list \<Rightarrow> 'p option \<Rightarrow> 'p option \<Rightarrow> bool" where
  "dseg nx pv b p [] l e \<longleftrightarrow> p = e \<and> l = b"
| "dseg nx pv b p (x # xs) l e \<longleftrightarrow> p = Some x \<and> pv x = b \<and> dseg nx pv (Some x) (nx x) xs l e"

lemma dseg_append:
  "dseg nx pv b p (xs @ ys) l e \<longleftrightarrow> (\<exists>m q. dseg nx pv b p xs m q \<and> dseg nx pv m q ys l e)"
  by (induction xs arbitrary: b p) auto

lemma dseg_cong:
  "(\<And>x. x \<in> set xs \<Longrightarrow> nx x = nx' x \<and> pv x = pv' x) \<Longrightarrow> dseg nx pv b p xs l e = dseg nx' pv' b p xs l e"
  by (induction xs arbitrary: b p) auto

lemma dseg_last: "dseg nx pv b p xs l e \<Longrightarrow> l = (if xs = [] then b else Some (last xs))"
  by (induction xs arbitrary: b p) auto

lemma dseg_first: "dseg nx pv b p xs l e \<Longrightarrow> p = (if xs = [] then e else Some (hd xs))"
  by (cases xs) auto

lemma dseg_end: "dseg nx pv b p xs l e \<Longrightarrow> xs \<noteq> [] \<Longrightarrow> nx (last xs) = e"
  by (induction xs arbitrary: b p) (auto split: if_splits)

lemma dseg_unique: "dseg nx pv b p xs l None \<Longrightarrow> dseg nx pv b' p ys l' None \<Longrightarrow> xs = ys"
proof (induction xs arbitrary: b b' p ys)
  case Nil
  then show ?case by (cases ys) auto
next
  case (Cons x xs)
  then show ?case by (cases ys) auto
qed

lemma dseg_distinct: "dseg nx pv b p xs l None \<Longrightarrow> distinct xs"
proof (induction xs arbitrary: b p)
  case (Cons x xs)
  then have s: "dseg nx pv (Some x) (nx x) xs l None" by simp
  have "x \<notin> set xs"
  proof
    assume "x \<in> set xs"
    then obtain as bs where xs: "xs = as @ x # bs" by (auto simp: in_set_conv_decomp)
    with s obtain m where "dseg nx pv m (Some x) (x # bs) l None" by (auto simp: dseg_append)
    then have "dseg nx pv (Some x) (nx x) bs l None" by simp
    from dseg_unique [OF s this] have "xs = bs" .
    with xs show False by (metis append_eq_conv_conj length_append length_Cons not_add_less2 lessI add_Suc_right)
  qed
  with Cons.IH [OF s] show ?case by simp
qed simp

text \<open>Changing the predecessor of the first node, or the successor of the last one.\<close>

lemma dseg_set_first:
  assumes "dseg nx pv b p xs l e" and "distinct xs" and "xs \<noteq> []"
  shows "dseg nx (pv(hd xs := b')) b' p xs l e"
proof (cases xs)
  case (Cons y ys)
  have "dseg nx (pv(y := b')) (Some y) (nx y) ys l e = dseg nx pv (Some y) (nx y) ys l e"
    using Cons assms(2) by (intro dseg_cong) auto
  with Cons assms(1) show ?thesis by simp
qed (use assms in simp)

lemma dseg_set_last:
  assumes "distinct xs" and "xs \<noteq> []"
  shows "dseg nx pv b p xs l e \<Longrightarrow> dseg (nx(last xs := e')) pv b p xs l e'"
  using assms
proof (induction xs arbitrary: b p)
  case (Cons x xs)
  show ?case
  proof (cases xs)
    case Nil
    with Cons.prems show ?thesis by simp
  next
    case (Cons y ys)
    with Cons.IH [of "Some x" "nx x"] Cons.prems show ?thesis by auto
  qed
qed simp

section \<open>Nodes in a heap\<close>

definition hfield :: "('n \<Rightarrow> 'p option) \<Rightarrow> ('p \<rightharpoonup> 'n) \<Rightarrow> 'p \<Rightarrow> 'p option" where
  "hfield f h p = Option.bind (h p) f"

text \<open>A write to a node; a write to an address without a node has no effect.\<close>

definition hupd :: "('n \<Rightarrow> 'n) \<Rightarrow> 'p \<Rightarrow> ('p \<rightharpoonup> 'n) \<Rightarrow> ('p \<rightharpoonup> 'n)" where
  "hupd f p h = (case h p of None \<Rightarrow> h | Some n \<Rightarrow> h(p \<mapsto> f n))"

definition hupd_opt :: "('n \<Rightarrow> 'n) \<Rightarrow> 'p option \<Rightarrow> ('p \<rightharpoonup> 'n) \<Rightarrow> ('p \<rightharpoonup> 'n)" where
  "hupd_opt f p h = (case p of None \<Rightarrow> h | Some q \<Rightarrow> hupd f q h)"

lemma hupd_dom [simp]: "dom (hupd f p h) = dom h"
  by (auto simp: hupd_def split: option.splits)

lemma hupd_opt_dom [simp]: "dom (hupd_opt f p h) = dom h"
  by (simp add: hupd_opt_def split: option.splits)

lemma hupd_other [simp]: "q \<noteq> p \<Longrightarrow> hupd f p h q = h q"
  by (simp add: hupd_def split: option.splits)

lemma hupd_same: "h p = Some n \<Longrightarrow> hupd f p h p = Some (f n)"
  by (simp add: hupd_def)

lemma hupd_same_map: "hupd f p h p = map_option f (h p)"
  by (simp add: hupd_def split: option.splits)

text \<open>The chain from \<open>p\<close> in a heap, with all its nodes allocated.\<close>

definition hseg ::
    "('n \<Rightarrow> 'p option) \<Rightarrow> ('n \<Rightarrow> 'p option) \<Rightarrow> ('p \<rightharpoonup> 'n) \<Rightarrow> 'p option \<Rightarrow> 'p option \<Rightarrow> 'p list \<Rightarrow>
       'p option \<Rightarrow> 'p option \<Rightarrow> bool" where
  "hseg nx pv h b p xs l e \<longleftrightarrow> set xs \<subseteq> dom h \<and> dseg (hfield nx h) (hfield pv h) b p xs l e"

lemma hseg_distinct: "hseg nx pv h b p xs l None \<Longrightarrow> distinct xs"
  by (auto simp: hseg_def dest: dseg_distinct)

lemma hseg_cong:
  assumes "\<And>x. x \<in> set xs \<Longrightarrow> h' x \<noteq> None \<and> hfield nx h' x = hfield nx h x \<and> hfield pv h' x = hfield pv h x"
    and "hseg nx pv h b p xs l e"
  shows "hseg nx pv h' b p xs l e"
proof -
  have "dseg (hfield nx h') (hfield pv h') b p xs l e = dseg (hfield nx h) (hfield pv h) b p xs l e"
    by (rule dseg_cong) (use assms(1) in auto)
  with assms show ?thesis by (auto simp: hseg_def)
qed

lemma hfield_map_upd: "hfield f (h(p \<mapsto> n)) = (hfield f h)(p := f n)"
  by (auto simp: hfield_def)

lemma hfield_delete: "q \<noteq> p \<Longrightarrow> hfield f (h(p := None)) q = hfield f h q"
  by (simp add: hfield_def)

lemma hseg_ends:
  "hseg nx pv h None p xs l None \<Longrightarrow>
     p = (if xs = [] then None else Some (hd xs)) \<and> l = (if xs = [] then None else Some (last xs))"
  unfolding hseg_def by (auto dest: dseg_last dseg_first)

lemma hseg_heap_cong:
  assumes "\<And>x. x \<in> set xs \<Longrightarrow> h' x = h x" and "hseg nx pv h b p xs l e"
  shows "hseg nx pv h' b p xs l e"
  by (rule hseg_cong [OF _ assms(2)]) (use assms in \<open>auto simp: hfield_def hseg_def\<close>)

section \<open>What a node type offers\<close>

locale dnode =
  fixes nx pv :: "'n \<Rightarrow> 'p option"
    and set_nx set_pv :: "'p option \<Rightarrow> 'n \<Rightarrow> 'n"
  assumes nx_set_nx: "nx (set_nx q n) = q"
    and pv_set_nx: "pv (set_nx q n) = pv n"
    and pv_set_pv: "pv (set_pv q n) = q"
    and nx_set_pv: "nx (set_pv q n) = nx n"
begin

lemma hfield_hupd:
  "hfield nx (hupd (set_nx q) p h) = (if p \<in> dom h then (hfield nx h)(p := q) else hfield nx h)"
  "hfield pv (hupd (set_nx q) p h) = hfield pv h"
  "hfield pv (hupd (set_pv q) p h) = (if p \<in> dom h then (hfield pv h)(p := q) else hfield pv h)"
  "hfield nx (hupd (set_pv q) p h) = hfield nx h"
  by (auto simp: hfield_def hupd_def fun_eq_iff nx_set_nx pv_set_nx pv_set_pv nx_set_pv split: option.splits)

text \<open>A new node in front of the list.\<close>

lemma hseg_push:
  assumes "hseg nx pv h None p xs l None" and "x \<notin> set xs" and "h x = Some n"
    and "h' = hupd_opt (set_pv (Some x)) p (h(x \<mapsto> set_pv None (set_nx p n)))"
  shows "hseg nx pv h' None (Some x) (x # xs) (if xs = [] then Some x else l) None"
proof (cases xs)
  case Nil
  with assms show ?thesis
    by (auto simp: hseg_def hupd_opt_def hfield_map_upd nx_set_pv nx_set_nx pv_set_pv)
next
  case (Cons y ys)
  let ?h1 = "h(x \<mapsto> set_pv None (set_nx p n))"
  from assms(1) Cons have p: "p = Some y" and y: "y \<in> dom h" by (auto simp: hseg_def)
  have s1: "hseg nx pv ?h1 None p xs l None"
    using assms(1,2) by (intro hseg_cong [OF _ assms(1)]) (auto simp: hfield_def hseg_def)
  have "dseg (hfield nx ?h1) ((hfield pv ?h1)(hd xs := Some x)) (Some x) p xs l None"
    using s1 hseg_distinct [OF s1] Cons by (intro dseg_set_first) (auto simp: hseg_def)
  moreover have "y \<noteq> x" using assms(2) Cons by auto
  ultimately show ?thesis
    using assms(1,4) Cons p y
    by (auto simp: hseg_def hupd_opt_def hfield_hupd hfield_map_upd nx_set_pv nx_set_nx pv_set_pv)
qed

text \<open>Removal of a node that stands between two parts of the list.\<close>

lemma hseg_unlink:
  assumes s: "hseg nx pv h None p (as @ x # bs) l None"
    and h': "h' = hupd_opt (set_pv (hfield pv h x)) (hfield nx h x)
                   (hupd_opt (set_nx (hfield nx h x)) (hfield pv h x) h)"
  shows "hseg nx pv h' None (if hfield pv h x = None then hfield nx h x else p) (as @ bs)
           (if bs = [] then hfield pv h x else l) None"
    and "hfield pv h x = (if as = [] then None else Some (last as))"
    and "hfield nx h x = (if bs = [] then None else Some (hd bs))"
proof -
  let ?n = "hfield nx h" and ?p = "hfield pv h"
  from s obtain m where a: "dseg ?n ?p None p as m (Some x)" and px: "?p x = m"
    and b: "dseg ?n ?p (Some x) (?n x) bs l None" and sub: "set as \<union> set bs \<subseteq> dom h"
    by (auto simp: hseg_def dseg_append)
  have d: "distinct (as @ x # bs)" using s by (rule hseg_distinct)
  from dseg_last [OF a] px show pv: "?p x = (if as = [] then None else Some (last as))" by simp
  from dseg_first [OF b] show nxx: "?n x = (if bs = [] then None else Some (hd bs))" by simp
  define n' where "n' = (if as = [] then ?n else ?n(last as := ?n x))"
  define p' where "p' = (if bs = [] then ?p else ?p(hd bs := ?p x))"
  have la: "last as \<in> dom h" if "as \<noteq> []" using sub last_in_set [OF that] by blast
  have hb: "hd bs \<in> dom h" if "bs \<noteq> []" using sub hd_in_set [OF that] by blast
  have fields: "hfield nx h' = n'" "hfield pv h' = p'"
    using la hb pv nxx unfolding h' n'_def p'_def by (cases "bs = []"; simp add: hupd_opt_def hfield_hupd)+
  have a': "dseg n' p' None (if as = [] then ?n x else p) as m (?n x)"
  proof (cases "as = []")
    case True
    with a show ?thesis by simp
  next
    case False
    have "dseg (?n(last as := ?n x)) ?p None p as m (?n x)"
      using d False a by (intro dseg_set_last) auto
    moreover have "dseg n' p' None p as m (?n x) = dseg (?n(last as := ?n x)) ?p None p as m (?n x)"
      using False d by (intro dseg_cong) (auto simp: n'_def p'_def)
    ultimately show ?thesis using False by simp
  qed
  have b': "dseg n' p' m (?n x) bs (if bs = [] then m else l) None"
  proof (cases "bs = []")
    case True
    with b show ?thesis by simp
  next
    case False
    have "dseg ?n (?p(hd bs := m)) m (?n x) bs l None"
      using d False b by (intro dseg_set_first) auto
    moreover have "dseg n' p' m (?n x) bs l None = dseg ?n (?p(hd bs := m)) m (?n x) bs l None"
      using False d px by (intro dseg_cong) (auto simp: n'_def p'_def dest: last_in_set)
    ultimately show ?thesis using False by simp
  qed
  have "dseg n' p' None (if as = [] then ?n x else p) (as @ bs) (if bs = [] then m else l) None"
    unfolding dseg_append using a' b' by blast
  moreover have "set (as @ bs) \<subseteq> dom h'" using sub by (simp add: h')
  ultimately show "hseg nx pv h' None (if ?p x = None then ?n x else p) (as @ bs) (if bs = [] then ?p x else l) None"
    unfolding hseg_def fields using pv px by (simp split: if_splits)
qed

text \<open>A new node behind the last one.\<close>

lemma hseg_enqueue:
  assumes s: "hseg nx pv h None p xs l None" and x: "x \<notin> set xs" and n: "h x = Some n"
    and h': "h' = hupd_opt (set_nx (Some x)) l (h(x \<mapsto> set_nx None (set_pv l n)))"
  shows "hseg nx pv h' None (if xs = [] then Some x else p) (xs @ [x]) (Some x) None"
proof (cases "xs = []")
  case True
  with s h' show ?thesis
    by (auto simp: hseg_def hupd_opt_def hfield_map_upd nx_set_nx pv_set_nx pv_set_pv)
next
  case False
  let ?h1 = "h(x \<mapsto> set_nx None (set_pv l n))"
  from s have d: "dseg (hfield nx h) (hfield pv h) None p xs l None" and sub: "set xs \<subseteq> dom h"
    by (simp_all add: hseg_def)
  have l: "l = Some (last xs)" using dseg_last [OF d] False by simp
  from False have last: "last xs \<in> set xs" by simp
  with x have ne: "last xs \<noteq> x" by blast
  from last sub have "last xs \<in> dom h" by blast
  then have in_dom: "last xs \<in> dom ?h1" by simp
  have "dseg (hfield nx ?h1) (hfield pv ?h1) None p xs l None"
    using d x by (subst dseg_cong [of xs _ "hfield nx h" _ "hfield pv h"]) (auto simp: hfield_def)
  then have "dseg ((hfield nx ?h1)(last xs := Some x)) (hfield pv ?h1) None p xs l (Some x)"
    using False dseg_distinct [OF d] by (intro dseg_set_last)
  moreover have "hfield nx h' = (hfield nx ?h1)(last xs := Some x)" "hfield pv h' = hfield pv ?h1"
    using in_dom by (simp_all add: h' l hupd_opt_def hfield_hupd)
  moreover have "hfield nx h' x = None" "hfield pv h' x = l"
    using calculation(2,3) ne by (simp_all add: hfield_map_upd nx_set_nx pv_set_nx pv_set_pv)
  ultimately have "dseg (hfield nx h') (hfield pv h') None p (xs @ [x]) (Some x) None"
    by (auto simp: dseg_append)
  with False sub show ?thesis by (auto simp: hseg_def h' l hupd_opt_def)
qed

end

end
