(* ===== verification/Buffer_Model.thy ===== *)
theory Buffer_Model
  imports Linked_List
begin

unbundle bit_operations_syntax

text \<open>
  The data of the user-space memory module (\<^verbatim>\<open>src/userspace/memory/memory_internal.h\<close>), the C memory
  it works on, and the operations on a single buffer: GPU bindings and access rights.

  A pointer to a \<^verbatim>\<open>struct mvgal_buffer\<close> is an address in the heap of buffers, \<open>None\<close> being NULL;
  a pointer to bytes is a 64-bit word, 0 being NULL. Running into a fault ends a computation, see
  \<open>Mvgal_Prelude\<close>.
\<close>

section \<open>Data\<close>

datatype mvgal_buffer_backend_type_t =
    MVGAL_BUFFER_BACKEND_SYSTEM
  | MVGAL_BUFFER_BACKEND_DMA_BUF
  | MVGAL_BUFFER_BACKEND_DMA_BUF_IMPORTED
  | MVGAL_BUFFER_BACKEND_GPU
  | MVGAL_BUFFER_BACKEND_WRAPPED
  | MVGAL_BUFFER_BACKEND_P2P

abbreviation (input) MVGAL_BUFFER_STATE_ALLOCATED :: u32 where "MVGAL_BUFFER_STATE_ALLOCATED \<equiv> 1"
abbreviation (input) MVGAL_BUFFER_STATE_MAPPED :: u32 where "MVGAL_BUFFER_STATE_MAPPED \<equiv> 2"
abbreviation (input) MVGAL_BUFFER_STATE_EXPORTED :: u32 where "MVGAL_BUFFER_STATE_EXPORTED \<equiv> 4"
abbreviation (input) MVGAL_BUFFER_STATE_REPLICATED :: u32 where "MVGAL_BUFFER_STATE_REPLICATED \<equiv> 16"

abbreviation (input) MVGAL_MEMORY_FLAG_HOST_VALID :: u32 where "MVGAL_MEMORY_FLAG_HOST_VALID \<equiv> 1"
abbreviation (input) MVGAL_MEMORY_FLAG_CPU_CACHED :: u32 where "MVGAL_MEMORY_FLAG_CPU_CACHED \<equiv> 4"
abbreviation (input) MVGAL_MEMORY_FLAG_SHARED :: u32 where "MVGAL_MEMORY_FLAG_SHARED \<equiv> 16"
abbreviation (input) MVGAL_MEMORY_FLAG_DMA_BUF :: u32 where "MVGAL_MEMORY_FLAG_DMA_BUF \<equiv> 32"
abbreviation (input) MVGAL_MEMORY_FLAG_ZERO_INITIALIZED :: u32 where "MVGAL_MEMORY_FLAG_ZERO_INITIALIZED \<equiv> 1024"

abbreviation (input) MVGAL_MEMORY_ACCESS_READ :: u32 where "MVGAL_MEMORY_ACCESS_READ \<equiv> 1"
abbreviation (input) MVGAL_MEMORY_ACCESS_WRITE :: u32 where "MVGAL_MEMORY_ACCESS_WRITE \<equiv> 2"
abbreviation (input) MVGAL_MEMORY_ACCESS_READ_WRITE :: u32 where "MVGAL_MEMORY_ACCESS_READ_WRITE \<equiv> 3"

abbreviation (input) MVGAL_MEMORY_SHARING_NONE :: u32 where "MVGAL_MEMORY_SHARING_NONE \<equiv> 0"
abbreviation (input) MVGAL_MEMORY_SHARING_DMA_BUF :: u32 where "MVGAL_MEMORY_SHARING_DMA_BUF \<equiv> 4"
abbreviation (input) MVGAL_MEMORY_TYPE_SRAM :: u32 where "MVGAL_MEMORY_TYPE_SRAM \<equiv> 4"

abbreviation (input) MVGAL_BUFFER_ALIAS_FLAG_READ_ONLY :: u32 where "MVGAL_BUFFER_ALIAS_FLAG_READ_ONLY \<equiv> 1"
abbreviation (input) MVGAL_BUFFER_ALIAS_FLAG_WRITE_ONLY :: u32 where "MVGAL_BUFFER_ALIAS_FLAG_WRITE_ONLY \<equiv> 2"

abbreviation (input) MVGAL_FEATURE_DMA_BUF :: u64 where "MVGAL_FEATURE_DMA_BUF \<equiv> 1"

abbreviation (input) MVGAL_MAX_GPUS :: nat where "MVGAL_MAX_GPUS \<equiv> 16"

definition has_flag :: "'a::len word \<Rightarrow> 'a word \<Rightarrow> bool" where
  "has_flag flags f \<longleftrightarrow> flags AND f \<noteq> 0"

record mvgal_gpu_binding_t =
  gb_gpu_index :: u32
  gb_gpu_address :: u64
  gb_mapping :: u64
  gb_writable :: bool
  gb_readable :: bool
  gb_dmabuf_fd :: int

definition zero_binding :: mvgal_gpu_binding_t where
  "zero_binding =
     \<lparr>gb_gpu_index = 0, gb_gpu_address = 0, gb_mapping = 0, gb_writable = False, gb_readable = False, gb_dmabuf_fd = 0\<rparr>"

record mvgal_buffer =
  bf_refcount :: u32
  bf_state :: u32
  bf_backend :: mvgal_buffer_backend_type_t
  bf_size :: u64
  bf_alignment :: u64
  bf_flags :: u32
  bf_memory_type :: u32
  bf_sharing_mode :: u32
  bf_access :: u32
  bf_gpu_mask :: u32
  bf_priority :: u32
  bf_host_ptr :: u64
  bf_host_offset :: u64
  bf_dmabuf_fd :: int
  bf_dmabuf_offset :: u64
  bf_dmabuf_owner :: bool
  bf_gpu_bindings :: "mvgal_gpu_binding_t list"
  bf_gpu_binding_count :: u32
  bf_fence :: "nat option"
  bf_callback :: "nat option"
  bf_callback_user_data :: "nat option"
  bf_bytes_read :: u64
  bf_bytes_written :: u64
  bf_bytes_transferred :: u64
  bf_access_count :: "u32 list"
  bf_original_ptr :: u64
  bf_should_free :: bool
  bf_alias_parent :: "nat option"
  bf_aliases :: "nat option list"
  bf_alias_count :: u32
  bf_alias_offset :: u64
  bf_alias_size :: u64
  bf_alias_flags :: u32
  bf_is_alias :: bool
  bf_alias_detached :: bool
  bf_next :: "nat option"
  bf_prev :: "nat option"

text \<open>A buffer structure as \<^verbatim>\<open>calloc\<close> delivers it.\<close>

definition zero_buffer :: mvgal_buffer where
  "zero_buffer =
     \<lparr>bf_refcount = 0, bf_state = 0, bf_backend = MVGAL_BUFFER_BACKEND_SYSTEM, bf_size = 0, bf_alignment = 0,
      bf_flags = 0, bf_memory_type = 0, bf_sharing_mode = 0, bf_access = 0, bf_gpu_mask = 0, bf_priority = 0,
      bf_host_ptr = 0, bf_host_offset = 0, bf_dmabuf_fd = 0, bf_dmabuf_offset = 0, bf_dmabuf_owner = False,
      bf_gpu_bindings = replicate 16 zero_binding, bf_gpu_binding_count = 0, bf_fence = None,
      bf_callback = None, bf_callback_user_data = None, bf_bytes_read = 0, bf_bytes_written = 0,
      bf_bytes_transferred = 0, bf_access_count = replicate 16 0, bf_original_ptr = 0, bf_should_free = False,
      bf_alias_parent = None, bf_aliases = replicate 16 None, bf_alias_count = 0, bf_alias_offset = 0,
      bf_alias_size = 0, bf_alias_flags = 0, bf_is_alias = False, bf_alias_detached = False,
      bf_next = None, bf_prev = None\<rparr>"

text \<open>
  The state of the module. Besides the fields of \<^verbatim>\<open>mvgal_memory_state_t\<close> it has the heap of buffer
  structures, the bytes of memory, and what has been given back to the C library and the kernel:
  pointers passed to \<^verbatim>\<open>free\<close>, ranges unmapped, descriptors closed, fences destroyed.
\<close>

record mvgal_memory_state_t =
  ms_locked :: bool
  ms_initialized :: bool
  ms_buffers :: "nat option"
  ms_total_allocated :: u64
  ms_total_freed :: u64
  ms_system_heap_fd :: int
  ms_gpu_heap_fds :: "int list"
  ms_gpu_heap_count :: u32
  ms_gpu_features :: "u64 list"
  ms_gpu_count :: u32
  ms_heap :: "nat \<rightharpoonup> mvgal_buffer"
  ms_mem :: "u64 \<Rightarrow> 8 word"
  ms_freed :: "u64 list"
  ms_unmapped :: "(u64 \<times> u64) list"
  ms_closed :: "int list"
  ms_fences_destroyed :: "nat list"

section \<open>Access to the state\<close>

definition deref :: "mvgal_memory_state_t \<Rightarrow> nat \<Rightarrow> mvgal_buffer run" where
  "deref st p = (case ms_heap st p of None \<Rightarrow> Inl (Dangling p) | Some b \<Rightarrow> Inr b)"

definition put_buffer :: "nat \<Rightarrow> mvgal_buffer \<Rightarrow> mvgal_memory_state_t \<Rightarrow> mvgal_memory_state_t" where
  "put_buffer p b st = st\<lparr>ms_heap := (ms_heap st)(p \<mapsto> b)\<rparr>"

definition upd_buffer :: "(mvgal_buffer \<Rightarrow> mvgal_buffer) \<Rightarrow> nat \<Rightarrow> mvgal_memory_state_t \<Rightarrow> mvgal_memory_state_t run" where
  "upd_buffer f p st = bnd (deref st p) (\<lambda>b. Inr (put_buffer p (f b) st))"

definition upd_buffer_opt ::
    "(mvgal_buffer \<Rightarrow> mvgal_buffer) \<Rightarrow> nat option \<Rightarrow> mvgal_memory_state_t \<Rightarrow> mvgal_memory_state_t run" where
  "upd_buffer_opt f p st = (case p of None \<Rightarrow> Inr st | Some q \<Rightarrow> upd_buffer f q st)"

definition lock_state :: "mvgal_memory_state_t \<Rightarrow> mvgal_memory_state_t run" where
  "lock_state st = (if ms_locked st then Inl Self_Deadlock else Inr (st\<lparr>ms_locked := True\<rparr>))"

definition unlock_state :: "mvgal_memory_state_t \<Rightarrow> mvgal_memory_state_t" where
  "unlock_state st = st\<lparr>ms_locked := False\<rparr>"

text \<open>\<^verbatim>\<open>memcpy\<close> and \<^verbatim>\<open>memset\<close> on the bytes, and the bytes of a range.\<close>

definition bytes_at :: "(u64 \<Rightarrow> 8 word) \<Rightarrow> u64 \<Rightarrow> nat \<Rightarrow> 8 word list" where
  "bytes_at m p n = map (\<lambda>i. m (p + of_nat i)) [0..<n]"

definition store_bytes :: "u64 \<Rightarrow> 8 word list \<Rightarrow> (u64 \<Rightarrow> 8 word) \<Rightarrow> (u64 \<Rightarrow> 8 word)" where
  "store_bytes p bs m = (\<lambda>a. if unat (a - p) < length bs then bs ! unat (a - p) else m a)"

definition mem_copy :: "u64 \<Rightarrow> u64 \<Rightarrow> nat \<Rightarrow> (u64 \<Rightarrow> 8 word) \<Rightarrow> (u64 \<Rightarrow> 8 word)" where
  "mem_copy dst src n m = store_bytes dst (bytes_at m src n) m"

definition mem_zero :: "u64 \<Rightarrow> nat \<Rightarrow> (u64 \<Rightarrow> 8 word) \<Rightarrow> (u64 \<Rightarrow> 8 word)" where
  "mem_zero dst n m = (\<lambda>a. if unat (a - dst) < n then 0 else m a)"

text \<open>The insertion at the head of the global buffer list that every constructor of buffers does.\<close>

definition list_insert :: "nat \<Rightarrow> bool \<Rightarrow> mvgal_memory_state_t \<Rightarrow> mvgal_memory_state_t run" where
  "list_insert p reset_prev st =
     bnd (upd_buffer (\<lambda>b. let b = b\<lparr>bf_next := ms_buffers st\<rparr> in if reset_prev then b\<lparr>bf_prev := None\<rparr> else b) p st)
       (\<lambda>st. bnd (upd_buffer_opt (\<lambda>b. b\<lparr>bf_prev := Some p\<rparr>) (ms_buffers st) st)
         (\<lambda>st. Inr (st\<lparr>ms_buffers := Some p\<rparr>)))"

section \<open>Bindings of a buffer\<close>

definition bit_u32 :: "u32 \<Rightarrow> u32" where
  "bit_u32 i = push_bit (unat i) 1"

definition find_binding :: "mvgal_buffer \<Rightarrow> u32 \<Rightarrow> nat option" where
  "find_binding b g =
     find (\<lambda>i. gb_gpu_index (bf_gpu_bindings b ! i) = g) [0..<unat (bf_gpu_binding_count b)]"

definition upd_binding :: "nat \<Rightarrow> (mvgal_gpu_binding_t \<Rightarrow> mvgal_gpu_binding_t) \<Rightarrow> mvgal_buffer \<Rightarrow> mvgal_buffer" where
  "upd_binding i f b = b\<lparr>bf_gpu_bindings := (bf_gpu_bindings b)[i := f (bf_gpu_bindings b ! i)]\<rparr>"

definition mvgal_buffer_bind_to_gpu ::
    "u32 \<Rightarrow> mvgal_buffer \<Rightarrow> u32 \<Rightarrow> bool \<Rightarrow> mvgal_error_t \<times> mvgal_buffer" where
  "mvgal_buffer_bind_to_gpu gpu_count b gpu_index writable =
     (if 16 \<le> gpu_index then (MVGAL_ERROR_INVALID_ARGUMENT, b)
      else if gpu_count \<le> gpu_index then (MVGAL_ERROR_GPU_NOT_FOUND, b)
      else case find_binding b gpu_index of
        Some i \<Rightarrow> (MVGAL_SUCCESS, upd_binding i (\<lambda>g. g\<lparr>gb_writable := writable, gb_readable := True\<rparr>) b)
      | None \<Rightarrow>
          (let b = (if has_flag (bf_gpu_mask b) (bit_u32 gpu_index) then b
                    else b\<lparr>bf_gpu_mask := bf_gpu_mask b OR bit_u32 gpu_index\<rparr>)
           in if bf_gpu_binding_count b < 16
              then (MVGAL_SUCCESS,
                    (upd_binding (unat (bf_gpu_binding_count b))
                       (\<lambda>g. g\<lparr>gb_gpu_index := gpu_index, gb_mapping := bf_host_ptr b, gb_writable := writable,
                              gb_readable := True, gb_dmabuf_fd := bf_dmabuf_fd b\<rparr>) b)
                      \<lparr>bf_gpu_binding_count := bf_gpu_binding_count b + 1\<rparr>)
              else (MVGAL_ERROR_MEMORY, b)))"

definition unmap_binding :: "u64 \<Rightarrow> mvgal_gpu_binding_t \<Rightarrow> mvgal_gpu_binding_t" where
  "unmap_binding host_ptr g =
     (if gb_mapping g \<noteq> 0 \<and> gb_mapping g \<noteq> host_ptr then g\<lparr>gb_mapping := 0\<rparr> else g)"

definition mvgal_buffer_unbind :: "mvgal_buffer \<Rightarrow> mvgal_buffer" where
  "mvgal_buffer_unbind b =
     (let n = unat (bf_gpu_binding_count b)
      in b\<lparr>bf_gpu_bindings :=
             map (unmap_binding (bf_host_ptr b)) (take n (bf_gpu_bindings b)) @ drop n (bf_gpu_bindings b),
           bf_gpu_binding_count := 0\<rparr>)"

definition mvgal_dmabuf_is_supported :: "mvgal_memory_state_t \<Rightarrow> u32 \<Rightarrow> bool" where
  "mvgal_dmabuf_is_supported st gpu_mask =
     (gpu_mask \<noteq> 0 \<and>
      list_all (\<lambda>i. has_flag gpu_mask (push_bit i 1) \<longrightarrow> has_flag (ms_gpu_features st ! i) MVGAL_FEATURE_DMA_BUF)
        [0..<unat (ms_gpu_count st)])"

section \<open>Access rights\<close>

definition mvgal_memory_set_access :: "u32 \<Rightarrow> mvgal_buffer \<Rightarrow> u32 \<Rightarrow> u32 \<Rightarrow> mvgal_error_t \<times> mvgal_buffer" where
  "mvgal_memory_set_access gpu_count b gpu_index access =
     (if 16 \<le> gpu_index then (MVGAL_ERROR_INVALID_ARGUMENT, b)
      else
        (let b = (if access \<noteq> 0 then b\<lparr>bf_gpu_mask := bf_gpu_mask b OR bit_u32 gpu_index\<rparr>
                  else b\<lparr>bf_gpu_mask := bf_gpu_mask b AND NOT (bit_u32 gpu_index)\<rparr>);
             rd = has_flag access (MVGAL_MEMORY_ACCESS_READ OR MVGAL_MEMORY_ACCESS_READ_WRITE);
             wr = has_flag access (MVGAL_MEMORY_ACCESS_WRITE OR MVGAL_MEMORY_ACCESS_READ_WRITE)
         in case find_binding b gpu_index of
              Some i \<Rightarrow> (MVGAL_SUCCESS, upd_binding i (\<lambda>g. g\<lparr>gb_readable := rd, gb_writable := wr\<rparr>) b)
            | None \<Rightarrow>
                (MVGAL_SUCCESS,
                 if access \<noteq> 0 then snd (mvgal_buffer_bind_to_gpu gpu_count b gpu_index wr) else b)))"

definition mvgal_memory_get_access :: "mvgal_buffer \<Rightarrow> u32 \<Rightarrow> mvgal_error_t \<times> u32 option" where
  "mvgal_memory_get_access b gpu_index =
     (if 16 \<le> gpu_index then (MVGAL_ERROR_INVALID_ARGUMENT, None)
      else if \<not> has_flag (bf_gpu_mask b) (bit_u32 gpu_index) then (MVGAL_SUCCESS, Some 0)
      else case find_binding b gpu_index of
             Some i \<Rightarrow>
               (let g = bf_gpu_bindings b ! i
                in (MVGAL_SUCCESS,
                    Some ((if gb_readable g then MVGAL_MEMORY_ACCESS_READ else 0)
                          OR (if gb_writable g then MVGAL_MEMORY_ACCESS_WRITE else 0))))
           | None \<Rightarrow> (MVGAL_SUCCESS, Some MVGAL_MEMORY_ACCESS_READ_WRITE))"

definition mvgal_memory_is_accessible :: "mvgal_buffer \<Rightarrow> u32 \<Rightarrow> bool" where
  "mvgal_memory_is_accessible b gpu_index \<longleftrightarrow>
     gpu_index < 16 \<and> has_flag (bf_gpu_mask b) (bit_u32 gpu_index)"

definition mvgal_buffer_get_gpu_address :: "mvgal_buffer \<Rightarrow> u32 \<Rightarrow> mvgal_error_t \<times> u64 option" where
  "mvgal_buffer_get_gpu_address b gpu_index =
     (if 16 \<le> gpu_index then (MVGAL_ERROR_INVALID_ARGUMENT, None)
      else
        (let bound = (case find_binding b gpu_index of
                        Some i \<Rightarrow> gb_gpu_address (bf_gpu_bindings b ! i)
                      | None \<Rightarrow> 0)
         in if bound \<noteq> 0 then (MVGAL_SUCCESS, Some bound)
            else if 0 \<le> bf_dmabuf_fd b then (MVGAL_SUCCESS, Some (bf_host_ptr b))
            else (MVGAL_ERROR_NOT_SUPPORTED, Some 0)))"

section \<open>Lemmas on bytes\<close>

lemma unat_of_nat_u64: "i < 2 ^ 64 \<Longrightarrow> unat (of_nat i :: u64) = i"
  by (simp add: unat_of_nat take_bit_nat_eq_self)

lemma length_bytes_at [simp]: "length (bytes_at m p n) = n"
  by (simp add: bytes_at_def)

lemma bytes_at_store: "length bs \<le> 2 ^ 64 \<Longrightarrow> bytes_at (store_bytes p bs m) p (length bs) = bs"
  by (rule nth_equalityI) (simp_all add: bytes_at_def store_bytes_def unat_of_nat_u64)

lemma mem_copy_bytes: "n \<le> 2 ^ 64 \<Longrightarrow> bytes_at (mem_copy dst src n m) dst n = bytes_at m src n"
  using bytes_at_store [of "bytes_at m src n" dst m] by (simp add: mem_copy_def)

lemma store_bytes_other: "length bs \<le> unat (a - p) \<Longrightarrow> store_bytes p bs m a = m a"
  by (simp add: store_bytes_def)

section \<open>The invariant of the bindings\<close>

text \<open>
  The used bindings are for distinct GPUs below 16 that are in the mask.
\<close>

definition bound_gpus :: "mvgal_buffer \<Rightarrow> u32 list" where
  "bound_gpus b = map gb_gpu_index (take (unat (bf_gpu_binding_count b)) (bf_gpu_bindings b))"

definition bindings_wf :: "mvgal_buffer \<Rightarrow> bool" where
  "bindings_wf b \<longleftrightarrow> length (bf_gpu_bindings b) = 16 \<and> bf_gpu_binding_count b \<le> 16
     \<and> distinct (bound_gpus b)
     \<and> (\<forall>g \<in> set (bound_gpus b). g < 16 \<and> has_flag (bf_gpu_mask b) (bit_u32 g))"

lemma has_flag_bit: "has_flag w (push_bit i 1) \<longleftrightarrow> bit w i" for w :: u32
  by (simp add: has_flag_def push_bit_eq_mult and_exp_eq_0_iff_not_bit)

lemma has_flag_or: "has_flag (a OR b) f \<longleftrightarrow> has_flag a f \<or> has_flag b f"
  by (simp add: has_flag_def bit.conj_disj_distrib2 or_eq_0_iff)

lemma bindings_count:
  assumes "bindings_wf b" shows "length (bound_gpus b) = unat (bf_gpu_binding_count b)"
    and "unat (bf_gpu_binding_count b) \<le> 16"
  using assms by (auto simp: bindings_wf_def bound_gpus_def word_le_nat_alt)

lemma find_binding_SomeD:
  assumes "bindings_wf b" and "find_binding b g = Some i"
  shows "i < unat (bf_gpu_binding_count b)" "gb_gpu_index (bf_gpu_bindings b ! i) = g"
  using assms by (auto simp: find_binding_def find_upt_Some)

lemma set_bound_gpus:
  assumes "bindings_wf b"
  shows "set (bound_gpus b) = (\<lambda>i. gb_gpu_index (bf_gpu_bindings b ! i)) ` {0..<unat (bf_gpu_binding_count b)}"
proof -
  have "unat (bf_gpu_binding_count b) \<le> length (bf_gpu_bindings b)"
    using assms bindings_count(2) [OF assms] by (simp add: bindings_wf_def)
  from nth_image [OF this] show ?thesis by (simp add: bound_gpus_def image_image [symmetric])
qed

lemma find_binding_None_iff:
  assumes "bindings_wf b" shows "find_binding b g = None \<longleftrightarrow> g \<notin> set (bound_gpus b)"
  unfolding set_bound_gpus [OF assms] by (auto simp: find_binding_def find_upt_None)

text \<open>There is always room for a GPU that has no binding yet.\<close>

lemma binding_room:
  assumes wf: "bindings_wf b" and "g < 16" and "find_binding b g = None"
  shows "unat (bf_gpu_binding_count b) < 16"
proof -
  have "set (map unat (bound_gpus b)) \<subseteq> {..<16} - {unat g}"
  proof
    fix x assume "x \<in> set (map unat (bound_gpus b))"
    then obtain h where h: "h \<in> set (bound_gpus b)" "x = unat h" by auto
    with wf have "h < 16" by (auto simp: bindings_wf_def)
    moreover from h assms(3) find_binding_None_iff [OF wf] have "h \<noteq> g" by auto
    ultimately show "x \<in> {..<16} - {unat g}" using h by (auto simp: word_less_nat_alt dest: unsigned_word_eqI)
  qed
  then have "card (set (map unat (bound_gpus b))) \<le> card ({..<16} - {unat g})"
    by (intro card_mono) auto
  moreover have "card ({..<16} - {unat g}) = 15" using assms(2) by (simp add: word_less_nat_alt)
  moreover have "distinct (map unat (bound_gpus b))"
    using wf by (auto simp: bindings_wf_def distinct_map inj_on_def intro: unsigned_word_eqI)
  ultimately show ?thesis using bindings_count(1) [OF wf] distinct_card [of "map unat (bound_gpus b)"] by simp
qed

lemma upd_binding_index:
  "(\<And>g. gb_gpu_index (f g) = gb_gpu_index g) \<Longrightarrow>
     gb_gpu_index (bf_gpu_bindings (upd_binding i f b) ! j) = gb_gpu_index (bf_gpu_bindings b ! j)"
  by (cases "i < length (bf_gpu_bindings b)"; cases "i = j") (simp_all add: upd_binding_def list_update_beyond)

lemma bound_gpus_upd_same:
  "(\<And>g. gb_gpu_index (f g) = gb_gpu_index g) \<Longrightarrow> bound_gpus (upd_binding i f b) = bound_gpus b"
  by (rule nth_equalityI) (simp_all add: bound_gpus_def upd_binding_index, simp_all add: upd_binding_def)

lemma bindings_wf_upd_same:
  "bindings_wf b \<Longrightarrow> (\<And>g. gb_gpu_index (f g) = gb_gpu_index g) \<Longrightarrow> bindings_wf (upd_binding i f b)"
  by (simp add: bindings_wf_def bound_gpus_upd_same) (simp add: upd_binding_def)

lemma find_binding_upd_same:
  "(\<And>g. gb_gpu_index (f g) = gb_gpu_index g) \<Longrightarrow> find_binding (upd_binding i f b) h = find_binding b h"
  unfolding find_binding_def
  by (simp add: upd_binding_index) (simp add: upd_binding_def)

definition add_binding :: "u32 \<Rightarrow> bool \<Rightarrow> mvgal_buffer \<Rightarrow> mvgal_buffer" where
  "add_binding g w b =
     (upd_binding (unat (bf_gpu_binding_count b))
        (\<lambda>x. x\<lparr>gb_gpu_index := g, gb_mapping := bf_host_ptr b, gb_writable := w,
               gb_readable := True, gb_dmabuf_fd := bf_dmabuf_fd b\<rparr>) b)
       \<lparr>bf_gpu_binding_count := bf_gpu_binding_count b + 1, bf_gpu_mask := bf_gpu_mask b OR bit_u32 g\<rparr>"

lemma bit_bit_u32: "bit (bit_u32 g) n \<longleftrightarrow> n = unat g \<and> n < 32"
  by (auto simp: bit_u32_def bit_push_bit_iff bit_1_iff simp del: push_bit_of_1)

lemma has_flag_bit_u32: "has_flag w (bit_u32 g) \<longleftrightarrow> bit w (unat g)"
  by (simp add: bit_u32_def has_flag_bit del: push_bit_of_1)

lemma or_absorb: "a OR bit_u32 g = a" if "has_flag a (bit_u32 g)" for a :: u32
  using that by (intro bit_eqI) (auto simp: has_flag_bit_u32 bit_or_iff bit_bit_u32)

lemma bind_new:
  assumes "bindings_wf b" and "g < 16" and "g < n" and "find_binding b g = None"
  shows "mvgal_buffer_bind_to_gpu n b g w = (MVGAL_SUCCESS, add_binding g w b)"
proof -
  have "bf_gpu_binding_count b < 16" using binding_room [OF assms(1,2,4)] by (simp add: word_less_nat_alt)
  moreover have "b\<lparr>bf_gpu_mask := bf_gpu_mask b\<rparr> = b" by simp
  ultimately show ?thesis
    using assms by (auto simp: mvgal_buffer_bind_to_gpu_def add_binding_def upd_binding_def or_absorb not_le)
qed

lemma add_binding_gpus:
  assumes "bindings_wf b" and "unat (bf_gpu_binding_count b) < 16"
  shows "bound_gpus (add_binding g w b) = bound_gpus b @ [g]"
    and "unat (bf_gpu_binding_count (add_binding g w b)) = Suc (unat (bf_gpu_binding_count b))"
proof -
  have u: "unat (bf_gpu_binding_count b + 1) = Suc (unat (bf_gpu_binding_count b))"
    using assms(2) by (subst unat_add_no_wrap) simp_all
  then show "unat (bf_gpu_binding_count (add_binding g w b)) = Suc (unat (bf_gpu_binding_count b))"
    by (simp add: add_binding_def)
  show "bound_gpus (add_binding g w b) = bound_gpus b @ [g]"
    using assms by (simp add: bound_gpus_def add_binding_def upd_binding_def u bindings_wf_def take_Suc_conv_app_nth)
qed

lemma add_binding_wf:
  assumes "bindings_wf b" and "g < 16" and "find_binding b g = None"
  shows "bindings_wf (add_binding g w b)"
proof -
  have room: "unat (bf_gpu_binding_count b) < 16" by (rule binding_room [OF assms])
  have "has_flag (bit_u32 g) (bit_u32 g)" using assms(2)
    by (simp add: has_flag_bit_u32 bit_bit_u32 word_less_nat_alt)
  with assms room add_binding_gpus [OF assms(1) room] find_binding_None_iff [OF assms(1)] show ?thesis
    unfolding bindings_wf_def
    by (auto simp: add_binding_def upd_binding_def has_flag_or word_le_nat_alt)
qed

lemma add_binding_find:
  assumes "bindings_wf b" and "g < 16" and "find_binding b g = None"
  shows "find_binding (add_binding g w b) g = Some (unat (bf_gpu_binding_count b))"
    and "bf_gpu_bindings (add_binding g w b) ! unat (bf_gpu_binding_count b) =
      (bf_gpu_bindings b ! unat (bf_gpu_binding_count b))
        \<lparr>gb_gpu_index := g, gb_mapping := bf_host_ptr b, gb_writable := w, gb_readable := True, gb_dmabuf_fd := bf_dmabuf_fd b\<rparr>"
proof -
  let ?n = "unat (bf_gpu_binding_count b)"
  have room: "?n < 16" by (rule binding_room [OF assms])
  have len: "length (bf_gpu_bindings b) = 16" using assms(1) by (simp add: bindings_wf_def)
  show nth: "bf_gpu_bindings (add_binding g w b) ! ?n =
      (bf_gpu_bindings b ! ?n)
        \<lparr>gb_gpu_index := g, gb_mapping := bf_host_ptr b, gb_writable := w, gb_readable := True, gb_dmabuf_fd := bf_dmabuf_fd b\<rparr>"
    using room len by (simp add: add_binding_def upd_binding_def)
  have "\<forall>j < ?n. gb_gpu_index (bf_gpu_bindings (add_binding g w b) ! j) \<noteq> g"
    using assms(3) room len by (auto simp: find_binding_def find_upt_None add_binding_def upd_binding_def)
  with nth room add_binding_gpus(2) [OF assms(1) room, of g w]
  show "find_binding (add_binding g w b) g = Some ?n"
    by (simp add: find_binding_def find_upt_Some del: upt_Suc)
qed
section \<open>Properties\<close>



text \<open>
  Setting the access of a bound GPU to read only makes it writable as well: the mask the code
  tests for the write right is \<^verbatim>\<open>WRITE | READ_WRITE\<close>, which contains the bit of \<^verbatim>\<open>READ\<close>.
\<close>

theorem set_access_read_grants_write:
  assumes "bindings_wf b" and "g < 16" and "find_binding b g = Some i"
  shows "\<exists>b'. mvgal_memory_set_access gpu_count b g MVGAL_MEMORY_ACCESS_READ = (MVGAL_SUCCESS, b')
    \<and> mvgal_memory_get_access b' g = (MVGAL_SUCCESS, Some MVGAL_MEMORY_ACCESS_READ_WRITE)"
proof -
  let ?f = "\<lambda>x :: mvgal_gpu_binding_t. x\<lparr>gb_readable := True, gb_writable := True\<rparr>"
  let ?b = "b\<lparr>bf_gpu_mask := bf_gpu_mask b OR bit_u32 g\<rparr>"
  have i: "i < length (bf_gpu_bindings b)"
    using find_binding_SomeD(1) [OF assms(1,3)] bindings_count(2) [OF assms(1)] assms(1)
    by (simp add: bindings_wf_def)
  have f: "find_binding ?b g = Some i" using assms(3) by (simp add: find_binding_def)
  have set: "mvgal_memory_set_access gpu_count b g MVGAL_MEMORY_ACCESS_READ = (MVGAL_SUCCESS, upd_binding i ?f ?b)"
    using f assms(2) by (simp add: mvgal_memory_set_access_def has_flag_def not_le)
  have "find_binding (upd_binding i ?f ?b) g = Some i" using f find_binding_upd_same [of ?f i ?b g] by simp
  with i assms(2) have "mvgal_memory_get_access (upd_binding i ?f ?b) g = (MVGAL_SUCCESS, Some MVGAL_MEMORY_ACCESS_READ_WRITE)"
    by (simp add: mvgal_memory_get_access_def upd_binding_def has_flag_bit_u32 bit_or_iff bit_bit_u32
        word_less_nat_alt not_le)
  with set show ?thesis by blast
qed

text \<open>The instance at a buffer bound to GPU 0 without any right.\<close>

lemma set_access_read_grants_write_witness:
  "let b = zero_buffer\<lparr>bf_gpu_binding_count := 1, bf_gpu_mask := 1\<rparr>
   in \<exists>b'. mvgal_memory_set_access 1 b 0 1 = (MVGAL_SUCCESS, b') \<and> mvgal_memory_get_access b' 0 = (MVGAL_SUCCESS, Some 3)"
  unfolding Let_def
  by (rule set_access_read_grants_write [where i = 0])
    (simp_all add: bindings_wf_def zero_buffer_def zero_binding_def bound_gpus_def find_binding_def
      has_flag_def bit_u32_def word_le_nat_alt)

end
