(* ===== verification/Buffer_Alloc.thy ===== *)
theory Buffer_Alloc
  imports Buffer_Model
begin

unbundle bit_operations_syntax

text \<open>
  Allocation, release and aliasing of buffers: \<^verbatim>\<open>src/userspace/memory/allocator.c\<close> and the parts of
  \<^verbatim>\<open>dmabuf.c\<close> it calls. What the C library and the kernel answer is an argument: the address of a
  fresh structure, of fresh memory, file descriptors and mappings.
\<close>

section \<open>DMA-BUF memory\<close>

text \<open>
  \<open>de_ioctl\<close> is the descriptor the DMA-BUF heap delivers, \<open>de_memfd\<close> and \<open>de_tmpfd\<close> those of
  \<^verbatim>\<open>memfd_create\<close> (negative as well when it is not compiled in) and \<^verbatim>\<open>mkostemp\<close>, \<open>de_mmap\<close> the
  mapping (\<open>None\<close> for \<^verbatim>\<open>MAP_FAILED\<close>).
\<close>

record dmabuf_env =
  de_ioctl :: "int option"
  de_memfd :: int
  de_tmpfd :: int
  de_ftruncate_ok :: bool
  de_mmap :: "u64 option"

definition dmabuf_fd :: "dmabuf_env \<Rightarrow> mvgal_memory_state_t \<Rightarrow> int \<times> mvgal_memory_state_t" where
  "dmabuf_fd env st =
     (let fd = (if 0 \<le> ms_system_heap_fd st then case_option (-1) id (de_ioctl env) else -1)
      in if fd < 0 then
           (let memfd = (if de_memfd env < 0 then de_tmpfd env else de_memfd env)
            in if 0 \<le> memfd then
                 (if de_ftruncate_ok env then (memfd, st)
                  else (-1, st\<lparr>ms_closed := memfd # ms_closed st\<rparr>))
               else (-1, st))
         else (fd, st))"

definition mvgal_dmabuf_allocate ::
    "dmabuf_env \<Rightarrow> u64 \<Rightarrow> u32 \<Rightarrow> mvgal_memory_state_t \<Rightarrow> mvgal_error_t \<times> int \<times> u64 \<times> mvgal_memory_state_t" where
  "mvgal_dmabuf_allocate env sz flags st =
     (let (fd, st) = dmabuf_fd env st
      in if fd < 0 then (MVGAL_ERROR_MEMORY, -1, 0, st)
         else case de_mmap env of
                None \<Rightarrow> (MVGAL_ERROR_MEMORY, -1, 0, st\<lparr>ms_closed := fd # ms_closed st\<rparr>)
              | Some ptr \<Rightarrow>
                  (MVGAL_SUCCESS, fd, ptr,
                   if has_flag flags MVGAL_MEMORY_FLAG_ZERO_INITIALIZED
                   then st\<lparr>ms_mem := mem_zero ptr (unat sz) (ms_mem st)\<rparr> else st))"

definition mvgal_dmabuf_free :: "int \<Rightarrow> u64 \<Rightarrow> u64 \<Rightarrow> mvgal_memory_state_t \<Rightarrow> mvgal_memory_state_t" where
  "mvgal_dmabuf_free fd ptr sz st =
     (let st = (if ptr \<noteq> 0 \<and> ptr \<noteq> UINT64_MAX then st\<lparr>ms_unmapped := (ptr, sz) # ms_unmapped st\<rparr> else st)
      in if 0 \<le> fd then st\<lparr>ms_closed := fd # ms_closed st\<rparr> else st)"

section \<open>Allocation\<close>

record mvgal_memory_alloc_info_t =
  ai_size :: u64
  ai_alignment :: u64
  ai_flags :: u32
  ai_memory_type :: u32
  ai_sharing_mode :: u32
  ai_access :: u32
  ai_gpu_mask :: u32
  ai_priority :: u32

text \<open>\<open>ae_calloc\<close> is the address of the structure, \<open>ae_malloc\<close> and \<open>ae_memalign\<close> that of the memory.\<close>

record alloc_env =
  ae_calloc :: "nat option"
  ae_malloc :: u64
  ae_memalign :: u64
  ae_dmabuf :: dmabuf_env

definition aligned_size :: "u64 \<Rightarrow> u64 \<Rightarrow> u64" where
  "aligned_size sz alignment =
     (if 0 < alignment then (sz + alignment - 1) AND NOT (alignment - 1) else sz)"

definition fresh_buffer :: "mvgal_memory_alloc_info_t \<Rightarrow> mvgal_buffer" where
  "fresh_buffer ai =
     zero_buffer\<lparr>bf_size := ai_size ai, bf_alignment := ai_alignment ai, bf_flags := ai_flags ai,
       bf_memory_type := ai_memory_type ai, bf_sharing_mode := ai_sharing_mode ai, bf_access := ai_access ai,
       bf_gpu_mask := ai_gpu_mask ai, bf_priority := ai_priority ai, bf_dmabuf_fd := -1, bf_refcount := 1\<rparr>"

definition wants_dmabuf :: "mvgal_memory_alloc_info_t \<Rightarrow> bool" where
  "wants_dmabuf ai \<longleftrightarrow>
     has_flag (ai_flags ai) MVGAL_MEMORY_FLAG_DMA_BUF \<or> ai_sharing_mode ai = MVGAL_MEMORY_SHARING_DMA_BUF
     \<or> (ai_gpu_mask ai \<noteq> 0 \<and> 1 < popcount (ai_gpu_mask ai))"

text \<open>The loop that binds a DMA-BUF to the GPUs of the mask: binding \<open>i\<close> of GPU \<open>i\<close>.\<close>

fun bind_mask :: "u32 \<Rightarrow> u64 \<Rightarrow> bool \<Rightarrow> nat list \<Rightarrow> mvgal_buffer \<Rightarrow> mvgal_buffer" where
  "bind_mask msk ptr wr [] b = b"
| "bind_mask msk ptr wr (i # is) b =
     bind_mask msk ptr wr is
       (if has_flag msk (push_bit i 1)
        then (upd_binding i (\<lambda>g. g\<lparr>gb_gpu_index := of_nat i, gb_mapping := ptr, gb_readable := True, gb_writable := wr\<rparr>) b)
               \<lparr>bf_gpu_binding_count := bf_gpu_binding_count b + 1\<rparr>
        else b)"

definition dmabuf_buffer :: "mvgal_memory_alloc_info_t \<Rightarrow> int \<Rightarrow> u64 \<Rightarrow> mvgal_buffer" where
  "dmabuf_buffer ai fd ptr =
     bind_mask (ai_gpu_mask ai) ptr (has_flag (ai_access ai) MVGAL_MEMORY_ACCESS_WRITE) [0..<MVGAL_MAX_GPUS]
       ((fresh_buffer ai)\<lparr>bf_host_ptr := ptr, bf_dmabuf_fd := fd, bf_dmabuf_owner := True,
          bf_backend := MVGAL_BUFFER_BACKEND_DMA_BUF,
          bf_state := MVGAL_BUFFER_STATE_ALLOCATED OR MVGAL_BUFFER_STATE_MAPPED\<rparr>)"

definition system_buffer :: "mvgal_memory_alloc_info_t \<Rightarrow> u64 \<Rightarrow> mvgal_buffer" where
  "system_buffer ai ptr =
     (fresh_buffer ai)\<lparr>bf_host_ptr := ptr, bf_original_ptr := ptr, bf_should_free := True,
        bf_backend := MVGAL_BUFFER_BACKEND_SYSTEM,
        bf_state := (if has_flag (ai_flags ai) MVGAL_MEMORY_FLAG_HOST_VALID
                     then MVGAL_BUFFER_STATE_ALLOCATED OR MVGAL_BUFFER_STATE_MAPPED
                     else MVGAL_BUFFER_STATE_ALLOCATED)\<rparr>"

definition allocate_system ::
    "alloc_env \<Rightarrow> mvgal_memory_alloc_info_t \<Rightarrow> u64 \<Rightarrow> nat \<Rightarrow> mvgal_memory_state_t \<Rightarrow>
       mvgal_error_t \<times> nat option \<times> mvgal_memory_state_t" where
  "allocate_system env ai asz p st =
     (let ptr = (if has_flag (ai_flags ai) MVGAL_MEMORY_FLAG_HOST_VALID \<and> 8 < ai_alignment ai
                 then ae_memalign env else ae_malloc env)
      in if ptr = 0 then (MVGAL_ERROR_OUT_OF_MEMORY, None, st)
         else
           (let st = (if has_flag (ai_flags ai) MVGAL_MEMORY_FLAG_ZERO_INITIALIZED
                      then st\<lparr>ms_mem := mem_zero ptr (unat asz) (ms_mem st)\<rparr> else st)
            in (MVGAL_SUCCESS, Some p, put_buffer p (system_buffer ai ptr) st)))"

definition mvgal_buffer_allocate_internal ::
    "alloc_env \<Rightarrow> mvgal_memory_alloc_info_t \<Rightarrow> mvgal_memory_state_t \<Rightarrow>
       mvgal_error_t \<times> nat option \<times> mvgal_memory_state_t" where
  "mvgal_buffer_allocate_internal env ai st =
     (if ai_size ai = 0 then (MVGAL_ERROR_INVALID_ARGUMENT, None, st)
      else let asz = aligned_size (ai_size ai) (ai_alignment ai)
           in case ae_calloc env of
                None \<Rightarrow> (MVGAL_ERROR_OUT_OF_MEMORY, None, st)
              | Some p \<Rightarrow>
                  if wants_dmabuf ai \<and> mvgal_dmabuf_is_supported st (ai_gpu_mask ai)
                  then (case mvgal_dmabuf_allocate (ae_dmabuf env) asz (ai_flags ai) st of
                          (err, fd, ptr, st) \<Rightarrow>
                            if err = MVGAL_SUCCESS \<and> 0 \<le> fd \<and> ptr \<noteq> 0
                            then (MVGAL_SUCCESS, Some p, put_buffer p (dmabuf_buffer ai fd ptr) st)
                            else allocate_system env ai asz p st)
                  else allocate_system env ai asz p st)"

section \<open>Reference counts and release\<close>

definition mvgal_buffer_retain :: "nat option \<Rightarrow> mvgal_memory_state_t \<Rightarrow> mvgal_memory_state_t run" where
  "mvgal_buffer_retain p st = upd_buffer_opt (\<lambda>b. b\<lparr>bf_refcount := bf_refcount b + 1\<rparr>) p st"

text \<open>The loop over the aliases of a buffer that is freed.\<close>

fun detach_aliases :: "nat option list \<Rightarrow> mvgal_memory_state_t \<Rightarrow> mvgal_memory_state_t run" where
  "detach_aliases [] st = Inr st"
| "detach_aliases (a # as) st =
     bnd (upd_buffer_opt
            (\<lambda>b. b\<lparr>bf_alias_parent := None, bf_alias_detached := True, bf_is_alias := False, bf_should_free := True\<rparr>) a st)
       (detach_aliases as)"

text \<open>Removal of an alias from its parent's array: the last entry moves to its place.\<close>

definition remove_alias :: "nat \<Rightarrow> mvgal_buffer \<Rightarrow> mvgal_buffer" where
  "remove_alias p parent =
     (let n = unat (bf_alias_count parent)
      in case find (\<lambda>i. bf_aliases parent ! i = Some p) [0..<n] of
           None \<Rightarrow> parent
         | Some i \<Rightarrow>
             parent\<lparr>bf_aliases := (bf_aliases parent)[i := bf_aliases parent ! (n - 1)],
                    bf_alias_count := bf_alias_count parent - 1\<rparr>)"

text \<open>The end of \<^verbatim>\<open>mvgal_buffer_free_internal\<close>: bindings, memory, fence, global list, structure.\<close>

definition free_resources :: "mvgal_buffer \<Rightarrow> mvgal_memory_state_t \<Rightarrow> mvgal_memory_state_t" where
  "free_resources b st =
     (let st = (if bf_dmabuf_owner b \<and> 0 \<le> bf_dmabuf_fd b
                then mvgal_dmabuf_free (bf_dmabuf_fd b) (bf_host_ptr b) (bf_size b) st else st);
          st = (if bf_should_free b \<and> bf_original_ptr b \<noteq> 0
                then st\<lparr>ms_freed := bf_original_ptr b # ms_freed st\<rparr> else st)
      in case bf_fence b of None \<Rightarrow> st | Some f \<Rightarrow> st\<lparr>ms_fences_destroyed := f # ms_fences_destroyed st\<rparr>)"

definition list_remove :: "nat \<Rightarrow> mvgal_memory_state_t \<Rightarrow> mvgal_memory_state_t run" where
  "list_remove p st =
     bnd (deref st p) (\<lambda>b.
     bnd (case bf_prev b of
            Some q \<Rightarrow> upd_buffer (\<lambda>n. n\<lparr>bf_next := bf_next b\<rparr>) q st
          | None \<Rightarrow> Inr (st\<lparr>ms_buffers := bf_next b\<rparr>))
       (upd_buffer_opt (\<lambda>n. n\<lparr>bf_prev := bf_prev b\<rparr>) (bf_next b)))"

definition free_struct :: "nat \<Rightarrow> mvgal_memory_state_t \<Rightarrow> mvgal_memory_state_t run" where
  "free_struct p st =
     bnd (upd_buffer mvgal_buffer_unbind p st) (\<lambda>st.
     bnd (deref st p) (\<lambda>b.
     let st = free_resources b st in
     bnd (lock_state st) (\<lambda>st.
     bnd (list_remove p st) (\<lambda>st.
     let st = unlock_state st;
         st = st\<lparr>ms_total_freed := ms_total_freed st + bf_size b\<rparr>
     in Inr (st\<lparr>ms_heap := (ms_heap st)(p := None)\<rparr>)))))"

text \<open>
  Releasing the last reference frees the buffer, and freeing an alias releases its parent, which may
  be an alias itself: the two functions call each other. The first argument bounds the depth of this
  recursion; any bound above the length of the chain of parents is enough.
\<close>

fun mvgal_buffer_release :: "nat \<Rightarrow> nat option \<Rightarrow> mvgal_memory_state_t \<Rightarrow> mvgal_memory_state_t run"
  and mvgal_buffer_free_internal :: "nat \<Rightarrow> nat option \<Rightarrow> mvgal_memory_state_t \<Rightarrow> mvgal_memory_state_t run" where
  "mvgal_buffer_release depth None st = Inr st"
| "mvgal_buffer_release 0 (Some p) st = Inl Depth_Exceeded"
| "mvgal_buffer_release (Suc depth) (Some p) st =
     bnd (deref st p) (\<lambda>b.
     let old_count = bf_refcount b;
         st = put_buffer p (b\<lparr>bf_refcount := old_count - 1\<rparr>) st
     in if old_count = 1 then mvgal_buffer_free_internal depth (Some p) st else Inr st)"
| "mvgal_buffer_free_internal depth None st = Inr st"
| "mvgal_buffer_free_internal depth (Some p) st =
     bnd (deref st p) (\<lambda>b.
     bnd (if 0 < bf_alias_count b
          then bnd (detach_aliases (take (unat (bf_alias_count b)) (bf_aliases b)) st)
                 (upd_buffer (\<lambda>b. b\<lparr>bf_alias_count := 0\<rparr>) p)
          else Inr st) (\<lambda>st.
     bnd (deref st p) (\<lambda>b.
     bnd (if bf_is_alias b \<and> bf_alias_parent b \<noteq> None \<and> \<not> bf_alias_detached b
          then bnd (upd_buffer (remove_alias p) (the (bf_alias_parent b)) st)
                 (mvgal_buffer_release depth (bf_alias_parent b))
          else Inr st)
       (free_struct p))))"

section \<open>Module start and end\<close>

text \<open>
  The pthread mutex is initialised, the heap descriptors are reset, the system heap is opened if the
  kernel has one (\<open>fd\<close>), and the GPUs are copied from the GPU manager (their features; a count that
  is not positive leaves the cache empty).
\<close>

definition mvgal_memory_module_init ::
    "int \<Rightarrow> int \<Rightarrow> u64 list \<Rightarrow> mvgal_memory_state_t \<Rightarrow> mvgal_error_t \<times> mvgal_memory_state_t" where
  "mvgal_memory_module_init fd gpu_manager_count gpu_features st =
     (if ms_initialized st then (MVGAL_ERROR_ALREADY_INITIALIZED, st)
      else
        (let st = st\<lparr>ms_locked := False, ms_buffers := None, ms_total_allocated := 0, ms_total_freed := 0,
                     ms_system_heap_fd := -1, ms_gpu_heap_count := 0,
                     ms_gpu_heap_fds := replicate MVGAL_MAX_GPUS (-1), ms_gpu_count := 0\<rparr>;
             st = (if 0 \<le> fd then st\<lparr>ms_system_heap_fd := fd\<rparr> else st);
             st = (if 0 < gpu_manager_count
                   then st\<lparr>ms_gpu_count := word_of_int gpu_manager_count, ms_gpu_features := gpu_features\<rparr> else st)
         in (MVGAL_SUCCESS, st\<lparr>ms_initialized := True\<rparr>)))"

text \<open>The loop that frees the remaining buffers, bounded like the recursion above.\<close>

fun free_all :: "nat \<Rightarrow> nat \<Rightarrow> nat option \<Rightarrow> mvgal_memory_state_t \<Rightarrow> mvgal_memory_state_t run" where
  "free_all bound depth None st = Inr st"
| "free_all 0 depth (Some p) st = Inl Depth_Exceeded"
| "free_all (Suc bound) depth (Some p) st =
     bnd (deref st p) (\<lambda>b. bnd (mvgal_buffer_free_internal depth (Some p) st) (free_all bound depth (bf_next b)))"

definition mvgal_memory_module_shutdown :: "nat \<Rightarrow> nat \<Rightarrow> mvgal_memory_state_t \<Rightarrow> mvgal_memory_state_t run" where
  "mvgal_memory_module_shutdown bound depth st =
     (if \<not> ms_initialized st then Inr st
      else
        bnd (lock_state st) (\<lambda>st.
        let st = (if 0 \<le> ms_system_heap_fd st
                  then st\<lparr>ms_closed := ms_system_heap_fd st # ms_closed st, ms_system_heap_fd := -1\<rparr> else st);
            n = unat (ms_gpu_heap_count st);
            st = st\<lparr>ms_closed := filter (\<lambda>fd. 0 \<le> fd) (take n (ms_gpu_heap_fds st)) @ ms_closed st,
                    ms_gpu_heap_fds := map (\<lambda>_. -1) (take n (ms_gpu_heap_fds st)) @ drop n (ms_gpu_heap_fds st)\<rparr>
        in bnd (free_all bound depth (ms_buffers st) st) (\<lambda>st.
           Inr (unlock_state (st\<lparr>ms_buffers := None, ms_initialized := False\<rparr>)))))"

section \<open>Aliases\<close>

text \<open>The structure of a new alias of \<open>p\<close>, before and after the access restrictions of its flags.\<close>

definition alias_of :: "nat \<Rightarrow> mvgal_buffer \<Rightarrow> u64 \<Rightarrow> u64 \<Rightarrow> u32 \<Rightarrow> mvgal_buffer" where
  "alias_of p pb offset alias_size alias_flags =
     (let n = unat (bf_gpu_binding_count pb);
          ptr = (if bf_host_ptr pb \<noteq> 0 then bf_host_ptr pb + offset else 0)
      in zero_buffer\<lparr>bf_size := alias_size, bf_alignment := bf_alignment pb, bf_flags := bf_flags pb,
           bf_memory_type := bf_memory_type pb, bf_sharing_mode := bf_sharing_mode pb, bf_access := bf_access pb,
           bf_gpu_mask := bf_gpu_mask pb, bf_priority := bf_priority pb, bf_backend := bf_backend pb,
           bf_host_ptr := ptr, bf_host_offset := offset, bf_dmabuf_fd := bf_dmabuf_fd pb,
           bf_dmabuf_offset := bf_dmabuf_offset pb + offset, bf_dmabuf_owner := False, bf_state := bf_state pb,
           bf_original_ptr := ptr, bf_should_free := False, bf_alias_parent := Some p,
           bf_alias_offset := offset, bf_alias_size := alias_size, bf_alias_flags := alias_flags,
           bf_is_alias := True, bf_alias_detached := False, bf_alias_count := 0, bf_refcount := 1,
           bf_gpu_bindings := take n (bf_gpu_bindings pb) @ drop n (bf_gpu_bindings zero_buffer),
           bf_gpu_binding_count := bf_gpu_binding_count pb\<rparr>)"

definition restrict_alias :: "u32 \<Rightarrow> mvgal_buffer \<Rightarrow> mvgal_buffer" where
  "restrict_alias alias_flags a =
     (let n = unat (bf_gpu_binding_count a);
          a = (if has_flag alias_flags MVGAL_BUFFER_ALIAS_FLAG_READ_ONLY
               then a\<lparr>bf_gpu_bindings := map (\<lambda>g. g\<lparr>gb_writable := False\<rparr>) (take n (bf_gpu_bindings a))
                                           @ drop n (bf_gpu_bindings a),
                      bf_access := bf_access a AND NOT MVGAL_MEMORY_ACCESS_WRITE\<rparr>
               else a)
      in if has_flag alias_flags MVGAL_BUFFER_ALIAS_FLAG_WRITE_ONLY
         then a\<lparr>bf_access := bf_access a AND NOT MVGAL_MEMORY_ACCESS_READ\<rparr> else a)"

definition mvgal_memory_create_alias ::
    "nat option \<Rightarrow> nat option \<Rightarrow> u64 \<Rightarrow> u64 \<Rightarrow> u32 \<Rightarrow> bool \<Rightarrow> mvgal_memory_state_t \<Rightarrow>
       (mvgal_error_t \<times> nat option \<times> mvgal_memory_state_t) run" where
  "mvgal_memory_create_alias calloc parent offset sz alias_flags out_nonnull st =
     (case parent of
        None \<Rightarrow> Inr (MVGAL_ERROR_INVALID_ARGUMENT, None, st)
      | Some p \<Rightarrow>
          if \<not> out_nonnull then Inr (MVGAL_ERROR_INVALID_ARGUMENT, None, st)
          else bnd (deref st p) (\<lambda>pb.
            if bf_size pb \<le> offset then Inr (MVGAL_ERROR_INVALID_ARGUMENT, None, st)
            else let alias_size = (if sz = 0 then bf_size pb - offset else sz)
            in if bf_size pb < offset + alias_size then Inr (MVGAL_ERROR_INVALID_ARGUMENT, None, st)
            else if 16 \<le> bf_alias_count pb then Inr (MVGAL_ERROR_MEMORY, None, st)
            else case calloc of
              None \<Rightarrow> Inr (MVGAL_ERROR_OUT_OF_MEMORY, None, st)
            | Some a \<Rightarrow>
                let st = put_buffer a (restrict_alias alias_flags (alias_of p pb offset alias_size alias_flags)) st in
                bnd (upd_buffer (\<lambda>pb. pb\<lparr>bf_aliases := (bf_aliases pb)[unat (bf_alias_count pb) := Some a],
                                       bf_alias_count := bf_alias_count pb + 1\<rparr>) p st) (\<lambda>st.
                bnd (mvgal_buffer_retain (Some p) st) (\<lambda>st.
                bnd (lock_state st) (\<lambda>st.
                bnd (list_insert a True st) (\<lambda>st.
                Inr (MVGAL_SUCCESS, Some a, unlock_state st)))))))"

record mvgal_buffer_alias_info_t =
  ali_parent :: "nat option"
  ali_alias :: nat
  ali_offset :: u64
  ali_size :: u64
  ali_flags :: u32
  ali_gpu_mask :: u32

definition mvgal_memory_get_alias_info ::
    "nat option \<Rightarrow> bool \<Rightarrow> mvgal_memory_state_t \<Rightarrow> (mvgal_error_t \<times> mvgal_buffer_alias_info_t option) run" where
  "mvgal_memory_get_alias_info buffer out_nonnull st =
     (case buffer of
        None \<Rightarrow> Inr (MVGAL_ERROR_INVALID_ARGUMENT, None)
      | Some p \<Rightarrow>
          if \<not> out_nonnull then Inr (MVGAL_ERROR_INVALID_ARGUMENT, None)
          else bnd (deref st p) (\<lambda>b.
            if \<not> bf_is_alias b then Inr (MVGAL_ERROR_NOT_FOUND, None)
            else Inr (MVGAL_SUCCESS,
                   Some \<lparr>ali_parent = bf_alias_parent b, ali_alias = p, ali_offset = bf_alias_offset b,
                         ali_size = bf_alias_size b, ali_flags = bf_alias_flags b, ali_gpu_mask = bf_gpu_mask b\<rparr>)))"

definition mvgal_memory_alias_detach ::
    "nat \<Rightarrow> u64 \<Rightarrow> nat option \<Rightarrow> mvgal_memory_state_t \<Rightarrow> (mvgal_error_t \<times> mvgal_memory_state_t) run" where
  "mvgal_memory_alias_detach depth private_copy buffer st =
     (case buffer of
        None \<Rightarrow> Inr (MVGAL_ERROR_INVALID_ARGUMENT, st)
      | Some p \<Rightarrow>
          bnd (deref st p) (\<lambda>b.
            if \<not> bf_is_alias b \<or> bf_alias_detached b then Inr (MVGAL_ERROR_INVALID_ARGUMENT, st)
            else case bf_alias_parent b of
              None \<Rightarrow> Inr (MVGAL_ERROR_INVALID_ARGUMENT, st)
            | Some q \<Rightarrow>
                if private_copy = 0 then Inr (MVGAL_ERROR_OUT_OF_MEMORY, st)
                else bnd (deref st q) (\<lambda>pb.
                  let st = (if bf_host_ptr pb \<noteq> 0
                            then st\<lparr>ms_mem := mem_copy private_copy (bf_host_ptr pb) (unat (bf_alias_size b)) (ms_mem st)\<rparr>
                            else st) in
                  bnd (upd_buffer (remove_alias p) q st) (\<lambda>st.
                  bnd (mvgal_buffer_release depth (Some q) st) (\<lambda>st.
                  bnd (upd_buffer (\<lambda>b. b\<lparr>bf_alias_parent := None, bf_alias_detached := True, bf_is_alias := False,
                         bf_host_ptr := private_copy, bf_host_offset := 0, bf_original_ptr := private_copy,
                         bf_should_free := True, bf_alias_offset := 0, bf_alias_size := 0, bf_alias_flags := 0\<rparr>) p st)
                    (\<lambda>st. Inr (MVGAL_SUCCESS, st)))))))"

section \<open>The buffer list\<close>

interpretation buf: dnode bf_next bf_prev "\<lambda>q b. b\<lparr>bf_next := q\<rparr>" "\<lambda>q b. b\<lparr>bf_prev := q\<rparr>"
  by unfold_locales simp_all

definition buf_list :: "mvgal_memory_state_t \<Rightarrow> nat list \<Rightarrow> bool" where
  "buf_list st xs \<longleftrightarrow> (\<exists>l. hseg bf_next bf_prev (ms_heap st) None (ms_buffers st) xs l None)"

lemma buf_list_distinct: "buf_list st xs \<Longrightarrow> distinct xs"
  by (auto simp: buf_list_def dest: hseg_distinct)

lemma buf_list_dom: "buf_list st xs \<Longrightarrow> x \<in> set xs \<Longrightarrow> \<exists>b. ms_heap st x = Some b"
  by (auto simp: buf_list_def hseg_def)

lemma buf_list_cong:
  assumes "buf_list st xs" and "ms_buffers st' = ms_buffers st"
    and "\<And>x b. x \<in> set xs \<Longrightarrow> ms_heap st x = Some b \<Longrightarrow>
           \<exists>b'. ms_heap st' x = Some b' \<and> bf_next b' = bf_next b \<and> bf_prev b' = bf_prev b"
  shows "buf_list st' xs"
proof -
  from assms(1) obtain l where l: "hseg bf_next bf_prev (ms_heap st) None (ms_buffers st) xs l None"
    by (auto simp: buf_list_def)
  have "hseg bf_next bf_prev (ms_heap st') None (ms_buffers st) xs l None"
  proof (rule hseg_cong [OF _ l])
    fix x assume x: "x \<in> set xs"
    with buf_list_dom [OF assms(1)] obtain b where "ms_heap st x = Some b" by blast
    with assms(3) [OF x this] show "ms_heap st' x \<noteq> None
        \<and> hfield bf_next (ms_heap st') x = hfield bf_next (ms_heap st) x
        \<and> hfield bf_prev (ms_heap st') x = hfield bf_prev (ms_heap st) x"
      by (auto simp: hfield_def)
  qed
  with assms(2) show ?thesis by (auto simp: buf_list_def)
qed

lemma hupd_opt_other: "p \<noteq> Some q \<Longrightarrow> hupd_opt f p h q = h q"
  by (auto simp: hupd_opt_def hupd_def split: option.splits)

lemma upd_buffer_Some: "ms_heap st p = Some b \<Longrightarrow> upd_buffer f p st = Inr (put_buffer p (f b) st)"
  by (simp add: upd_buffer_def deref_def)

lemma upd_buffer_opt_hupd:
  "(\<And>q. p = Some q \<Longrightarrow> ms_heap st q \<noteq> None) \<Longrightarrow>
     upd_buffer_opt f p st = Inr (st\<lparr>ms_heap := hupd_opt f p (ms_heap st)\<rparr>)"
  by (cases p) (auto simp: upd_buffer_opt_def upd_buffer_def deref_def put_buffer_def hupd_opt_def hupd_def
      split: option.splits)

lemma put_buffer_simps [simp]:
  "ms_heap (put_buffer p b st) = (ms_heap st)(p \<mapsto> b)" "ms_buffers (put_buffer p b st) = ms_buffers st"
  "ms_locked (put_buffer p b st) = ms_locked st" "ms_mem (put_buffer p b st) = ms_mem st"
  "ms_freed (put_buffer p b st) = ms_freed st" "ms_total_freed (put_buffer p b st) = ms_total_freed st"
  by (simp_all add: put_buffer_def)

lemma list_insert_ok:
  assumes "buf_list st xs" and "p \<notin> set xs" and "ms_heap st p = Some b" and "rp \<or> bf_prev b = None"
  shows "list_insert p rp st = Inr (st\<lparr>ms_buffers := Some p,
      ms_heap := hupd_opt (\<lambda>b. b\<lparr>bf_prev := Some p\<rparr>) (ms_buffers st)
                   ((ms_heap st)(p \<mapsto> b\<lparr>bf_next := ms_buffers st, bf_prev := None\<rparr>))\<rparr>)"
    and "buf_list (st\<lparr>ms_buffers := Some p,
      ms_heap := hupd_opt (\<lambda>b. b\<lparr>bf_prev := Some p\<rparr>) (ms_buffers st)
                   ((ms_heap st)(p \<mapsto> b\<lparr>bf_next := ms_buffers st, bf_prev := None\<rparr>))\<rparr>) (p # xs)"
proof -
  from assms(1) obtain l where l: "hseg bf_next bf_prev (ms_heap st) None (ms_buffers st) xs l None"
    by (auto simp: buf_list_def)
  have hd: "ms_buffers st = Some q \<Longrightarrow> q \<noteq> p \<and> ms_heap st q \<noteq> None" for q
    using l assms(2) by (cases xs) (auto simp: hseg_def)
  have b: "(let b = b\<lparr>bf_next := ms_buffers st\<rparr> in if rp then b\<lparr>bf_prev := None\<rparr> else b)
      = b\<lparr>bf_next := ms_buffers st, bf_prev := None\<rparr>"
    using assms(4) by (cases b) (auto simp: Let_def)
  show "list_insert p rp st = Inr (st\<lparr>ms_buffers := Some p,
      ms_heap := hupd_opt (\<lambda>b. b\<lparr>bf_prev := Some p\<rparr>) (ms_buffers st)
                   ((ms_heap st)(p \<mapsto> b\<lparr>bf_next := ms_buffers st, bf_prev := None\<rparr>))\<rparr>)"
    using hd by (simp add: list_insert_def upd_buffer_Some [OF assms(3)] b upd_buffer_opt_hupd put_buffer_def)
  show "buf_list (st\<lparr>ms_buffers := Some p,
      ms_heap := hupd_opt (\<lambda>b. b\<lparr>bf_prev := Some p\<rparr>) (ms_buffers st)
                   ((ms_heap st)(p \<mapsto> b\<lparr>bf_next := ms_buffers st, bf_prev := None\<rparr>))\<rparr>) (p # xs)"
    using buf.hseg_push [OF l assms(2,3) refl] by (auto simp: buf_list_def)
qed

lemma list_remove_ok:
  assumes "buf_list st (as @ p # bs)"
  shows "\<exists>st'. list_remove p st = Inr st' \<and> buf_list st' (as @ bs)
    \<and> st' = st\<lparr>ms_buffers := ms_buffers st', ms_heap := ms_heap st'\<rparr>
    \<and> (\<forall>x. x \<notin> set (as @ bs) \<longrightarrow> ms_heap st' x = ms_heap st x)
    \<and> (\<forall>x. map_option (\<lambda>b. b\<lparr>bf_next := None, bf_prev := None\<rparr>) (ms_heap st' x) =
           map_option (\<lambda>b. b\<lparr>bf_next := None, bf_prev := None\<rparr>) (ms_heap st x))"
proof -
  from assms obtain l where l: "hseg bf_next bf_prev (ms_heap st) None (ms_buffers st) (as @ p # bs) l None"
    by (auto simp: buf_list_def)
  from buf_list_dom [OF assms, of p] obtain b where b: "ms_heap st p = Some b" by auto
  then have f: "hfield bf_next (ms_heap st) p = bf_next b" "hfield bf_prev (ms_heap st) p = bf_prev b"
    by (simp_all add: hfield_def)
  note u = buf.hseg_unlink [OF l refl, unfolded f]
  let ?h1 = "hupd_opt (\<lambda>n. n\<lparr>bf_next := bf_next b\<rparr>) (bf_prev b) (ms_heap st)"
  let ?h2 = "hupd_opt (\<lambda>n. n\<lparr>bf_prev := bf_prev b\<rparr>) (bf_next b) ?h1"
  let ?st = "st\<lparr>ms_buffers := (if bf_prev b = None then bf_next b else ms_buffers st), ms_heap := ?h2\<rparr>"
  have dom: "x \<in> set (as @ bs) \<Longrightarrow> ms_heap st x \<noteq> None" for x
    using buf_list_dom [OF assms, of x] by auto
  have pv: "bf_prev b = Some q \<Longrightarrow> q \<in> set as" and nx: "bf_next b = Some q \<Longrightarrow> q \<in> set bs" for q
    using u(2,3) by (auto split: if_splits)
  have "list_remove p st = Inr ?st"
  proof (cases "bf_prev b")
    case None
    have "upd_buffer_opt (\<lambda>n. n\<lparr>bf_prev := bf_prev b\<rparr>) (bf_next b) (st\<lparr>ms_buffers := bf_next b\<rparr>) =
        Inr (st\<lparr>ms_buffers := bf_next b, ms_heap := ?h2\<rparr>)"
      using None nx dom by (subst upd_buffer_opt_hupd) (auto simp: hupd_opt_def)
    with None b show ?thesis by (simp add: list_remove_def deref_def)
  next
    case (Some q)
    have q: "ms_heap st q \<noteq> None" using pv [OF Some] dom by auto
    have "upd_buffer (\<lambda>n. n\<lparr>bf_next := bf_next b\<rparr>) q st = Inr (st\<lparr>ms_heap := ?h1\<rparr>)"
      using q Some by (auto simp: upd_buffer_def deref_def put_buffer_def hupd_opt_def hupd_def)
    moreover have "upd_buffer_opt (\<lambda>n. n\<lparr>bf_prev := bf_prev b\<rparr>) (bf_next b) (st\<lparr>ms_heap := ?h1\<rparr>) =
        Inr (st\<lparr>ms_heap := ?h2\<rparr>)"
    proof -
      have "?h1 r \<noteq> None" if "bf_next b = Some r" for r
        using nx [OF that] dom [of r] by (metis Un_iff domIff hupd_opt_dom set_append)
      then show ?thesis by (subst upd_buffer_opt_hupd) auto
    qed
    ultimately show ?thesis using Some b by (simp add: list_remove_def deref_def)
  qed
  moreover have "buf_list ?st (as @ bs)" using u(1) by (auto simp: buf_list_def)
  moreover have "ms_heap ?st x = ms_heap st x" if "x \<notin> set (as @ bs)" for x
  proof -
    have "bf_prev b \<noteq> Some x" "bf_next b \<noteq> Some x" using that pv nx by auto
    then show ?thesis by (simp add: hupd_opt_other)
  qed
  moreover have "map_option (\<lambda>b. b\<lparr>bf_next := None, bf_prev := None\<rparr>) (ms_heap ?st x) =
           map_option (\<lambda>b. b\<lparr>bf_next := None, bf_prev := None\<rparr>) (ms_heap st x)" for x
    by (auto simp: hupd_opt_def hupd_def split: option.splits)
  ultimately show ?thesis by (intro exI [of _ ?st]) auto
qed
section \<open>Freeing a structure\<close>

lemma free_resources_frame [simp]:
  "ms_heap (free_resources b st) = ms_heap st" "ms_buffers (free_resources b st) = ms_buffers st"
  "ms_locked (free_resources b st) = ms_locked st" "ms_total_freed (free_resources b st) = ms_total_freed st"
  "ms_mem (free_resources b st) = ms_mem st"
  by (simp_all add: free_resources_def mvgal_dmabuf_free_def Let_def split: option.splits)

lemma free_resources_freed:
  "ms_freed (free_resources b st) =
     (if bf_should_free b \<and> bf_original_ptr b \<noteq> 0 then [bf_original_ptr b] else []) @ ms_freed st"
  by (simp add: free_resources_def mvgal_dmabuf_free_def Let_def split: option.splits)

lemma mvgal_buffer_unbind_frame [simp]:
  "bf_next (mvgal_buffer_unbind b) = bf_next b" "bf_prev (mvgal_buffer_unbind b) = bf_prev b"
  "bf_should_free (mvgal_buffer_unbind b) = bf_should_free b"
  "bf_original_ptr (mvgal_buffer_unbind b) = bf_original_ptr b" "bf_size (mvgal_buffer_unbind b) = bf_size b"
  by (simp_all add: mvgal_buffer_unbind_def Let_def)

text \<open>What the fields other than the list pointers say of a heap.\<close>

definition same_contents :: "(nat \<rightharpoonup> mvgal_buffer) \<Rightarrow> (nat \<rightharpoonup> mvgal_buffer) \<Rightarrow> nat \<Rightarrow> bool" where
  "same_contents h h' x \<longleftrightarrow>
     map_option (\<lambda>b. b\<lparr>bf_next := None, bf_prev := None\<rparr>) (h' x) = map_option (\<lambda>b. b\<lparr>bf_next := None, bf_prev := None\<rparr>) (h x)"

lemma free_struct_ok:
  assumes l: "buf_list st (as @ p # bs)" and b: "ms_heap st p = Some b" and "\<not> ms_locked st"
  shows "\<exists>st'. free_struct p st = Inr st' \<and> buf_list st' (as @ bs) \<and> ms_heap st' p = None
    \<and> (\<forall>x. x \<noteq> p \<longrightarrow> same_contents (ms_heap st) (ms_heap st') x)
    \<and> ms_freed st' = (if bf_should_free b \<and> bf_original_ptr b \<noteq> 0 then [bf_original_ptr b] else []) @ ms_freed st
    \<and> ms_total_freed st' = ms_total_freed st + bf_size b \<and> \<not> ms_locked st' \<and> ms_mem st' = ms_mem st"
proof -
  let ?b = "mvgal_buffer_unbind b"
  let ?st1 = "put_buffer p ?b st"
  let ?st2 = "(free_resources ?b ?st1)\<lparr>ms_locked := True\<rparr>"
  have l2: "buf_list ?st2 (as @ p # bs)"
    by (rule buf_list_cong [OF l]) (use b in \<open>auto split: if_splits\<close>)
  from list_remove_ok [OF l2] obtain st3 where
    r: "list_remove p ?st2 = Inr st3" and l3: "buf_list st3 (as @ bs)"
    and fr: "st3 = ?st2\<lparr>ms_buffers := ms_buffers st3, ms_heap := ms_heap st3\<rparr>"
    and c: "\<forall>x. map_option (\<lambda>b. b\<lparr>bf_next := None, bf_prev := None\<rparr>) (ms_heap st3 x) =
           map_option (\<lambda>b. b\<lparr>bf_next := None, bf_prev := None\<rparr>) (ms_heap ?st2 x)"
    by blast
  define st4 where "st4 = (unlock_state st3)\<lparr>ms_total_freed := ms_total_freed st3 + bf_size ?b, ms_heap := (ms_heap st3)(p := None)\<rparr>"
  have run: "free_struct p st = Inr st4"
    using assms(3) r by (simp add: free_struct_def upd_buffer_Some [OF b] deref_def lock_state_def Let_def st4_def unlock_state_def)
  have "p \<notin> set (as @ bs)" using buf_list_distinct [OF l] by auto
  then have "buf_list st4 (as @ bs)"
    by (intro buf_list_cong [OF l3]) (auto simp: st4_def unlock_state_def)
  moreover have "same_contents (ms_heap st) (ms_heap st4) x" if "x \<noteq> p" for x
    using c that by (simp add: same_contents_def st4_def)
  moreover have "ms_freed st4 = (if bf_should_free b \<and> bf_original_ptr b \<noteq> 0 then [bf_original_ptr b] else []) @ ms_freed st
      \<and> ms_total_freed st4 = ms_total_freed st + bf_size b \<and> ms_mem st4 = ms_mem st"
    unfolding st4_def unlock_state_def by (subst (1 2 3 4) fr) (simp add: free_resources_freed)
  ultimately show ?thesis using run by (intro exI [of _ st4]) (simp add: st4_def unlock_state_def)
qed

text \<open>A buffer that neither is nor has an alias.\<close>

definition plain :: "mvgal_buffer \<Rightarrow> bool" where
  "plain b \<longleftrightarrow> bf_alias_count b = 0 \<and> \<not> bf_is_alias b"

lemma free_internal_plain:
  "ms_heap st p = Some b \<Longrightarrow> plain b \<Longrightarrow> mvgal_buffer_free_internal depth (Some p) st = free_struct p st"
  by (simp add: plain_def deref_def)

lemma release_shared:
  "ms_heap st p = Some b \<Longrightarrow> bf_refcount b \<noteq> 1 \<Longrightarrow>
     mvgal_buffer_release (Suc depth) (Some p) st = Inr (put_buffer p (b\<lparr>bf_refcount := bf_refcount b - 1\<rparr>) st)"
  by (simp add: deref_def Let_def)

lemma release_last:
  assumes "buf_list st (as @ p # bs)" and "ms_heap st p = Some b" and "plain b" and "bf_refcount b = 1"
    and "\<not> ms_locked st"
  shows "\<exists>st'. mvgal_buffer_release (Suc depth) (Some p) st = Inr st' \<and> buf_list st' (as @ bs) \<and> ms_heap st' p = None
    \<and> (\<forall>x. x \<noteq> p \<longrightarrow> same_contents (ms_heap st) (ms_heap st') x)
    \<and> ms_freed st' = (if bf_should_free b \<and> bf_original_ptr b \<noteq> 0 then [bf_original_ptr b] else []) @ ms_freed st
    \<and> ms_total_freed st' = ms_total_freed st + bf_size b"
proof -
  let ?b = "b\<lparr>bf_refcount := 0\<rparr>"
  let ?st = "put_buffer p ?b st"
  have l: "buf_list ?st (as @ p # bs)" by (rule buf_list_cong [OF assms(1)]) (use assms(2) in \<open>auto split: if_splits\<close>)
  have "mvgal_buffer_release (Suc depth) (Some p) st = free_struct p ?st"
    using assms(2,3,4) free_internal_plain [of ?st p ?b depth] by (simp add: deref_def Let_def plain_def)
  moreover from free_struct_ok [OF l, of ?b] assms(5) obtain st' where "free_struct p ?st = Inr st'" "buf_list st' (as @ bs)"
    "ms_heap st' p = None" "\<forall>x. x \<noteq> p \<longrightarrow> same_contents (ms_heap ?st) (ms_heap st') x"
    "ms_freed st' = (if bf_should_free b \<and> bf_original_ptr b \<noteq> 0 then [bf_original_ptr b] else []) @ ms_freed st"
    "ms_total_freed st' = ms_total_freed st + bf_size b" by auto
  ultimately show ?thesis by (intro exI [of _ st']) (auto simp: same_contents_def)
qed

section \<open>Repeated retain and release\<close>

definition repeat_run :: "nat \<Rightarrow> ('s \<Rightarrow> 's run) \<Rightarrow> 's \<Rightarrow> 's run" where
  "repeat_run n f s = ((\<lambda>r. bnd r f) ^^ n) (Inr s)"

lemma repeat_run_0 [simp]: "repeat_run 0 f s = Inr s"
  by (simp add: repeat_run_def)

lemma repeat_run_Suc: "repeat_run (Suc n) f s = bnd (repeat_run n f s) f"
  by (simp add: repeat_run_def)

lemma repeat_run_Suc2: "repeat_run (Suc n) f s = bnd (f s) (repeat_run n f)"
proof (induction n)
  case 0
  then show ?case by (cases "f s") (simp_all add: repeat_run_def)
next
  case (Suc n)
  then show ?case by (cases "f s") (simp_all add: repeat_run_Suc)
qed

lemma put_buffer_twice [simp]: "put_buffer p b (put_buffer p a st) = put_buffer p b st"
  by (simp add: put_buffer_def)

lemma put_buffer_id: "ms_heap st p = Some b \<Longrightarrow> put_buffer p b st = st"
  by (cases st) (simp add: put_buffer_def fun_upd_idem)

lemma retain_repeat:
  "ms_heap st p = Some b \<Longrightarrow>
     repeat_run n (mvgal_buffer_retain (Some p)) st = Inr (put_buffer p (b\<lparr>bf_refcount := bf_refcount b + of_nat n\<rparr>) st)"
proof (induction n)
  case 0
  then show ?case by (simp add: put_buffer_id)
next
  case (Suc n)
  then show ?case
    by (simp add: repeat_run_Suc mvgal_buffer_retain_def upd_buffer_opt_def upd_buffer_Some ac_simps)
qed

lemma release_repeat:
  assumes "ms_heap st p = Some b" and "bf_refcount b = 1"
  shows "n < 2 ^ 32 - 1 \<Longrightarrow>
     repeat_run n (mvgal_buffer_release (Suc depth) (Some p)) (put_buffer p (b\<lparr>bf_refcount := 1 + of_nat n\<rparr>) st) = Inr st"
proof (induction n)
  case 0
  have "b\<lparr>bf_refcount := 1\<rparr> = b" using assms(2) by simp
  with assms show ?case by (simp add: put_buffer_id)
next
  case (Suc n)
  let ?b = "b\<lparr>bf_refcount := 1 + of_nat (Suc n)\<rparr>"
  have "unat (of_nat (Suc n) :: u32) = Suc n"
    using Suc.prems by (simp add: unat_of_nat take_bit_nat_eq_self del: of_nat_Suc)
  then have "(of_nat (Suc n) :: u32) \<noteq> 0" by (metis unat_0 nat.distinct(1))
  then have "bf_refcount ?b \<noteq> 1" by simp
  from release_shared [OF _ this, of "put_buffer p ?b st" p depth] Suc show ?case
    by (simp add: repeat_run_Suc2)
qed

text \<open>A state with a given heap and list head, for examples.\<close>

definition example_state :: "(nat \<rightharpoonup> mvgal_buffer) \<Rightarrow> nat option \<Rightarrow> mvgal_memory_state_t" where
  "example_state h first =
     \<lparr>ms_locked = False, ms_initialized = True, ms_buffers = first, ms_total_allocated = 0, ms_total_freed = 0,
      ms_system_heap_fd = -1, ms_gpu_heap_fds = replicate 16 (-1), ms_gpu_heap_count = 0,
      ms_gpu_features = [], ms_gpu_count = 0, ms_heap = h, ms_mem = (\<lambda>a. ucast a), ms_freed = [],
      ms_unmapped = [], ms_closed = [], ms_fences_destroyed = []\<rparr>"

section \<open>Properties\<close>



section \<open>Aliases\<close>

lemma alias_fields [simp]:
  "bf_is_alias (restrict_alias f (alias_of p pb off sz g))" "bf_alias_parent (restrict_alias f (alias_of p pb off sz g)) = Some p" "bf_refcount (restrict_alias f (alias_of p pb off sz g)) = 1" "bf_alias_count (restrict_alias f (alias_of p pb off sz g)) = 0"
  "\<not> bf_alias_detached (restrict_alias f (alias_of p pb off sz g))" "bf_size (restrict_alias f (alias_of p pb off sz g)) = sz" "bf_alias_size (restrict_alias f (alias_of p pb off sz g)) = sz" "bf_alias_offset (restrict_alias f (alias_of p pb off sz g)) = off"
  "bf_host_ptr (restrict_alias f (alias_of p pb off sz g)) = (if bf_host_ptr pb \<noteq> 0 then bf_host_ptr pb + off else 0)" "bf_prev (restrict_alias f (alias_of p pb off sz g)) = None"
  "\<not> bf_should_free (restrict_alias f (alias_of p pb off sz g))"
  by (simp_all add: restrict_alias_def alias_of_def zero_buffer_def Let_def)

text \<open>A new alias in a parent's array, and its removal when it is the last one.\<close>

definition register_alias :: "nat \<Rightarrow> mvgal_buffer \<Rightarrow> mvgal_buffer" where
  "register_alias a pb =
     pb\<lparr>bf_aliases := (bf_aliases pb)[unat (bf_alias_count pb) := Some a], bf_alias_count := bf_alias_count pb + 1\<rparr>"

lemma remove_register_alias:
  assumes "bf_aliases x = bf_aliases (register_alias a pb)" and "bf_alias_count x = bf_alias_count (register_alias a pb)"
    and "bf_alias_count pb < 16" and "length (bf_aliases pb) = 16" and "Some a \<notin> set (bf_aliases pb)"
  shows "bf_alias_count (remove_alias a x) = bf_alias_count pb" and "bf_refcount (remove_alias a x) = bf_refcount x"
proof -
  let ?n = "unat (bf_alias_count pb)"
  have n: "?n < 16" using assms(3) by (simp add: word_less_nat_alt)
  then have u: "unat (bf_alias_count pb + 1) = Suc ?n" by (subst unat_add_no_wrap) simp_all
  have "bf_aliases pb ! j \<noteq> Some a" if "j < 16" for j using that assms(4,5) by (metis nth_mem)
  then have "find (\<lambda>i. bf_aliases x ! i = Some a) [0..<Suc ?n] = Some ?n"
    using n assms(1,4) by (simp only: find_upt_Some) (auto simp: register_alias_def nth_list_update)
  with u assms(2) show "bf_alias_count (remove_alias a x) = bf_alias_count pb"
    "bf_refcount (remove_alias a x) = bf_refcount x"
    by (simp_all add: remove_alias_def register_alias_def Let_def del: upt_Suc)
qed

lemma remove_alias_frame [simp]:
  "bf_next (remove_alias a x) = bf_next x" "bf_prev (remove_alias a x) = bf_prev x"
  by (simp_all add: remove_alias_def Let_def split: option.splits)

lemma release_alias:
  assumes l: "buf_list st (as @ a # bs)" and a: "ms_heap st a = Some ab" and p: "ms_heap st p = Some pb"
    and ab: "bf_is_alias ab" "bf_alias_parent ab = Some p" "bf_refcount ab = 1" "bf_alias_count ab = 0" "\<not> bf_alias_detached ab"
    and "p \<noteq> a" and "bf_refcount (remove_alias a pb) \<noteq> 1" and "\<not> ms_locked st"
  shows "\<exists>st'. mvgal_buffer_release (Suc (Suc depth)) (Some a) st = Inr st' \<and> buf_list st' (as @ bs) \<and> ms_heap st' a = None
    \<and> same_contents ((ms_heap st)(p \<mapsto> (remove_alias a pb)\<lparr>bf_refcount := bf_refcount (remove_alias a pb) - 1\<rparr>)) (ms_heap st') p"
proof -
  let ?pb = "(remove_alias a pb)\<lparr>bf_refcount := bf_refcount (remove_alias a pb) - 1\<rparr>"
  let ?st = "put_buffer p ?pb (put_buffer a (ab\<lparr>bf_refcount := 0\<rparr>) st)"
  have "mvgal_buffer_release (Suc (Suc depth)) (Some a) st = free_struct a ?st"
    using assms by (simp add: deref_def Let_def upd_buffer_Some)
  moreover have l': "buf_list ?st (as @ a # bs)"
    by (rule buf_list_cong [OF l]) (use a p in \<open>auto split: if_splits\<close>)
  from free_struct_ok [OF l', of "ab\<lparr>bf_refcount := 0\<rparr>"] assms(9,11) obtain st' where
    "free_struct a ?st = Inr st'" "buf_list st' (as @ bs)" "ms_heap st' a = None"
    "\<forall>x. x \<noteq> a \<longrightarrow> same_contents (ms_heap ?st) (ms_heap st') x" by auto
  moreover from this(4) assms(9) have "same_contents ((ms_heap st)(p \<mapsto> ?pb)) (ms_heap st') p"
    by (auto simp: same_contents_def)
  ultimately show ?thesis by (intro exI [of _ st']) simp
qed

lemma create_alias_ok:
  assumes l: "buf_list st xs" and p: "ms_heap st p = Some pb" and a: "ms_heap st a = None" and "\<not> ms_locked st"
    and ok: "offset < bf_size pb" "sz \<noteq> 0" "\<not> bf_size pb < offset + sz" "bf_alias_count pb < 16"
  shows "\<exists>st1 ab pb1. mvgal_memory_create_alias (Some a) (Some p) offset sz fl True st = Inr (MVGAL_SUCCESS, Some a, st1)
    \<and> buf_list st1 (a # xs) \<and> \<not> ms_locked st1
    \<and> ms_heap st1 a = Some (ab\<lparr>bf_next := ms_buffers st\<rparr>) \<and> ab = restrict_alias fl (alias_of p pb offset sz fl)
    \<and> ms_heap st1 p = Some pb1 \<and> bf_aliases pb1 = bf_aliases (register_alias a pb)
    \<and> bf_alias_count pb1 = bf_alias_count (register_alias a pb) \<and> bf_refcount pb1 = bf_refcount pb + 1"
proof -
  let ?ab = "restrict_alias fl (alias_of p pb offset sz fl)"
  let ?pb = "(register_alias a pb)\<lparr>bf_refcount := bf_refcount pb + 1\<rparr>"
  let ?st = "(put_buffer p ?pb (put_buffer a ?ab st))\<lparr>ms_locked := True\<rparr>"
  have pa: "p \<noteq> a" using a p by auto
  have ax: "a \<notin> set xs" using buf_list_dom [OF l, of a] a by auto
  have l': "buf_list ?st xs" by (rule buf_list_cong [OF l]) (use p ax in \<open>auto simp: register_alias_def split: if_splits\<close>)
  have "ms_heap ?st a = Some ?ab" using pa by simp
  note ins = list_insert_ok [OF l' ax this, of True]
  let ?st1 = "?st\<lparr>ms_buffers := Some a, ms_heap := hupd_opt (\<lambda>b. b\<lparr>bf_prev := Some a\<rparr>) (ms_buffers ?st)
                   ((ms_heap ?st)(a \<mapsto> ?ab\<lparr>bf_next := ms_buffers ?st, bf_prev := None\<rparr>))\<rparr>"
  have "mvgal_memory_create_alias (Some a) (Some p) offset sz fl True st = Inr (MVGAL_SUCCESS, Some a, unlock_state ?st1)"
  proof -
    have "mvgal_buffer_retain (Some p) (put_buffer p (register_alias a pb) (put_buffer a ?ab st)) =
        Inr (put_buffer p ?pb (put_buffer a ?ab st))"
      by (simp add: mvgal_buffer_retain_def upd_buffer_opt_def upd_buffer_Some register_alias_def)
    moreover have "upd_buffer (\<lambda>pb. pb\<lparr>bf_aliases := (bf_aliases pb)[unat (bf_alias_count pb) := Some a],
        bf_alias_count := bf_alias_count pb + 1\<rparr>) p (put_buffer a ?ab st) = Inr (put_buffer p (register_alias a pb) (put_buffer a ?ab st))"
      using pa p by (simp add: upd_buffer_Some register_alias_def)
    ultimately show ?thesis
      using assms ins(1) by (simp add: mvgal_memory_create_alias_def deref_def lock_state_def Let_def not_le not_less)
  qed
  moreover have "buf_list (unlock_state ?st1) (a # xs)"
    using ins(2) by (auto simp: buf_list_def unlock_state_def)
  moreover have "ms_heap ?st1 a = Some (?ab\<lparr>bf_next := ms_buffers st\<rparr>)"
  proof -
    have "ms_buffers st \<noteq> Some a" using l a by (cases xs) (auto simp: buf_list_def hseg_def)
    moreover have "?ab\<lparr>bf_next := ms_buffers st, bf_prev := None\<rparr> = ?ab\<lparr>bf_next := ms_buffers st\<rparr>" by simp
    ultimately show ?thesis by (simp add: hupd_opt_other)
  qed
  moreover have "\<exists>pb1. ms_heap ?st1 p = Some pb1 \<and> bf_aliases pb1 = bf_aliases (register_alias a pb)
      \<and> bf_alias_count pb1 = bf_alias_count (register_alias a pb) \<and> bf_refcount pb1 = bf_refcount pb + 1"
    using pa by (auto simp: hupd_opt_def hupd_def split: option.splits)
  ultimately show ?thesis by (auto simp: unlock_state_def)
qed
lemma remove_alias_refcount [simp]: "bf_refcount (remove_alias a x) = bf_refcount x"
  by (simp add: remove_alias_def Let_def split: option.splits)

section \<open>Alignment and DMA-BUF bindings\<close>

lemma and_not_mask_eq: "x AND NOT (mask k) = push_bit k (drop_bit k x)" for x :: "'a::len word"
  by (intro bit_eqI) (auto simp: bit_simps)

lemma unat_and_not_mask: "k < 64 \<Longrightarrow> unat (x AND NOT (mask k)) = unat x div 2 ^ k * 2 ^ k" for x :: u64
proof -
  assume "k < 64"
  have "unat x div 2 ^ k * 2 ^ k < 2 ^ 64"
    using unat_lt_u64 [of x] by (rule le_less_trans [OF div_times_less_eq_dividend])
  then show ?thesis
    unfolding and_not_mask_eq unsigned_push_bit_eq unsigned_drop_bit_eq
    using unat_lt_u64 [of x] by (simp add: push_bit_eq_mult drop_bit_eq_div take_bit_nat_eq_self)
qed

text \<open>The loop that binds the GPUs of the mask leaves an entry whose GPU is not in the mask alone.\<close>

lemma bind_mask_unset:
  "\<not> has_flag msk (push_bit j 1) \<Longrightarrow> bf_gpu_bindings (bind_mask msk ptr wr is b) ! j = bf_gpu_bindings b ! j"
proof (induction "is" arbitrary: b)
  case (Cons i "is")
  then show ?case by (cases "i = j") (auto simp: upd_binding_def)
qed simp

lemma bind_mask_count:
  "bf_gpu_binding_count (bind_mask msk ptr wr is b) =
     bf_gpu_binding_count b + of_nat (length (filter (\<lambda>i. has_flag msk (push_bit i 1)) is))"
  by (induction "is" arbitrary: b) (auto simp: upd_binding_def)

section \<open>Properties of aliases and of the module\<close>

text \<open>
  C21. Creating an alias of a region inside its parent succeeds; the alias stands for exactly that
  part of the parent's memory, the parent gains a reference, and the alias heads the global list.
  Releasing the alias undoes this: the list, the parent's reference count and its number of aliases
  are as before and the alias is freed.
\<close>

theorem alias_round_trip:
  assumes "buf_list st xs" and "ms_heap st p = Some pb" and "ms_heap st a = None" and "\<not> ms_locked st"
    and "sz \<noteq> 0" and "unat offset + unat sz \<le> unat (bf_size pb)"
    and "bf_alias_count pb < 16" and "length (bf_aliases pb) = 16" and "Some a \<notin> set (bf_aliases pb)"
    and "bf_refcount pb \<noteq> 0" and "bf_host_ptr pb \<noteq> 0"
  shows "\<exists>st1 st2 ab pb1 pb2. mvgal_memory_create_alias (Some a) (Some p) offset sz fl True st = Inr (MVGAL_SUCCESS, Some a, st1)
    \<and> buf_list st1 (a # xs) \<and> ms_heap st1 a = Some ab \<and> bf_host_ptr ab = bf_host_ptr pb + offset \<and> bf_size ab = sz
    \<and> ms_heap st1 p = Some pb1 \<and> bf_refcount pb1 = bf_refcount pb + 1
    \<and> mvgal_buffer_release (Suc (Suc depth)) (Some a) st1 = Inr st2
    \<and> buf_list st2 xs \<and> ms_heap st2 a = None
    \<and> ms_heap st2 p = Some pb2 \<and> bf_refcount pb2 = bf_refcount pb \<and> bf_alias_count pb2 = bf_alias_count pb"
proof -
  have sum: "unat (offset + sz) = unat offset + unat sz"
    using assms(6) unat_lt_u64 [of "bf_size pb"] by (intro unat_add_no_wrap) simp
  have "offset < bf_size pb" "\<not> bf_size pb < offset + sz"
    using assms(5,6) sum by (auto simp: word_less_nat_alt unat_gt_0 [symmetric] simp del: unat_gt_0)
  from create_alias_ok [OF assms(1-4) this(1) assms(5) this(2) assms(7), of fl]
  obtain st1 ab pb1 where c: "mvgal_memory_create_alias (Some a) (Some p) offset sz fl True st = Inr (MVGAL_SUCCESS, Some a, st1)"
    "buf_list st1 (a # xs)" "\<not> ms_locked st1" "ms_heap st1 a = Some (ab\<lparr>bf_next := ms_buffers st\<rparr>)"
    and ab: "ab = restrict_alias fl (alias_of p pb offset sz fl)"
    and pb1: "ms_heap st1 p = Some pb1" "bf_aliases pb1 = bf_aliases (register_alias a pb)"
    "bf_alias_count pb1 = bf_alias_count (register_alias a pb)" "bf_refcount pb1 = bf_refcount pb + 1"
    by blast
  have pa: "p \<noteq> a" using assms(2,3) by auto
  have ref: "bf_refcount (remove_alias a pb1) \<noteq> 1" using pb1(4) assms(10) by simp
  from release_alias [of st1 "[]" a xs "ab\<lparr>bf_next := ms_buffers st\<rparr>" p pb1 depth] c(2,3,4) pb1(1) pa ref
  obtain st2 where r: "mvgal_buffer_release (Suc (Suc depth)) (Some a) st1 = Inr st2" "buf_list st2 xs" "ms_heap st2 a = None"
    and sc: "same_contents ((ms_heap st1)(p \<mapsto> (remove_alias a pb1)\<lparr>bf_refcount := bf_refcount (remove_alias a pb1) - 1\<rparr>)) (ms_heap st2) p"
    unfolding ab by auto
  from sc obtain pb2 where p2: "ms_heap st2 p = Some pb2"
    and e: "pb2\<lparr>bf_next := None, bf_prev := None\<rparr> =
      (remove_alias a pb1)\<lparr>bf_refcount := bf_refcount pb1 - 1, bf_next := None, bf_prev := None\<rparr>"
    by (auto simp: same_contents_def)
  from arg_cong [OF e, of bf_refcount] arg_cong [OF e, of bf_alias_count] pb1(4)
    remove_register_alias(1) [OF pb1(2,3) assms(7-9)]
  have "bf_refcount pb2 = bf_refcount pb" "bf_alias_count pb2 = bf_alias_count pb" by simp_all
  with c r p2 pb1 assms(11) show ?thesis unfolding ab by (intro exI conjI) (assumption | simp)+
qed
text \<open>C21 at the second half of a buffer of 128 bytes.\<close>

lemma alias_round_trip_witness:
  "let pb = zero_buffer\<lparr>bf_refcount := 1, bf_size := 128, bf_host_ptr := 4096\<rparr>;
       st = example_state [0 \<mapsto> pb] (Some 0)
   in \<exists>st1 st2. mvgal_memory_create_alias (Some 1) (Some 0) 64 64 0 True st = Inr (MVGAL_SUCCESS, Some 1, st1)
        \<and> buf_list st1 [1, 0] \<and> mvgal_buffer_release (Suc (Suc 0)) (Some 1) st1 = Inr st2 \<and> buf_list st2 [0]"
  unfolding Let_def
  using alias_round_trip
    [of "example_state [0 \<mapsto> zero_buffer\<lparr>bf_refcount := 1, bf_size := 128, bf_host_ptr := 4096\<rparr>] (Some 0)"
      "[0]" 0 "zero_buffer\<lparr>bf_refcount := 1, bf_size := 128, bf_host_ptr := 4096\<rparr>" 1 64 64 0 0]
  by (simp add: buf_list_def hseg_def hfield_def example_state_def zero_buffer_def) blast

text \<open>
  A size so large that the 64-bit sum of offset and size wraps round is accepted: the alias is
  created with a size that exceeds its parent's.
\<close>

theorem alias_overflow_accepted:
  assumes "buf_list st xs" and "ms_heap st p = Some pb" and "ms_heap st a = None" and "\<not> ms_locked st"
    and "offset < bf_size pb" and "2 ^ 64 \<le> unat offset + unat sz" and "bf_alias_count pb < 16"
  shows "\<exists>st1 ab. mvgal_memory_create_alias (Some a) (Some p) offset sz fl True st = Inr (MVGAL_SUCCESS, Some a, st1)
    \<and> ms_heap st1 a = Some ab \<and> unat (bf_size pb) < unat offset + unat (bf_size ab)"
proof -
  have lt: "unat offset < 2 ^ 64" "unat sz < 2 ^ 64" "unat (bf_size pb) < 2 ^ 64" by (rule word_bounds)+
  with assms(6) have "sz \<noteq> 0" by auto
  moreover have "unat (offset + sz) < unat offset" using word_add_wrap_less [of offset sz] assms(6) by simp
  then have "\<not> bf_size pb < offset + sz" using assms(5) by (simp add: word_less_nat_alt)
  ultimately obtain st1 ab where "mvgal_memory_create_alias (Some a) (Some p) offset sz fl True st = Inr (MVGAL_SUCCESS, Some a, st1)"
    "ms_heap st1 a = Some (ab\<lparr>bf_next := ms_buffers st\<rparr>)" "ab = restrict_alias fl (alias_of p pb offset sz fl)"
    using create_alias_ok [OF assms(1-5), of sz fl] assms(7) by blast
  with assms(6) lt show ?thesis by (intro exI conjI) (assumption | simp)+
qed

text \<open>The instance at a parent of 128 bytes, offset 64 and the size \<open>2 ^ 64 - 32\<close>.\<close>

lemma alias_overflow_accepted_witness:
  "let pb = zero_buffer\<lparr>bf_refcount := 1, bf_size := 128, bf_host_ptr := 4096\<rparr>;
       st = example_state [0 \<mapsto> pb] (Some 0)
   in \<exists>st1 ab. mvgal_memory_create_alias (Some 1) (Some 0) 64 0xFFFFFFFFFFFFFFE0 0 True st = Inr (MVGAL_SUCCESS, Some 1, st1)
        \<and> ms_heap st1 1 = Some ab \<and> unat (bf_size pb) < unat (64 :: u64) + unat (bf_size ab)"
  unfolding Let_def
  by (rule alias_overflow_accepted [where xs = "[0]"])
    (simp_all add: buf_list_def hseg_def hfield_def example_state_def zero_buffer_def word_less_nat_alt)

text \<open>
  Detaching an alias succeeds and gives it a private copy of the first bytes of its parent,
  not of the region it stood for: the contents are kept exactly when the two agree.
\<close>

theorem alias_detach_copies_parent_start:
  assumes "ms_heap st a = Some ab" and "bf_is_alias ab" and "\<not> bf_alias_detached ab"
    and "bf_alias_parent ab = Some p" and "ms_heap st p = Some pb" and "p \<noteq> a"
    and "bf_host_ptr pb \<noteq> 0" and "private_copy \<noteq> 0" and "bf_refcount pb \<noteq> 1"
  shows "\<exists>st' ab'. mvgal_memory_alias_detach (Suc depth) private_copy (Some a) st = Inr (MVGAL_SUCCESS, st')
    \<and> ms_heap st' a = Some ab' \<and> bf_host_ptr ab' = private_copy
    \<and> (bytes_at (ms_mem st') (bf_host_ptr ab') (unat (bf_alias_size ab)) = bytes_at (ms_mem st) (bf_host_ptr ab) (unat (bf_alias_size ab))
       \<longleftrightarrow> bytes_at (ms_mem st) (bf_host_ptr pb) (unat (bf_alias_size ab)) = bytes_at (ms_mem st) (bf_host_ptr ab) (unat (bf_alias_size ab)))"
proof -
  let ?n = "unat (bf_alias_size ab)"
  let ?st1 = "st\<lparr>ms_mem := mem_copy private_copy (bf_host_ptr pb) ?n (ms_mem st)\<rparr>"
  let ?pb = "(remove_alias a pb)\<lparr>bf_refcount := bf_refcount pb - 1\<rparr>"
  let ?ab = "ab\<lparr>bf_alias_parent := None, bf_alias_detached := True, bf_is_alias := False,
     bf_host_ptr := private_copy, bf_host_offset := 0, bf_original_ptr := private_copy,
     bf_should_free := True, bf_alias_offset := 0, bf_alias_size := 0, bf_alias_flags := 0\<rparr>"
  have "mvgal_memory_alias_detach (Suc depth) private_copy (Some a) st =
      Inr (MVGAL_SUCCESS, put_buffer a ?ab (put_buffer p ?pb ?st1))"
    using assms by (simp add: mvgal_memory_alias_detach_def deref_def upd_buffer_def Let_def put_buffer_def)
  moreover have "bytes_at (mem_copy private_copy (bf_host_ptr pb) ?n (ms_mem st)) private_copy ?n
      = bytes_at (ms_mem st) (bf_host_ptr pb) ?n"
    using unat_lt_u64 [of "bf_alias_size ab"] by (intro mem_copy_bytes) simp
  ultimately show ?thesis
    by (intro exI [of _ "put_buffer a ?ab (put_buffer p ?pb ?st1)"] exI [of _ ?ab]) simp
qed
text \<open>The instance at an alias of the last 4 of 8 bytes.\<close>

lemma alias_detach_copies_parent_start_witness:
  "let pb = zero_buffer\<lparr>bf_refcount := 2, bf_size := 8, bf_host_ptr := 16\<rparr>;
       ab = alias_of 0 pb 4 4 0;
       st = example_state [0 \<mapsto> pb, 1 \<mapsto> ab] (Some 1)
   in \<exists>st' ab'. mvgal_memory_alias_detach 1 64 (Some 1) st = Inr (MVGAL_SUCCESS, st') \<and> ms_heap st' 1 = Some ab'
        \<and> bytes_at (ms_mem st') (bf_host_ptr ab') 4 \<noteq> bytes_at (ms_mem st) (bf_host_ptr ab) 4"
proof -
  let ?pb = "zero_buffer\<lparr>bf_refcount := 2, bf_size := 8, bf_host_ptr := 16\<rparr>"
  let ?ab = "alias_of 0 ?pb 4 4 0"
  let ?st = "example_state [0 \<mapsto> ?pb, 1 \<mapsto> ?ab] (Some 1)"
  have ab: "bf_host_ptr ?ab = 20" "bf_alias_size ?ab = 4" "bf_is_alias ?ab" "\<not> bf_alias_detached ?ab" "bf_alias_parent ?ab = Some 0"
    by (simp_all add: alias_of_def zero_buffer_def Let_def)
  have pb: "bf_host_ptr ?pb = 16" "bf_refcount ?pb \<noteq> 1" by simp_all
  have st: "ms_heap ?st 1 = Some ?ab" "ms_heap ?st 0 = Some ?pb" by (simp_all add: example_state_def)
  have "bytes_at (ms_mem ?st) 16 4 \<noteq> bytes_at (ms_mem ?st) 20 4"
    by (simp add: bytes_at_def example_state_def upt_rec)
  with alias_detach_copies_parent_start [of ?st 1 ?ab 0 ?pb 64 0, OF st(1) ab(3,4,5) st(2)]
  obtain st' ab' where "mvgal_memory_alias_detach 1 64 (Some 1) ?st = Inr (MVGAL_SUCCESS, st')" "ms_heap st' 1 = Some ab'"
    "bytes_at (ms_mem st') (bf_host_ptr ab') 4 \<noteq> bytes_at (ms_mem ?st) (bf_host_ptr ?ab) 4"
    unfolding ab pb by auto
  then show ?thesis unfolding Let_def by blast
qed

text \<open>
  C22. Shutting the module down while a buffer is left does not return: the shutdown holds the
  module's mutex while it frees the buffers, and freeing a buffer takes the mutex again.
\<close>

theorem shutdown_deadlocks:
  assumes "ms_initialized st" and "\<not> ms_locked st" and "ms_buffers st = Some p" and "ms_heap st p = Some b" and "plain b"
  shows "mvgal_memory_module_shutdown (Suc bound) depth st = Inl Self_Deadlock"
  using assms
  by (simp add: mvgal_memory_module_shutdown_def lock_state_def deref_def plain_def Let_def free_struct_def upd_buffer_def)

text \<open>C22 at a module with one buffer.\<close>

lemma shutdown_deadlocks_witness:
  "mvgal_memory_module_shutdown (Suc 0) 0 (example_state [0 \<mapsto> zero_buffer\<lparr>bf_refcount := 1\<rparr>] (Some 0)) = Inl Self_Deadlock"
  by (rule shutdown_deadlocks [where b = "zero_buffer\<lparr>bf_refcount := 1\<rparr>"]) (simp_all add: example_state_def plain_def zero_buffer_def)

text \<open>
  For an alignment that is a power of two the size that is allocated is a multiple of the
  alignment, at least the requested size and less than one alignment above it, unless the rounding
  leaves 64 bits.
\<close>

theorem aligned_size_rounds_up:
  assumes "k < 64" and "unat sz + 2 ^ k \<le> 2 ^ 64"
  shows "unat (aligned_size sz (2 ^ k)) mod 2 ^ k = 0 \<and> unat sz \<le> unat (aligned_size sz (2 ^ k))
    \<and> unat (aligned_size sz (2 ^ k)) < unat sz + 2 ^ k"
proof -
  let ?x = "unat sz + 2 ^ k - 1"
  have lt: "(2 :: nat) ^ k < 2 ^ 64" using assms(1) by (intro power_strict_increasing) simp_all
  have u: "unat (2 ^ k :: u64) = 2 ^ k" using unat_of_nat_u64 [OF lt] by simp
  then have pos: "(0 :: u64) < 2 ^ k" by (simp add: word_less_nat_alt)
  have "unat (2 ^ k - 1 :: u64) = 2 ^ k - 1" using u unat_pred_pos [OF pos] by simp
  then have x: "unat (sz + (2 ^ k - 1)) = ?x"
    using assms(2) by (subst unat_add_no_wrap) (simp_all add: Nat.le_diff_conv2)
  have "aligned_size sz (2 ^ k) = (sz + (2 ^ k - 1)) AND NOT (mask k)"
    using pos by (simp add: aligned_size_def mask_eq_exp_minus_1 add_diff_eq)
  then have a: "unat (aligned_size sz (2 ^ k)) = ?x div 2 ^ k * 2 ^ k"
    using unat_and_not_mask [OF assms(1), of "sz + (2 ^ k - 1)"] x by simp
  have "?x div 2 ^ k * 2 ^ k + ?x mod 2 ^ k = ?x" by (rule div_mult_mod_eq)
  moreover have "?x mod 2 ^ k < 2 ^ k" and "(1 :: nat) \<le> 2 ^ k" by simp_all
  ultimately show ?thesis unfolding a by (intro conjI) (simp, linarith+)
qed

text \<open>The instance at 100 bytes and an alignment of 64.\<close>

lemma aligned_size_rounds_up_witness: "unat (aligned_size 100 64) = 128"
  using aligned_size_rounds_up [of 6 100] by (simp add: aligned_size_def)

text \<open>
  A buffer in DMA-BUF memory for a set of GPUs that does not contain GPU 0 gets a binding for
  GPU 0, which is not in its mask: the loop fills the binding table by GPU number but counts the
  entries as if they were at its beginning. Such a buffer is not well-formed.
\<close>

theorem dmabuf_bindings_misplaced:
  assumes "\<not> bit (ai_gpu_mask ai) 0" and "i < 16" and "bit (ai_gpu_mask ai) i"
  shows "find_binding (dmabuf_buffer ai fd ptr) 0 = Some 0 \<and> \<not> bindings_wf (dmabuf_buffer ai fd ptr)"
proof -
  let ?b = "dmabuf_buffer ai fd ptr" and ?n = "length (filter (\<lambda>i. has_flag (ai_gpu_mask ai) (push_bit i 1)) [0..<16])"
  have "\<not> has_flag (ai_gpu_mask ai) (push_bit 0 1)" using assms(1) has_flag_bit [of "ai_gpu_mask ai" 0] by blast
  then have "gb_gpu_index (bf_gpu_bindings ?b ! 0) = 0"
    unfolding dmabuf_buffer_def by (subst bind_mask_unset) (simp_all add: fresh_buffer_def zero_buffer_def zero_binding_def)
  moreover have "bf_gpu_binding_count ?b = of_nat ?n"
    by (simp add: dmabuf_buffer_def bind_mask_count fresh_buffer_def zero_buffer_def)
  moreover have "0 < ?n" using assms(2,3) by (auto simp: has_flag_bit filter_empty_conv simp del: push_bit_of_1)
  moreover have "?n < 2 ^ 32" using length_filter_le [of _ "[0..<16]"] by (rule le_less_trans) simp
  ultimately have z: "find_binding ?b 0 = Some 0"
    by (simp add: find_binding_def find_upt_Some unat_of_nat take_bit_nat_eq_self)
  have "bf_gpu_mask (bind_mask msk p w is b) = bf_gpu_mask b" for msk p w "is" b
    by (induction "is" arbitrary: b) (auto simp: upd_binding_def)
  then have "bf_gpu_mask ?b = ai_gpu_mask ai" by (simp add: dmabuf_buffer_def fresh_buffer_def)
  with assms(1) have "\<not> has_flag (bf_gpu_mask ?b) (bit_u32 0)" by (simp add: has_flag_bit_u32)
  then have "\<not> bindings_wf ?b"
    using z find_binding_None_iff [of ?b 0] by (auto simp: bindings_wf_def)
  with z show ?thesis by blast
qed

text \<open>The instance at the mask of GPU 1 alone.\<close>

lemma dmabuf_bindings_misplaced_witness:
  "find_binding (dmabuf_buffer \<lparr>ai_size = 64, ai_alignment = 0, ai_flags = 32, ai_memory_type = 4, ai_sharing_mode = 4,
      ai_access = 3, ai_gpu_mask = 2, ai_priority = 50\<rparr> 5 4096) 0 = Some 0"
  using dmabuf_bindings_misplaced [of "\<lparr>ai_size = 64, ai_alignment = 0, ai_flags = 32, ai_memory_type = 4, ai_sharing_mode = 4,
      ai_access = 3, ai_gpu_mask = 2, ai_priority = 50\<rparr>" 1 5 4096] by simp

end
