(* ===== verification/Fence_Sync.thy ===== *)
theory Fence_Sync
  imports Cond_Wait
begin

text \<open>
  Fences and counting semaphores of the user-space memory module
  (\<^verbatim>\<open>src/userspace/memory/sync.c\<close>, structures of \<^verbatim>\<open>memory_internal.h\<close>). A handle that may be NULL
  is an option; every operation holds the object's mutex from its first to its last access, so it is
  one step on the object, except that a blocked wait lets other threads change the object
  (theory \<open>Cond_Wait\<close>).
\<close>

section \<open>Fences\<close>

record mvgal_fence =
  fence_signaled :: bool
  fence_refcount :: u32
  fence_status :: mvgal_error_t
  fence_user_data :: "nat option"

definition mvgal_fence_create :: "bool \<Rightarrow> init_env \<Rightarrow> mvgal_error_t \<times> mvgal_fence option" where
  "mvgal_fence_create out_nonnull env =
     (if \<not> out_nonnull then (MVGAL_ERROR_INVALID_ARGUMENT, None)
      else if \<not> calloc_ok env then (MVGAL_ERROR_OUT_OF_MEMORY, None)
      else if \<not> mutex_init_ok env then (MVGAL_ERROR_INITIALIZATION, None)
      else if \<not> cond_init_ok env then (MVGAL_ERROR_INITIALIZATION, None)
      else (MVGAL_SUCCESS,
            Some \<lparr>fence_signaled = False, fence_refcount = 1,
                  fence_status = MVGAL_SUCCESS, fence_user_data = None\<rparr>))"

text \<open>
  The first component is what is left of the object (\<open>None\<close> once it is freed), the second the state
  that is broadcast to the waiting threads before the object is freed.
\<close>

definition mvgal_fence_destroy :: "mvgal_fence option \<Rightarrow> mvgal_fence option \<times> mvgal_fence option" where
  "mvgal_fence_destroy fence =
     (case fence of
        None \<Rightarrow> (None, None)
      | Some f \<Rightarrow>
          (let old_count = fence_refcount f;
               f' = f\<lparr>fence_refcount := old_count - 1\<rparr>
           in if sint old_count \<le> 1 then (None, Some (f'\<lparr>fence_signaled := True\<rparr>))
              else (Some f', None)))"

definition timedwait_early :: "pthread_ret \<Rightarrow> mvgal_error_t option" where
  "timedwait_early ret =
     (case ret of
        ETIMEDOUT \<Rightarrow> Some MVGAL_ERROR_TIMEOUT
      | RET_OK \<Rightarrow> None
      | RET_OTHER _ \<Rightarrow> Some MVGAL_ERROR_UNKNOWN)"

text \<open>The deadline both kinds of object compute from a timeout in milliseconds, 0 meaning none.\<close>

definition ms_deadline :: "timespec \<Rightarrow> u32 \<Rightarrow> timespec option" where
  "ms_deadline now timeout_ms =
     (if timeout_ms = 0 then None
      else Some (deadline_ts now (ucast timeout_ms * 1000000)))"

definition mvgal_fence_wait ::
    "mvgal_fence option \<Rightarrow> u32 \<Rightarrow> timespec \<Rightarrow> mvgal_fence wait_env \<Rightarrow>
       (mvgal_fence option \<times> mvgal_error_t) option" where
  "mvgal_fence_wait fence timeout_ms now env =
     (case fence of
        None \<Rightarrow> Some (None, MVGAL_ERROR_INVALID_ARGUMENT)
      | Some f \<Rightarrow>
          if fence_signaled f then Some (Some f, fence_status f)
          else case block_until timedwait_early fence_signaled (ms_deadline now timeout_ms) f env of
                 None \<Rightarrow> None
               | Some (f', None) \<Rightarrow> Some (Some f', fence_status f')
               | Some (f', Some e) \<Rightarrow> Some (Some f', e))"

definition mvgal_fence_check :: "mvgal_fence option \<Rightarrow> bool" where
  "mvgal_fence_check fence = (case fence of None \<Rightarrow> True | Some f \<Rightarrow> fence_signaled f)"

definition mvgal_fence_reset :: "mvgal_fence option \<Rightarrow> mvgal_fence option" where
  "mvgal_fence_reset fence =
     map_option (\<lambda>f. f\<lparr>fence_signaled := False, fence_status := MVGAL_SUCCESS\<rparr>) fence"

definition mvgal_fence_signal_with_status ::
    "mvgal_fence option \<Rightarrow> mvgal_error_t \<Rightarrow> mvgal_fence option \<times> mvgal_error_t" where
  "mvgal_fence_signal_with_status fence status =
     (case fence of
        None \<Rightarrow> (None, MVGAL_ERROR_INVALID_ARGUMENT)
      | Some f \<Rightarrow> (Some (f\<lparr>fence_signaled := True, fence_status := status\<rparr>), MVGAL_SUCCESS))"

section \<open>Semaphores\<close>

record mvgal_semaphore =
  sem_count :: u64
  sem_refcount :: u32

definition mvgal_semaphore_create ::
    "u64 \<Rightarrow> bool \<Rightarrow> init_env \<Rightarrow> mvgal_error_t \<times> mvgal_semaphore option" where
  "mvgal_semaphore_create initial_value out_nonnull env =
     (if \<not> out_nonnull then (MVGAL_ERROR_INVALID_ARGUMENT, None)
      else if \<not> calloc_ok env then (MVGAL_ERROR_OUT_OF_MEMORY, None)
      else if \<not> mutex_init_ok env then (MVGAL_ERROR_INITIALIZATION, None)
      else if \<not> cond_init_ok env then (MVGAL_ERROR_INITIALIZATION, None)
      else (MVGAL_SUCCESS, Some \<lparr>sem_count = initial_value, sem_refcount = 1\<rparr>))"

definition mvgal_semaphore_destroy :: "mvgal_semaphore option \<Rightarrow> mvgal_semaphore option" where
  "mvgal_semaphore_destroy semaphore =
     (case semaphore of
        None \<Rightarrow> None
      | Some s \<Rightarrow>
          (let old_count = sem_refcount s
           in if sint old_count \<le> 1 then None
              else Some (s\<lparr>sem_refcount := old_count - 1\<rparr>)))"

text \<open>The last component counts the \<^verbatim>\<open>pthread_cond_signal\<close> calls of the wake-up loop.\<close>

definition mvgal_semaphore_signal ::
    "mvgal_semaphore option \<Rightarrow> u64 \<Rightarrow> mvgal_semaphore option \<times> mvgal_error_t \<times> nat" where
  "mvgal_semaphore_signal semaphore value =
     (case semaphore of
        None \<Rightarrow> (None, MVGAL_ERROR_INVALID_ARGUMENT, 0)
      | Some s \<Rightarrow>
          if value = 0 then (Some s, MVGAL_ERROR_INVALID_ARGUMENT, 0)
          else (Some (s\<lparr>sem_count := sem_count s + value\<rparr>), MVGAL_SUCCESS, unat value))"

definition mvgal_semaphore_wait ::
    "mvgal_semaphore option \<Rightarrow> u64 \<Rightarrow> u32 \<Rightarrow> timespec \<Rightarrow> mvgal_semaphore wait_env \<Rightarrow>
       (mvgal_semaphore option \<times> mvgal_error_t) option" where
  "mvgal_semaphore_wait semaphore value timeout_ms now env =
     (case semaphore of
        None \<Rightarrow> Some (None, MVGAL_ERROR_INVALID_ARGUMENT)
      | Some s \<Rightarrow>
          if value = 0 then Some (Some s, MVGAL_ERROR_INVALID_ARGUMENT)
          else if value \<le> sem_count s
          then Some (Some (s\<lparr>sem_count := sem_count s - value\<rparr>), MVGAL_SUCCESS)
          else case block_until timedwait_early (\<lambda>t. value \<le> sem_count t)
                      (ms_deadline now timeout_ms) s env of
                 None \<Rightarrow> None
               | Some (t, None) \<Rightarrow>
                   Some (Some (t\<lparr>sem_count := sem_count t - value\<rparr>), MVGAL_SUCCESS)
               | Some (t, Some e) \<Rightarrow> Some (Some t, e))"

definition mvgal_semaphore_get_value ::
    "mvgal_semaphore option \<Rightarrow> bool \<Rightarrow> mvgal_error_t \<times> u64 option" where
  "mvgal_semaphore_get_value semaphore out_nonnull =
     (case semaphore of
        None \<Rightarrow> (MVGAL_ERROR_INVALID_ARGUMENT, None)
      | Some s \<Rightarrow>
          if \<not> out_nonnull then (MVGAL_ERROR_INVALID_ARGUMENT, None)
          else (MVGAL_SUCCESS, Some (sem_count s)))"

section \<open>Runs of a semaphore\<close>

text \<open>
  A run lists the operations in the order in which they hold the mutex. A wait that had to sleep
  stands at the point where it is granted; one that is not granted leaves no trace. The run counts
  what has been posted and what has been taken.
\<close>

datatype sem_event = Sem_Signal u64 | Sem_Wait u64

definition sem_wait_on ::
    "u64 \<Rightarrow> u32 \<Rightarrow> timespec \<Rightarrow> mvgal_semaphore \<Rightarrow> mvgal_semaphore wait_env \<Rightarrow>
       (mvgal_semaphore \<times> mvgal_error_t) option" where
  "sem_wait_on value timeout_ms now s env =
     map_option (map_prod the id) (mvgal_semaphore_wait (Some s) value timeout_ms now env)"

fun sem_event_step :: "mvgal_semaphore \<times> nat \<times> nat \<Rightarrow> sem_event \<Rightarrow> mvgal_semaphore \<times> nat \<times> nat" where
  "sem_event_step (s, posted, taken) (Sem_Signal v) =
     (case mvgal_semaphore_signal (Some s) v of
        (Some s', MVGAL_SUCCESS, _) \<Rightarrow> (s', posted + unat v, taken)
      | _ \<Rightarrow> (s, posted, taken))"
| "sem_event_step (s, posted, taken) (Sem_Wait v) =
     (case mvgal_semaphore_wait (Some s) v 0 \<lparr>tv_sec = 0, tv_nsec = 0\<rparr> (\<lambda>_. []) of
        Some (Some s', MVGAL_SUCCESS) \<Rightarrow> (s', posted, taken + unat v)
      | _ \<Rightarrow> (s, posted, taken))"

definition sem_run :: "mvgal_semaphore \<Rightarrow> sem_event list \<Rightarrow> mvgal_semaphore \<times> nat \<times> nat" where
  "sem_run s evs = foldl sem_event_step (s, 0, 0) evs"

section \<open>Lemmas\<close>

lemmas fence_defs = mvgal_fence_wait_def mvgal_fence_check_def mvgal_fence_reset_def
  mvgal_fence_signal_with_status_def

lemma timedwait_early_cases: "timedwait_early r = Some e \<Longrightarrow> e \<in> {MVGAL_ERROR_TIMEOUT, MVGAL_ERROR_UNKNOWN}"
  by (auto simp: timedwait_early_def split: pthread_ret.splits)

lemma ms_deadline_None [simp]: "ms_deadline now t = None \<longleftrightarrow> t = 0"
  by (simp add: ms_deadline_def)

interpretation fence_block: waitable fence_signaled "\<lambda>s. s" "\<lambda>r. r = None"
  "block_until timedwait_early fence_signaled (ms_deadline now timeout_ms)" for now timeout_ms
  by (rule waitable_block_until)

lemma block_no_deadline_not_early:
  "block_until early p None s env \<noteq> Some (t, Some e)"
  by (simp add: block_until_def)

lemma sem_wait_on_simp:
  "sem_wait_on v timeout_ms now s env =
     (if v = 0 then Some (s, MVGAL_ERROR_INVALID_ARGUMENT)
      else map_option
             (\<lambda>(t, e). case e of None \<Rightarrow> (t\<lparr>sem_count := sem_count t - v\<rparr>, MVGAL_SUCCESS) | Some e \<Rightarrow> (t, e))
             (block_until timedwait_early (\<lambda>t. v \<le> sem_count t) (ms_deadline now timeout_ms) s env))"
  by (cases "block_until timedwait_early (\<lambda>t. v \<le> sem_count t) (ms_deadline now timeout_ms) s env")
    (auto simp: sem_wait_on_def mvgal_semaphore_wait_def split: option.splits prod.splits)

interpretation sem_wait: waitable
  "\<lambda>s. v \<noteq> 0 \<and> v \<le> sem_count s" "\<lambda>s. s\<lparr>sem_count := sem_count s - v\<rparr>"
  "\<lambda>r. r = MVGAL_SUCCESS" "sem_wait_on v timeout_ms now" for v timeout_ms now
proof
  fix s :: mvgal_semaphore and env
  assume "v \<noteq> 0 \<and> v \<le> sem_count s"
  then show "\<exists>r. sem_wait_on v timeout_ms now s env = Some (s\<lparr>sem_count := sem_count s - v\<rparr>, r) \<and> r = MVGAL_SUCCESS"
    by (simp add: sem_wait_on_simp)
next
  fix s s' :: mvgal_semaphore and env r
  assume w: "sem_wait_on v timeout_ms now s env = Some (s', r)" and r: "r = MVGAL_SUCCESS"
  then obtain t e where
    b: "block_until timedwait_early (\<lambda>t. v \<le> sem_count t) (ms_deadline now timeout_ms) s env = Some (t, e)"
    and v: "v \<noteq> 0"
    and c: "(case e of None \<Rightarrow> (t\<lparr>sem_count := sem_count t - v\<rparr>, MVGAL_SUCCESS) | Some e \<Rightarrow> (t, e)) = (s', MVGAL_SUCCESS)"
    by (auto simp: sem_wait_on_simp split: if_splits)
  from b c have "e = None" by (cases e) (auto dest!: block_until_SomeD timedwait_early_cases)
  with b v c show "\<exists>t d. (v \<noteq> 0 \<and> v \<le> sem_count t) \<and> s' = t\<lparr>sem_count := sem_count t - v\<rparr>
      \<and> (t = s \<or> t \<in> wake_state ` set (env d))"
    by (auto dest!: block_until_NoneD)
next
  fix s s' :: mvgal_semaphore and env r
  assume "sem_wait_on v timeout_ms now s env = Some (s', r)" and "r \<noteq> MVGAL_SUCCESS"
  then show "\<not> (v \<noteq> 0 \<and> v \<le> sem_count s) \<and> (s' = s \<or> (\<exists>d. s' \<in> wake_state ` set (env d)))"
    by (auto simp: sem_wait_on_simp split: if_splits option.splits dest!: block_until_SomeD)
qed

lemma sem_signal_step:
  "sem_event_step (s, p, q) (Sem_Signal v) = (s\<lparr>sem_count := sem_count s + v\<rparr>, p + unat v, q)"
  by (simp add: mvgal_semaphore_signal_def)

lemma sem_wait_step:
  "sem_event_step (s, p, q) (Sem_Wait v) =
     (if v \<noteq> 0 \<and> v \<le> sem_count s then (s\<lparr>sem_count := sem_count s - v\<rparr>, p, q + unat v) else (s, p, q))"
  by (auto simp: mvgal_semaphore_wait_def ms_deadline_def block_until_def)

declare sem_event_step.simps [simp del]

lemma unat_plus_le: "unat (a + b) \<le> unat a + unat b" for a b :: "'a::len word"
  by (simp add: unat_word_ariths)

lemma sem_fold_bound:
  "foldl sem_event_step (s, p, q) evs = (s', p', q') \<Longrightarrow>
     p \<le> p' \<and> q \<le> q' \<and> unat (sem_count s') + (q' - q) \<le> unat (sem_count s) + (p' - p)"
proof (induction evs arbitrary: s p q)
  case Nil
  then show ?case by simp
next
  case (Cons ev evs)
  show ?case
  proof (cases ev)
    case (Sem_Signal v)
    with Cons.prems have "foldl sem_event_step (s\<lparr>sem_count := sem_count s + v\<rparr>, p + unat v, q) evs = (s', p', q')"
      by (simp add: sem_signal_step)
    from Cons.IH [OF this] show ?thesis
      using unat_plus_le [of "sem_count s" v] by auto
  next
    case (Sem_Wait v)
    show ?thesis
    proof (cases "v \<noteq> 0 \<and> v \<le> sem_count s")
      case True
      with Cons.prems Sem_Wait
      have "foldl sem_event_step (s\<lparr>sem_count := sem_count s - v\<rparr>, p, q + unat v) evs = (s', p', q')"
        by (simp add: sem_wait_step)
      from Cons.IH [OF this] show ?thesis
        using True by (auto simp: unat_sub_no_wrap word_le_nat_alt)
    next
      case False
      with Cons.prems Sem_Wait have "foldl sem_event_step (s, p, q) evs = (s', p', q')"
        by (simp add: sem_wait_step)
      from Cons.IH [OF this] show ?thesis .
    qed
  qed
qed

lemma sem_fold_exact:
  "foldl sem_event_step (s, p, q) evs = (s', p', q') \<Longrightarrow> unat (sem_count s) + (p' - p) < 2 ^ 64 \<Longrightarrow>
     unat (sem_count s') + (q' - q) = unat (sem_count s) + (p' - p)"
proof (induction evs arbitrary: s p q)
  case Nil
  then show ?case by simp
next
  case (Cons ev evs)
  show ?case
  proof (cases ev)
    case (Sem_Signal v)
    with Cons.prems have f: "foldl sem_event_step (s\<lparr>sem_count := sem_count s + v\<rparr>, p + unat v, q) evs = (s', p', q')"
      by (simp add: sem_signal_step)
    from sem_fold_bound [OF f] have le: "p + unat v \<le> p'" by simp
    with Cons.prems(2) have "unat (sem_count s + v) = unat (sem_count s) + unat v"
      by (intro unat_add_no_wrap) simp
    with Cons.IH [OF f] Cons.prems(2) le show ?thesis by simp
  next
    case (Sem_Wait v)
    show ?thesis
    proof (cases "v \<noteq> 0 \<and> v \<le> sem_count s")
      case True
      with Cons.prems Sem_Wait
      have f: "foldl sem_event_step (s\<lparr>sem_count := sem_count s - v\<rparr>, p, q + unat v) evs = (s', p', q')"
        by (simp add: sem_wait_step)
      from sem_fold_bound [OF f] have le: "q + unat v \<le> q'" by simp
      from True have "unat (sem_count s - v) = unat (sem_count s) - unat v" "unat v \<le> unat (sem_count s)"
        by (simp_all add: unat_sub_no_wrap word_le_nat_alt)
      moreover from this Cons.prems(2) have "unat (sem_count s - v) + (p' - p) < 2 ^ 64" by linarith
      ultimately show ?thesis using Cons.IH [OF f] le by simp
    next
      case False
      with Cons.prems Sem_Wait have "foldl sem_event_step (s, p, q) evs = (s', p', q')"
        by (simp add: sem_wait_step)
      with Cons.IH Cons.prems(2) show ?thesis by blast
    qed
  qed
qed

lemma fence_wait_returned:
  assumes "mvgal_fence_wait (Some f) timeout_ms now env = Some (g, r)"
  shows "(\<exists>h. g = Some h \<and> fence_signaled h \<and> r = fence_status h)
    \<or> (\<not> fence_signaled f \<and> timeout_ms \<noteq> 0 \<and> r \<in> {MVGAL_ERROR_TIMEOUT, MVGAL_ERROR_UNKNOWN})"
proof (cases "fence_signaled f")
  case True
  with assms show ?thesis by (auto simp: fence_defs)
next
  case False
  with assms obtain h e where
    b: "block_until timedwait_early fence_signaled (ms_deadline now timeout_ms) f env = Some (h, e)"
    and g: "g = Some h" and r: "r = (case e of None \<Rightarrow> fence_status h | Some e \<Rightarrow> e)"
    by (auto simp: fence_defs split: option.splits prod.splits)
  show ?thesis
  proof (cases e)
    case None
    with b g r show ?thesis by (auto dest: block_until_NoneD)
  next
    case (Some x)
    with b have "timeout_ms \<noteq> 0" by (auto simp: ms_deadline_def block_no_deadline_not_early)
    with b Some False r show ?thesis by (auto dest!: block_until_SomeD timedwait_early_cases)
  qed
qed

lemma fence_wait_untimed:
  assumes "\<not> fence_signaled f"
  shows "(mvgal_fence_wait (Some f) 0 now env \<noteq> None) = (\<exists>w \<in> set (env None). fence_signaled (wake_state w))"
proof -
  have "(mvgal_fence_wait (Some f) 0 now env \<noteq> None) = (cond_wait_loop fence_signaled f (env None) \<noteq> None)"
    using assms by (auto simp: fence_defs ms_deadline_def block_until_def split: option.splits)
  also have "\<dots> = (\<exists>w \<in> set (env None). fence_signaled (wake_state w))"
    using assms cond_wait_loop_returns [of _ "env None" fence_signaled f]
      cond_wait_loop_blocks [of fence_signaled f "env None"] by fastforce
  finally show ?thesis .
qed

section \<open>Properties\<close>

text \<open>
  C1. A fence wait that returns has found the fence signalled and reports the status of the
  signaller, or it is a timed wait on a fence that was not signalled and reports a timeout or a
  failed library call. An untimed wait on an unsignalled fence returns exactly when one of its
  sleeps ends with the fence signalled, and a fence just signalled with a status gives that status
  to every wait without a sleep.
\<close>

theorem fence_wait_outcome:
  "(\<forall>g r. mvgal_fence_wait (Some f) timeout_ms now env = Some (g, r) \<longrightarrow>
      (\<exists>h. g = Some h \<and> fence_signaled h \<and> r = fence_status h)
    \<or> (\<not> fence_signaled f \<and> timeout_ms \<noteq> 0 \<and> r \<in> {MVGAL_ERROR_TIMEOUT, MVGAL_ERROR_UNKNOWN}))
   \<and> (\<not> fence_signaled f \<longrightarrow>
       (mvgal_fence_wait (Some f) 0 now env \<noteq> None) = (\<exists>w \<in> set (env None). fence_signaled (wake_state w)))
   \<and> mvgal_fence_wait (fst (mvgal_fence_signal_with_status (Some f) st)) timeout_ms now env =
       Some (Some (f\<lparr>fence_signaled := True, fence_status := st\<rparr>), st)"
proof (intro conjI allI impI)
  fix g r
  assume "mvgal_fence_wait (Some f) timeout_ms now env = Some (g, r)"
  then show "(\<exists>h. g = Some h \<and> fence_signaled h \<and> r = fence_status h)
    \<or> (\<not> fence_signaled f \<and> timeout_ms \<noteq> 0 \<and> r \<in> {MVGAL_ERROR_TIMEOUT, MVGAL_ERROR_UNKNOWN})"
    by (rule fence_wait_returned)
next
  assume "\<not> fence_signaled f"
  then show "(mvgal_fence_wait (Some f) 0 now env \<noteq> None) = (\<exists>w \<in> set (env None). fence_signaled (wake_state w))"
    by (rule fence_wait_untimed)
qed (simp add: fence_defs)

text \<open>The hypotheses of C1 hold for a fence signalled with a device failure during the second sleep.\<close>

lemma fence_wait_outcome_witness:
  "let f = \<lparr>fence_signaled = False, fence_refcount = 1, fence_status = MVGAL_SUCCESS, fence_user_data = None\<rparr>;
       g = f\<lparr>fence_signaled := True, fence_status := MVGAL_ERROR_DEVICE_LOST\<rparr>;
       env = (\<lambda>_. [Wake RET_OK f, Wake RET_OK g])
   in \<not> fence_signaled f
      \<and> mvgal_fence_wait (Some f) 0 \<lparr>tv_sec = 0, tv_nsec = 0\<rparr> env \<noteq> None
      \<and> mvgal_fence_wait (Some f) 0 \<lparr>tv_sec = 0, tv_nsec = 0\<rparr> env = Some (Some g, MVGAL_ERROR_DEVICE_LOST)"
  using fence_wait_outcome
    [of "\<lparr>fence_signaled = False, fence_refcount = 1, fence_status = MVGAL_SUCCESS, fence_user_data = None\<rparr>" 0
        "\<lparr>tv_sec = 0, tv_nsec = 0\<rparr>"
        "\<lambda>_. [Wake RET_OK \<lparr>fence_signaled = False, fence_refcount = 1, fence_status = MVGAL_SUCCESS, fence_user_data = None\<rparr>,
              Wake RET_OK \<lparr>fence_signaled = True, fence_refcount = 1, fence_status = MVGAL_ERROR_DEVICE_LOST, fence_user_data = None\<rparr>]"]
  by (simp add: fence_defs block_until_def ms_deadline_def Let_def)



end
