(* ===== verification/Memory_Api.thy ===== *)
theory Memory_Api
  imports Buffer_Alloc Fence_Sync
begin

unbundle bit_operations_syntax

text \<open>
  The public memory operations of \<^verbatim>\<open>src/userspace/memory/memory.c\<close> and the DMA-BUF operations of
  \<^verbatim>\<open>dmabuf.c\<close> behind them. The GPU manager's answers (number of GPUs, which of them are enabled) and
  those of the kernel (\<^verbatim>\<open>fstat\<close>, \<^verbatim>\<open>mmap\<close>, \<^verbatim>\<open>msync\<close>) are arguments.
\<close>

section \<open>DMA-BUF operations on buffers\<close>

definition mvgal_dmabuf_export :: "mvgal_buffer \<Rightarrow> bool \<Rightarrow> mvgal_error_t \<times> int option \<times> mvgal_buffer" where
  "mvgal_dmabuf_export b out_nonnull =
     (if \<not> out_nonnull then (MVGAL_ERROR_INVALID_ARGUMENT, None, b)
      else if has_flag (bf_state b) MVGAL_BUFFER_STATE_EXPORTED then (MVGAL_SUCCESS, Some (bf_dmabuf_fd b), b)
      else if bf_backend b = MVGAL_BUFFER_BACKEND_DMA_BUF \<or> bf_backend b = MVGAL_BUFFER_BACKEND_DMA_BUF_IMPORTED
      then (MVGAL_SUCCESS, Some (bf_dmabuf_fd b), b\<lparr>bf_state := bf_state b OR MVGAL_BUFFER_STATE_EXPORTED\<rparr>)
      else (MVGAL_ERROR_NOT_SUPPORTED, None, b))"

definition mvgal_dmabuf_map :: "u64 option \<Rightarrow> int \<Rightarrow> mvgal_error_t \<times> u64 option" where
  "mvgal_dmabuf_map mmap fd =
     (if fd < 0 then (MVGAL_ERROR_INVALID_ARGUMENT, None)
      else case mmap of None \<Rightarrow> (MVGAL_ERROR_MEMORY, None) | Some p \<Rightarrow> (MVGAL_SUCCESS, Some p))"

definition mvgal_dmabuf_unmap :: "u64 \<Rightarrow> u64 \<Rightarrow> (u64 \<times> u64) list" where
  "mvgal_dmabuf_unmap ptr sz = (if ptr \<noteq> 0 \<and> ptr \<noteq> UINT64_MAX then [(ptr, sz)] else [])"

fun replicate_to :: "u32 \<Rightarrow> u32 list \<Rightarrow> mvgal_buffer \<Rightarrow> mvgal_buffer" where
  "replicate_to gpu_count [] b = b"
| "replicate_to gpu_count (g # gs) b =
     replicate_to gpu_count gs (if 16 \<le> g then b else snd (mvgal_buffer_bind_to_gpu gpu_count b g False))"

definition mvgal_buffer_replicate :: "u32 \<Rightarrow> mvgal_buffer \<Rightarrow> u32 list option \<Rightarrow> mvgal_error_t \<times> mvgal_buffer" where
  "mvgal_buffer_replicate gpu_count b gpu_indices =
     (case gpu_indices of
        None \<Rightarrow> (MVGAL_ERROR_INVALID_ARGUMENT, b)
      | Some gs \<Rightarrow>
          if gs = [] then (MVGAL_ERROR_INVALID_ARGUMENT, b)
          else (let b = replicate_to gpu_count gs b
                in (MVGAL_SUCCESS, b\<lparr>bf_state := bf_state b OR MVGAL_BUFFER_STATE_REPLICATED\<rparr>)))"

record gpu_manager =
  gm_count :: u32
  gm_enabled :: "u32 \<Rightarrow> bool"

definition mvgal_dmabuf_p2p_is_supported :: "gpu_manager \<Rightarrow> u32 \<Rightarrow> u32 \<Rightarrow> bool" where
  "mvgal_dmabuf_p2p_is_supported gm src dst \<longleftrightarrow>
     src < 16 \<and> dst < 16 \<and> src < gm_count gm \<and> dst < gm_count gm \<and> gm_enabled gm src \<and> gm_enabled gm dst"

definition mvgal_dmabuf_nvlink_is_available :: "u32 \<Rightarrow> u32 \<Rightarrow> bool" where
  "mvgal_dmabuf_nvlink_is_available gpu1 gpu2 = False"

datatype mvgal_memory_copy_method_t =
  MVGAL_MEMORY_COPY_CPU | MVGAL_MEMORY_COPY_DMA_BUF | MVGAL_MEMORY_COPY_NVLINK | MVGAL_MEMORY_COPY_P2P

definition mvgal_dmabuf_get_copy_method :: "gpu_manager \<Rightarrow> u32 \<Rightarrow> u32 \<Rightarrow> mvgal_memory_copy_method_t" where
  "mvgal_dmabuf_get_copy_method gm src dst =
     (if 16 \<le> src \<or> 16 \<le> dst then MVGAL_MEMORY_COPY_CPU
      else if gm_count gm \<le> src \<or> gm_count gm \<le> dst then MVGAL_MEMORY_COPY_CPU
      else if mvgal_dmabuf_nvlink_is_available src dst then MVGAL_MEMORY_COPY_NVLINK
      else if mvgal_dmabuf_p2p_is_supported gm src dst then MVGAL_MEMORY_COPY_DMA_BUF
      else MVGAL_MEMORY_COPY_CPU)"

definition mvgal_dmabuf_bind_to_gpu ::
    "gpu_manager \<Rightarrow> mvgal_buffer \<Rightarrow> u32 \<Rightarrow> mvgal_error_t \<times> u64 option \<times> mvgal_buffer" where
  "mvgal_dmabuf_bind_to_gpu gm b gpu_index =
     (if bf_dmabuf_fd b < 0 then (MVGAL_ERROR_NOT_SUPPORTED, None, b)
      else case find_binding b gpu_index of
        Some i \<Rightarrow> (MVGAL_SUCCESS, Some (gb_gpu_address (bf_gpu_bindings b ! i)), b)
      | None \<Rightarrow>
          if gm_count gm \<le> gpu_index \<or> \<not> gm_enabled gm gpu_index then (MVGAL_ERROR_GPU_NOT_FOUND, None, b)
          else
            (let addr = bf_host_ptr b
             in (MVGAL_SUCCESS, Some addr,
                 if bf_gpu_binding_count b < 16
                 then (upd_binding (unat (bf_gpu_binding_count b))
                         (\<lambda>g. g\<lparr>gb_gpu_index := gpu_index, gb_gpu_address := addr, gb_writable := True, gb_readable := True\<rparr>) b)
                        \<lparr>bf_gpu_binding_count := bf_gpu_binding_count b + 1\<rparr>
                 else b)))"

text \<open>
  A copy between two buffers. After a successful export of the destination the function calls
  itself; the first argument bounds how often.
\<close>

fun mvgal_dmabuf_copy_gpu_to_gpu ::
    "nat \<Rightarrow> gpu_manager \<Rightarrow> nat option \<Rightarrow> u64 \<Rightarrow> nat option \<Rightarrow> u64 \<Rightarrow> u64 \<Rightarrow> u32 \<Rightarrow> u32 \<Rightarrow>
       mvgal_memory_state_t \<Rightarrow> (mvgal_error_t \<times> mvgal_memory_state_t) run" where
  "mvgal_dmabuf_copy_gpu_to_gpu depth gm (Some s) soff (Some d) doff sz sg dg st =
     (if sz = 0 then Inr (MVGAL_SUCCESS, st)
      else bnd (deref st s) (\<lambda>sb. bnd (deref st d) (\<lambda>db.
        if bf_size sb < soff + sz \<or> bf_size db < doff + sz then Inr (MVGAL_ERROR_INVALID_ARGUMENT, st)
        else
          let copied = st\<lparr>ms_mem := mem_copy (bf_host_ptr db + doff) (bf_host_ptr sb + soff) (unat sz) (ms_mem st)\<rparr>
          in if \<not> mvgal_dmabuf_p2p_is_supported gm sg dg then Inr (MVGAL_SUCCESS, copied)
             else if 0 \<le> bf_dmabuf_fd sb \<and> 0 \<le> bf_dmabuf_fd db then Inr (MVGAL_SUCCESS, copied)
             else if 0 \<le> bf_dmabuf_fd sb \<and> bf_dmabuf_fd db < 0 then
               (case mvgal_dmabuf_export db True of
                  (MVGAL_SUCCESS, Some fd, db') \<Rightarrow>
                    (case depth of
                       0 \<Rightarrow> Inl Depth_Exceeded
                     | Suc n \<Rightarrow>
                         mvgal_dmabuf_copy_gpu_to_gpu n gm (Some s) soff (Some d) doff sz sg dg
                           (put_buffer d (db'\<lparr>bf_dmabuf_fd := fd, bf_backend := MVGAL_BUFFER_BACKEND_DMA_BUF\<rparr>) st))
                | (_, _, db') \<Rightarrow> Inr (MVGAL_SUCCESS, copied))
             else Inr (MVGAL_SUCCESS, copied))))"
| "mvgal_dmabuf_copy_gpu_to_gpu depth gm src soff dst doff sz sg dg st = Inr (MVGAL_ERROR_INVALID_ARGUMENT, st)"

section \<open>Allocation\<close>

record module_env =
  me_heap_fd :: int
  me_gpu_count :: int
  me_gpu_features :: "u64 list"

definition ensure_memory_initialized ::
    "module_env \<Rightarrow> mvgal_memory_state_t \<Rightarrow> mvgal_error_t \<times> mvgal_memory_state_t" where
  "ensure_memory_initialized me st =
     (if \<not> ms_initialized st
      then mvgal_memory_module_init (me_heap_fd me) (me_gpu_count me) (me_gpu_features me) st
      else (MVGAL_SUCCESS, st))"

text \<open>The insertion of a new buffer under the module's mutex, with its size added to the total.\<close>

definition track_buffer :: "nat \<Rightarrow> bool \<Rightarrow> mvgal_memory_state_t \<Rightarrow> mvgal_memory_state_t run" where
  "track_buffer p add_total st =
     bnd (lock_state st) (\<lambda>st.
     bnd (list_insert p False st) (\<lambda>st.
     bnd (deref st p) (\<lambda>b.
     let st = (if add_total then st\<lparr>ms_total_allocated := ms_total_allocated st + bf_size b\<rparr> else st)
     in Inr (unlock_state st))))"

definition mvgal_memory_allocate ::
    "module_env \<Rightarrow> alloc_env \<Rightarrow> mvgal_memory_alloc_info_t option \<Rightarrow> bool \<Rightarrow> mvgal_memory_state_t \<Rightarrow>
       (mvgal_error_t \<times> nat option \<times> mvgal_memory_state_t) run" where
  "mvgal_memory_allocate me env alloc_info out_nonnull st =
     (case alloc_info of
        None \<Rightarrow> Inr (MVGAL_ERROR_INVALID_ARGUMENT, None, st)
      | Some ai \<Rightarrow>
          if \<not> out_nonnull then Inr (MVGAL_ERROR_INVALID_ARGUMENT, None, st)
          else
            (let (err, st) = ensure_memory_initialized me st
             in if err \<noteq> MVGAL_SUCCESS then Inr (err, None, st)
                else case mvgal_buffer_allocate_internal env ai st of
                       (err, buf, st) \<Rightarrow>
                         if err \<noteq> MVGAL_SUCCESS then Inr (err, None, st)
                         else bnd (track_buffer (the buf) True st) (\<lambda>st. Inr (MVGAL_SUCCESS, buf, st))))"

definition mvgal_memory_allocate_simple ::
    "module_env \<Rightarrow> alloc_env \<Rightarrow> u64 \<Rightarrow> u32 \<Rightarrow> bool \<Rightarrow> mvgal_memory_state_t \<Rightarrow>
       (mvgal_error_t \<times> nat option \<times> mvgal_memory_state_t) run" where
  "mvgal_memory_allocate_simple me env sz flags out_nonnull st =
     (if \<not> out_nonnull \<or> sz = 0 then Inr (MVGAL_ERROR_INVALID_ARGUMENT, None, st)
      else mvgal_memory_allocate me env
             (Some \<lparr>ai_size = sz, ai_alignment = 0, ai_flags = flags OR MVGAL_MEMORY_FLAG_HOST_VALID,
                    ai_memory_type = MVGAL_MEMORY_TYPE_SRAM, ai_sharing_mode = MVGAL_MEMORY_SHARING_NONE,
                    ai_access = MVGAL_MEMORY_ACCESS_READ_WRITE, ai_gpu_mask = 0, ai_priority = 50\<rparr>)
             out_nonnull st)"

definition mvgal_memory_free :: "nat \<Rightarrow> nat option \<Rightarrow> mvgal_memory_state_t \<Rightarrow> mvgal_memory_state_t run" where
  "mvgal_memory_free depth buffer st = mvgal_buffer_release depth buffer st"

definition gpu_mask_of :: "u32 list \<Rightarrow> u32" where
  "gpu_mask_of gpu_indices = foldl (\<lambda>m g. if g < 32 then m OR bit_u32 g else m) 0 gpu_indices"

definition mvgal_memory_create_shared ::
    "module_env \<Rightarrow> alloc_env \<Rightarrow> u64 \<Rightarrow> u32 list option \<Rightarrow> bool \<Rightarrow> mvgal_memory_state_t \<Rightarrow>
       (mvgal_error_t \<times> nat option \<times> mvgal_memory_state_t) run" where
  "mvgal_memory_create_shared me env sz gpu_indices out_nonnull st =
     (case gpu_indices of
        None \<Rightarrow> Inr (MVGAL_ERROR_INVALID_ARGUMENT, None, st)
      | Some gs \<Rightarrow>
          if \<not> out_nonnull \<or> sz = 0 \<or> gs = [] then Inr (MVGAL_ERROR_INVALID_ARGUMENT, None, st)
          else mvgal_memory_allocate me env
                 (Some \<lparr>ai_size = sz, ai_alignment = 0,
                        ai_flags = MVGAL_MEMORY_FLAG_SHARED OR MVGAL_MEMORY_FLAG_DMA_BUF,
                        ai_memory_type = MVGAL_MEMORY_TYPE_SRAM, ai_sharing_mode = MVGAL_MEMORY_SHARING_DMA_BUF,
                        ai_access = MVGAL_MEMORY_ACCESS_READ_WRITE, ai_gpu_mask = gpu_mask_of gs, ai_priority = 50\<rparr>)
                 out_nonnull st)"

definition wrapped_buffer :: "u64 \<Rightarrow> u64 \<Rightarrow> u32 \<Rightarrow> mvgal_buffer" where
  "wrapped_buffer ptr sz flags =
     zero_buffer\<lparr>bf_size := sz, bf_flags := flags OR MVGAL_MEMORY_FLAG_HOST_VALID,
       bf_memory_type := MVGAL_MEMORY_TYPE_SRAM, bf_sharing_mode := MVGAL_MEMORY_SHARING_NONE,
       bf_access := MVGAL_MEMORY_ACCESS_READ_WRITE, bf_gpu_mask := 0xFFFFFFFF, bf_priority := 50,
       bf_host_ptr := ptr, bf_original_ptr := ptr, bf_should_free := False,
       bf_backend := MVGAL_BUFFER_BACKEND_WRAPPED,
       bf_state := MVGAL_BUFFER_STATE_ALLOCATED OR MVGAL_BUFFER_STATE_MAPPED, bf_dmabuf_fd := -1, bf_refcount := 1\<rparr>"

definition mvgal_memory_wrap ::
    "module_env \<Rightarrow> nat option \<Rightarrow> u64 \<Rightarrow> u64 \<Rightarrow> u32 \<Rightarrow> bool \<Rightarrow> mvgal_memory_state_t \<Rightarrow>
       (mvgal_error_t \<times> nat option \<times> mvgal_memory_state_t) run" where
  "mvgal_memory_wrap me calloc ptr sz flags out_nonnull st =
     (if \<not> out_nonnull \<or> ptr = 0 \<or> sz = 0 then Inr (MVGAL_ERROR_INVALID_ARGUMENT, None, st)
      else
        (let (err, st) = ensure_memory_initialized me st
         in if err \<noteq> MVGAL_SUCCESS then Inr (err, None, st)
            else case calloc of
              None \<Rightarrow> Inr (MVGAL_ERROR_OUT_OF_MEMORY, None, st)
            | Some p \<Rightarrow>
                bnd (track_buffer p False (put_buffer p (wrapped_buffer ptr sz flags) st))
                  (\<lambda>st. Inr (MVGAL_SUCCESS, Some p, st))))"

section \<open>Descriptors and statistics\<close>

record mvgal_memory_descriptor_t =
  md_size :: u64
  md_alignment :: u64
  md_flags :: u32
  md_memory_type :: u32
  md_sharing_mode :: u32
  md_gpu_mask :: u32
  md_dmabuf_fd :: int
  md_dmabuf_offset :: u64
  md_host_ptr :: u64
  md_gpu_address :: "u64 list"
  md_fence :: "nat option"
  md_bytes_transferred :: u64
  md_access_count :: u64
  md_buffer :: nat

definition total_access :: "mvgal_buffer \<Rightarrow> u64" where
  "total_access b = foldl (\<lambda>s c. s + ucast c) 0 (take MVGAL_MAX_GPUS (bf_access_count b))"

definition mvgal_memory_get_descriptor ::
    "nat option \<Rightarrow> bool \<Rightarrow> mvgal_memory_state_t \<Rightarrow> (mvgal_error_t \<times> mvgal_memory_descriptor_t option) run" where
  "mvgal_memory_get_descriptor buffer out_nonnull st =
     (case buffer of
        None \<Rightarrow> Inr (MVGAL_ERROR_INVALID_ARGUMENT, None)
      | Some p \<Rightarrow>
          if \<not> out_nonnull then Inr (MVGAL_ERROR_INVALID_ARGUMENT, None)
          else bnd (deref st p) (\<lambda>b.
            Inr (MVGAL_SUCCESS,
              Some \<lparr>md_size = bf_size b, md_alignment = bf_alignment b, md_flags = bf_flags b,
                    md_memory_type = bf_memory_type b, md_sharing_mode = bf_sharing_mode b, md_gpu_mask = bf_gpu_mask b,
                    md_dmabuf_fd = bf_dmabuf_fd b, md_dmabuf_offset = bf_dmabuf_offset b, md_host_ptr = bf_host_ptr b,
                    md_gpu_address = map gb_gpu_address (take MVGAL_MAX_GPUS (bf_gpu_bindings b)),
                    md_fence = bf_fence b, md_bytes_transferred = bf_bytes_transferred b,
                    md_access_count = total_access b, md_buffer = p\<rparr>)))"

definition mvgal_memory_get_stats :: "mvgal_buffer \<Rightarrow> u64 \<times> u64 \<times> u64" where
  "mvgal_memory_get_stats b = (bf_bytes_read b, bf_bytes_written b, total_access b)"

definition mvgal_memory_register_callback ::
    "mvgal_buffer \<Rightarrow> nat option \<Rightarrow> nat option \<Rightarrow> mvgal_error_t \<times> mvgal_buffer" where
  "mvgal_memory_register_callback b callback user_data =
     (if callback = None then (MVGAL_ERROR_INVALID_ARGUMENT, b)
      else (MVGAL_SUCCESS, b\<lparr>bf_callback := callback, bf_callback_user_data := user_data\<rparr>))"

definition mvgal_memory_unregister_callback :: "mvgal_buffer \<Rightarrow> nat option \<Rightarrow> mvgal_error_t \<times> mvgal_buffer" where
  "mvgal_memory_unregister_callback b callback =
     (MVGAL_SUCCESS,
      if bf_callback b = callback then b\<lparr>bf_callback := None, bf_callback_user_data := None\<rparr> else b)"

section \<open>Mapping\<close>

text \<open>\<open>mmap\<close> is the mapping the kernel would deliver for a DMA-BUF.\<close>

definition mvgal_memory_map ::
    "u64 option \<Rightarrow> mvgal_buffer \<Rightarrow> u64 \<Rightarrow> mvgal_error_t \<times> u64 option \<times> mvgal_buffer" where
  "mvgal_memory_map mmap b offset =
     (if has_flag (bf_state b) MVGAL_BUFFER_STATE_MAPPED then (MVGAL_SUCCESS, Some (bf_host_ptr b + offset), b)
      else if 0 \<le> bf_dmabuf_fd b then
        (case mvgal_dmabuf_map mmap (bf_dmabuf_fd b) of
           (MVGAL_SUCCESS, Some p) \<Rightarrow>
             (MVGAL_SUCCESS, Some p,
              b\<lparr>bf_host_ptr := p, bf_host_offset := offset, bf_state := bf_state b OR MVGAL_BUFFER_STATE_MAPPED\<rparr>)
         | (err, _) \<Rightarrow> (err, None, b))
      else if \<not> has_flag (bf_flags b) MVGAL_MEMORY_FLAG_HOST_VALID then (MVGAL_ERROR_NOT_SUPPORTED, None, b)
      else (MVGAL_SUCCESS, Some (bf_host_ptr b + offset), b))"

definition mvgal_memory_unmap :: "mvgal_buffer \<Rightarrow> mvgal_buffer \<times> (u64 \<times> u64) list" where
  "mvgal_memory_unmap b =
     (if has_flag (bf_state b) MVGAL_BUFFER_STATE_MAPPED
      then (b\<lparr>bf_host_ptr := 0, bf_state := bf_state b AND NOT MVGAL_BUFFER_STATE_MAPPED\<rparr>,
            if 0 \<le> bf_dmabuf_fd b \<and> bf_dmabuf_owner b then mvgal_dmabuf_unmap (bf_host_ptr b) (bf_size b) else [])
      else (b, []))"

definition mvgal_memory_is_mapped :: "mvgal_buffer \<Rightarrow> bool" where
  "mvgal_memory_is_mapped b \<longleftrightarrow> has_flag (bf_state b) MVGAL_BUFFER_STATE_MAPPED"

definition mvgal_memory_get_pointer :: "mvgal_buffer \<Rightarrow> u64" where
  "mvgal_memory_get_pointer b = bf_host_ptr b"

section \<open>Reading and writing\<close>

text \<open>The mapping that a read or write does first when the buffer has no CPU address.\<close>

definition map_for_access :: "u64 option \<Rightarrow> mvgal_buffer \<Rightarrow> u64 \<Rightarrow> mvgal_error_t \<times> mvgal_buffer" where
  "map_for_access mmap b offset =
     (if \<not> has_flag (bf_state b) MVGAL_BUFFER_STATE_MAPPED \<and> bf_host_ptr b = 0
      then (case mvgal_memory_map mmap b offset of (err, _, b') \<Rightarrow> (err, b'))
      else (MVGAL_SUCCESS, b))"

definition mvgal_memory_write ::
    "u64 option \<Rightarrow> nat option \<Rightarrow> u64 \<Rightarrow> u64 \<Rightarrow> 8 word list option \<Rightarrow> mvgal_memory_state_t \<Rightarrow>
       (mvgal_error_t \<times> mvgal_memory_state_t) run" where
  "mvgal_memory_write mmap buffer offset sz data st =
     (case (buffer, data) of
        (Some p, Some bytes) \<Rightarrow>
          if sz = 0 then Inr (MVGAL_ERROR_INVALID_ARGUMENT, st)
          else bnd (deref st p) (\<lambda>b.
            let (err, b) = map_for_access mmap b offset; st = put_buffer p b st
            in if err \<noteq> MVGAL_SUCCESS then Inr (err, st)
               else if bf_size b < offset + sz then Inr (MVGAL_ERROR_INVALID_ARGUMENT, st)
               else
                 Inr (MVGAL_SUCCESS,
                   put_buffer p (b\<lparr>bf_bytes_written := bf_bytes_written b + sz\<rparr>)
                     (st\<lparr>ms_mem := store_bytes (bf_host_ptr b + offset) (take (unat sz) bytes) (ms_mem st)\<rparr>)))
      | _ \<Rightarrow> Inr (MVGAL_ERROR_INVALID_ARGUMENT, st))"

definition mvgal_memory_read ::
    "u64 option \<Rightarrow> nat option \<Rightarrow> u64 \<Rightarrow> u64 \<Rightarrow> bool \<Rightarrow> mvgal_memory_state_t \<Rightarrow>
       (mvgal_error_t \<times> 8 word list option \<times> mvgal_memory_state_t) run" where
  "mvgal_memory_read mmap buffer offset sz data_nonnull st =
     (case buffer of
        Some p \<Rightarrow>
          if \<not> data_nonnull \<or> sz = 0 then Inr (MVGAL_ERROR_INVALID_ARGUMENT, None, st)
          else bnd (deref st p) (\<lambda>b.
            let (err, b) = map_for_access mmap b offset; st = put_buffer p b st
            in if err \<noteq> MVGAL_SUCCESS then Inr (err, None, st)
               else if bf_size b < offset + sz then Inr (MVGAL_ERROR_INVALID_ARGUMENT, None, st)
               else
                 Inr (MVGAL_SUCCESS, Some (bytes_at (ms_mem st) (bf_host_ptr b + offset) (unat sz)),
                   put_buffer p (b\<lparr>bf_bytes_read := bf_bytes_read b + sz\<rparr>) st))
      | None \<Rightarrow> Inr (MVGAL_ERROR_INVALID_ARGUMENT, None, st))"

text \<open>
  Flush and invalidation call \<^verbatim>\<open>msync\<close> on a mapped DMA-BUF; the argument is its outcome for an
  address and a length.
\<close>

definition msync_buffer :: "(u64 \<Rightarrow> u64 \<Rightarrow> bool) \<Rightarrow> mvgal_buffer \<Rightarrow> u64 \<Rightarrow> u64 \<Rightarrow> mvgal_error_t" where
  "msync_buffer msync b offset sz =
     (if 0 \<le> bf_dmabuf_fd b \<and> bf_host_ptr b \<noteq> 0 then
        (let sz = (if sz = 0 then bf_size b else sz)
         in if \<not> msync (bf_host_ptr b + offset) sz then MVGAL_ERROR_DRIVER else MVGAL_SUCCESS)
      else MVGAL_SUCCESS)"

definition mvgal_memory_flush :: "(u64 \<Rightarrow> u64 \<Rightarrow> bool) \<Rightarrow> mvgal_buffer \<Rightarrow> u64 \<Rightarrow> u64 \<Rightarrow> mvgal_error_t" where
  "mvgal_memory_flush msync b offset sz = msync_buffer msync b offset sz"

definition mvgal_memory_invalidate :: "(u64 \<Rightarrow> u64 \<Rightarrow> bool) \<Rightarrow> mvgal_buffer \<Rightarrow> u64 \<Rightarrow> u64 \<Rightarrow> mvgal_error_t" where
  "mvgal_memory_invalidate msync b offset sz = msync_buffer msync b offset sz"

definition mvgal_memory_sync :: "(u64 \<Rightarrow> u64 \<Rightarrow> bool) \<Rightarrow> mvgal_buffer \<Rightarrow> mvgal_error_t" where
  "mvgal_memory_sync msync b =
     (let err = mvgal_memory_flush msync b 0 0
      in if err \<noteq> MVGAL_SUCCESS then err else MVGAL_SUCCESS)"

section \<open>Copies\<close>

record mvgal_memory_copy_region_t =
  cr_src :: "nat option"
  cr_src_offset :: u64
  cr_dst :: "nat option"
  cr_dst_offset :: u64
  cr_size :: u64

definition unmap_in :: "nat \<Rightarrow> mvgal_memory_state_t \<Rightarrow> mvgal_memory_state_t run" where
  "unmap_in p st =
     bnd (deref st p) (\<lambda>b. let (b, u) = mvgal_memory_unmap b in Inr ((put_buffer p b st)\<lparr>ms_unmapped := u @ ms_unmapped st\<rparr>))"

definition count_transfer :: "nat \<Rightarrow> nat \<Rightarrow> u64 \<Rightarrow> mvgal_memory_state_t \<Rightarrow> mvgal_memory_state_t run" where
  "count_transfer s d n st =
     bnd (upd_buffer (\<lambda>b. b\<lparr>bf_bytes_read := bf_bytes_read b + n\<rparr>) s st) (\<lambda>st.
     bnd (upd_buffer (\<lambda>b. b\<lparr>bf_bytes_written := bf_bytes_written b + n\<rparr>) d st) (\<lambda>st.
     bnd (upd_buffer (\<lambda>b. b\<lparr>bf_bytes_transferred := bf_bytes_transferred b + n\<rparr>) s st)
       (upd_buffer (\<lambda>b. b\<lparr>bf_bytes_transferred := bf_bytes_transferred b + n\<rparr>) d)))"

definition unmap_unless_mapped :: "nat \<Rightarrow> mvgal_memory_state_t \<Rightarrow> mvgal_memory_state_t run" where
  "unmap_unless_mapped p st =
     bnd (deref st p) (\<lambda>b. if \<not> has_flag (bf_state b) MVGAL_BUFFER_STATE_MAPPED then unmap_in p st else Inr st)"

text \<open>
  One round of the loop over the regions; the first component of the result is the error to remember,
  if there is one. The first two arguments are the mappings the kernel would deliver.
\<close>

definition copy_region ::
    "u64 option \<Rightarrow> u64 option \<Rightarrow> mvgal_memory_copy_region_t \<Rightarrow> mvgal_memory_state_t \<Rightarrow>
       (mvgal_error_t option \<times> mvgal_memory_state_t) run" where
  "copy_region smap dmap r st =
     (case (cr_src r, cr_dst r) of
        (Some s, Some d) \<Rightarrow>
          if cr_size r = 0 then Inr (None, st)
          else bnd (deref st s) (\<lambda>sb. bnd (deref st d) (\<lambda>db.
            if bf_size sb < cr_src_offset r + cr_size r \<or> bf_size db < cr_dst_offset r + cr_size r
            then Inr (Some MVGAL_ERROR_INVALID_ARGUMENT, st)
            else case mvgal_memory_map smap sb (cr_src_offset r) of
              (MVGAL_SUCCESS, Some src_ptr, sb) \<Rightarrow>
                (let st = put_buffer s sb st in
                 bnd (deref st d) (\<lambda>db.
                 case mvgal_memory_map dmap db (cr_dst_offset r) of
                   (MVGAL_SUCCESS, Some dst_ptr, db) \<Rightarrow>
                     (let st = put_buffer d db st;
                          st = st\<lparr>ms_mem := mem_copy (dst_ptr + cr_dst_offset r) (src_ptr + cr_src_offset r)
                                              (unat (cr_size r)) (ms_mem st)\<rparr> in
                      bnd (count_transfer s d (cr_size r) st) (\<lambda>st.
                      bnd (unmap_unless_mapped s st) (\<lambda>st.
                      bnd (unmap_unless_mapped d st) (\<lambda>st. Inr (None, st)))))
                 | (err, _, db) \<Rightarrow> bnd (unmap_in s st) (\<lambda>st. Inr (Some err, st))))
            | (err, _, sb) \<Rightarrow> Inr (Some err, st)))
      | _ \<Rightarrow> Inr (Some MVGAL_ERROR_INVALID_ARGUMENT, st))"

fun copy_regions ::
    "(mvgal_memory_copy_region_t \<times> u64 option \<times> u64 option) list \<Rightarrow> mvgal_error_t \<Rightarrow> mvgal_memory_state_t \<Rightarrow>
       (mvgal_error_t \<times> mvgal_memory_state_t) run" where
  "copy_regions [] overall st = Inr (overall, st)"
| "copy_regions ((r, smap, dmap) # rs) overall st =
     bnd (copy_region smap dmap r st) (\<lambda>(e, st). copy_regions rs (case e of None \<Rightarrow> overall | Some e \<Rightarrow> e) st)"

definition mvgal_memory_copy ::
    "(mvgal_memory_copy_region_t \<times> u64 option \<times> u64 option) list option \<Rightarrow> mvgal_memory_state_t \<Rightarrow>
       (mvgal_error_t \<times> mvgal_memory_state_t) run" where
  "mvgal_memory_copy regions st =
     (case regions of
        None \<Rightarrow> Inr (MVGAL_ERROR_INVALID_ARGUMENT, st)
      | Some rs \<Rightarrow> if rs = [] then Inr (MVGAL_ERROR_INVALID_ARGUMENT, st) else copy_regions rs MVGAL_SUCCESS st)"

definition mvgal_memory_copy_gpu ::
    "nat \<Rightarrow> gpu_manager \<Rightarrow> u64 option \<Rightarrow> u64 option \<Rightarrow> nat option \<Rightarrow> u64 \<Rightarrow> nat option \<Rightarrow> u64 \<Rightarrow> u64 \<Rightarrow> u32 \<Rightarrow> u32 \<Rightarrow>
       mvgal_fence option \<Rightarrow> mvgal_memory_state_t \<Rightarrow> (mvgal_error_t \<times> mvgal_fence option \<times> mvgal_memory_state_t) run" where
  "mvgal_memory_copy_gpu depth gm smap dmap src soff dst doff sz sg dg fence st =
     (if src = None \<or> dst = None then Inr (MVGAL_ERROR_INVALID_ARGUMENT, fence, st)
      else if sz = 0 then Inr (MVGAL_SUCCESS, fence, st)
      else
        bnd (if mvgal_dmabuf_get_copy_method gm sg dg \<noteq> MVGAL_MEMORY_COPY_CPU
             then mvgal_dmabuf_copy_gpu_to_gpu depth gm src soff dst doff sz sg dg st
             else Inr (MVGAL_ERROR_NOT_SUPPORTED, st)) (\<lambda>(err, st).
        if err = MVGAL_SUCCESS
        then Inr (MVGAL_SUCCESS, fst (mvgal_fence_signal_with_status fence MVGAL_SUCCESS), st)
        else
          bnd (mvgal_memory_copy
                 (Some [(\<lparr>cr_src = src, cr_src_offset = soff, cr_dst = dst, cr_dst_offset = doff, cr_size = sz\<rparr>, smap, dmap)]) st)
            (\<lambda>(err, st).
               Inr (err, if err = MVGAL_SUCCESS then fst (mvgal_fence_signal_with_status fence MVGAL_SUCCESS) else fence, st))))"

section \<open>DMA-BUF import and export\<close>

definition mvgal_memory_export_dmabuf ::
    "nat option \<Rightarrow> bool \<Rightarrow> mvgal_memory_state_t \<Rightarrow> (mvgal_error_t \<times> int option \<times> mvgal_memory_state_t) run" where
  "mvgal_memory_export_dmabuf buffer out_nonnull st =
     (case buffer of
        None \<Rightarrow> Inr (MVGAL_ERROR_INVALID_ARGUMENT, None, st)
      | Some p \<Rightarrow>
          if \<not> out_nonnull then Inr (MVGAL_ERROR_INVALID_ARGUMENT, None, st)
          else bnd (deref st p) (\<lambda>b.
            let (err, fd, b) = mvgal_dmabuf_export b out_nonnull in Inr (err, fd, put_buffer p b st)))"

definition import_info :: "u64 \<Rightarrow> u32 \<Rightarrow> mvgal_memory_alloc_info_t" where
  "import_info sz flags =
     \<lparr>ai_size = sz, ai_alignment = 0, ai_flags = flags OR MVGAL_MEMORY_FLAG_DMA_BUF,
      ai_memory_type = MVGAL_MEMORY_TYPE_SRAM, ai_sharing_mode = MVGAL_MEMORY_SHARING_DMA_BUF,
      ai_access = MVGAL_MEMORY_ACCESS_READ_WRITE, ai_gpu_mask = 0xFFFFFFFF, ai_priority = 50\<rparr>"

text \<open>\<open>fsize\<close> is the size \<^verbatim>\<open>fstat\<close> reports and \<open>mmap\<close> the mapping of the imported descriptor.\<close>

definition mvgal_dmabuf_import ::
    "nat \<Rightarrow> alloc_env \<Rightarrow> u64 option \<Rightarrow> u64 option \<Rightarrow> int \<Rightarrow> u64 \<Rightarrow> u32 \<Rightarrow> mvgal_memory_state_t \<Rightarrow>
       (mvgal_error_t \<times> nat option \<times> mvgal_memory_state_t) run" where
  "mvgal_dmabuf_import depth env fsize mmap fd sz flags st =
     (if fd < 0 then Inr (MVGAL_ERROR_INVALID_ARGUMENT, None, st)
      else if sz = 0 \<and> fsize = None then Inr (MVGAL_ERROR_INVALID_ARGUMENT, None, st)
      else let sz = (if sz = 0 then the fsize else sz)
      in case mvgal_buffer_allocate_internal env (import_info sz flags) st of
           (err, buf, st) \<Rightarrow>
             if err \<noteq> MVGAL_SUCCESS then Inr (err, None, st)
             else let p = the buf in
               bnd (upd_buffer (\<lambda>b. b\<lparr>bf_dmabuf_fd := fd, bf_dmabuf_owner := False, bf_dmabuf_offset := 0,
                      bf_backend := MVGAL_BUFFER_BACKEND_DMA_BUF_IMPORTED\<rparr>) p st) (\<lambda>st.
               case mmap of
                 None \<Rightarrow>
                   bnd (mvgal_buffer_free_internal depth (Some p) st) (\<lambda>st. Inr (MVGAL_ERROR_MEMORY, None, st))
               | Some ptr \<Rightarrow>
                   bnd (upd_buffer (\<lambda>b. b\<lparr>bf_host_ptr := ptr, bf_original_ptr := ptr,
                          bf_state := bf_state b OR (MVGAL_BUFFER_STATE_ALLOCATED OR MVGAL_BUFFER_STATE_MAPPED)\<rparr>) p st) (\<lambda>st.
                   bnd (track_buffer p False st) (\<lambda>st.
                   Inr (MVGAL_SUCCESS, Some p, st\<lparr>ms_total_allocated := ms_total_allocated st + sz\<rparr>)))))"

definition mvgal_memory_import_dmabuf ::
    "nat \<Rightarrow> alloc_env \<Rightarrow> u64 option \<Rightarrow> u64 option \<Rightarrow> int \<Rightarrow> bool \<Rightarrow> mvgal_memory_state_t \<Rightarrow>
       (mvgal_error_t \<times> nat option \<times> mvgal_memory_state_t) run" where
  "mvgal_memory_import_dmabuf depth env fsize mmap fd out_nonnull st =
     (if \<not> out_nonnull \<or> fd < 0 then Inr (MVGAL_ERROR_INVALID_ARGUMENT, None, st)
      else case fsize of
        None \<Rightarrow> Inr (MVGAL_ERROR_INVALID_ARGUMENT, None, st)
      | Some sz \<Rightarrow>
          bnd (mvgal_dmabuf_import depth env fsize mmap fd sz MVGAL_MEMORY_FLAG_DMA_BUF st) (\<lambda>(err, buf, st).
            if err \<noteq> MVGAL_SUCCESS then Inr (err, None, st)
            else bnd (track_buffer (the buf) True st) (\<lambda>st. Inr (MVGAL_SUCCESS, buf, st))))"

section \<open>The remaining operations on a handle\<close>

definition mvgal_memory_replicate ::
    "nat option \<Rightarrow> u32 list option \<Rightarrow> mvgal_memory_state_t \<Rightarrow> (mvgal_error_t \<times> mvgal_memory_state_t) run" where
  "mvgal_memory_replicate buffer gpu_indices st =
     (case buffer of
        None \<Rightarrow> Inr (MVGAL_ERROR_INVALID_ARGUMENT, st)
      | Some p \<Rightarrow>
          bnd (deref st p) (\<lambda>b.
            let (err, b) = mvgal_buffer_replicate (ms_gpu_count st) b gpu_indices in Inr (err, put_buffer p b st)))"

definition mvgal_memory_get_gpu_address ::
    "nat option \<Rightarrow> u32 \<Rightarrow> mvgal_memory_state_t \<Rightarrow> (mvgal_error_t \<times> u64 option) run" where
  "mvgal_memory_get_gpu_address buffer gpu_index st =
     (case buffer of
        None \<Rightarrow> Inr (MVGAL_ERROR_INVALID_ARGUMENT, None)
      | Some p \<Rightarrow> bnd (deref st p) (\<lambda>b. Inr (mvgal_buffer_get_gpu_address b gpu_index)))"

section \<open>Lemmas\<close>

text \<open>A buffer whose bytes the CPU can reach at its host pointer.\<close>

definition reachable_buffer :: "mvgal_buffer \<Rightarrow> bool" where
  "reachable_buffer b \<longleftrightarrow> has_flag (bf_state b) MVGAL_BUFFER_STATE_MAPPED \<or> bf_host_ptr b \<noteq> 0"

lemma map_for_access_id: "reachable_buffer b \<Longrightarrow> map_for_access mmap b offset = (MVGAL_SUCCESS, b)"
  by (auto simp: map_for_access_def reachable_buffer_def)

lemma no_wrap_bound:
  "unat offset + unat sz \<le> unat n \<Longrightarrow> \<not> n < offset + sz" for offset sz n :: u64
  using unat_add_no_wrap [of offset sz] unat_lt_u64 [of n] by (simp add: word_less_nat_alt)

text \<open>The check of a range, as it is done in 64 bits, and the two accesses when it accepts.\<close>

lemma range_check:
  "offset + sz \<le> n \<longleftrightarrow> unat offset + unat sz \<le> unat n \<or> 2 ^ 64 \<le> unat offset + unat sz \<and> unat offset + unat sz \<le> 2 ^ 64 + unat n"
  for n :: u64
proof (cases "unat offset + unat sz < 2 ^ 64")
  case True
  then show ?thesis by (simp add: word_le_nat_alt unat_add_no_wrap)
next
  case False
  have l: "unat offset < 2 ^ 64" "unat sz < 2 ^ 64" "unat n < 2 ^ 64" by (rule word_bounds)+
  have "unat (offset + sz) = (unat offset + unat sz) mod 2 ^ 64" by (simp add: unat_word_ariths)
  also have "\<dots> = unat offset + unat sz - 2 ^ 64" using False l by (simp add: mod_if)
  finally show ?thesis using False l by (simp add: word_le_nat_alt) linarith
qed

lemma write_accepted:
  assumes "ms_heap st p = Some b" and "reachable_buffer b" and "sz \<noteq> 0" and "length bytes = unat sz" and "offset + sz \<le> bf_size b"
  shows "mvgal_memory_write mmap (Some p) offset sz (Some bytes) st =
    Inr (MVGAL_SUCCESS, put_buffer p (b\<lparr>bf_bytes_written := bf_bytes_written b + sz\<rparr>)
      (st\<lparr>ms_mem := store_bytes (bf_host_ptr b + offset) bytes (ms_mem st)\<rparr>))"
  using assms by (simp add: mvgal_memory_write_def deref_def map_for_access_id put_buffer_def Let_def not_less)

lemma read_accepted:
  assumes "ms_heap st p = Some b" and "reachable_buffer b" and "sz \<noteq> 0" and "offset + sz \<le> bf_size b"
  shows "mvgal_memory_read mmap (Some p) offset sz True st =
    Inr (MVGAL_SUCCESS, Some (bytes_at (ms_mem st) (bf_host_ptr b + offset) (unat sz)),
      put_buffer p (b\<lparr>bf_bytes_read := bf_bytes_read b + sz\<rparr>) st)"
  using assms by (simp add: mvgal_memory_read_def deref_def map_for_access_id put_buffer_def Let_def not_less)

lemma map_mapped:
  "has_flag (bf_state b) MVGAL_BUFFER_STATE_MAPPED \<Longrightarrow>
     mvgal_memory_map mmap b offset = (MVGAL_SUCCESS, Some (bf_host_ptr b + offset), b)"
  by (simp add: mvgal_memory_map_def)

lemma track_buffer_ok:
  assumes "buf_list st xs" and "p \<notin> set xs" and "ms_heap st p = Some b" and "bf_prev b = None" and "\<not> ms_locked st"
  shows "\<exists>st' b'. track_buffer p t st = Inr st' \<and> buf_list st' (p # xs) \<and> \<not> ms_locked st'
    \<and> ms_heap st' p = Some b' \<and> b' = b\<lparr>bf_next := ms_buffers st\<rparr>
    \<and> ms_total_allocated st' = (if t then ms_total_allocated st + bf_size b else ms_total_allocated st)
    \<and> ms_freed st' = ms_freed st \<and> ms_total_freed st' = ms_total_freed st
    \<and> (\<forall>x. x \<noteq> p \<longrightarrow> same_contents (ms_heap st) (ms_heap st') x)"
proof -
  let ?st = "st\<lparr>ms_locked := True\<rparr>"
  have l: "buf_list ?st xs" using assms(1) by (simp add: buf_list_def)
  note ins = list_insert_ok [OF l assms(2), of b False]
  let ?b = "b\<lparr>bf_next := ms_buffers st, bf_prev := None\<rparr>"
  let ?h = "hupd_opt (\<lambda>b. b\<lparr>bf_prev := Some p\<rparr>) (ms_buffers st) ((ms_heap st)(p \<mapsto> ?b))"
  let ?st1 = "?st\<lparr>ms_buffers := Some p, ms_heap := ?h\<rparr>"
  have ne: "ms_buffers st \<noteq> Some p" using assms(1,2) by (cases xs) (auto simp: buf_list_def hseg_def)
  have b: "?b = b\<lparr>bf_next := ms_buffers st\<rparr>" using assms(4) by (cases b) simp
  have hp: "?h p = Some ?b" using ne by (simp add: hupd_opt_other)
  let ?st2 = "unlock_state (if t then ?st1\<lparr>ms_total_allocated := ms_total_allocated st + bf_size b\<rparr> else ?st1)"
  have "track_buffer p t st = Inr ?st2"
    using ins(1) assms hp by (simp add: track_buffer_def lock_state_def deref_def Let_def)
  moreover have "buf_list ?st2 (p # xs)" using ins(2) assms by (auto simp: buf_list_def unlock_state_def)
  moreover have "same_contents (ms_heap st) ?h x" if "x \<noteq> p" for x
    using that by (auto simp: same_contents_def hupd_opt_def hupd_def split: option.splits)
  ultimately show ?thesis using hp b by (intro exI [of _ ?st2] exI [of _ ?b]) (auto simp: unlock_state_def)
qed

text \<open>What an internal allocation delivers: a plain buffer with one reference at the fresh address.\<close>

lemma bind_mask_frame:
  "bf_refcount (bind_mask msk ptr wr is b) = bf_refcount b" "bf_alias_count (bind_mask msk ptr wr is b) = bf_alias_count b"
  "bf_is_alias (bind_mask msk ptr wr is b) = bf_is_alias b" "bf_prev (bind_mask msk ptr wr is b) = bf_prev b"
  "bf_size (bind_mask msk ptr wr is b) = bf_size b"
  by (induction "is" arbitrary: b) (auto simp: upd_binding_def)

lemma allocate_internal_result:
  assumes "mvgal_buffer_allocate_internal env ai st = (MVGAL_SUCCESS, buf, st')"
  shows "\<exists>p b. ae_calloc env = Some p \<and> buf = Some p \<and> ms_heap st' = (ms_heap st)(p \<mapsto> b) \<and> plain b \<and> bf_refcount b = 1
    \<and> bf_prev b = None \<and> bf_size b = ai_size ai \<and> ms_buffers st' = ms_buffers st \<and> ms_locked st' = ms_locked st
    \<and> ms_total_allocated st' = ms_total_allocated st \<and> ms_freed st' = ms_freed st \<and> ms_total_freed st' = ms_total_freed st"
proof -
  have dm: "ms_heap s = ms_heap st \<and> ms_buffers s = ms_buffers st \<and> ms_locked s = ms_locked st
      \<and> ms_total_allocated s = ms_total_allocated st \<and> ms_freed s = ms_freed st \<and> ms_total_freed s = ms_total_freed st"
    if "mvgal_dmabuf_allocate e n f st = (err, fd, ptr, s)" for e n f err fd ptr s
    using that by (auto simp: mvgal_dmabuf_allocate_def dmabuf_fd_def Let_def split: if_splits option.splits)
  show ?thesis
    using assms dm
    by (auto simp: mvgal_buffer_allocate_internal_def allocate_system_def Let_def put_buffer_def plain_def
        dmabuf_buffer_def bind_mask_frame system_buffer_def fresh_buffer_def zero_buffer_def
        split: if_splits option.splits prod.splits)
qed
lemma count_transfer_mem:
  assumes "ms_heap st s = Some sb" and "ms_heap st d = Some db" and "s \<noteq> d"
    and "has_flag (bf_state sb) MVGAL_BUFFER_STATE_MAPPED" and "has_flag (bf_state db) MVGAL_BUFFER_STATE_MAPPED"
  shows "\<exists>st'. bnd (count_transfer s d n st) (\<lambda>st. bnd (unmap_unless_mapped s st) (\<lambda>st. bnd (unmap_unless_mapped d st) (\<lambda>st. Inr (None, st))))
      = Inr (None :: mvgal_error_t option, st') \<and> ms_mem st' = ms_mem st"
  using assms
  by (simp add: count_transfer_def upd_buffer_def deref_def unmap_unless_mapped_def)

section \<open>Properties\<close>

text \<open>
  C3. What is written to a buffer that the host can reach is read back, and the bytes outside the written range
  stay. Write and read accept exactly the same non-empty ranges: those inside the buffer and, a flaw of the check, those whose end wraps round
  64 bits to a value inside. Every other range is rejected by both without any change to memory.
\<close>

theorem memory_write_read:
  assumes "ms_heap st p = Some b" and "reachable_buffer b" and "sz \<noteq> 0" and "length bytes = unat sz"
  shows "if unat offset + unat sz \<le> unat (bf_size b)
        \<or> 2 ^ 64 \<le> unat offset + unat sz \<and> unat offset + unat sz \<le> 2 ^ 64 + unat (bf_size b)
    then \<exists>st1 st2. mvgal_memory_write mmap (Some p) offset sz (Some bytes) st = Inr (MVGAL_SUCCESS, st1)
        \<and> mvgal_memory_read mmap' (Some p) offset sz True st1 = Inr (MVGAL_SUCCESS, Some bytes, st2)
        \<and> (\<forall>a. unat sz \<le> unat (a - (bf_host_ptr b + offset)) \<longrightarrow> ms_mem st1 a = ms_mem st a)
    else (\<exists>st1. mvgal_memory_write mmap (Some p) offset sz (Some bytes) st = Inr (MVGAL_ERROR_INVALID_ARGUMENT, st1) \<and> ms_mem st1 = ms_mem st)
      \<and> (\<exists>st1. mvgal_memory_read mmap' (Some p) offset sz True st = Inr (MVGAL_ERROR_INVALID_ARGUMENT, None, st1) \<and> ms_mem st1 = ms_mem st)"
proof (cases "offset + sz \<le> bf_size b")
  case True
  let ?b = "b\<lparr>bf_bytes_written := bf_bytes_written b + sz\<rparr>"
  let ?st = "put_buffer p ?b (st\<lparr>ms_mem := store_bytes (bf_host_ptr b + offset) bytes (ms_mem st)\<rparr>)"
  have w: "mvgal_memory_write mmap (Some p) offset sz (Some bytes) st = Inr (MVGAL_SUCCESS, ?st)"
    by (rule write_accepted [OF assms True])
  have r: "mvgal_memory_read mmap' (Some p) offset sz True ?st =
      Inr (MVGAL_SUCCESS, Some (bytes_at (ms_mem ?st) (bf_host_ptr b + offset) (unat sz)), put_buffer p (?b\<lparr>bf_bytes_read := bf_bytes_read b + sz\<rparr>) ?st)"
    using read_accepted [of ?st p ?b sz offset mmap'] assms True by (simp add: reachable_buffer_def)
  have "bytes_at (ms_mem ?st) (bf_host_ptr b + offset) (unat sz) = bytes"
    using bytes_at_store [of bytes "bf_host_ptr b + offset" "ms_mem st"] assms(4) unat_lt_u64 [of sz] by simp
  moreover have "\<forall>a. unat sz \<le> unat (a - (bf_host_ptr b + offset)) \<longrightarrow> ms_mem ?st a = ms_mem st a"
    using assms(4) by (simp add: store_bytes_other)
  ultimately have "\<exists>st1 st2. mvgal_memory_write mmap (Some p) offset sz (Some bytes) st = Inr (MVGAL_SUCCESS, st1)
        \<and> mvgal_memory_read mmap' (Some p) offset sz True st1 = Inr (MVGAL_SUCCESS, Some bytes, st2)
        \<and> (\<forall>a. unat sz \<le> unat (a - (bf_host_ptr b + offset)) \<longrightarrow> ms_mem st1 a = ms_mem st a)"
    using w r by (intro exI conjI) (assumption | simp)+
  then show ?thesis using True range_check [of offset sz "bf_size b"] by (simp only: if_True)
next
  case False
  then have "mvgal_memory_write mmap (Some p) offset sz (Some bytes) st = Inr (MVGAL_ERROR_INVALID_ARGUMENT, put_buffer p b st)"
      "mvgal_memory_read mmap' (Some p) offset sz True st = Inr (MVGAL_ERROR_INVALID_ARGUMENT, None, put_buffer p b st)"
    using assms by (simp_all add: mvgal_memory_write_def mvgal_memory_read_def deref_def map_for_access_id Let_def not_le)
  then show ?thesis using False range_check [of offset sz "bf_size b"] by simp
qed

text \<open>C3 at two bytes in the middle of a buffer of eight.\<close>

lemma memory_write_read_witness:
  "let b = zero_buffer\<lparr>bf_refcount := 1, bf_size := 8, bf_host_ptr := 4096\<rparr>;
       st = example_state [0 \<mapsto> b] (Some 0)
   in \<exists>st1 st2. mvgal_memory_write None (Some 0) 3 2 (Some [7, 9]) st = Inr (MVGAL_SUCCESS, st1)
        \<and> mvgal_memory_read None (Some 0) 3 2 True st1 = Inr (MVGAL_SUCCESS, Some [7, 9], st2)"
proof -
  let ?b = "zero_buffer\<lparr>bf_refcount := 1, bf_size := 8, bf_host_ptr := 4096\<rparr>"
  have "ms_heap (example_state [0 \<mapsto> ?b] (Some 0)) 0 = Some ?b" by (simp add: example_state_def)
  moreover have "reachable_buffer ?b" by (simp add: reachable_buffer_def)
  moreover have "(2 :: u64) \<noteq> 0" and "length [7, 9 :: 8 word] = unat (2 :: u64)" by simp_all
  ultimately show ?thesis
    unfolding Let_def using memory_write_read [of "example_state [0 \<mapsto> ?b] (Some 0)" 0 ?b 2 "[7, 9]" 3 None None] by auto
qed

text \<open>
  A copy between two mapped buffers adds the offsets of the region twice: it moves the bytes at
  twice the source offset to twice the destination offset.
\<close>

theorem memory_copy_doubles_offsets:
  assumes "ms_heap st s = Some sb" and "ms_heap st d = Some db" and "s \<noteq> d"
    and "has_flag (bf_state sb) MVGAL_BUFFER_STATE_MAPPED" and "has_flag (bf_state db) MVGAL_BUFFER_STATE_MAPPED"
    and "sz \<noteq> 0" and "unat soff + unat sz \<le> unat (bf_size sb)" and "unat doff + unat sz \<le> unat (bf_size db)"
  shows "\<exists>st'. mvgal_memory_copy
      (Some [(\<lparr>cr_src = Some s, cr_src_offset = soff, cr_dst = Some d, cr_dst_offset = doff, cr_size = sz\<rparr>, smap, dmap)]) st
      = Inr (MVGAL_SUCCESS, st')
    \<and> bytes_at (ms_mem st') (bf_host_ptr db + 2 * doff) (unat sz) = bytes_at (ms_mem st) (bf_host_ptr sb + 2 * soff) (unat sz)
    \<and> (\<forall>a. unat sz \<le> unat (a - (bf_host_ptr db + 2 * doff)) \<longrightarrow> ms_mem st' a = ms_mem st a)"
proof -
  let ?mem = "mem_copy (bf_host_ptr db + 2 * doff) (bf_host_ptr sb + 2 * soff) (unat sz) (ms_mem st)"
  let ?st = "(put_buffer d db (put_buffer s sb st))\<lparr>ms_mem := ?mem\<rparr>"
  have e: "bf_host_ptr b + off + off = bf_host_ptr b + 2 * off" for b off by simp
  from count_transfer_mem [of ?st s sb d db sz] assms(1-5) obtain st' where
    c: "bnd (count_transfer s d sz ?st) (\<lambda>st. bnd (unmap_unless_mapped s st) (\<lambda>st. bnd (unmap_unless_mapped d st) (\<lambda>st. Inr (None, st))))
      = Inr (None :: mvgal_error_t option, st')" and m: "ms_mem st' = ?mem"
    by auto
  have "mvgal_memory_copy
      (Some [(\<lparr>cr_src = Some s, cr_src_offset = soff, cr_dst = Some d, cr_dst_offset = doff, cr_size = sz\<rparr>, smap, dmap)]) st
      = Inr (MVGAL_SUCCESS, st')"
    using assms c no_wrap_bound [OF assms(7)] no_wrap_bound [OF assms(8)]
    by (simp add: mvgal_memory_copy_def copy_region_def deref_def map_mapped Let_def e)
  moreover have "bytes_at ?mem (bf_host_ptr db + 2 * doff) (unat sz) = bytes_at (ms_mem st) (bf_host_ptr sb + 2 * soff) (unat sz)"
    using unat_lt_u64 [of sz] by (intro mem_copy_bytes) simp
  moreover have "\<forall>a. unat sz \<le> unat (a - (bf_host_ptr db + 2 * doff)) \<longrightarrow> ?mem a = ms_mem st a"
    by (simp add: mem_copy_def store_bytes_other)
  ultimately show ?thesis using m by auto
qed

text \<open>The instance at four bytes from offset 8 to offset 4, which end up at offset 8.\<close>

lemma memory_copy_doubles_offsets_witness:
  "let sb = zero_buffer\<lparr>bf_refcount := 1, bf_size := 32, bf_host_ptr := 4096, bf_state := 3\<rparr>;
       db = zero_buffer\<lparr>bf_refcount := 1, bf_size := 32, bf_host_ptr := 8192, bf_state := 3\<rparr>;
       st = example_state [0 \<mapsto> sb, 1 \<mapsto> db] (Some 0)
   in \<exists>st'. mvgal_memory_copy
        (Some [(\<lparr>cr_src = Some 0, cr_src_offset = 8, cr_dst = Some 1, cr_dst_offset = 4, cr_size = 4\<rparr>, None, None)]) st
        = Inr (MVGAL_SUCCESS, st') \<and> bytes_at (ms_mem st') 8200 4 = bytes_at (ms_mem st) 4112 4"
proof -
  let ?sb = "zero_buffer\<lparr>bf_refcount := 1, bf_size := 32, bf_host_ptr := 4096, bf_state := 3\<rparr>"
  let ?db = "zero_buffer\<lparr>bf_refcount := 1, bf_size := 32, bf_host_ptr := 8192, bf_state := 3\<rparr>"
  let ?st = "example_state [0 \<mapsto> ?sb, 1 \<mapsto> ?db] (Some 0)"
  have h: "ms_heap ?st 0 = Some ?sb" "ms_heap ?st 1 = Some ?db" by (simp_all add: example_state_def)
  have f: "has_flag (bf_state ?sb) 2" "has_flag (bf_state ?db) 2" by (simp_all add: has_flag_def)
  have p: "bf_host_ptr ?sb = 4096" "bf_host_ptr ?db = 8192" "bf_size ?sb = 32" "bf_size ?db = 32" by simp_all
  show ?thesis
    using memory_copy_doubles_offsets [OF h _ f, of 4 8 4 None None] unfolding p Let_def by auto
qed

text \<open>
  A successful allocation puts a new buffer in front of the global list and counts its size;
  freeing it brings the list back, removes the structure and counts the size as freed.
\<close>

theorem memory_allocate_free:
  assumes "ms_initialized st" and "\<not> ms_locked st" and "buf_list st xs"
    and "ae_calloc env = Some p" and "ms_heap st p = None"
    and "mvgal_buffer_allocate_internal env ai st = (MVGAL_SUCCESS, buf, sta)"
  shows "\<exists>st1 st2. mvgal_memory_allocate me env (Some ai) True st = Inr (MVGAL_SUCCESS, Some p, st1)
    \<and> buf_list st1 (p # xs) \<and> ms_total_allocated st1 = ms_total_allocated st + ai_size ai
    \<and> mvgal_memory_free (Suc depth) (Some p) st1 = Inr st2
    \<and> buf_list st2 xs \<and> ms_heap st2 p = None \<and> ms_total_freed st2 = ms_total_freed st + ai_size ai"
proof -
  from allocate_internal_result [OF assms(6)] assms(4) obtain b where
    buf: "buf = Some p" and sta: "ms_heap sta = (ms_heap st)(p \<mapsto> b)" "ms_buffers sta = ms_buffers st" "\<not> ms_locked sta"
    "ms_total_allocated sta = ms_total_allocated st" "ms_total_freed sta = ms_total_freed st"
    and b: "plain b" "bf_refcount b = 1" "bf_prev b = None" "bf_size b = ai_size ai"
    using assms(2) by auto
  have px: "p \<notin> set xs" using buf_list_dom [OF assms(3), of p] assms(5) by auto
  have la: "buf_list sta xs" by (rule buf_list_cong [OF assms(3) sta(2)]) (use sta(1) px in auto)
  from track_buffer_ok [OF la px _ b(3) sta(3), of True] sta(1) obtain st1 where
    t: "track_buffer p True sta = Inr st1" and l1: "buf_list st1 (p # xs)" and "\<not> ms_locked st1"
    and hp: "ms_heap st1 p = Some (b\<lparr>bf_next := ms_buffers sta\<rparr>)"
    and tot: "ms_total_allocated st1 = ms_total_allocated sta + bf_size b" "ms_total_freed st1 = ms_total_freed sta"
    by auto
  have alloc: "mvgal_memory_allocate me env (Some ai) True st = Inr (MVGAL_SUCCESS, Some p, st1)"
    using assms(1,6) t buf by (simp add: mvgal_memory_allocate_def ensure_memory_initialized_def)
  from release_last [of st1 "[]" p xs, OF _ hp] l1 b \<open>\<not> ms_locked st1\<close> obtain st2 where
    "mvgal_memory_free (Suc depth) (Some p) st1 = Inr st2" "buf_list st2 xs" "ms_heap st2 p = None"
    "ms_total_freed st2 = ms_total_freed st1 + bf_size b"
    unfolding mvgal_memory_free_def by (auto simp: plain_def simp del: mvgal_buffer_release.simps)
  with alloc l1 tot sta b show ?thesis by (intro exI conjI) (assumption | simp)+
qed
text \<open>An empty list and 64 bytes of system memory.\<close>

lemma memory_allocate_free_witness:
  "let ai = \<lparr>ai_size = 64, ai_alignment = 0, ai_flags = 1, ai_memory_type = 4, ai_sharing_mode = 0,
             ai_access = 3, ai_gpu_mask = 0, ai_priority = 50\<rparr>;
       env = \<lparr>ae_calloc = Some 7, ae_malloc = 4096, ae_memalign = 0,
              ae_dmabuf = \<lparr>de_ioctl = None, de_memfd = -1, de_tmpfd = -1, de_ftruncate_ok = False, de_mmap = None\<rparr>\<rparr>
   in \<exists>st1 st2. mvgal_memory_allocate \<lparr>me_heap_fd = -1, me_gpu_count = 0, me_gpu_features = []\<rparr> env (Some ai) True
          (example_state Map.empty None) = Inr (MVGAL_SUCCESS, Some 7, st1)
        \<and> mvgal_memory_free 1 (Some 7) st1 = Inr st2 \<and> buf_list st2 []"
proof -
  let ?ai = "\<lparr>ai_size = 64, ai_alignment = 0, ai_flags = 1, ai_memory_type = 4, ai_sharing_mode = 0,
             ai_access = 3, ai_gpu_mask = 0, ai_priority = 50\<rparr>"
  let ?env = "\<lparr>ae_calloc = Some 7, ae_malloc = 4096, ae_memalign = 0,
              ae_dmabuf = \<lparr>de_ioctl = None, de_memfd = -1, de_tmpfd = -1, de_ftruncate_ok = False, de_mmap = None\<rparr>\<rparr>"
  let ?st = "example_state Map.empty None"
  have "\<exists>buf sta. mvgal_buffer_allocate_internal ?env ?ai ?st = (MVGAL_SUCCESS, buf, sta)"
    by (simp add: mvgal_buffer_allocate_internal_def wants_dmabuf_def has_flag_def allocate_system_def Let_def)
  moreover have "ms_initialized ?st" "\<not> ms_locked ?st" "buf_list ?st []" "ms_heap ?st 7 = None"
    by (simp_all add: example_state_def buf_list_def hseg_def)
  ultimately show ?thesis
    unfolding Let_def using memory_allocate_free [of ?st "[]" ?env 7 ?ai] by fastforce
qed

text \<open>
  A successful import of a DMA-BUF enters its buffer twice in the global list: the buffer
  becomes its own successor, and from then on the list of buffers does not end.
\<close>

theorem import_dmabuf_ties_list:
  assumes "\<not> ms_locked st" and "buf_list st xs" and "ae_calloc env = Some p" and "ms_heap st p = None"
    and "mvgal_buffer_allocate_internal env (import_info sz MVGAL_MEMORY_FLAG_DMA_BUF) st = (MVGAL_SUCCESS, buf, sta)"
    and "0 \<le> fd" and "sz \<noteq> 0"
  shows "\<exists>st' b'. mvgal_memory_import_dmabuf depth env (Some sz) (Some ptr) fd True st = Inr (MVGAL_SUCCESS, Some p, st')
    \<and> ms_buffers st' = Some p \<and> ms_heap st' p = Some b' \<and> bf_next b' = Some p \<and> (\<forall>ys. \<not> buf_list st' ys)"
proof -
  from allocate_internal_result [OF assms(5)] assms(3) obtain b where
    buf: "buf = Some p" and sta: "ms_heap sta = (ms_heap st)(p \<mapsto> b)" "ms_buffers sta = ms_buffers st" "\<not> ms_locked sta"
    and b: "bf_prev b = None" using assms(1) by auto
  define b2 where "b2 = b\<lparr>bf_dmabuf_fd := fd, bf_dmabuf_owner := False, bf_dmabuf_offset := 0,
     bf_backend := MVGAL_BUFFER_BACKEND_DMA_BUF_IMPORTED, bf_host_ptr := ptr, bf_original_ptr := ptr,
     bf_state := bf_state b OR (MVGAL_BUFFER_STATE_ALLOCATED OR MVGAL_BUFFER_STATE_MAPPED)\<rparr>"
  let ?st2 = "put_buffer p b2 sta"
  have px: "p \<notin> set xs" using buf_list_dom [OF assms(2), of p] assms(4) by auto
  have l2: "buf_list ?st2 xs" by (rule buf_list_cong [OF assms(2)]) (use sta px in auto)
  have "ms_heap ?st2 p = Some b2" "bf_prev b2 = None" "\<not> ms_locked ?st2" using b sta(3) by (simp_all add: b2_def)
  from track_buffer_ok [OF l2 px this, of False] obtain st3 b3 where
    t: "track_buffer p False ?st2 = Inr st3" and l3: "buf_list st3 (p # xs)" and lk: "\<not> ms_locked st3" and h3: "ms_heap st3 p = Some b3"
    by blast
  let ?st4 = "st3\<lparr>ms_total_allocated := ms_total_allocated st3 + sz\<rparr>"
  have imp: "mvgal_dmabuf_import depth env (Some sz) (Some ptr) fd sz MVGAL_MEMORY_FLAG_DMA_BUF st = Inr (MVGAL_SUCCESS, Some p, ?st4)"
    using assms(5,6,7) buf t sta(1)
    by (simp add: mvgal_dmabuf_import_def Let_def upd_buffer_def deref_def put_buffer_def b2_def)
  have hd: "ms_buffers ?st4 = Some p" using l3 by (auto simp: buf_list_def hseg_def)
  let ?b5 = "b3\<lparr>bf_next := Some p, bf_prev := Some p\<rparr>"
  let ?st5 = "unlock_state (put_buffer p ?b5 (?st4\<lparr>ms_locked := True, ms_total_allocated := ms_total_allocated ?st4 + bf_size b3\<rparr>))"
  have "track_buffer p True ?st4 = Inr ?st5"
    using h3 lk hd by (simp add: track_buffer_def lock_state_def list_insert_def upd_buffer_opt_def upd_buffer_def
        deref_def put_buffer_def Let_def unlock_state_def)
  then have run: "mvgal_memory_import_dmabuf depth env (Some sz) (Some ptr) fd True st = Inr (MVGAL_SUCCESS, Some p, ?st5)"
    using imp assms(6) by (simp add: mvgal_memory_import_dmabuf_def)
  have "\<not> buf_list ?st5 ys" for ys
  proof
    assume l: "buf_list ?st5 ys"
    then obtain l where "dseg (hfield bf_next (ms_heap ?st5)) (hfield bf_prev (ms_heap ?st5)) None (Some p) ys l None"
      using hd by (auto simp: buf_list_def hseg_def unlock_state_def)
    moreover have "hfield bf_next (ms_heap ?st5) p = Some p" by (simp add: hfield_def unlock_state_def)
    ultimately obtain zs where "ys = p # p # zs"
      by (cases ys; cases "tl ys") auto
    with buf_list_distinct [OF l] show False by simp
  qed
  with run hd show ?thesis by (intro exI conjI) (assumption | simp add: unlock_state_def)+
qed
text \<open>The instance at an empty list and a descriptor of 4096 bytes.\<close>

lemma import_dmabuf_ties_list_witness:
  "let env = \<lparr>ae_calloc = Some 7, ae_malloc = 4096, ae_memalign = 0,
              ae_dmabuf = \<lparr>de_ioctl = None, de_memfd = -1, de_tmpfd = -1, de_ftruncate_ok = False, de_mmap = None\<rparr>\<rparr>
   in \<exists>st' b'. mvgal_memory_import_dmabuf 0 env (Some 4096) (Some 65536) 5 True (example_state Map.empty None)
        = Inr (MVGAL_SUCCESS, Some 7, st') \<and> ms_buffers st' = Some 7 \<and> ms_heap st' 7 = Some b' \<and> bf_next b' = Some 7"
proof -
  let ?env = "\<lparr>ae_calloc = Some 7, ae_malloc = 4096, ae_memalign = 0,
              ae_dmabuf = \<lparr>de_ioctl = None, de_memfd = -1, de_tmpfd = -1, de_ftruncate_ok = False, de_mmap = None\<rparr>\<rparr>"
  let ?st = "example_state Map.empty None"
  have "\<exists>buf sta. mvgal_buffer_allocate_internal ?env (import_info 4096 32) ?st = (MVGAL_SUCCESS, buf, sta)"
    by (simp add: mvgal_buffer_allocate_internal_def import_info_def mvgal_dmabuf_allocate_def dmabuf_fd_def
        allocate_system_def example_state_def Let_def)
  moreover have "\<not> ms_locked ?st" "buf_list ?st []" "ms_heap ?st 7 = None"
    by (simp_all add: example_state_def buf_list_def hseg_def)
  ultimately show ?thesis
    unfolding Let_def using import_dmabuf_ties_list [of ?st "[]" ?env 7 4096 _ _ 5 0 65536] by fastforce
qed

end
