(* ===== verification/Float32.thy ===== *)
theory Float32
  imports Complex_Main Mvgal_Prelude
begin

text \<open>
  The C type \<^verbatim>\<open>float\<close> of the scheduler: IEEE 754 binary32 with rounding to nearest, ties to even.
  A finite value is the rational it stands for; the two zeros are identified, since no code here
  divides by a zero or looks at its sign. Every operation rounds the exact result once, as the
  operations of the target do. The bound on the rounding error at the end is what the proof on the
  weighted split of a frame uses.
\<close>

datatype f32 = F32 rat | F32_inf bool | F32_nan

section \<open>Rounding\<close>

function bitlen :: "int \<Rightarrow> nat" where
  "bitlen n = (if n \<le> 0 then 0 else Suc (bitlen (n div 2)))"
  by auto
termination by (relation "measure nat") auto

declare bitlen.simps [simp del]

text \<open>The exponent of a positive rational: \<open>2 ^ e \<le> q < 2 ^ (e + 1)\<close>.\<close>

definition flog2 :: "rat \<Rightarrow> int" where
  "flog2 q = (let (n, d) = quotient_of q; k = int (bitlen n) - int (bitlen d)
              in if 2 powi k \<le> q then k else k - 1)"

definition round_half_even :: "rat \<Rightarrow> int" where
  "round_half_even q =
     (let f = \<lfloor>q\<rfloor>; r = q - of_int f
      in if r < 1 / 2 then f else if 1 / 2 < r then f + 1 else if even f then f else f + 1)"

definition ulp :: "rat \<Rightarrow> rat" where
  "ulp q = 2 powi (max (flog2 \<bar>q\<bar>) (- 126) - 23)"

definition f32_round :: "rat \<Rightarrow> f32" where
  "f32_round q =
     (if q = 0 then F32 0
      else (let r = of_int (round_half_even (q / ulp q)) * ulp q
            in if 2 ^ 128 \<le> \<bar>r\<bar> then F32_inf (q < 0) else F32 r))"

section \<open>Operations\<close>

fun f32_neg :: "f32 \<Rightarrow> f32" where
  "f32_neg (F32 a) = F32 (- a)"
| "f32_neg (F32_inf s) = F32_inf (\<not> s)"
| "f32_neg F32_nan = F32_nan"

fun f32_add :: "f32 \<Rightarrow> f32 \<Rightarrow> f32" where
  "f32_add (F32 a) (F32 b) = f32_round (a + b)"
| "f32_add (F32_inf s) (F32_inf t) = (if s = t then F32_inf s else F32_nan)"
| "f32_add (F32_inf s) (F32 b) = F32_inf s"
| "f32_add (F32 a) (F32_inf t) = F32_inf t"
| "f32_add _ _ = F32_nan"

definition f32_sub :: "f32 \<Rightarrow> f32 \<Rightarrow> f32" where
  "f32_sub x y = f32_add x (f32_neg y)"

fun f32_mul :: "f32 \<Rightarrow> f32 \<Rightarrow> f32" where
  "f32_mul (F32 a) (F32 b) = f32_round (a * b)"
| "f32_mul (F32_inf s) (F32_inf t) = F32_inf (s \<noteq> t)"
| "f32_mul (F32_inf s) (F32 b) = (if b = 0 then F32_nan else F32_inf (s \<noteq> (b < 0)))"
| "f32_mul (F32 a) (F32_inf t) = (if a = 0 then F32_nan else F32_inf ((a < 0) \<noteq> t))"
| "f32_mul _ _ = F32_nan"

fun f32_div :: "f32 \<Rightarrow> f32 \<Rightarrow> f32" where
  "f32_div (F32 a) (F32 b) =
     (if b = 0 then (if a = 0 then F32_nan else F32_inf (a < 0)) else f32_round (a / b))"
| "f32_div (F32_inf s) (F32_inf t) = F32_nan"
| "f32_div (F32_inf s) (F32 b) = F32_inf (s \<noteq> (b < 0))"
| "f32_div (F32 a) (F32_inf t) = F32 0"
| "f32_div _ _ = F32_nan"

fun f32_less :: "f32 \<Rightarrow> f32 \<Rightarrow> bool" where
  "f32_less (F32 a) (F32 b) = (a < b)"
| "f32_less (F32_inf s) (F32_inf t) = (s \<and> \<not> t)"
| "f32_less (F32_inf s) (F32 b) = s"
| "f32_less (F32 a) (F32_inf t) = (\<not> t)"
| "f32_less _ _ = False"

definition f32_le :: "f32 \<Rightarrow> f32 \<Rightarrow> bool" where
  "f32_le x y \<longleftrightarrow> f32_less x y \<or> (x = y \<and> x \<noteq> F32_nan)"

text \<open>Conversions: of integers with rounding, and to unsigned integers by truncation.\<close>

definition f32_of_int :: "int \<Rightarrow> f32" where
  "f32_of_int n = f32_round (of_int n)"

abbreviation f32_of_u32 :: "u32 \<Rightarrow> f32" where
  "f32_of_u32 w \<equiv> f32_of_int (uint w)"

text \<open>A decimal constant \<^verbatim>\<open>n.0f\<close> or \<^verbatim>\<open>a/b\<close> of the source, rounded.\<close>

abbreviation f32_lit :: "rat \<Rightarrow> f32" where
  "f32_lit \<equiv> f32_round"

fun f32_to_u32 :: "f32 \<Rightarrow> u32 run" where
  "f32_to_u32 (F32 a) = (if - 1 < a \<and> a < 2 ^ 32 then Inr (of_int (max 0 \<lfloor>a\<rfloor>)) else Inl Bad_Conversion)"
| "f32_to_u32 _ = Inl Bad_Conversion"

fun f32_to_u64 :: "f32 \<Rightarrow> u64 run" where
  "f32_to_u64 (F32 a) = (if - 1 < a \<and> a < 2 ^ 64 then Inr (of_int (max 0 \<lfloor>a\<rfloor>)) else Inl Bad_Conversion)"
| "f32_to_u64 _ = Inl Bad_Conversion"

section \<open>Order\<close>

lemma f32_less_nan [simp]: "\<not> f32_less x F32_nan" "\<not> f32_less F32_nan x"
  by (cases x; simp)+

lemma f32_less_irrefl [simp]: "\<not> f32_less x x"
  by (cases x) auto

lemma f32_less_trans: "f32_less x y \<Longrightarrow> f32_less y z \<Longrightarrow> f32_less x z"
  by (cases x; cases y; cases z) auto

lemma f32_not_less_trans: "y \<noteq> F32_nan \<Longrightarrow> \<not> f32_less y x \<Longrightarrow> \<not> f32_less z y \<Longrightarrow> \<not> f32_less z x"
  by (cases x; cases y; cases z) auto

lemma f32_not_less_less: "\<not> f32_less y x \<Longrightarrow> f32_less y z \<Longrightarrow> \<not> f32_less z x"
  by (cases x; cases y; cases z) auto

section \<open>The rounding error\<close>

lemma bitlen_bounds: "0 < n \<Longrightarrow> 0 < bitlen n \<and> 2 ^ (bitlen n - 1) \<le> n \<and> n < 2 ^ bitlen n"
proof (induction n rule: bitlen.induct)
  case (1 n)
  show ?case
  proof (cases "n = 1")
    case True
    then show ?thesis by (simp add: bitlen.simps)
  next
    case False
    with 1 have ih: "0 < bitlen (n div 2)" "2 ^ (bitlen (n div 2) - 1) \<le> n div 2" "n div 2 < 2 ^ bitlen (n div 2)" by auto
    then have "2 * 2 ^ (bitlen (n div 2) - 1) \<le> n" by linarith
    moreover have "(2::int) * 2 ^ (bitlen (n div 2) - 1) = 2 ^ bitlen (n div 2)"
      using ih(1) by (metis Suc_diff_1 power_Suc)
    moreover have "n < 2 * 2 ^ bitlen (n div 2)" using ih(3) by linarith
    ultimately show ?thesis using 1(2) by (simp add: bitlen.simps [of n])
  qed
qed

lemma flog2_bounds:
  assumes "0 < q"
  shows "2 powi flog2 q \<le> q \<and> q < 2 powi (flog2 q + 1)"
proof -
  obtain n d where nd: "quotient_of q = (n, d)" by (cases "quotient_of q") auto
  have d: "0 < d" using nd by (rule quotient_of_denom_pos)
  have q: "q = of_int n / of_int d" using nd by (rule quotient_of_div)
  have n: "0 < n" using assms d q by (simp add: zero_less_divide_iff)
  define bn bd where "bn = bitlen n" and "bd = bitlen d"
  have bn: "0 < bn" "2 ^ (bn - 1) \<le> n" "n < 2 ^ bn"
    using bitlen_bounds [of n] n by (simp_all add: bn_def)
  have bd: "0 < bd" "2 ^ (bd - 1) \<le> d" "d < 2 ^ bd"
    using bitlen_bounds [of d] d by (simp_all add: bd_def)
  have N: "2 ^ (bn - 1) \<le> (of_int n :: rat)" "(of_int n :: rat) < 2 ^ bn"
    using bn(2,3) n by (simp_all add: le_nat_iff nat_less_iff)
  have D: "2 ^ (bd - 1) \<le> (of_int d :: rat)" "(of_int d :: rat) < 2 ^ bd"
    using bd(2,3) d by (simp_all add: le_nat_iff nat_less_iff)
  have lo: "2 powi (int bn - int bd - 1) \<le> q"
  proof -
    have "2 powi (int bn - int bd - 1) = (2 ^ (bn - 1) / 2 ^ bd :: rat)"
      using bn(1) by (simp add: power_int_diff power_int_add power_diff field_simps)
    also have "\<dots> \<le> of_int n / of_int d"
      using N D d n by (intro frac_le) (auto intro: less_imp_le)
    finally show ?thesis by (simp add: q)
  qed
  have hi: "q < 2 powi (int bn - int bd + 1)"
  proof -
    have "of_int n / of_int d < (2 ^ bn / 2 ^ (bd - 1) :: rat)"
      using N D by (intro frac_less) (auto intro: less_imp_le simp: n less_imp_le)
    also have "\<dots> = 2 powi (int bn - int bd + 1)"
      using bd(1) by (simp add: power_int_diff power_int_add power_diff field_simps)
    finally show ?thesis by (simp add: q)
  qed
  show ?thesis
    using lo hi by (auto simp: flog2_def nd bn_def [symmetric] bd_def [symmetric] Let_def)
qed

lemma round_half_even_error: "\<bar>of_int (round_half_even q) - q\<bar> \<le> 1 / 2"
proof -
  have "of_int \<lfloor>q\<rfloor> \<le> q" "q < of_int \<lfloor>q\<rfloor> + 1" by linarith+
  then show ?thesis by (auto simp: round_half_even_def Let_def abs_le_iff)
qed

lemma ulp_pos: "0 < ulp q"
  by (simp add: ulp_def)

lemma ulp_bound:
  assumes "q \<noteq> 0"
  shows "ulp q / 2 \<le> \<bar>q\<bar> / 2 ^ 24 + 1 / 2 ^ 150"
proof (cases "flog2 \<bar>q\<bar> \<le> - 126")
  case True
  then have "ulp q = 1 / 2 ^ 149" by (simp add: ulp_def max_def power_int_minus field_simps)
  then show ?thesis by (simp add: field_simps)
next
  case False
  then have "ulp q = 2 powi (flog2 \<bar>q\<bar> - 23)" by (simp add: ulp_def max_def)
  also have "\<dots> = 2 powi flog2 \<bar>q\<bar> / 2 ^ 23" by (simp add: power_int_diff)
  also have "\<dots> \<le> \<bar>q\<bar> / 2 ^ 23"
    using flog2_bounds [of "\<bar>q\<bar>"] assms by (intro divide_right_mono) auto
  finally show ?thesis by simp
qed

lemma round_ulp_error:
  assumes "q \<noteq> 0"
  shows "\<bar>of_int (round_half_even (q / ulp q)) * ulp q - q\<bar> \<le> \<bar>q\<bar> / 2 ^ 24 + 1 / 2 ^ 150"
proof -
  let ?m = "round_half_even (q / ulp q)"
  have "of_int ?m * ulp q - q = (of_int ?m - q / ulp q) * ulp q"
    using ulp_pos [of q] by (simp add: field_simps)
  then have "\<bar>of_int ?m * ulp q - q\<bar> = \<bar>of_int ?m - q / ulp q\<bar> * ulp q"
    using ulp_pos [of q] by (simp add: abs_mult)
  also have "\<dots> \<le> 1 / 2 * ulp q"
    using round_half_even_error ulp_pos [of q] by (intro mult_right_mono) auto
  also have "\<dots> \<le> \<bar>q\<bar> / 2 ^ 24 + 1 / 2 ^ 150" using ulp_bound [OF assms] by simp
  finally show ?thesis .
qed

lemma f32_round_error:
  assumes "f32_round q = F32 r"
  shows "\<bar>r - q\<bar> \<le> \<bar>q\<bar> / 2 ^ 24 + 1 / 2 ^ 150"
  using assms round_ulp_error [of q] by (auto simp: f32_round_def Let_def split: if_splits)

text \<open>The bounds as they are used: a relative error of at most \<open>eps\<close> and an absolute one of \<open>tiny\<close>.\<close>

abbreviation eps :: rat where "eps \<equiv> 1 / 2 ^ 24"
abbreviation tiny :: rat where "tiny \<equiv> 1 / 2 ^ 150"

lemma f32_round_le: "0 \<le> q \<Longrightarrow> f32_round q = F32 r \<Longrightarrow> r \<le> q * (1 + eps) + tiny"
  using f32_round_error [of q r] by (simp add: abs_le_iff algebra_simps)

lemma f32_round_ge: "0 \<le> q \<Longrightarrow> f32_round q = F32 r \<Longrightarrow> q * (1 - eps) - tiny \<le> r"
  using f32_round_error [of q r] by (simp add: abs_le_iff algebra_simps)

lemma f32_round_finite:
  assumes "\<bar>q\<bar> \<le> 2 ^ 100"
  shows "\<exists>r. f32_round q = F32 r"
proof (cases "q = 0")
  case False
  let ?r = "of_int (round_half_even (q / ulp q)) * ulp q"
  have "\<bar>?r\<bar> \<le> \<bar>?r - q\<bar> + \<bar>q\<bar>" by linarith
  also have "\<dots> \<le> \<bar>q\<bar> / 2 ^ 24 + 1 / 2 ^ 150 + \<bar>q\<bar>" using round_ulp_error [OF False] by linarith
  also have "\<dots> < 2 ^ 128" using assms by simp
  finally show ?thesis using False by (simp add: f32_round_def Let_def)
qed (simp add: f32_round_def)

lemma f32_round_nonneg: "0 \<le> q \<Longrightarrow> f32_round q = F32 r \<Longrightarrow> 0 \<le> r"
  using ulp_pos [of q]
  by (auto simp: f32_round_def Let_def round_half_even_def split: if_splits)

end
