(* ===== verification/Workload_Queue.thy ===== *)
theory Workload_Queue
  imports Linked_List Float32
begin

text \<open>
  The data of the user-space scheduler (\<^verbatim>\<open>src/userspace/scheduler/scheduler_internal.h\<close>,
  \<^verbatim>\<open>include/mvgal/mvgal_scheduler.h\<close>) and its workload queues (\<^verbatim>\<open>scheduler.c\<close>).

  Workloads live in a heap of nodes; a queue is the head and the tail of a doubly linked list of
  them, with a count and the sum of the priorities. Each operation runs under the mutex of its
  queue, so it is one step here. The predicate \<open>queue_of\<close> relates a queue to the list of workloads in
  it, and the operations are shown to implement the operations of a first-in first-out list and the
  removal of a workload of highest priority.
\<close>

section \<open>Workloads\<close>

datatype mvgal_workload_type_t =
    MVGAL_WORKLOAD_GRAPHICS
  | MVGAL_WORKLOAD_COMPUTE
  | MVGAL_WORKLOAD_VIDEO
  | MVGAL_WORKLOAD_AI
  | MVGAL_WORKLOAD_TRACE
  | MVGAL_WORKLOAD_TRANSFER
  | MVGAL_WORKLOAD_VULKAN
  | MVGAL_WORKLOAD_VULKAN_CMD
  | MVGAL_WORKLOAD_CUDA_KERNEL
  | MVGAL_WORKLOAD_CUDA_MEMORY
  | MVGAL_WORKLOAD_CUDA_STREAM
  | MVGAL_WORKLOAD_D3D_CONTEXT
  | MVGAL_WORKLOAD_D3D_QUEUE
  | MVGAL_WORKLOAD_D3D_PIPELINE
  | MVGAL_WORKLOAD_D3D_BUFFER
  | MVGAL_WORKLOAD_D3D_TEXTURE
  | MVGAL_WORKLOAD_METAL_QUEUE
  | MVGAL_WORKLOAD_METAL_BUFFER
  | MVGAL_WORKLOAD_METAL_TEXTURE
  | MVGAL_WORKLOAD_METAL_RENDER
  | MVGAL_WORKLOAD_METAL_COMPUTE
  | MVGAL_WORKLOAD_METAL_COMMAND
  | MVGAL_WORKLOAD_METAL_COMMIT
  | MVGAL_WORKLOAD_METAL_PRESENT
  | MVGAL_WORKLOAD_WEBGPU_QUEUE
  | MVGAL_WORKLOAD_WEBGPU_BUFFER
  | MVGAL_WORKLOAD_WEBGPU_TEXTURE
  | MVGAL_WORKLOAD_WEBGPU_SHADER
  | MVGAL_WORKLOAD_WEBGPU_BINDGROUP_LAYOUT
  | MVGAL_WORKLOAD_WEBGPU_PIPELINE_LAYOUT
  | MVGAL_WORKLOAD_WEBGPU_RENDER
  | MVGAL_WORKLOAD_WEBGPU_COMPUTE
  | MVGAL_WORKLOAD_WEBGPU_COMMAND
  | MVGAL_WORKLOAD_WEBGPU_RENDER_PASS
  | MVGAL_WORKLOAD_WEBGPU_COMPUTE_PASS
  | MVGAL_WORKLOAD_WEBGPU_SUBMIT
  | MVGAL_WORKLOAD_OPENCL_KERNEL
  | MVGAL_WORKLOAD_OPENCL_BUFFER
  | MVGAL_WORKLOAD_OPENCL_QUEUE
  | MVGAL_WORKLOAD_UNKNOWN

datatype mvgal_workload_state_t =
    MVGAL_WORKLOAD_STATE_PENDING
  | MVGAL_WORKLOAD_STATE_QUEUED
  | MVGAL_WORKLOAD_STATE_RUNNING
  | MVGAL_WORKLOAD_STATE_COMPLETED
  | MVGAL_WORKLOAD_STATE_FAILED
  | MVGAL_WORKLOAD_STATE_CANCELLED

text \<open>Pointers to data of clients (contexts, dependency fences, user data) are numbers.\<close>

record mvgal_workload_descriptor_t =
  wd_id :: u32
  wd_type :: mvgal_workload_type_t
  wd_priority :: u32
  wd_submission_time :: u64
  wd_deadline :: u64
  wd_source :: "nat option"
  wd_api :: u64
  wd_estimated_duration_ns :: u64
  wd_memory_required :: u64
  wd_gpu_preference :: u32
  wd_gpu_mask :: u64
  wd_dependency_count :: u32
  wd_dependencies :: "nat option"
  wd_completed :: bool
  wd_result :: mvgal_error_t
  wd_start_time :: u64
  wd_end_time :: u64
  wd_assigned_gpu :: u32

text \<open>What the split-frame strategy leaves in \<^verbatim>\<open>strategy_data\<close> (\<^verbatim>\<open>strategy/sfr.c\<close>).\<close>

record sfr_region_t =
  rg_x :: u32
  rg_y :: u32
  rg_width :: u32
  rg_height :: u32
  rg_gpu_index :: u32

record sfr_workload_data_t =
  sfr_regions :: "sfr_region_t list"
  sfr_original_width :: u32
  sfr_original_height :: u32

text \<open>The array \<^verbatim>\<open>gpu_execution_time_ns\<close> is zeroed and never used, and left out.\<close>

record mvgal_workload =
  wl_refcount :: u32
  wl_state :: mvgal_workload_state_t
  wl_descriptor :: mvgal_workload_descriptor_t
  wl_context :: "nat option"
  wl_callback :: "nat option"
  wl_user_data :: "nat option"
  wl_assigned_gpu_count :: u32
  wl_assigned_gpus :: "u32 list"
  wl_queue_time :: u64
  wl_start_time :: u64
  wl_end_time :: u64
  wl_completion_signaled :: bool
  wl_completion_status :: mvgal_error_t
  wl_next :: "nat option"
  wl_prev :: "nat option"
  wl_strategy_data :: "sfr_workload_data_t option"

text \<open>What \<^verbatim>\<open>calloc\<close> returns.\<close>

definition zero_workload_descriptor :: mvgal_workload_descriptor_t where
  "zero_workload_descriptor =
     \<lparr>wd_id = 0, wd_type = MVGAL_WORKLOAD_GRAPHICS, wd_priority = 0, wd_submission_time = 0, wd_deadline = 0,
      wd_source = None, wd_api = 0, wd_estimated_duration_ns = 0, wd_memory_required = 0, wd_gpu_preference = 0,
      wd_gpu_mask = 0, wd_dependency_count = 0, wd_dependencies = None, wd_completed = False,
      wd_result = MVGAL_SUCCESS, wd_start_time = 0, wd_end_time = 0, wd_assigned_gpu = 0\<rparr>"

definition zero_workload :: mvgal_workload where
  "zero_workload =
     \<lparr>wl_refcount = 0, wl_state = MVGAL_WORKLOAD_STATE_PENDING, wl_descriptor = zero_workload_descriptor,
      wl_context = None, wl_callback = None, wl_user_data = None, wl_assigned_gpu_count = 0,
      wl_assigned_gpus = replicate 16 0, wl_queue_time = 0, wl_start_time = 0, wl_end_time = 0,
      wl_completion_signaled = False, wl_completion_status = MVGAL_SUCCESS,
      wl_next = None, wl_prev = None, wl_strategy_data = None\<rparr>"

type_synonym wheap = "nat \<rightharpoonup> mvgal_workload"

abbreviation wl_priority :: "mvgal_workload \<Rightarrow> u32" where
  "wl_priority w \<equiv> wd_priority (wl_descriptor w)"

definition wderef :: "wheap \<Rightarrow> nat \<Rightarrow> mvgal_workload run" where
  "wderef h p = (case h p of None \<Rightarrow> Inl (Dangling p) | Some w \<Rightarrow> Inr w)"

text \<open>A write through a pointer that may be NULL, guarded by a test for it.\<close>

definition wupd_opt :: "(mvgal_workload \<Rightarrow> mvgal_workload) \<Rightarrow> nat option \<Rightarrow> wheap \<Rightarrow> wheap run" where
  "wupd_opt f po h =
     (case po of None \<Rightarrow> Inr h | Some p \<Rightarrow> bnd (wderef h p) (\<lambda>w. Inr (h(p \<mapsto> f w))))"

text \<open>
  Reference counts. Destroying a workload frees its strategy data with it; that the mutex and the
  condition variable are destroyed leaves no trace in the model.
\<close>

definition mvgal_workload_destroy_internal :: "nat option \<Rightarrow> wheap \<Rightarrow> wheap run" where
  "mvgal_workload_destroy_internal workload h =
     (case workload of
        None \<Rightarrow> Inr h
      | Some p \<Rightarrow> bnd (wderef h p) (\<lambda>_. Inr (h(p := None))))"

definition mvgal_workload_retain :: "nat option \<Rightarrow> wheap \<Rightarrow> wheap run" where
  "mvgal_workload_retain workload h =
     wupd_opt (\<lambda>w. w\<lparr>wl_refcount := wl_refcount w + 1\<rparr>) workload h"

definition mvgal_workload_release :: "nat option \<Rightarrow> wheap \<Rightarrow> wheap run" where
  "mvgal_workload_release workload h =
     (case workload of
        None \<Rightarrow> Inr h
      | Some p \<Rightarrow>
          bnd (wderef h p) (\<lambda>w.
            let h1 = h(p \<mapsto> w\<lparr>wl_refcount := wl_refcount w - 1\<rparr>)
            in if wl_refcount w = 1 then mvgal_workload_destroy_internal (Some p) h1 else Inr h1))"

section \<open>Queues\<close>

abbreviation (input) MVGAL_SCHEDULER_MAX_QUEUED :: u32 where "MVGAL_SCHEDULER_MAX_QUEUED \<equiv> 1024"

record mvgal_workload_queue_t =
  wq_head :: "nat option"
  wq_tail :: "nat option"
  wq_count :: u32
  wq_total_priority :: u64

definition workload_queue_init :: mvgal_workload_queue_t where
  "workload_queue_init = \<lparr>wq_head = None, wq_tail = None, wq_count = 0, wq_total_priority = 0\<rparr>"

text \<open>A NULL queue is never passed, so the queue is an argument and not a handle.\<close>

definition mvgal_workload_queue ::
    "nat option \<Rightarrow> mvgal_workload_queue_t \<Rightarrow> wheap \<Rightarrow> (mvgal_error_t \<times> mvgal_workload_queue_t \<times> wheap) run" where
  "mvgal_workload_queue workload queue h =
     (case workload of
        None \<Rightarrow> Inr (MVGAL_ERROR_INVALID_ARGUMENT, queue, h)
      | Some p \<Rightarrow>
          if MVGAL_SCHEDULER_MAX_QUEUED \<le> wq_count queue then Inr (MVGAL_ERROR_MEMORY, queue, h)
          else
            bnd (mvgal_workload_retain (Some p) h) (\<lambda>h1.
            bnd (wupd_opt (\<lambda>w. w\<lparr>wl_next := None, wl_prev := wq_tail queue\<rparr>) (Some p) h1) (\<lambda>h2.
            bnd (wupd_opt (\<lambda>w. w\<lparr>wl_next := Some p\<rparr>) (wq_tail queue) h2) (\<lambda>h3.
            bnd (wderef h3 p) (\<lambda>w.
              Inr (MVGAL_SUCCESS,
                   queue\<lparr>wq_tail := Some p,
                         wq_head := (if wq_head queue = None then Some p else wq_head queue),
                         wq_count := wq_count queue + 1,
                         wq_total_priority := wq_total_priority queue + ucast (wl_priority w)\<rparr>,
                   h3))))))"

definition mvgal_workload_dequeue ::
    "mvgal_workload_queue_t \<Rightarrow> wheap \<Rightarrow> (nat option \<times> mvgal_workload_queue_t \<times> wheap) run" where
  "mvgal_workload_dequeue queue h =
     (case wq_head queue of
        None \<Rightarrow> Inr (None, queue, h)
      | Some p \<Rightarrow>
          bnd (wderef h p) (\<lambda>w.
          let q1 = queue\<lparr>wq_head := wl_next w\<rparr>;
              q2 = (if wl_next w = None then q1\<lparr>wq_tail := None\<rparr> else q1)
          in
            bnd (wupd_opt (\<lambda>n. n\<lparr>wl_prev := None\<rparr>) (wl_next w) h) (\<lambda>h1.
            bnd (wupd_opt (\<lambda>n. n\<lparr>wl_next := None, wl_prev := None\<rparr>) (Some p) h1) (\<lambda>h2.
              Inr (Some p,
                   q2\<lparr>wq_count := wq_count queue - 1,
                      wq_total_priority := wq_total_priority queue - ucast (wl_priority w)\<rparr>,
                   h2)))))"

text \<open>
  The search for the workload of highest priority walks along the list from \<open>current\<close>. It runs for
  ever on a list with a cycle; the first argument bounds the number of nodes it may visit.
\<close>

fun scan_best :: "nat \<Rightarrow> wheap \<Rightarrow> nat option \<Rightarrow> nat option \<Rightarrow> u32 \<Rightarrow> (nat option \<times> u32) run" where
  "scan_best n h None best best_priority = Inr (best, best_priority)"
| "scan_best 0 h (Some c) best best_priority = Inl Depth_Exceeded"
| "scan_best (Suc n) h (Some c) best best_priority =
     bnd (wderef h c) (\<lambda>w.
       if best_priority < wl_priority w then scan_best n h (wl_next w) (Some c) (wl_priority w)
       else scan_best n h (wl_next w) best best_priority)"

definition mvgal_workload_dequeue_priority ::
    "nat \<Rightarrow> mvgal_workload_queue_t \<Rightarrow> wheap \<Rightarrow> (nat option \<times> mvgal_workload_queue_t \<times> wheap) run" where
  "mvgal_workload_dequeue_priority fuel queue h =
     bnd (scan_best fuel h (wq_head queue) None 0) (\<lambda>(best, best_priority).
       case best of
         None \<Rightarrow> Inr (None, queue, h)
       | Some p \<Rightarrow>
           bnd (wderef h p) (\<lambda>w.
           bnd (wupd_opt (\<lambda>n. n\<lparr>wl_next := wl_next w\<rparr>) (wl_prev w) h) (\<lambda>h1.
           bnd (wupd_opt (\<lambda>n. n\<lparr>wl_prev := wl_prev w\<rparr>) (wl_next w) h1) (\<lambda>h2.
           bnd (wupd_opt (\<lambda>n. n\<lparr>wl_next := None, wl_prev := None\<rparr>) (Some p) h2) (\<lambda>h3.
             Inr (Some p,
                  queue\<lparr>wq_head := (if wl_prev w = None then wl_next w else wq_head queue),
                        wq_tail := (if wl_next w = None then wl_prev w else wq_tail queue),
                        wq_count := wq_count queue - 1,
                        wq_total_priority := wq_total_priority queue - ucast best_priority\<rparr>,
                  h3))))))"

section \<open>The list of a queue\<close>

interpretation wl: dnode wl_next wl_prev "\<lambda>q w. w\<lparr>wl_next := q\<rparr>" "\<lambda>q w. w\<lparr>wl_prev := q\<rparr>"
  by unfold_locales simp_all

definition hprio :: "wheap \<Rightarrow> nat \<Rightarrow> u32" where
  "hprio h p = (case h p of None \<Rightarrow> 0 | Some w \<Rightarrow> wl_priority w)"

text \<open>
  The queue \<open>q\<close> links the workloads \<open>xs\<close>. Its running total of priorities is off by \<open>d\<close>: a workload
  that changes its priority without the state \<^verbatim>\<open>QUEUED\<close> is not accounted for.
\<close>

definition queue_at :: "u64 \<Rightarrow> mvgal_workload_queue_t \<Rightarrow> wheap \<Rightarrow> nat list \<Rightarrow> bool" where
  "queue_at d q h xs \<longleftrightarrow>
     hseg wl_next wl_prev h None (wq_head q) xs (wq_tail q) None
   \<and> unat (wq_count q) = length xs \<and> length xs \<le> 1024
   \<and> wq_total_priority q = d + (\<Sum>x\<leftarrow>xs. ucast (hprio h x))"

abbreviation queue_of :: "mvgal_workload_queue_t \<Rightarrow> wheap \<Rightarrow> nat list \<Rightarrow> bool" where
  "queue_of \<equiv> queue_at 0"

text \<open>What two heaps agree on when only links differ.\<close>

definition wl_body :: "mvgal_workload \<Rightarrow> mvgal_workload" where
  "wl_body w = w\<lparr>wl_next := None, wl_prev := None\<rparr>"

definition same_bodies :: "wheap \<Rightarrow> wheap \<Rightarrow> nat \<Rightarrow> bool" where
  "same_bodies h h' x \<longleftrightarrow> map_option wl_body (h' x) = map_option wl_body (h x)"

lemma wl_body_simps [simp]:
  "wl_descriptor (wl_body w) = wl_descriptor w" "wl_refcount (wl_body w) = wl_refcount w"
  "wl_state (wl_body w) = wl_state w" "wl_completion_signaled (wl_body w) = wl_completion_signaled w"
  "wl_completion_status (wl_body w) = wl_completion_status w"
  by (simp_all add: wl_body_def)

lemma wl_body_eq_priority: "wl_body v = wl_body w \<Longrightarrow> wl_priority v = wl_priority w"
  by (metis wl_body_simps(1))

lemma same_bodies_hprio: "same_bodies h h' x \<Longrightarrow> hprio h' x = hprio h x"
  by (cases "h x"; cases "h' x") (auto simp: same_bodies_def hprio_def dest: wl_body_eq_priority)

lemma same_bodies_trans: "same_bodies h h' x \<Longrightarrow> same_bodies h' h'' x \<Longrightarrow> same_bodies h h'' x"
  by (simp add: same_bodies_def)

lemma same_bodies_refl [simp]: "same_bodies h h x"
  by (simp add: same_bodies_def)

lemma same_bodies_hupd:
  assumes "\<And>w. wl_body (f w) = wl_body w"
  shows "same_bodies h (hupd_opt f p h) x"
  using assms by (auto simp: same_bodies_def hupd_opt_def hupd_def split: option.splits)

lemma wderef_Some [simp]: "h p = Some w \<Longrightarrow> wderef h p = Inr w"
  by (simp add: wderef_def)

lemma wupd_opt_ok:
  assumes "\<And>p. po = Some p \<Longrightarrow> p \<in> dom h"
  shows "wupd_opt f po h = Inr (hupd_opt f po h)"
  using assms by (auto simp: wupd_opt_def hupd_opt_def hupd_def split: option.splits)

lemma queue_of_init [simp]: "queue_of workload_queue_init h []"
  by (simp add: queue_at_def workload_queue_init_def hseg_def)

lemma queue_of_distinct: "queue_at d q h xs \<Longrightarrow> distinct xs"
  by (auto simp: queue_at_def dest: hseg_distinct)

lemma queue_of_dom: "queue_at d q h xs \<Longrightarrow> x \<in> set xs \<Longrightarrow> \<exists>w. h x = Some w"
  by (auto simp: queue_at_def hseg_def)

lemma queue_of_empty_iff: "queue_at d q h xs \<Longrightarrow> wq_count q = 0 \<longleftrightarrow> xs = []"
  by (auto simp: queue_at_def unat_eq_0 [symmetric])

text \<open>A queue does not depend on the workloads outside it, nor on what its own hold besides links and priority.\<close>

lemma queue_of_cong:
  assumes "queue_at d q h xs"
    and "\<And>x w. x \<in> set xs \<Longrightarrow> h x = Some w \<Longrightarrow>
          \<exists>v. h' x = Some v \<and> wl_next v = wl_next w \<and> wl_prev v = wl_prev w \<and> wl_priority v = wl_priority w"
  shows "queue_at d q h' xs"
proof -
  have e: "\<exists>w v. h x = Some w \<and> h' x = Some v \<and> wl_next v = wl_next w \<and> wl_prev v = wl_prev w \<and> wl_priority v = wl_priority w"
    if "x \<in> set xs" for x using assms that queue_of_dom [OF assms(1) that] by blast
  have "hseg wl_next wl_prev h' None (wq_head q) xs (wq_tail q) None"
    by (rule hseg_cong [of _ _ _ h]) (use assms(1) e in \<open>fastforce simp: queue_at_def hfield_def\<close>)+
  moreover have "(\<Sum>x\<leftarrow>xs. ucast (hprio h' x) :: u64) = (\<Sum>x\<leftarrow>xs. ucast (hprio h x))"
    using e by (intro arg_cong [where f = sum_list] map_cong) (fastforce simp: hprio_def)+
  ultimately show ?thesis using assms(1) by (simp add: queue_at_def)
qed

lemma sum_prio_cong:
  assumes "\<And>x. x \<in> set xs \<Longrightarrow> same_bodies h h' x"
  shows "(\<Sum>x\<leftarrow>xs. ucast (hprio h' x) :: u64) = (\<Sum>x\<leftarrow>xs. ucast (hprio h x))"
proof -
  have "hprio h' x = hprio h x" if "x \<in> set xs" for x
    using assms [OF that] by (rule same_bodies_hprio)
  then have "map (\<lambda>x. ucast (hprio h' x) :: u64) xs = map (\<lambda>x. ucast (hprio h x)) xs" by simp
  then show ?thesis by (simp only:)
qed

lemma wl_links_commute: "w\<lparr>wl_next := a, wl_prev := b\<rparr> = w\<lparr>wl_prev := b, wl_next := a\<rparr>"
  by (rule mvgal_workload.equality) simp_all

lemma hprio_Some [simp]: "h p = Some w \<Longrightarrow> hprio h p = wl_priority w"
  by (simp add: hprio_def)

section \<open>Queueing\<close>

lemma workload_queue_ok:
  assumes q: "queue_at d q h xs" and w: "h p = Some w" and p: "p \<notin> set xs" and room: "length xs < 1024"
  shows "\<exists>q' h' w'. mvgal_workload_queue (Some p) q h = Inr (MVGAL_SUCCESS, q', h')
    \<and> queue_at d q' h' (xs @ [p])
    \<and> h' p = Some w' \<and> wl_body w' = wl_body (w\<lparr>wl_refcount := wl_refcount w + 1\<rparr>)
    \<and> (\<forall>x. x \<noteq> p \<longrightarrow> same_bodies h h' x)"
proof -
  let ?v = "w\<lparr>wl_refcount := wl_refcount w + 1\<rparr>"
  let ?h1 = "h(p \<mapsto> ?v)" and ?h2 = "h(p \<mapsto> ?v\<lparr>wl_prev := wq_tail q, wl_next := None\<rparr>)"
  let ?h3 = "hupd_opt (\<lambda>w. w\<lparr>wl_next := Some p\<rparr>) (wq_tail q) ?h2"
  from q have seg: "hseg wl_next wl_prev h None (wq_head q) xs (wq_tail q) None" by (simp add: queue_at_def)
  note ends = hseg_ends [OF seg]
  have dom: "t \<in> dom ?h2 \<and> t \<noteq> p" if "wq_tail q = Some t" for t
  proof -
    have "t \<in> set xs" using that ends by (auto split: if_splits)
    then show ?thesis using seg p by (auto simp: hseg_def)
  qed
  have seg1: "hseg wl_next wl_prev ?h1 None (wq_head q) xs (wq_tail q) None"
    using seg p by (intro hseg_cong [OF _ seg]) (auto simp: hfield_def hseg_def)
  from wl.hseg_enqueue [OF seg1 p, of ?v ?h3]
  have seg3: "hseg wl_next wl_prev ?h3 None (if xs = [] then Some p else wq_head q) (xs @ [p]) (Some p) None"
    by simp
  have h3p: "?h3 p = Some (?v\<lparr>wl_prev := wq_tail q, wl_next := None\<rparr>)"
    using dom by (auto simp: hupd_opt_def split: option.splits)
  have same: "same_bodies h ?h3 x" if "x \<noteq> p" for x
    using same_bodies_hupd [of "\<lambda>w. w\<lparr>wl_next := Some p\<rparr>" ?h2 "wq_tail q" x] that
    by (simp add: wl_body_def same_bodies_def)
  have count: "wq_count q < 1024" "unat (wq_count q + 1) = Suc (length xs)"
    using q room unat_add_no_wrap [of "wq_count q" 1] by (simp_all add: queue_at_def word_less_nat_alt)
  have run: "mvgal_workload_queue (Some p) q h =
      Inr (MVGAL_SUCCESS, q\<lparr>wq_tail := Some p, wq_head := (if wq_head q = None then Some p else wq_head q),
        wq_count := wq_count q + 1, wq_total_priority := wq_total_priority q + ucast (wl_priority w)\<rparr>, ?h3)"
  proof -
    have "wupd_opt (\<lambda>w. w\<lparr>wl_next := Some p\<rparr>) (wq_tail q) ?h2 = Inr ?h3"
      using dom by (intro wupd_opt_ok) blast
    then show ?thesis
      using w count(1) wderef_Some [of ?h3, OF h3p]
      by (simp add: mvgal_workload_queue_def mvgal_workload_retain_def wupd_opt_def [of _ "Some p"] not_le wl_links_commute)
  qed
  have "(\<Sum>x\<leftarrow>xs. ucast (hprio ?h3 x) :: u64) = (\<Sum>x\<leftarrow>xs. ucast (hprio h x))"
    by (rule sum_prio_cong, rule same) (use p in blast)
  then have "queue_at d (q\<lparr>wq_tail := Some p, wq_head := (if wq_head q = None then Some p else wq_head q),
        wq_count := wq_count q + 1, wq_total_priority := wq_total_priority q + ucast (wl_priority w)\<rparr>) ?h3 (xs @ [p])"
    using seg3 count(2) room q ends hprio_Some [of ?h3, OF h3p]
    unfolding queue_at_def by (simp split: if_splits)
  moreover have "wl_body (?v\<lparr>wl_prev := wq_tail q, wl_next := None\<rparr>) = wl_body ?v"
    by (simp add: wl_body_def wl_links_commute)
  ultimately show ?thesis using run h3p same by blast
qed

section \<open>Taking a workload out\<close>

lemma unlink_step:
  assumes q: "queue_at d q h (as @ p # bs)" and w: "h p = Some w"
    and h1: "h1 = hupd_opt (\<lambda>n. n\<lparr>wl_next := wl_next w\<rparr>) (wl_prev w) h"
    and h2: "h2 = hupd_opt (\<lambda>n. n\<lparr>wl_prev := wl_prev w\<rparr>) (wl_next w) h1"
    and h3: "h3 = hupd_opt (\<lambda>n. n\<lparr>wl_next := None, wl_prev := None\<rparr>) (Some p) h2"
  shows "wupd_opt (\<lambda>n. n\<lparr>wl_next := wl_next w\<rparr>) (wl_prev w) h = Inr h1"
    and "wupd_opt (\<lambda>n. n\<lparr>wl_prev := wl_prev w\<rparr>) (wl_next w) h1 = Inr h2"
    and "wupd_opt (\<lambda>n. n\<lparr>wl_next := None, wl_prev := None\<rparr>) (Some p) h2 = Inr h3"
    and "queue_at d (q\<lparr>wq_head := (if wl_prev w = None then wl_next w else wq_head q),
          wq_tail := (if wl_next w = None then wl_prev w else wq_tail q),
          wq_count := wq_count q - 1, wq_total_priority := wq_total_priority q - ucast (wl_priority w)\<rparr>) h3 (as @ bs)"
    and "\<forall>x. same_bodies h h3 x"
    and "wl_prev w = None \<longleftrightarrow> as = []"
proof -
  from q have seg: "hseg wl_next wl_prev h None (wq_head q) (as @ p # bs) (wq_tail q) None" by (simp add: queue_at_def)
  have f: "hfield wl_prev h p = wl_prev w" "hfield wl_next h p = wl_next w" using w by (simp_all add: hfield_def)
  note u = wl.hseg_unlink [OF seg, unfolded f, OF h2 [unfolded h1]]
  from u(2,3) show "wl_prev w = None \<longleftrightarrow> as = []" by simp
  have sub: "set (as @ p # bs) \<subseteq> dom h" using seg by (simp add: hseg_def)
  have dom: "dom h1 = dom h" "dom h2 = dom h" by (simp_all add: h1 h2)
  have la: "last as \<in> dom h" if "as \<noteq> []" using sub last_in_set [OF that] by auto
  have hb: "hd bs \<in> dom h" if "bs \<noteq> []" using sub hd_in_set [OF that] by auto
  show "wupd_opt (\<lambda>n. n\<lparr>wl_next := wl_next w\<rparr>) (wl_prev w) h = Inr h1"
    unfolding h1 using u(2) la by (intro wupd_opt_ok) (simp split: if_splits)
  show "wupd_opt (\<lambda>n. n\<lparr>wl_prev := wl_prev w\<rparr>) (wl_next w) h1 = Inr h2"
    unfolding h2 using u(3) hb dom by (intro wupd_opt_ok) (simp split: if_splits)
  show "wupd_opt (\<lambda>n. n\<lparr>wl_next := None, wl_prev := None\<rparr>) (Some p) h2 = Inr h3"
    unfolding h3 using sub dom by (intro wupd_opt_ok) auto
  have body: "same_bodies h h3 x" for x
    unfolding h1 h2 h3
    by (intro same_bodies_trans [OF _ same_bodies_hupd] same_bodies_hupd) (simp_all add: wl_body_def wl_links_commute)
  then show "\<forall>x. same_bodies h h3 x" by blast
  have d: "p \<notin> set (as @ bs)" using queue_of_distinct [OF q] by auto
  then have "h3 y = h2 y" if "y \<in> set (as @ bs)" for y
    using that unfolding h3 hupd_opt_def by (metis hupd_other option.simps(5))
  from hseg_heap_cong [OF this u(1)] have seg3: "hseg wl_next wl_prev h3 None (if wl_prev w = None then wl_next w else wq_head q) (as @ bs)
      (if bs = [] then wl_prev w else wq_tail q) None" .
  have sum: "(\<Sum>x\<leftarrow>as @ bs. ucast (hprio h3 x) :: u64) = (\<Sum>x\<leftarrow>as @ bs. ucast (hprio h x))"
    by (rule sum_prio_cong) (rule body)
  have "wq_count q \<noteq> 0" using q by (auto simp: queue_at_def)
  then have "unat (wq_count q - 1) = length (as @ bs)"
    using q by (simp add: unat_pred_pos word_gt_0 queue_at_def)
  then show "queue_at d (q\<lparr>wq_head := (if wl_prev w = None then wl_next w else wq_head q),
          wq_tail := (if wl_next w = None then wl_prev w else wq_tail q),
          wq_count := wq_count q - 1, wq_total_priority := wq_total_priority q - ucast (wl_priority w)\<rparr>) h3 (as @ bs)"
    using seg3 sum q u(3) w unfolding queue_at_def by (auto split: if_splits)
qed

lemma workload_dequeue_empty: "queue_at d q h [] \<Longrightarrow> mvgal_workload_dequeue q h = Inr (None, q, h)"
  by (simp add: mvgal_workload_dequeue_def queue_at_def hseg_def)

lemma workload_dequeue_ok:
  assumes q: "queue_at d q h (p # xs)"
  shows "\<exists>q' h'. mvgal_workload_dequeue q h = Inr (Some p, q', h')
    \<and> queue_at d q' h' xs \<and> (\<forall>x. same_bodies h h' x)"
proof -
  from q obtain w where w: "h p = Some w" and hd: "wq_head q = Some p"
    by (auto simp: queue_at_def hseg_def)
  note u = unlink_step [of d q h "[]", simplified, OF q w refl refl refl]
  have none: "wl_prev w = None" using u(6) by simp
  have "mvgal_workload_dequeue q h = Inr (Some p,
      q\<lparr>wq_head := wl_next w, wq_tail := (if wl_next w = None then None else wq_tail q),
        wq_count := wq_count q - 1, wq_total_priority := wq_total_priority q - ucast (wl_priority w)\<rparr>,
      hupd_opt (\<lambda>n. n\<lparr>wl_next := None, wl_prev := None\<rparr>) (Some p) (hupd_opt (\<lambda>n. n\<lparr>wl_prev := None\<rparr>) (wl_next w) h))"
    using u(2,3) w hd none by (simp add: mvgal_workload_dequeue_def hupd_opt_def [of _ None] Let_def)
  then show ?thesis
    using u(4) u(5) none by (cases "wl_next w") (simp_all add: hupd_opt_def [of _ None])
qed

section \<open>Highest priority first\<close>

text \<open>The search on the list of a queue: the first workload of the highest priority, if that is not 0.\<close>

fun pick_from :: "(nat \<Rightarrow> u32) \<Rightarrow> nat option \<Rightarrow> u32 \<Rightarrow> nat list \<Rightarrow> nat option \<times> u32" where
  "pick_from prio best bp [] = (best, bp)"
| "pick_from prio best bp (x # xs) =
     (if bp < prio x then pick_from prio (Some x) (prio x) xs else pick_from prio best bp xs)"

lemma scan_best_pick:
  assumes "dseg (hfield wl_next h) pv b c xs l None" and "set xs \<subseteq> dom h" and "length xs \<le> n"
  shows "scan_best n h c best bp = Inr (pick_from (hprio h) best bp xs)"
  using assms
proof (induction xs arbitrary: n b c best bp)
  case (Cons x xs)
  then obtain m w where "n = Suc m" "h x = Some w" by (cases n) auto
  with Cons show ?case by (auto simp: hfield_def)
qed simp

definition first_max :: "(nat \<Rightarrow> u32) \<Rightarrow> u32 \<Rightarrow> nat list \<Rightarrow> nat \<Rightarrow> bool" where
  "first_max prio bp xs p \<longleftrightarrow>
     (\<exists>as bs. xs = as @ p # bs \<and> bp < prio p \<and> (\<forall>a \<in> set as. prio a < prio p) \<and> (\<forall>b \<in> set bs. prio b \<le> prio p))"

lemma first_max_here: "bp < prio x \<Longrightarrow> \<forall>y \<in> set xs. prio y \<le> prio x \<Longrightarrow> first_max prio bp (x # xs) x"
  unfolding first_max_def by (rule exI [of _ "[]"]) simp

lemma first_max_later:
  assumes "first_max prio bp xs p" and "prio x < prio p" and "bp' < prio p"
  shows "first_max prio bp' (x # xs) p"
proof -
  from assms(1) obtain as bs where "xs = as @ p # bs" "\<forall>a \<in> set as. prio a < prio p" "\<forall>b \<in> set bs. prio b \<le> prio p"
    by (auto simp: first_max_def)
  with assms(2,3) show ?thesis unfolding first_max_def by (intro exI [of _ "x # as"] exI [of _ bs]) simp
qed

lemma first_max_skip:
  "first_max prio bp xs p \<Longrightarrow> prio x \<le> bp \<Longrightarrow> bp' \<le> bp \<Longrightarrow> first_max prio bp' (x # xs) p"
  by (rule first_max_later) (auto simp: first_max_def)

lemma pick_from_spec:
  "pick_from prio best bp xs = (r, rp) \<Longrightarrow>
     r = best \<and> rp = bp \<and> (\<forall>x \<in> set xs. prio x \<le> bp) \<or> (\<exists>p. r = Some p \<and> rp = prio p \<and> first_max prio bp xs p)"
proof (induction xs arbitrary: best bp)
  case (Cons x xs)
  show ?case
  proof (cases "bp < prio x")
    case True
    with Cons.prems Cons.IH [of "Some x" "prio x"] show ?thesis
      by (auto intro: first_max_here first_max_skip [OF _ order_refl less_imp_le])
  next
    case False
    with Cons.prems Cons.IH [of best bp] show ?thesis
      by (auto simp: not_less intro: first_max_skip)
  qed
qed simp

lemma workload_dequeue_priority_ok:
  assumes q: "queue_at d q h xs" and fuel: "length xs \<le> fuel"
  shows "(\<forall>x \<in> set xs. hprio h x = 0) \<and> mvgal_workload_dequeue_priority fuel q h = Inr (None, q, h)
    \<or> (\<exists>as p bs q' h'. mvgal_workload_dequeue_priority fuel q h = Inr (Some p, q', h')
         \<and> xs = as @ p # bs \<and> first_max (hprio h) 0 xs p \<and> queue_at d q' h' (as @ bs) \<and> (\<forall>x. same_bodies h h' x))"
proof -
  obtain r rp where e: "pick_from (hprio h) None 0 xs = (r, rp)" by fastforce
  have scan: "scan_best fuel h (wq_head q) None 0 = Inr (r, rp)"
    using q fuel by (simp add: scan_best_pick [of h "hfield wl_prev h" None _ xs "wq_tail q"] queue_at_def hseg_def e)
  from pick_from_spec [OF e] consider "r = None" "\<forall>x \<in> set xs. hprio h x = 0"
    | p where "r = Some p" "rp = hprio h p" "first_max (hprio h) 0 xs p" by auto
  then show ?thesis
  proof cases
    case 1
    with scan show ?thesis by (simp add: mvgal_workload_dequeue_priority_def)
  next
    case (2 p)
    then obtain as bs where xs: "xs = as @ p # bs" by (auto simp: first_max_def)
    obtain w where w: "h p = Some w" using queue_of_dom [OF q, of p] xs by auto
    note u = unlink_step [OF q [unfolded xs] w refl refl refl]
    have "mvgal_workload_dequeue_priority fuel q h = Inr (Some p,
        q\<lparr>wq_head := (if wl_prev w = None then wl_next w else wq_head q),
          wq_tail := (if wl_next w = None then wl_prev w else wq_tail q),
          wq_count := wq_count q - 1, wq_total_priority := wq_total_priority q - ucast (wl_priority w)\<rparr>,
        hupd_opt (\<lambda>n. n\<lparr>wl_next := None, wl_prev := None\<rparr>) (Some p)
          (hupd_opt (\<lambda>n. n\<lparr>wl_prev := wl_prev w\<rparr>) (wl_next w) (hupd_opt (\<lambda>n. n\<lparr>wl_next := wl_next w\<rparr>) (wl_prev w) h)))"
      using scan w u(1-3) 2(1,2) by (simp add: mvgal_workload_dequeue_priority_def del: if_split)
    with u(4,5) 2(3) xs show ?thesis by blast
  qed
qed

section \<open>The queue as a list\<close>

text \<open>
  What a queue promises: an element that is live and not queued goes to the end, the first element
  comes out, and the capacity is \<open>cap\<close>. Putting in a list of elements and taking out as many gives
  the same list.
\<close>

fun put_all :: "('a \<Rightarrow> 's \<Rightarrow> (bool \<times> 's) run) \<Rightarrow> 'a list \<Rightarrow> 's \<Rightarrow> (bool \<times> 's) run" where
  "put_all put [] s = Inr (True, s)"
| "put_all put (x # xs) s = bnd (put x s) (\<lambda>(ok, s'). if ok then put_all put xs s' else Inr (False, s'))"

fun get_all :: "('s \<Rightarrow> ('a option \<times> 's) run) \<Rightarrow> nat \<Rightarrow> 's \<Rightarrow> ('a option list \<times> 's) run" where
  "get_all get 0 s = Inr ([], s)"
| "get_all get (Suc n) s = bnd (get s) (\<lambda>(r, s'). bnd (get_all get n s') (\<lambda>(rs, s''). Inr (r # rs, s'')))"

locale fifo =
  fixes rep :: "'s \<Rightarrow> 'a list \<Rightarrow> bool" and live :: "'s \<Rightarrow> 'a \<Rightarrow> bool" and cap :: nat
    and put :: "'a \<Rightarrow> 's \<Rightarrow> (bool \<times> 's) run" and get :: "'s \<Rightarrow> ('a option \<times> 's) run"
  assumes put_rep: "rep s xs \<Longrightarrow> live s x \<Longrightarrow> x \<notin> set xs \<Longrightarrow> length xs < cap \<Longrightarrow>
      \<exists>s'. put x s = Inr (True, s') \<and> rep s' (xs @ [x]) \<and> (\<forall>y. live s y \<longrightarrow> live s' y)"
    and put_full: "rep s xs \<Longrightarrow> length xs = cap \<Longrightarrow> put x s = Inr (False, s)"
    and get_rep: "rep s (x # xs) \<Longrightarrow> \<exists>s'. get s = Inr (Some x, s') \<and> rep s' xs"
    and get_empty: "rep s [] \<Longrightarrow> get s = Inr (None, s)"
begin

lemma put_all_rep:
  "rep s ys \<Longrightarrow> distinct (ys @ xs) \<Longrightarrow> \<forall>x \<in> set xs. live s x \<Longrightarrow> length (ys @ xs) \<le> cap \<Longrightarrow>
     \<exists>s'. put_all put xs s = Inr (True, s') \<and> rep s' (ys @ xs)"
proof (induction xs arbitrary: s ys)
  case (Cons x xs)
  then have "live s x" "x \<notin> set ys" "length ys < cap" by auto
  from put_rep [OF Cons.prems(1) this] obtain s1 where s1: "put x s = Inr (True, s1)" "rep s1 (ys @ [x])"
    "\<forall>y. live s y \<longrightarrow> live s1 y" by blast
  from Cons.IH [of s1 "ys @ [x]"] Cons.prems s1 show ?case by auto
qed simp

lemma get_all_rep: "rep s xs \<Longrightarrow> \<exists>s'. get_all get (length xs) s = Inr (map Some xs, s') \<and> rep s' []"
proof (induction xs arbitrary: s)
  case (Cons x xs)
  from get_rep [OF Cons.prems] obtain s1 where "get s = Inr (Some x, s1)" "rep s1 xs" by blast
  with Cons.IH [of s1] show ?case by auto
qed simp

lemma fifo_order:
  assumes "rep s []" and "distinct xs" and "\<forall>x \<in> set xs. live s x" and "length xs \<le> cap"
  shows "\<exists>s1 s2. put_all put xs s = Inr (True, s1) \<and> get_all get (length xs) s1 = Inr (map Some xs, s2) \<and> rep s2 []"
  using put_all_rep [of s "[]" xs] get_all_rep [of _ xs] assms by auto

end

definition queue_put :: "nat \<Rightarrow> mvgal_workload_queue_t \<times> wheap \<Rightarrow> (bool \<times> mvgal_workload_queue_t \<times> wheap) run" where
  "queue_put p s =
     bnd (mvgal_workload_queue (Some p) (fst s) (snd s)) (\<lambda>(e, s'). Inr (e = MVGAL_SUCCESS, s'))"

definition queue_get :: "mvgal_workload_queue_t \<times> wheap \<Rightarrow> (nat option \<times> mvgal_workload_queue_t \<times> wheap) run" where
  "queue_get s = mvgal_workload_dequeue (fst s) (snd s)"

lemma workload_queue_full:
  "queue_at d q h xs \<Longrightarrow> length xs = 1024 \<Longrightarrow> mvgal_workload_queue (Some p) q h = Inr (MVGAL_ERROR_MEMORY, q, h)"
  by (simp add: mvgal_workload_queue_def queue_at_def word_le_nat_alt)

lemma same_bodies_dom: "same_bodies h h' x \<Longrightarrow> x \<in> dom h' \<longleftrightarrow> x \<in> dom h"
  by (cases "h x"; cases "h' x") (auto simp: same_bodies_def)

interpretation wqueue: fifo "\<lambda>s. queue_of (fst s) (snd s)" "\<lambda>s x. x \<in> dom (snd s)" 1024 queue_put queue_get
proof
  fix s :: "mvgal_workload_queue_t \<times> wheap" and xs x
  assume a: "queue_of (fst s) (snd s) xs" "x \<in> dom (snd s)" "x \<notin> set xs" "length xs < 1024"
  from a(2) obtain w where "snd s x = Some w" by blast
  from workload_queue_ok [OF a(1) this a(3,4)] obtain q' h' w'
    where r: "mvgal_workload_queue (Some x) (fst s) (snd s) = Inr (MVGAL_SUCCESS, q', h')"
      "queue_of q' h' (xs @ [x])" "h' x = Some w'" "\<forall>y. y \<noteq> x \<longrightarrow> same_bodies (snd s) h' y" by blast
  then have "y \<in> dom h'" if "y \<in> dom (snd s)" for y
    using that by (cases "y = x") (auto dest: same_bodies_dom)
  with r show "\<exists>s'. queue_put x s = Inr (True, s') \<and> queue_of (fst s') (snd s') (xs @ [x])
      \<and> (\<forall>y. y \<in> dom (snd s) \<longrightarrow> y \<in> dom (snd s'))"
    by (auto simp: queue_put_def)
next
  fix s :: "mvgal_workload_queue_t \<times> wheap" and xs x
  assume "queue_of (fst s) (snd s) xs" "length xs = 1024"
  from workload_queue_full [OF this] show "queue_put x s = Inr (False, s)" by (simp add: queue_put_def)
next
  fix s :: "mvgal_workload_queue_t \<times> wheap" and xs x
  assume "queue_of (fst s) (snd s) (x # xs)"
  from workload_dequeue_ok [OF this]
  show "\<exists>s'. queue_get s = Inr (Some x, s') \<and> queue_of (fst s') (snd s') xs" by (auto simp: queue_get_def)
next
  fix s :: "mvgal_workload_queue_t \<times> wheap"
  assume "queue_of (fst s) (snd s) []"
  then show "queue_get s = Inr (None, s)" by (simp add: queue_get_def workload_dequeue_empty)
qed

text \<open>
  A workload queue is a first-in first-out queue: putting up to 1024 distinct live workloads
  into an empty queue succeeds, and taking as many out returns them in the order they went in and
  leaves the queue empty.
\<close>

theorem workload_queue_fifo:
  assumes "queue_of q h []" and "distinct ps" and "\<forall>p \<in> set ps. p \<in> dom h" and "length ps \<le> 1024"
  shows "\<exists>s1 q2 h2. put_all queue_put ps (q, h) = Inr (True, s1)
    \<and> get_all queue_get (length ps) s1 = Inr (map Some ps, q2, h2) \<and> queue_of q2 h2 []"
  using wqueue.fifo_order [of "(q, h)" ps] assms by auto

definition pq_get :: "nat \<Rightarrow> mvgal_workload_queue_t \<times> wheap \<Rightarrow> (nat option \<times> mvgal_workload_queue_t \<times> wheap) run" where
  "pq_get fuel s = mvgal_workload_dequeue_priority fuel (fst s) (snd s)"

definition urgency :: "wheap \<Rightarrow> nat \<Rightarrow> nat" where
  "urgency h p = 2 ^ 32 - unat (hprio h p)"

lemma urgency_less: "urgency h p < urgency h a \<longleftrightarrow> hprio h a < hprio h p"
  using unat_lt_u32 [of "hprio h p"] unat_lt_u32 [of "hprio h a"] by (auto simp: urgency_def word_less_nat_alt)

lemma urgency_le: "urgency h p \<le> urgency h a \<longleftrightarrow> hprio h a \<le> hprio h p"
  using urgency_less [of h a p] by (auto simp: not_less [symmetric])

lemma sort_key_first:
  assumes "\<forall>a \<in> set as. f p < f a" and "\<forall>b \<in> set bs. f p \<le> (f b :: nat)"
  shows "sort_key f (as @ p # bs) = p # sort_key f (as @ bs)"
  using assms(1)
proof (induction as)
  case Nil
  with assms(2) show ?case by (simp add: insort_is_Cons)
qed simp

text \<open>
  The order in which the workloads of a queue are served, and what \<open>n\<close> calls return: the first \<open>n\<close>
  of that order, and nothing once it is used up.
\<close>

definition serve_order :: "wheap \<Rightarrow> nat list \<Rightarrow> nat list" where
  "serve_order h xs = sort_key (urgency h) (filter (\<lambda>x. hprio h x \<noteq> 0) xs)"

lemma serve_order_none: "\<forall>x \<in> set xs. hprio h x = 0 \<Longrightarrow> serve_order h xs = []"
  by (simp add: serve_order_def filter_empty_conv)

lemma serve_order_first:
  assumes "xs = as @ p # bs" and "distinct xs" and "first_max (hprio h) 0 xs p"
  shows "serve_order h xs = p # serve_order h (as @ bs)"
proof -
  from assms have d: "p \<notin> set as" "p \<notin> set bs" by auto
  with assms(1,3) have m: "hprio h p \<noteq> 0" "\<forall>a \<in> set as. urgency h p < urgency h a" "\<forall>b \<in> set bs. urgency h p \<le> urgency h b"
    by (auto simp: first_max_def urgency_less urgency_le append_eq_append_conv2 append_eq_Cons_conv Cons_eq_append_conv)
  have "sort_key (urgency h) (filter (\<lambda>x. hprio h x \<noteq> 0) as @ p # filter (\<lambda>x. hprio h x \<noteq> 0) bs) =
      p # sort_key (urgency h) (filter (\<lambda>x. hprio h x \<noteq> 0) as @ filter (\<lambda>x. hprio h x \<noteq> 0) bs)"
    using m(2,3) by (intro sort_key_first) auto
  with m(1) show ?thesis by (simp add: serve_order_def assms(1) del: sort_key_simps)
qed

lemma serve_order_cong: "(\<And>x. hprio h' x = hprio h x) \<Longrightarrow> serve_order h' xs = serve_order h xs"
  by (simp add: serve_order_def urgency_def [abs_def])

lemma pq_get_all:
  assumes "queue_at d q h xs" and "length xs \<le> fuel"
  shows "\<exists>q' h'. get_all (pq_get fuel) n (q, h) =
        Inr (map Some (take n (serve_order h xs)) @ replicate (n - length (serve_order h xs)) None, q', h')
      \<and> queue_at d q' h' (filter (\<lambda>x. x \<notin> set (take n (serve_order h xs))) xs) \<and> (\<forall>x. hprio h' x = hprio h x)"
  using assms
proof (induction n arbitrary: q h xs)
  case 0
  then show ?case by simp
next
  case (Suc n)
  from workload_dequeue_priority_ok [OF Suc.prems] show ?case
  proof (elim disjE exE conjE)
    assume z: "\<forall>x \<in> set xs. hprio h x = 0" and g: "mvgal_workload_dequeue_priority fuel q h = Inr (None, q, h)"
    from Suc.IH [OF Suc.prems] g show ?thesis
      by (auto simp: serve_order_none [OF z] pq_get_def)
  next
    fix as p bs q1 h1
    assume g: "mvgal_workload_dequeue_priority fuel q h = Inr (Some p, q1, h1)" and x: "xs = as @ p # bs"
      and m: "first_max (hprio h) 0 xs p" and q1: "queue_at d q1 h1 (as @ bs)" and b: "\<forall>x. same_bodies h h1 x"
    have dist: "distinct xs" by (rule queue_of_distinct [OF Suc.prems(1)])
    have prio: "hprio h1 x = hprio h x" for x using b by (blast intro: same_bodies_hprio)
    note so = serve_order_first [OF x dist m] and so1 = serve_order_cong [of h1 h, OF prio]
    have f: "filter (\<lambda>x. x \<notin> set (take (Suc n) (serve_order h xs))) xs =
        filter (\<lambda>x. x \<notin> set (take n (serve_order h (as @ bs)))) (as @ bs)"
    proof -
      have t: "take (Suc n) (serve_order h xs) = p # take n (serve_order h (as @ bs))" by (simp add: so)
      have "filter (\<lambda>x. x \<notin> set (p # T)) (as @ p # bs) = filter (\<lambda>x. x \<notin> set T) (as @ bs)" for T
        using dist by (auto simp: x intro!: arg_cong2 [where f = append] filter_cong)
      then show ?thesis unfolding t by (simp only: x)
    qed
    from Suc.IH [OF q1] Suc.prems(2) obtain q2 h2 where
      r: "get_all (pq_get fuel) n (q1, h1) = Inr (map Some (take n (serve_order h (as @ bs)))
            @ replicate (n - length (serve_order h (as @ bs))) None, q2, h2)"
         "queue_at d q2 h2 (filter (\<lambda>x. x \<notin> set (take n (serve_order h (as @ bs)))) (as @ bs))"
         "\<forall>x. hprio h2 x = hprio h1 x"
      unfolding so1 x by auto
    have "get_all (pq_get fuel) (Suc n) (q, h) = Inr (map Some (take (Suc n) (serve_order h xs))
        @ replicate (Suc n - length (serve_order h xs)) None, q2, h2)"
      by (simp add: pq_get_def g r(1) so)
    moreover have "\<forall>x. hprio h2 x = hprio h x" using r(3) prio by simp
    ultimately show ?thesis using r(2) unfolding f by blast
  qed
qed

lemma queue_put_all:
  assumes "queue_at d q h xs" and "distinct (xs @ ys)" and "set ys \<subseteq> dom h" and "length (xs @ ys) \<le> 1024"
  shows "\<exists>q' h'. put_all queue_put ys (q, h) = Inr (True, q', h') \<and> queue_at d q' h' (xs @ ys) \<and> (\<forall>x. hprio h' x = hprio h x)"
  using assms
proof (induction ys arbitrary: q h xs)
  case Nil
  then show ?case by simp
next
  case (Cons y ys)
  then obtain w where w: "h y = Some w" by auto
  from Cons.prems have room: "y \<notin> set xs" "length xs < 1024" by auto
  from workload_queue_ok [OF Cons.prems(1) w room] obtain q1 h1 w1 where
    p: "mvgal_workload_queue (Some y) q h = Inr (MVGAL_SUCCESS, q1, h1)" "queue_at d q1 h1 (xs @ [y])"
      "h1 y = Some w1" "wl_body w1 = wl_body (w\<lparr>wl_refcount := wl_refcount w + 1\<rparr>)" "\<forall>x. x \<noteq> y \<longrightarrow> same_bodies h h1 x" by blast
  have prio: "hprio h1 x = hprio h x" for x
    using p(3-5) w wl_body_eq_priority [OF p(4)] by (cases "x = y") (auto simp: same_bodies_hprio)
  have "set ys \<subseteq> dom h1"
  proof
    fix z assume "z \<in> set ys"
    with Cons.prems(2,3) have "z \<noteq> y" "z \<in> dom h" by auto
    with p(5) show "z \<in> dom h1" using same_bodies_dom by blast
  qed
  with Cons.IH [OF p(2)] Cons.prems(2,4) obtain q2 h2 where
    "put_all queue_put ys (q1, h1) = Inr (True, q2, h2)" "queue_at d q2 h2 (xs @ y # ys)" "\<forall>x. hprio h2 x = hprio h1 x" by auto
  moreover have "queue_put y (q, h) = Inr (True, q1, h1)" by (simp add: queue_put_def p(1))
  ultimately show ?case using prio by simp
qed

text \<open>
  C9. The linked-list queue is a priority queue: queueing the workloads \<open>ys\<close> behind the queued
  ones \<open>xs\<close>, up to the capacity of 1024, and then taking \<open>n\<close> out by priority returns the first \<open>n\<close> of them in
  the order of a stable sort by descending priority (the most urgent first, among equal priorities the
  one queued first), then nothing. The rest stays queued in its order, no priority changes, and a workload of
  priority 0 is never taken: it stays queued for ever.
\<close>

theorem workload_queue_drains_by_priority:
  assumes "queue_of q h xs" and "distinct (xs @ ys)" and "set ys \<subseteq> dom h" and "length (xs @ ys) \<le> 1024"
    and "length (xs @ ys) \<le> fuel"
  defines "order \<equiv> sort_key (\<lambda>p. 2 ^ 32 - unat (hprio h p)) (filter (\<lambda>p. hprio h p \<noteq> 0) (xs @ ys))"
  shows "\<exists>s1 q' h'. put_all queue_put ys (q, h) = Inr (True, s1)
    \<and> get_all (pq_get fuel) n s1 = Inr (map Some (take n order) @ replicate (n - length order) None, q', h')
    \<and> queue_of q' h' (filter (\<lambda>p. p \<notin> set (take n order)) (xs @ ys)) \<and> (\<forall>p. hprio h' p = hprio h p)"
proof -
  from queue_put_all [OF assms(1-4)] obtain q1 h1 where
    p: "put_all queue_put ys (q, h) = Inr (True, q1, h1)" "queue_of q1 h1 (xs @ ys)" "\<forall>x. hprio h1 x = hprio h x" by blast
  have "serve_order h1 (xs @ ys) = order"
    unfolding order_def serve_order_def urgency_def [abs_def] using p(3) by simp
  with pq_get_all [OF p(2) assms(5), of n] p(1,3) show ?thesis by fastforce
qed

text \<open>
  Workloads 1 and 3, of priorities 70 and 0, are queued behind the workload 0 of priority 20, and three are
  taken out: 1, 0 and nothing, as the witness for C9.
\<close>

definition prio_heap :: wheap where
  "prio_heap = (\<lambda>p. Some (zero_workload\<lparr>wl_descriptor := zero_workload_descriptor\<lparr>wd_priority :=
     (if p = 0 then 20 else if p = 1 then 70 else 0)\<rparr>\<rparr>))"

theorem workload_queue_drains_by_priority_witness:
  "\<exists>s1 q' h'. put_all queue_put [1, 3] (workload_queue_init\<lparr>wq_head := Some 0, wq_tail := Some 0, wq_count := 1, wq_total_priority := 20\<rparr>, prio_heap)
      = Inr (True, s1)
    \<and> get_all (pq_get 3) (Suc (Suc (Suc 0))) s1 = Inr ([Some 1, Some 0, None], q', h') \<and> queue_of q' h' [3]"
proof -
  let ?q = "workload_queue_init\<lparr>wq_head := Some 0, wq_tail := Some 0, wq_count := 1, wq_total_priority := 20\<rparr>"
  have "queue_of ?q prio_heap [0]"
    by (simp add: prio_heap_def queue_at_def hseg_def hfield_def hprio_def zero_workload_def zero_workload_descriptor_def)
  moreover have prio: "hprio prio_heap 0 = 20" "hprio prio_heap 1 = 70" "hprio prio_heap 3 = 0"
    by (simp_all add: prio_heap_def zero_workload_def zero_workload_descriptor_def)
  moreover have "set [1, 3] \<subseteq> dom prio_heap" by (simp add: prio_heap_def)
  moreover have "sort_key (\<lambda>p. 2 ^ 32 - unat (hprio prio_heap p)) (filter (\<lambda>p. hprio prio_heap p \<noteq> 0) ([0] @ [1, 3])) = [1, 0]"
    using prio by simp
  ultimately show ?thesis
    using workload_queue_drains_by_priority [of ?q prio_heap "[0]" "[1, 3]" 3 "Suc (Suc (Suc 0))"] by auto
qed

text \<open>Three workloads go through the queue.\<close>

theorem workload_queue_fifo_witness:
  "\<exists>s1 q2 h2. put_all queue_put [4, 2, 7] (workload_queue_init, \<lambda>_. Some zero_workload) = Inr (True, s1)
    \<and> get_all queue_get 3 s1 = Inr ([Some 4, Some 2, Some 7], q2, h2) \<and> queue_of q2 h2 []"
  using workload_queue_fifo [of workload_queue_init "\<lambda>_. Some zero_workload" "[4, 2, 7]"]
  by (simp add: dom_def numeral_3_eq_3)

end
