(* ===== verification/Gpu_Select.thy ===== *)
theory Gpu_Select
  imports Workload_Queue
begin

unbundle bit_operations_syntax

text \<open>
  The state of the user-space scheduler (\<^verbatim>\<open>scheduler_internal.h\<close>) and the choice of a GPU for a
  workload: \<^verbatim>\<open>mvgal_scheduler_find_best_gpu\<close> of \<^verbatim>\<open>scheduler.c\<close> and the scoring loops of
  \<^verbatim>\<open>strategy/task.c\<close>, \<^verbatim>\<open>strategy/compute_offload.c\<close> and \<^verbatim>\<open>strategy/hybrid.c\<close>. All of them
  look for the first GPU with the highest score above a starting value; \<open>best_loop\<close> is that loop, and
  its specification is proved once.
\<close>

section \<open>State\<close>

datatype mvgal_distribution_strategy_t =
    MVGAL_STRATEGY_ROUND_ROBIN
  | MVGAL_STRATEGY_AFR
  | MVGAL_STRATEGY_SFR
  | MVGAL_STRATEGY_AUTO
  | MVGAL_STRATEGY_TASK
  | MVGAL_STRATEGY_COMPUTE_OFFLOAD
  | MVGAL_STRATEGY_HYBRID
  | MVGAL_STRATEGY_SINGLE_GPU
  | MVGAL_STRATEGY_AI_DRIVEN
  | MVGAL_STRATEGY_CUSTOM

text \<open>The copy of the GPU descriptor in \<^verbatim>\<open>gpu_info\<close> is stored and not read, and left out.\<close>

record mvgal_gpu_state_t =
  gs_available :: bool
  gs_enabled :: bool
  gs_utilization :: f32
  gs_temperature :: f32
  gs_power_usage_w :: f32
  gs_estimated_free_time_ns :: u64
  gs_features :: u64
  gs_compute_score :: f32
  gs_graphics_score :: f32
  gs_queue :: mvgal_workload_queue_t
  gs_workloads_completed :: u64
  gs_total_execution_time_ns :: u64
  gs_priority :: u32

record mvgal_scheduler_config_internal_t =
  cf_strategy :: mvgal_distribution_strategy_t
  cf_dynamic_load_balance :: bool
  cf_thermal_aware :: bool
  cf_power_aware :: bool
  cf_load_balance_threshold :: f32
  cf_max_queued_workloads :: u32
  cf_quantum_ns :: u64
  cf_gpu_priorities :: "u32 list"

text \<open>The counters of the statistics that the code writes; the others stay 0.\<close>

record mvgal_scheduler_stats_t =
  st_workloads_submitted :: u64
  st_workloads_completed :: u64
  st_workloads_failed :: u64

text \<open>The rotation of \<^verbatim>\<open>strategy/afr.c\<close>.\<close>

record afr_state =
  afr_current_gpu_index :: u32
  afr_frame_counter :: u32
  afr_gpu_count :: u32
  afr_gpu_indices :: "u32 list"
  afr_initialized :: bool

text \<open>
  A custom splitter is a table of four pointers: the functions \<^verbatim>\<open>analyze\<close>, \<^verbatim>\<open>split\<close>, \<^verbatim>\<open>merge\<close>
  and the user data, each a number, \<open>None\<close> for NULL.
\<close>

record mvgal_workload_splitter_t =
  sp_analyze :: "nat option"
  sp_split :: "nat option"
  sp_merge :: "nat option"
  sp_user_data :: "nat option"

text \<open>
  The global state of the scheduler, together with the heap of workloads, the readings the clock
  gives one after the other, whether \<^verbatim>\<open>calloc\<close> succeeds after so many readings, and the list of the
  calls of completion callbacks (callback, workload, result, user data), the latest first. An entry
  \<open>None\<close> of the splitter array holds no splitter: memory that \<^verbatim>\<open>realloc\<close> returned and nobody wrote.
\<close>

record mvgal_scheduler_state_t =
  sc_initialized :: bool
  sc_paused :: bool
  sc_running :: bool
  sc_config :: mvgal_scheduler_config_internal_t
  sc_gpus :: "mvgal_gpu_state_t list"
  sc_gpu_count :: u32
  sc_global_queue :: mvgal_workload_queue_t
  sc_ready_queue :: mvgal_workload_queue_t
  sc_running_queue :: mvgal_workload_queue_t
  sc_completed_queue :: mvgal_workload_queue_t
  sc_stats :: mvgal_scheduler_stats_t
  sc_splitters :: "mvgal_workload_splitter_t option list"
  sc_splitter_count :: u32
  sc_thread_running :: bool
  sc_next_workload_id :: u64
  sc_afr :: afr_state
  sc_heap :: wheap
  sc_clock :: "nat \<Rightarrow> u64"
  sc_ticks :: nat
  sc_calloc_ok :: "nat \<Rightarrow> bool"
  sc_callbacks :: "(nat \<times> nat \<times> mvgal_error_t \<times> nat option) list"

text \<open>The values \<^verbatim>\<open>mvgal_scheduler_module_init\<close> gives to a GPU and to the configuration.\<close>

definition initial_gpu :: mvgal_gpu_state_t where
  "initial_gpu =
     \<lparr>gs_available = False, gs_enabled = True, gs_utilization = F32 0, gs_temperature = F32 0, gs_power_usage_w = F32 0,
      gs_estimated_free_time_ns = 0, gs_features = 0, gs_compute_score = F32 0, gs_graphics_score = F32 0,
      gs_queue = workload_queue_init, gs_workloads_completed = 0, gs_total_execution_time_ns = 0, gs_priority = 50\<rparr>"

definition initial_config :: mvgal_scheduler_config_internal_t where
  "initial_config =
     \<lparr>cf_strategy = MVGAL_STRATEGY_AUTO, cf_dynamic_load_balance = True, cf_thermal_aware = True, cf_power_aware = True,
      cf_load_balance_threshold = f32_lit (8 / 10), cf_max_queued_workloads = 1024, cf_quantum_ns = 16000000,
      cf_gpu_priorities = replicate 16 50\<rparr>"

text \<open>The static state of \<^verbatim>\<open>strategy/afr.c\<close> before its first use.\<close>

definition afr_zero :: afr_state where
  "afr_zero = \<lparr>afr_current_gpu_index = 0, afr_frame_counter = 0, afr_gpu_count = 0,
     afr_gpu_indices = replicate 16 0, afr_initialized = False\<rparr>"

abbreviation (input) MVGAL_SCHEDULER_MAX_GPUS :: nat where "MVGAL_SCHEDULER_MAX_GPUS \<equiv> 16"

abbreviation (input) MVGAL_FEATURE_GRAPHICS :: u64 where "MVGAL_FEATURE_GRAPHICS \<equiv> 16"
abbreviation (input) MVGAL_FEATURE_COMPUTE :: u64 where "MVGAL_FEATURE_COMPUTE \<equiv> 32"
abbreviation (input) MVGAL_FEATURE_VIDEO_DECODE :: u64 where "MVGAL_FEATURE_VIDEO_DECODE \<equiv> 64"
abbreviation (input) MVGAL_FEATURE_VIDEO_ENCODE :: u64 where "MVGAL_FEATURE_VIDEO_ENCODE \<equiv> 128"
abbreviation (input) MVGAL_FEATURE_AI_ACCEL :: u64 where "MVGAL_FEATURE_AI_ACCEL \<equiv> 256"
abbreviation (input) MVGAL_FEATURE_RAY_TRACING :: u64 where "MVGAL_FEATURE_RAY_TRACING \<equiv> 512"

text \<open>The index the code uses for ``no GPU''.\<close>

abbreviation (input) NO_GPU :: u32 where "NO_GPU \<equiv> 0xFFFFFFFF"

abbreviation sc_gpu :: "mvgal_scheduler_state_t \<Rightarrow> nat \<Rightarrow> mvgal_gpu_state_t" where
  "sc_gpu s i \<equiv> sc_gpus s ! i"

text \<open>
  The number of GPUs never exceeds the 16 entries of the array: it is what
  \<^verbatim>\<open>mvgal_gpu_enumerate\<close> returns when asked for at most 16.
\<close>

definition gpus_wf :: "mvgal_scheduler_state_t \<Rightarrow> bool" where
  "gpus_wf s \<longleftrightarrow> length (sc_gpus s) = 16 \<and> unat (sc_gpu_count s) \<le> 16
     \<and> length (cf_gpu_priorities (sc_config s)) = 16"

section \<open>Scores\<close>

text \<open>The loop over the GPUs that keeps the first one with the highest score.\<close>

fun best_loop :: "(nat \<Rightarrow> bool) \<Rightarrow> (nat \<Rightarrow> f32) \<Rightarrow> nat list \<Rightarrow> f32 \<Rightarrow> u32 \<Rightarrow> f32 \<times> u32" where
  "best_loop ok score [] best_score best_idx = (best_score, best_idx)"
| "best_loop ok score (i # is) best_score best_idx =
     (if ok i \<and> f32_less best_score (score i) then best_loop ok score is (score i) (of_nat i)
      else best_loop ok score is best_score best_idx)"

definition gpu_range :: "mvgal_scheduler_state_t \<Rightarrow> nat list" where
  "gpu_range s = [0..<unat (sc_gpu_count s)]"

definition gpu_active :: "mvgal_scheduler_state_t \<Rightarrow> nat \<Rightarrow> bool" where
  "gpu_active s i \<longleftrightarrow> gs_available (sc_gpu s i) \<and> gs_enabled (sc_gpu s i)"

definition mvgal_scheduler_gpu_suitable :: "mvgal_scheduler_state_t \<Rightarrow> nat \<Rightarrow> mvgal_workload \<Rightarrow> bool" where
  "mvgal_scheduler_gpu_suitable s gpu_index w \<longleftrightarrow>
     (if unat (sc_gpu_count s) \<le> gpu_index then False
      else if \<not> gs_enabled (sc_gpu s gpu_index) \<or> \<not> gs_available (sc_gpu s gpu_index) then False
      else if wd_gpu_mask (wl_descriptor w) \<noteq> 0xFFFFFFFF
              \<and> wd_gpu_mask (wl_descriptor w) AND push_bit gpu_index 1 = 0 then False
      else True)"

definition type_score :: "mvgal_gpu_state_t \<Rightarrow> mvgal_workload_type_t \<Rightarrow> f32" where
  "type_score gpu ty =
     (if ty = MVGAL_WORKLOAD_COMPUTE \<or> ty = MVGAL_WORKLOAD_AI
      then f32_mul (gs_compute_score gpu) (f32_lit (1 / 100))
      else if ty = MVGAL_WORKLOAD_GRAPHICS \<or> ty = MVGAL_WORKLOAD_TRACE
      then f32_mul (gs_graphics_score gpu) (f32_lit (1 / 100))
      else f32_mul (f32_add (gs_compute_score gpu) (gs_graphics_score gpu)) (f32_lit (5 / 1000)))"

definition mvgal_scheduler_calculate_score :: "mvgal_scheduler_state_t \<Rightarrow> nat \<Rightarrow> mvgal_workload \<Rightarrow> f32" where
  "mvgal_scheduler_calculate_score s gpu_index w =
     (if unat (sc_gpu_count s) \<le> gpu_index then f32_lit (- 1)
      else
        (let gpu = sc_gpu s gpu_index;
             s1 = f32_add (F32 0) (f32_mul (f32_of_u32 (gs_priority gpu)) (f32_lit (1 / 10)));
             s2 = f32_add s1 (type_score gpu (wd_type (wl_descriptor w)));
             s3 = f32_sub s2 (f32_mul (gs_utilization gpu) (f32_lit 100))
         in if cf_thermal_aware (sc_config s) \<and> f32_less (f32_lit 80) (gs_temperature gpu)
            then f32_sub s3 (f32_mul (f32_sub (gs_temperature gpu) (f32_lit 80)) (f32_lit (1 / 2)))
            else s3))"

text \<open>The error and what is written through \<^verbatim>\<open>gpu_index\<close>, if anything.\<close>

definition mvgal_scheduler_find_best_gpu ::
    "mvgal_scheduler_state_t \<Rightarrow> mvgal_workload \<Rightarrow> mvgal_error_t \<times> u32 option" where
  "mvgal_scheduler_find_best_gpu s w =
     (let best_idx = snd (best_loop (\<lambda>i. mvgal_scheduler_gpu_suitable s i w)
                            (\<lambda>i. mvgal_scheduler_calculate_score s i w) (gpu_range s) (f32_lit (- 1000)) NO_GPU)
      in if best_idx = NO_GPU then (MVGAL_ERROR_NO_GPUS, None) else (MVGAL_SUCCESS, Some best_idx))"

section \<open>Scores by task type\<close>

record task_type_mapping_t =
  tm_task_type :: mvgal_workload_type_t
  tm_required_features :: u64
  tm_compute_weight :: f32
  tm_graphics_weight :: f32
  tm_memory_weight :: f32

definition task_mapping :: "mvgal_workload_type_t \<Rightarrow> u64 \<Rightarrow> rat \<Rightarrow> rat \<Rightarrow> rat \<Rightarrow> task_type_mapping_t" where
  "task_mapping ty features c g m =
     \<lparr>tm_task_type = ty, tm_required_features = features, tm_compute_weight = f32_lit c,
      tm_graphics_weight = f32_lit g, tm_memory_weight = f32_lit m\<rparr>"

definition g_task_mappings :: "task_type_mapping_t list" where
  "g_task_mappings =
     [task_mapping MVGAL_WORKLOAD_GRAPHICS MVGAL_FEATURE_GRAPHICS (2 / 10) (7 / 10) (1 / 10),
      task_mapping MVGAL_WORKLOAD_COMPUTE MVGAL_FEATURE_COMPUTE (8 / 10) (1 / 10) (1 / 10),
      task_mapping MVGAL_WORKLOAD_VIDEO (MVGAL_FEATURE_VIDEO_DECODE OR MVGAL_FEATURE_VIDEO_ENCODE) (5 / 10) (3 / 10) (2 / 10),
      task_mapping MVGAL_WORKLOAD_AI MVGAL_FEATURE_AI_ACCEL (9 / 10) 0 (1 / 10),
      task_mapping MVGAL_WORKLOAD_TRACE MVGAL_FEATURE_RAY_TRACING (6 / 10) (4 / 10) 0,
      task_mapping MVGAL_WORKLOAD_TRANSFER 0 (1 / 10) (1 / 10) (8 / 10)]"

definition get_task_mapping :: "mvgal_workload_type_t \<Rightarrow> task_type_mapping_t option" where
  "get_task_mapping ty = find (\<lambda>m. tm_task_type m = ty) g_task_mappings"

definition mapping_for :: "mvgal_workload_type_t \<Rightarrow> task_type_mapping_t" where
  "mapping_for ty = (case get_task_mapping ty of None \<Rightarrow> g_task_mappings ! 0 | Some m \<Rightarrow> m)"

definition has_features :: "mvgal_scheduler_state_t \<Rightarrow> task_type_mapping_t \<Rightarrow> nat \<Rightarrow> bool" where
  "has_features s m i \<longleftrightarrow>
     gs_features (sc_gpu s i) AND tm_required_features m = tm_required_features m"

definition task_penalty :: "mvgal_gpu_state_t \<Rightarrow> f32 \<Rightarrow> f32" where
  "task_penalty gpu score =
     f32_sub (f32_add score (f32_mul (f32_of_u32 (gs_priority gpu)) (f32_lit (1 / 100))))
             (f32_mul (gs_utilization gpu) (f32_lit 50))"

definition task_score :: "mvgal_scheduler_state_t \<Rightarrow> task_type_mapping_t \<Rightarrow> nat \<Rightarrow> f32" where
  "task_score s m i =
     (let gpu = sc_gpu s i
      in task_penalty gpu
           (f32_add (f32_add (F32 0) (f32_mul (gs_compute_score gpu) (tm_compute_weight m)))
                    (f32_mul (gs_graphics_score gpu) (tm_graphics_weight m))))"

definition fallback_score :: "mvgal_scheduler_state_t \<Rightarrow> nat \<Rightarrow> f32" where
  "fallback_score s i =
     (let gpu = sc_gpu s i
      in task_penalty gpu
           (f32_add (f32_mul (gs_compute_score gpu) (f32_lit (1 / 2)))
                    (f32_mul (gs_graphics_score gpu) (f32_lit (1 / 2)))))"

text \<open>The GPU of \<^verbatim>\<open>mvgal_scheduler_distribute_task\<close>: with the features first, else any.\<close>

definition task_choice :: "mvgal_scheduler_state_t \<Rightarrow> mvgal_workload_type_t \<Rightarrow> u32" where
  "task_choice s ty =
     (let m = mapping_for ty;
          (best_score, best_gpu) =
            best_loop (\<lambda>i. gpu_active s i \<and> has_features s m i) (task_score s m) (gpu_range s) (f32_lit (- 1000)) NO_GPU
      in if best_gpu = NO_GPU
         then snd (best_loop (gpu_active s) (fallback_score s) (gpu_range s) best_score best_gpu)
         else best_gpu)"

definition task_get_best_gpu :: "mvgal_scheduler_state_t \<Rightarrow> mvgal_workload_type_t \<Rightarrow> mvgal_error_t \<times> u32" where
  "task_get_best_gpu s ty =
     (let m = mapping_for ty;
          score = (\<lambda>i. let gpu = sc_gpu s i
                        in f32_add (f32_add (f32_mul (gs_compute_score gpu) (tm_compute_weight m))
                                            (f32_mul (gs_graphics_score gpu) (tm_graphics_weight m)))
                                   (f32_mul (f32_of_u32 (gs_priority gpu)) (f32_lit (1 / 100))));
          first = snd (best_loop (\<lambda>i. gpu_active s i \<and> has_features s m i) score (gpu_range s) (f32_lit (- 1000)) NO_GPU);
          gpu_index = (if first = NO_GPU
                       then (case find (gpu_active s) (gpu_range s) of None \<Rightarrow> NO_GPU | Some i \<Rightarrow> of_nat i)
                       else first)
      in (if gpu_index \<noteq> NO_GPU then MVGAL_SUCCESS else MVGAL_ERROR_NO_GPUS, gpu_index))"

definition task_configure_weights :: "mvgal_workload_type_t \<Rightarrow> mvgal_error_t" where
  "task_configure_weights ty =
     (if \<exists>m \<in> set g_task_mappings. tm_task_type m = ty then MVGAL_SUCCESS else MVGAL_ERROR_INVALID_ARGUMENT)"

section \<open>Compute offload\<close>

definition offload_score :: "mvgal_scheduler_state_t \<Rightarrow> nat \<Rightarrow> f32" where
  "offload_score s i =
     f32_mul (gs_compute_score (sc_gpu s i)) (f32_sub (f32_lit 1) (gs_utilization (sc_gpu s i)))"

definition offload_choice :: "mvgal_scheduler_state_t \<Rightarrow> u32" where
  "offload_choice s =
     (let (best_score, best_gpu) =
            best_loop (\<lambda>i. gpu_active s i \<and> gs_features (sc_gpu s i) AND MVGAL_FEATURE_COMPUTE \<noteq> 0)
              (offload_score s) (gpu_range s) (f32_lit (- 1)) NO_GPU
      in if best_gpu = NO_GPU
         then snd (best_loop (gpu_active s) (offload_score s) (gpu_range s) best_score best_gpu)
         else best_gpu)"

definition compute_offload_get_score :: "mvgal_scheduler_state_t \<Rightarrow> u32 \<Rightarrow> f32" where
  "compute_offload_get_score s gpu_index =
     (if sc_gpu_count s \<le> gpu_index then f32_lit (- 1) else gs_compute_score (sc_gpu s (unat gpu_index)))"

definition compute_offload_estimate_duration :: "mvgal_scheduler_state_t \<Rightarrow> u32 \<Rightarrow> u64 \<Rightarrow> u64 run" where
  "compute_offload_estimate_duration s gpu_index workload_size_bytes =
     (if sc_gpu_count s \<le> gpu_index then Inr 0
      else
        bnd (f32_to_u64 (f32_mul (f32_lit 500) (f32_lit 1000000000))) (\<lambda>rate.
          let duration_ns = (workload_size_bytes * 8 * 1000000000) div rate;
              score_factor = f32_div (gs_compute_score (sc_gpu s (unat gpu_index))) (f32_lit 100)
          in if f32_less (F32 0) score_factor
             then f32_to_u64 (f32_div (f32_of_int (uint duration_ns)) score_factor)
             else Inr duration_ns))"

section \<open>The choice of a strategy\<close>

record hybrid_strategy_criteria_t =
  hc_workload_type :: mvgal_workload_type_t
  hc_min_size_bytes :: u64
  hc_utilization_threshold :: f32
  hc_fallback_strategy :: mvgal_distribution_strategy_t

definition g_hybrid_criteria :: "hybrid_strategy_criteria_t list" where
  "g_hybrid_criteria =
     [\<lparr>hc_workload_type = MVGAL_WORKLOAD_GRAPHICS, hc_min_size_bytes = 1024 * 1024,
       hc_utilization_threshold = f32_lit (7 / 10), hc_fallback_strategy = MVGAL_STRATEGY_SINGLE_GPU\<rparr>,
      \<lparr>hc_workload_type = MVGAL_WORKLOAD_COMPUTE, hc_min_size_bytes = 256 * 1024,
       hc_utilization_threshold = f32_lit (8 / 10), hc_fallback_strategy = MVGAL_STRATEGY_COMPUTE_OFFLOAD\<rparr>,
      \<lparr>hc_workload_type = MVGAL_WORKLOAD_VIDEO, hc_min_size_bytes = 4 * 1024 * 1024,
       hc_utilization_threshold = f32_lit (6 / 10), hc_fallback_strategy = MVGAL_STRATEGY_SINGLE_GPU\<rparr>,
      \<lparr>hc_workload_type = MVGAL_WORKLOAD_AI, hc_min_size_bytes = 1024 * 1024,
       hc_utilization_threshold = f32_lit (7 / 10), hc_fallback_strategy = MVGAL_STRATEGY_COMPUTE_OFFLOAD\<rparr>]"

definition active_gpus :: "mvgal_scheduler_state_t \<Rightarrow> nat list" where
  "active_gpus s = filter (gpu_active s) (gpu_range s)"

definition avg_utilization :: "mvgal_scheduler_state_t \<Rightarrow> f32" where
  "avg_utilization s =
     (let total = foldl (\<lambda>acc i. f32_add acc (gs_utilization (sc_gpu s i))) (F32 0) (active_gpus s)
      in if 0 < length (active_gpus s) then f32_div total (f32_of_int (int (length (active_gpus s)))) else total)"

definition hybrid_select_strategy :: "mvgal_scheduler_state_t \<Rightarrow> mvgal_workload option \<Rightarrow> mvgal_distribution_strategy_t" where
  "hybrid_select_strategy s workload =
     (case workload of
        None \<Rightarrow> MVGAL_STRATEGY_SINGLE_GPU
      | Some w \<Rightarrow>
          (let ty = wd_type (wl_descriptor w); mk = wd_gpu_mask (wl_descriptor w)
           in if 1 < wl_assigned_gpu_count w then MVGAL_STRATEGY_AFR
              else if mk \<noteq> 0xFFFFFFFF \<and> 1 < popcount (ucast mk) then MVGAL_STRATEGY_SFR
              else
                (let criteria = (case find (\<lambda>c. hc_workload_type c = ty) g_hybrid_criteria of
                                   None \<Rightarrow> g_hybrid_criteria ! 0 | Some c \<Rightarrow> c)
                 in if f32_less (avg_utilization s) (hc_utilization_threshold criteria) \<and> 2 \<le> length (active_gpus s)
                    then (if ty = MVGAL_WORKLOAD_GRAPHICS then MVGAL_STRATEGY_AFR else MVGAL_STRATEGY_SFR)
                    else if ty = MVGAL_WORKLOAD_COMPUTE \<or> ty = MVGAL_WORKLOAD_AI
                    then MVGAL_STRATEGY_COMPUTE_OFFLOAD else MVGAL_STRATEGY_SINGLE_GPU)))"

section \<open>What the loop finds\<close>

definition best_of :: "(nat \<Rightarrow> bool) \<Rightarrow> (nat \<Rightarrow> f32) \<Rightarrow> nat set \<Rightarrow> nat \<Rightarrow> bool" where
  "best_of ok score I i \<longleftrightarrow> i \<in> I \<and> ok i
     \<and> (\<forall>j \<in> I. ok j \<longrightarrow> \<not> f32_less (score i) (score j))
     \<and> (\<forall>j \<in> I. j < i \<longrightarrow> ok j \<longrightarrow> \<not> f32_le (score i) (score j))"

text \<open>
  What the loop has after the GPUs below \<open>m\<close>: no one above the starting score, or the first of the
  best.
\<close>

definition best_upto :: "(nat \<Rightarrow> bool) \<Rightarrow> (nat \<Rightarrow> f32) \<Rightarrow> f32 \<Rightarrow> nat \<Rightarrow> f32 \<Rightarrow> u32 \<Rightarrow> bool" where
  "best_upto ok score base m bs bi \<longleftrightarrow>
     bs = base \<and> bi = NO_GPU \<and> (\<forall>j < m. ok j \<longrightarrow> \<not> f32_less base (score j))
   \<or> (\<exists>i. best_of ok score {..<m} i \<and> bs = score i \<and> bi = of_nat i \<and> f32_less base bs)"

lemma best_upto_step:
  assumes "best_upto ok score base m bs bi" and "base \<noteq> F32_nan"
  shows "best_upto ok score base (Suc m) (if ok m \<and> f32_less bs (score m) then score m else bs)
           (if ok m \<and> f32_less bs (score m) then of_nat m else bi)"
proof (cases "ok m \<and> f32_less bs (score m)")
  case True
  have all: "\<not> f32_less bs (score j)" if "j < m" "ok j" for j
    using assms(1) that by (auto simp: best_upto_def best_of_def)
  have base: "f32_less base (score m)"
    using assms(1) True by (auto simp: best_upto_def intro: f32_less_trans)
  have "best_of ok score {..<Suc m} m"
    unfolding best_of_def
  proof (intro conjI ballI impI)
    fix j assume "j \<in> {..<Suc m}" "ok j"
    then show "\<not> f32_less (score m) (score j)"
      using all [of j] True by (cases "j = m") (auto dest: f32_less_trans)
  next
    fix j assume "j < m" "ok j"
    with all [of j] True show "\<not> f32_le (score m) (score j)"
      by (auto simp: f32_le_def dest: f32_less_trans)
  qed (use True in auto)
  with True base show ?thesis by (auto simp: best_upto_def)
next
  case False
  show ?thesis
  proof (cases "bi = NO_GPU \<and> bs = base \<and> (\<forall>j < m. ok j \<longrightarrow> \<not> f32_less base (score j))")
    case True
    with False show ?thesis by (auto simp: best_upto_def less_Suc_eq)
  next
    case nn: False
    with assms(1) obtain i where i: "best_of ok score {..<m} i" "bs = score i" "bi = of_nat i" "f32_less base bs"
      by (auto simp: best_upto_def)
    then have "best_of ok score {..<Suc m} i"
      using False by (auto simp: best_of_def less_Suc_eq)
    with False i show ?thesis by (auto simp: best_upto_def)
  qed
qed

lemma best_loop_upto:
  assumes "best_upto ok score base m bs bi" and "base \<noteq> F32_nan" and "m \<le> n"
    and "best_loop ok score [m..<n] bs bi = (s, r)"
  shows "best_upto ok score base n s r"
  using assms
proof (induction "n - m" arbitrary: m bs bi)
  case (Suc k)
  then have "[m..<n] = m # [Suc m..<n]" by (simp add: upt_conv_Cons)
  with Suc.prems(4) have "best_loop ok score [Suc m..<n] (if ok m \<and> f32_less bs (score m) then score m else bs)
      (if ok m \<and> f32_less bs (score m) then of_nat m else bi) = (s, r)"
    by (auto split: if_splits)
  then show ?case
    using Suc.hyps(1) [OF _ best_upto_step [OF Suc.prems(1,2)] Suc.prems(2)] Suc.hyps(2) by simp
qed simp

lemma best_loop_spec:
  assumes "best_loop ok score [0..<n] base NO_GPU = (s, r)" and "base \<noteq> F32_nan"
  shows "best_upto ok score base n s r"
  by (rule best_loop_upto [OF _ assms(2) _ assms(1)]) (simp_all add: best_upto_def)

lemma of_nat_not_NO_GPU: "i < 16 \<Longrightarrow> (of_nat i :: u32) \<noteq> NO_GPU"
proof
  assume "i < 16" and "(of_nat i :: u32) = NO_GPU"
  then have "unat (of_nat i :: u32) = 0xFFFFFFFF" by simp
  with \<open>i < 16\<close> show False by (simp add: unat_of_nat)
qed

lemma best_upto_cases:
  assumes "best_upto ok score base n s r" and "n \<le> 16"
  shows "(r = NO_GPU \<longrightarrow> s = base \<and> (\<forall>j < n. ok j \<longrightarrow> \<not> f32_less base (score j)))
    \<and> (r \<noteq> NO_GPU \<longrightarrow> (\<exists>i < n. r = of_nat i \<and> best_of ok score {..<n} i \<and> s = score i \<and> f32_less base s))"
proof -
  have "(of_nat i :: u32) \<noteq> NO_GPU" if "best_of ok score {..<n} i" for i
    using that assms(2) by (intro of_nat_not_NO_GPU) (auto simp: best_of_def)
  with assms(1) show ?thesis by (auto simp: best_upto_def best_of_def)
qed

section \<open>The chosen GPU\<close>

lemma suitable_iff:
  "mvgal_scheduler_gpu_suitable s i w \<longleftrightarrow> i < unat (sc_gpu_count s) \<and> gpu_active s i
     \<and> (wd_gpu_mask (wl_descriptor w) = 0xFFFFFFFF \<or> wd_gpu_mask (wl_descriptor w) AND push_bit i 1 \<noteq> 0)"
  by (auto simp: mvgal_scheduler_gpu_suitable_def gpu_active_def)

lemma f32_lit_not_nan [simp]: "f32_round q \<noteq> F32_nan"
  by (simp add: f32_round_def Let_def)

lemma find_best_gpu_cases:
  assumes "gpus_wf s" and "mvgal_scheduler_find_best_gpu s w = (e, r)"
  shows "e = MVGAL_ERROR_NO_GPUS \<and> r = None
      \<and> (\<forall>j. mvgal_scheduler_gpu_suitable s j w \<longrightarrow> \<not> f32_less (f32_lit (- 1000)) (mvgal_scheduler_calculate_score s j w))
    \<or> (\<exists>i < unat (sc_gpu_count s). e = MVGAL_SUCCESS \<and> r = Some (of_nat i)
      \<and> best_of (\<lambda>i. mvgal_scheduler_gpu_suitable s i w) (\<lambda>i. mvgal_scheduler_calculate_score s i w) {..<unat (sc_gpu_count s)} i
      \<and> f32_less (f32_lit (- 1000)) (mvgal_scheduler_calculate_score s i w))"
proof -
  let ?ok = "\<lambda>i. mvgal_scheduler_gpu_suitable s i w" and ?sc = "\<lambda>i. mvgal_scheduler_calculate_score s i w"
  obtain bs bi where l: "best_loop ?ok ?sc [0..<unat (sc_gpu_count s)] (f32_lit (- 1000)) NO_GPU = (bs, bi)" by fastforce
  have "unat (sc_gpu_count s) \<le> 16" using assms(1) by (simp add: gpus_wf_def)
  note c = best_upto_cases [OF best_loop_spec [OF l f32_lit_not_nan] this]
  have e: "(e, r) = (if bi = NO_GPU then (MVGAL_ERROR_NO_GPUS, None) else (MVGAL_SUCCESS, Some bi))"
    using assms(2) l by (simp add: mvgal_scheduler_find_best_gpu_def gpu_range_def)
  show ?thesis
  proof (cases "bi = NO_GPU")
    case True
    with c e show ?thesis by (auto simp: suitable_iff)
  next
    case False
    with c e show ?thesis by auto
  qed
qed

text \<open>
  C10. The search for the best GPU returns a GPU that is enabled, available and allowed by the mask of
  the workload, that no such GPU has a higher score, and of those with the same score the one with
  the lowest index; it fails exactly when no such GPU has a score above -1000.
\<close>

theorem find_best_gpu_optimal:
  assumes "gpus_wf s" and "mvgal_scheduler_find_best_gpu s w = (e, r)"
  shows "(e = MVGAL_SUCCESS \<longleftrightarrow> (\<exists>j. mvgal_scheduler_gpu_suitable s j w
            \<and> f32_less (f32_lit (- 1000)) (mvgal_scheduler_calculate_score s j w)))
    \<and> (e \<noteq> MVGAL_SUCCESS \<longrightarrow> e = MVGAL_ERROR_NO_GPUS \<and> r = None)
    \<and> (\<forall>g. r = Some g \<longrightarrow> mvgal_scheduler_gpu_suitable s (unat g) w
        \<and> (\<forall>j. mvgal_scheduler_gpu_suitable s j w \<longrightarrow>
             \<not> f32_less (mvgal_scheduler_calculate_score s (unat g) w) (mvgal_scheduler_calculate_score s j w)
           \<and> (j < unat g \<longrightarrow> \<not> f32_le (mvgal_scheduler_calculate_score s (unat g) w) (mvgal_scheduler_calculate_score s j w))))"
proof -
  have u: "unat (of_nat i :: u32) = i" if "i < unat (sc_gpu_count s)" for i
    using that assms(1) by (simp add: gpus_wf_def unat_of_nat)
  from find_best_gpu_cases [OF assms] show ?thesis
    by (elim disjE exE conjE) (auto simp: best_of_def u suitable_iff)
qed

text \<open>An initialised scheduler without GPUs and workloads, and one with two GPUs, for the witnesses.\<close>

definition idle_sched :: mvgal_scheduler_state_t where
  "idle_sched =
     \<lparr>sc_initialized = True, sc_paused = False, sc_running = False, sc_config = initial_config,
      sc_gpus = replicate 16 initial_gpu,
      sc_gpu_count = 0, sc_global_queue = workload_queue_init, sc_ready_queue = workload_queue_init,
      sc_running_queue = workload_queue_init, sc_completed_queue = workload_queue_init,
      sc_stats = \<lparr>st_workloads_submitted = 0, st_workloads_completed = 0, st_workloads_failed = 0\<rparr>,
      sc_splitters = [], sc_splitter_count = 0, sc_thread_running = False, sc_next_workload_id = 1, sc_afr = afr_zero,
      sc_heap = (\<lambda>_. None), sc_clock = (\<lambda>n. of_nat n), sc_ticks = 0, sc_calloc_ok = (\<lambda>_. True), sc_callbacks = []\<rparr>"

definition two_gpus :: mvgal_scheduler_state_t where
  "two_gpus = idle_sched\<lparr>sc_gpu_count := 2,
     sc_gpus := initial_gpu\<lparr>gs_available := True\<rparr>
       # initial_gpu\<lparr>gs_available := True, gs_graphics_score := F32 800\<rparr> # replicate 14 initial_gpu\<rparr>"

text \<open>A graphics workload for the GPUs 0 and 1 goes to GPU 1, which has the better graphics score: the witness for C10.\<close>

definition masked_workload :: mvgal_workload where
  "masked_workload = zero_workload\<lparr>wl_descriptor := zero_workload_descriptor\<lparr>wd_gpu_mask := 3\<rparr>\<rparr>"

theorem find_best_gpu_optimal_witness:
  "mvgal_scheduler_find_best_gpu two_gpus masked_workload = (MVGAL_SUCCESS, Some 1)
   \<and> mvgal_scheduler_gpu_suitable two_gpus 1 masked_workload
   \<and> \<not> f32_le (mvgal_scheduler_calculate_score two_gpus 1 masked_workload) (mvgal_scheduler_calculate_score two_gpus 0 masked_workload)"
proof -
  have wf: "gpus_wf two_gpus" by (simp add: gpus_wf_def two_gpus_def idle_sched_def initial_config_def)
  have r: "mvgal_scheduler_find_best_gpu two_gpus masked_workload = (MVGAL_SUCCESS, Some 1)" by code_simp
  have "mvgal_scheduler_gpu_suitable two_gpus 0 masked_workload" by code_simp
  with find_best_gpu_optimal [OF wf r] r show ?thesis by auto
qed

end
