(* ===== verification/Strategies.thy ===== *)
theory Strategies
  imports Gpu_Select
begin

unbundle bit_operations_syntax

text \<open>
  The distribution strategies of \<^verbatim>\<open>src/userspace/scheduler/strategy/\<close>: alternate frame
  rendering (\<^verbatim>\<open>afr.c\<close>), split frame rendering (\<^verbatim>\<open>sfr.c\<close>), by task type (\<^verbatim>\<open>task.c\<close>), compute
  offload (\<^verbatim>\<open>compute_offload.c\<close>) and the mixture of them (\<^verbatim>\<open>hybrid.c\<close>). A strategy gets a
  workload by its address and writes its decision into the workload.
\<close>

section \<open>Access to a workload\<close>

definition aget :: "'a list \<Rightarrow> u32 \<Rightarrow> 'a run" where
  "aget xs i = (if unat i < length xs then Inr (xs ! unat i) else Inl Out_Of_Bounds)"

text \<open>Storing a list into the first entries of an array.\<close>

definition aput_all :: "'a list \<Rightarrow> 'a list \<Rightarrow> 'a list run" where
  "aput_all xs vs = (if length vs \<le> length xs then Inr (vs @ drop (length vs) xs) else Inl Out_Of_Bounds)"

definition sderef :: "mvgal_scheduler_state_t \<Rightarrow> nat \<Rightarrow> mvgal_workload run" where
  "sderef s p = wderef (sc_heap s) p"

definition put_wl :: "nat \<Rightarrow> mvgal_workload \<Rightarrow> mvgal_scheduler_state_t \<Rightarrow> mvgal_scheduler_state_t" where
  "put_wl p w s = s\<lparr>sc_heap := (sc_heap s)(p \<mapsto> w)\<rparr>"

definition assign_gpu :: "u32 \<Rightarrow> mvgal_workload \<Rightarrow> mvgal_workload" where
  "assign_gpu g w = w\<lparr>wl_descriptor := (wl_descriptor w)\<lparr>wd_assigned_gpu := g\<rparr>\<rparr>"

text \<open>One GPU for the whole workload.\<close>

definition assign_single :: "u32 \<Rightarrow> mvgal_workload \<Rightarrow> mvgal_workload" where
  "assign_single g w = (assign_gpu g w)\<lparr>wl_assigned_gpu_count := 1, wl_assigned_gpus := (wl_assigned_gpus w)[0 := g]\<rparr>"

text \<open>\<^verbatim>\<open>mvgal_scheduler_find_best_gpu\<close> called with the address of the field \<^verbatim>\<open>assigned_gpu\<close>.\<close>

definition assign_best :: "nat \<Rightarrow> mvgal_scheduler_state_t \<Rightarrow> (mvgal_error_t \<times> mvgal_scheduler_state_t) run" where
  "assign_best p s =
     bnd (sderef s p) (\<lambda>w.
       case mvgal_scheduler_find_best_gpu s w of
         (e, None) \<Rightarrow> Inr (e, s)
       | (e, Some g) \<Rightarrow> Inr (e, put_wl p (assign_gpu g w) s))"

section \<open>Alternate frame rendering\<close>

definition afr_init :: "afr_state \<Rightarrow> afr_state" where
  "afr_init a =
     (if afr_initialized a then a
      else a\<lparr>afr_current_gpu_index := 0, afr_frame_counter := 0, afr_gpu_count := 0, afr_initialized := True\<rparr>)"

definition afr_configure :: "u32 list option \<Rightarrow> afr_state \<Rightarrow> mvgal_error_t \<times> afr_state" where
  "afr_configure gpu_indices a =
     (case gpu_indices of
        None \<Rightarrow> (MVGAL_ERROR_INVALID_ARGUMENT, a)
      | Some ids \<Rightarrow>
          if length ids = 0 \<or> MVGAL_SCHEDULER_MAX_GPUS < length ids then (MVGAL_ERROR_INVALID_ARGUMENT, a)
          else (MVGAL_SUCCESS,
                (afr_init a)\<lparr>afr_gpu_count := of_nat (length ids),
                             afr_gpu_indices := ids @ drop (length ids) (afr_gpu_indices a),
                             afr_current_gpu_index := 0, afr_frame_counter := 0\<rparr>))"

definition afr_get_next_gpu :: "afr_state \<Rightarrow> (u32 \<times> afr_state) run" where
  "afr_get_next_gpu a =
     (if afr_gpu_count a = 0 then Inr (NO_GPU, a)
      else
        bnd (aget (afr_gpu_indices a) (afr_current_gpu_index a)) (\<lambda>gpu_index.
          Inr (gpu_index,
               a\<lparr>afr_current_gpu_index := (afr_current_gpu_index a + 1) mod afr_gpu_count a,
                 afr_frame_counter := afr_frame_counter a + 1\<rparr>)))"

definition mask_indices :: "u64 \<Rightarrow> u32 list" where
  "mask_indices mk = map of_nat (filter (\<lambda>i. mk AND push_bit i 1 \<noteq> 0) [0..<MVGAL_SCHEDULER_MAX_GPUS])"

definition mvgal_scheduler_distribute_afr ::
    "nat option \<Rightarrow> mvgal_scheduler_state_t \<Rightarrow> (mvgal_error_t \<times> mvgal_scheduler_state_t) run" where
  "mvgal_scheduler_distribute_afr workload s =
     (case workload of
        None \<Rightarrow> Inr (MVGAL_ERROR_INVALID_ARGUMENT, s)
      | Some p \<Rightarrow>
          bnd (sderef s p) (\<lambda>w.
          let a1 = afr_init (sc_afr s); s1 = s\<lparr>sc_afr := a1\<rparr>
          in if 0 < wl_assigned_gpu_count w
             then bnd (aget (wl_assigned_gpus w) 0) (\<lambda>g. Inr (MVGAL_SUCCESS, put_wl p (assign_gpu g w) s1))
             else
               (let ids = mask_indices (wd_gpu_mask (wl_descriptor w));
                    a2 = (if wd_gpu_mask (wl_descriptor w) \<noteq> 0xFFFFFFFF \<and> 0 < length ids
                          then snd (afr_configure (Some ids) a1) else a1)
                in bnd (afr_get_next_gpu a2) (\<lambda>(gpu_index, a3).
                     let s2 = s\<lparr>sc_afr := a3\<rparr>
                     in if gpu_index = NO_GPU then assign_best p s2
                        else Inr (MVGAL_SUCCESS, put_wl p (assign_single gpu_index w) s2)))))"

definition afr_get_stats :: "afr_state \<Rightarrow> u64 \<times> u32 \<times> afr_state" where
  "afr_get_stats a = (let a1 = afr_init a in (ucast (afr_frame_counter a1), afr_gpu_count a1, a1))"

definition afr_reset :: "afr_state \<Rightarrow> afr_state" where
  "afr_reset a = a\<lparr>afr_current_gpu_index := 0, afr_frame_counter := 0, afr_gpu_count := 0\<rparr>"

section \<open>Split frame rendering\<close>

datatype sfr_mode_t = SFR_MODE_HORIZONTAL | SFR_MODE_VERTICAL | SFR_MODE_GRID | SFR_MODE_CHECKERBOARD

definition region :: "u32 \<Rightarrow> u32 \<Rightarrow> u32 \<Rightarrow> u32 \<Rightarrow> u32 \<Rightarrow> sfr_region_t" where
  "region x y wd ht g = \<lparr>rg_x = x, rg_y = y, rg_width = wd, rg_height = ht, rg_gpu_index = g\<rparr>"

text \<open>The share of GPU \<open>i\<close>; without weights all shares are equal.\<close>

definition total_weight :: "f32 list option \<Rightarrow> nat \<Rightarrow> f32" where
  "total_weight weights gpu_count =
     (let t = (case weights of
                 Some ws \<Rightarrow> foldl f32_add (F32 0) (take gpu_count ws)
               | None \<Rightarrow> f32_of_int (int gpu_count))
      in if f32_le t (F32 0) then f32_lit 1 else t)"

definition share :: "f32 list option \<Rightarrow> nat \<Rightarrow> nat \<Rightarrow> f32" where
  "share weights gpu_count i =
     (case weights of
        Some ws \<Rightarrow> f32_div (ws ! i) (total_weight weights gpu_count)
      | None \<Rightarrow> f32_div (f32_lit 1) (f32_of_int (int gpu_count)))"

text \<open>
  Cutting a length into strips: the start and the length of each; the last one gets the rest. The
  first argument is the list of GPUs still to be served. This is the loop of the horizontal split
  for the height and of the vertical split for the width.
\<close>

fun strips :: "nat list \<Rightarrow> nat \<Rightarrow> u32 \<Rightarrow> (nat \<Rightarrow> f32) \<Rightarrow> u32 \<Rightarrow> (u32 \<times> u32 \<times> nat) list run" where
  "strips [] n len share_of current = Inr []"
| "strips (i # is) n len share_of current =
     bnd (f32_to_u32 (f32_mul (f32_of_u32 len) (share_of i))) (\<lambda>part.
       let l = (if i = n - 1 then len - current else part)
       in bnd (strips is n len share_of (current + l)) (\<lambda>rest. Inr ((current, l, i) # rest)))"

text \<open>\<^verbatim>\<open>ceil(sqrt(n))\<close> of a number of GPUs: the least \<open>r\<close> with \<open>n \<le> r * r\<close>.\<close>

definition ceil_sqrt :: "nat \<Rightarrow> nat" where
  "ceil_sqrt n = (case find (\<lambda>r. n \<le> r * r) [0..<Suc n] of None \<Rightarrow> 0 | Some r \<Rightarrow> r)"

text \<open>The cells of the grid in the order of the two loops, with the GPU of each.\<close>

definition grid_cells :: "nat \<Rightarrow> nat \<Rightarrow> nat \<Rightarrow> (nat \<times> nat) list" where
  "grid_cells n rows cols = filter (\<lambda>(r, c). r * cols + c < n) (List.product [0..<rows] [0..<cols])"

fun grid_loop ::
    "(nat \<times> nat) list \<Rightarrow> nat \<Rightarrow> nat \<Rightarrow> nat \<Rightarrow> u32 \<Rightarrow> u32 \<Rightarrow> (nat \<Rightarrow> f32) \<Rightarrow> u32 \<Rightarrow> sfr_region_t list run" where
  "grid_loop [] n rows cols width height share_of x = Inr []"
| "grid_loop ((r, c) # cells) n rows cols width height share_of x =
     (let i = r * cols + c;
          current_x = (if c = 0 then 0 else x);
          row_height = height div of_nat rows;
          current_y = of_nat r * row_height
      in bnd (f32_to_u32 (f32_mul (f32_of_u32 width) (f32_mul (share_of i) (f32_of_int (int rows))))) (\<lambda>region_width.
           let wd = (if c = cols - 1 \<or> i = n - 1 then width - current_x else region_width);
               ht = (if r = rows - 1 then height - current_y else row_height)
           in bnd (grid_loop cells n rows cols width height share_of (current_x + wd)) (\<lambda>rest.
                Inr (region current_x current_y wd ht (of_nat i) # rest))))"

text \<open>
  The checkerboard: a row of tiles from \<open>x\<close> on, with at most \<open>room\<close> more tiles, giving the tiles and
  the next GPU; and the rows, which advance by \<open>region_height\<close>. The loop over the rows does not end
  when a row has no tile and the height of a tile is 0; its first argument bounds the rounds.
\<close>

fun board_row :: "nat \<Rightarrow> u32 \<Rightarrow> u32 \<Rightarrow> u32 \<Rightarrow> u32 \<Rightarrow> u32 \<Rightarrow> u32 \<Rightarrow> u32 \<Rightarrow> u32 \<Rightarrow> sfr_region_t list \<times> u32" where
  "board_row 0 width height rw rh n x y gpu = ([], gpu)"
| "board_row (Suc room) width height rw rh n x y gpu =
     (if x < width then
        (let (tiles, g) = board_row room width height rw rh n (x + rw) y ((gpu + 1) mod n)
         in (region x y (if width < x + rw then width - x else rw)
                        (if height < y + rh then height - y else rh) gpu # tiles, g))
      else ([], gpu))"

fun board :: "nat \<Rightarrow> nat \<Rightarrow> u32 \<Rightarrow> u32 \<Rightarrow> u32 \<Rightarrow> u32 \<Rightarrow> u32 \<Rightarrow> u32 \<Rightarrow> u32 \<Rightarrow> sfr_region_t list run" where
  "board fuel room width height rw rh n y gpu =
     (if height \<le> y \<or> room = 0 then Inr []
      else (case fuel of
              0 \<Rightarrow> Inl Depth_Exceeded
            | Suc fuel' \<Rightarrow>
                (let (tiles, g) = board_row room width height rw rh n 0 y gpu
                 in bnd (board fuel' (room - length tiles) width height rw rh n (y + rh) ((g + 1) mod n)) (\<lambda>rest.
                      Inr (tiles @ rest)))))"

declare board.simps [simp del]

definition sfr_split_frame ::
    "nat \<Rightarrow> u32 \<Rightarrow> u32 \<Rightarrow> nat \<Rightarrow> f32 list option \<Rightarrow> sfr_mode_t \<Rightarrow> nat \<Rightarrow> sfr_region_t list run" where
  "sfr_split_frame fuel width height gpu_count weights mode max_regions =
     (if gpu_count = 0 \<or> max_regions = 0 then Inr []
      else if (case weights of Some ws \<Rightarrow> length ws < gpu_count | None \<Rightarrow> False) then Inl Out_Of_Bounds
      else (case mode of
              SFR_MODE_HORIZONTAL \<Rightarrow>
                bnd (strips [0..<min gpu_count max_regions] gpu_count height (share weights gpu_count) 0) (\<lambda>ss.
                  Inr (map (\<lambda>(y, h, i). region 0 y width h (of_nat i)) ss))
            | SFR_MODE_VERTICAL \<Rightarrow>
                bnd (strips [0..<min gpu_count max_regions] gpu_count width (share weights gpu_count) 0) (\<lambda>ss.
                  Inr (map (\<lambda>(x, w, i). region x 0 w height (of_nat i)) ss))
            | SFR_MODE_GRID \<Rightarrow>
                (let rows = ceil_sqrt gpu_count; cols = (gpu_count + rows - 1) div rows
                 in grid_loop (take max_regions (grid_cells gpu_count rows cols)) gpu_count rows cols
                      width height (share weights gpu_count) 0)
            | SFR_MODE_CHECKERBOARD \<Rightarrow>
                board fuel max_regions width height (width div 2) (height div 2) (of_nat gpu_count) 0 0))"

text \<open>The split of a workload over the GPUs assigned to it; at most 64 regions.\<close>

fun assign_regions :: "mvgal_workload \<Rightarrow> nat \<Rightarrow> sfr_region_t list \<Rightarrow> sfr_region_t list run" where
  "assign_regions w i [] = Inr []"
| "assign_regions w i (r # rs) =
     bnd (aget (wl_assigned_gpus w) (of_nat i mod wl_assigned_gpu_count w)) (\<lambda>g.
     bnd (assign_regions w (Suc i) rs) (\<lambda>rest. Inr (r\<lparr>rg_gpu_index := g\<rparr> # rest)))"

definition create_split_data ::
    "nat \<Rightarrow> nat option \<Rightarrow> u32 \<Rightarrow> u32 \<Rightarrow> sfr_mode_t \<Rightarrow> f32 list option \<Rightarrow> mvgal_scheduler_state_t \<Rightarrow>
       (mvgal_error_t \<times> mvgal_scheduler_state_t) run" where
  "create_split_data fuel workload width height mode weights s =
     (case workload of
        None \<Rightarrow> Inr (MVGAL_ERROR_INVALID_ARGUMENT, s)
      | Some p \<Rightarrow>
          bnd (sderef s p) (\<lambda>w.
            if wl_assigned_gpu_count w = 0 then Inr (MVGAL_ERROR_INVALID_ARGUMENT, s)
            else if \<not> sc_calloc_ok s (sc_ticks s) then Inr (MVGAL_ERROR_OUT_OF_MEMORY, s)
            else
              bnd (sfr_split_frame fuel width height (unat (wl_assigned_gpu_count w)) weights mode 64) (\<lambda>rs.
              bnd (assign_regions w 0 rs) (\<lambda>rs'.
                Inr (MVGAL_SUCCESS,
                     put_wl p (w\<lparr>wl_strategy_data :=
                       Some \<lparr>sfr_regions = rs', sfr_original_width = width, sfr_original_height = height\<rparr>\<rparr>) s)))))"

definition sfr_create_split_data ::
    "nat \<Rightarrow> nat option \<Rightarrow> u32 \<Rightarrow> u32 \<Rightarrow> sfr_mode_t \<Rightarrow> mvgal_scheduler_state_t \<Rightarrow>
       (mvgal_error_t \<times> mvgal_scheduler_state_t) run" where
  "sfr_create_split_data fuel workload width height mode s = create_split_data fuel workload width height mode None s"

definition sfr_create_split_data_weighted ::
    "nat \<Rightarrow> nat option \<Rightarrow> u32 \<Rightarrow> u32 \<Rightarrow> sfr_mode_t \<Rightarrow> f32 list \<Rightarrow> mvgal_scheduler_state_t \<Rightarrow>
       (mvgal_error_t \<times> mvgal_scheduler_state_t) run" where
  "sfr_create_split_data_weighted fuel workload width height mode weights s =
     create_split_data fuel workload width height mode (Some weights) s"

definition sfr_get_region_for_gpu :: "mvgal_workload option \<Rightarrow> u32 \<Rightarrow> sfr_region_t option" where
  "sfr_get_region_for_gpu workload gpu_index =
     (case workload of
        None \<Rightarrow> None
      | Some w \<Rightarrow>
          (case wl_strategy_data w of
             None \<Rightarrow> None
           | Some d \<Rightarrow> find (\<lambda>r. rg_gpu_index r = gpu_index) (sfr_regions d)))"

definition sfr_cleanup :: "mvgal_workload \<Rightarrow> mvgal_workload" where
  "sfr_cleanup w = w\<lparr>wl_strategy_data := None\<rparr>"

text \<open>The equal split of the default frame over pre-assigned GPUs.\<close>

fun equal_regions :: "u32 list \<Rightarrow> u32 \<Rightarrow> u32 \<Rightarrow> nat list \<Rightarrow> sfr_region_t list run" where
  "equal_regions gpus gpu_count region_height [] = Inr []"
| "equal_regions gpus gpu_count region_height (k # ks) =
     (let i = of_nat k
      in bnd (aget gpus i) (\<lambda>g.
         bnd (equal_regions gpus gpu_count region_height ks) (\<lambda>rest.
           Inr (region 0 (i * region_height) 1920
                  (if i = gpu_count - 1 then 1080 - i * region_height else region_height) g # rest))))"

definition sfr_weight :: "mvgal_scheduler_state_t \<Rightarrow> nat \<Rightarrow> f32" where
  "sfr_weight s i =
     (let base = gs_graphics_score (sc_gpu s i);
          base_score = (if f32_le base (F32 0) then f32_lit 1 else base);
          u = gs_utilization (sc_gpu s i);
          util = (if f32_less u (f32_lit (1 / 100)) then f32_lit (1 / 100) else u)
      in if cf_dynamic_load_balance (sc_config s) then f32_mul base_score (f32_div (f32_lit 1) util)
         else base_score)"

definition mvgal_scheduler_distribute_sfr ::
    "nat option \<Rightarrow> mvgal_scheduler_state_t \<Rightarrow> (mvgal_error_t \<times> mvgal_scheduler_state_t) run" where
  "mvgal_scheduler_distribute_sfr workload s =
     (case workload of
        None \<Rightarrow> Inr (MVGAL_ERROR_INVALID_ARGUMENT, s)
      | Some p \<Rightarrow>
          bnd (sderef s p) (\<lambda>w.
            if 0 < wl_assigned_gpu_count w then
              (if \<not> sc_calloc_ok s (sc_ticks s) then Inr (MVGAL_ERROR_OUT_OF_MEMORY, s)
               else
                 (let gpu_count = wl_assigned_gpu_count w
                  in bnd (equal_regions (wl_assigned_gpus w) gpu_count (1080 div gpu_count) [0..<unat gpu_count]) (\<lambda>rs.
                     bnd (aget (wl_assigned_gpus w) 0) (\<lambda>g.
                       Inr (MVGAL_SUCCESS,
                            put_wl p ((assign_gpu g w)\<lparr>wl_strategy_data :=
                              Some \<lparr>sfr_regions = rs, sfr_original_width = 1920, sfr_original_height = 1080\<rparr>\<rparr>) s)))))
            else if sc_gpu_count s = 0 then assign_best p s
            else
              (let ids = active_gpus s
               in if ids = [] then assign_best p s
                  else
                    bnd (aput_all (wl_assigned_gpus w) (map of_nat ids)) (\<lambda>assigned.
                    let w1 = w\<lparr>wl_assigned_gpu_count := of_nat (length ids), wl_assigned_gpus := assigned\<rparr>
                    in bnd (sfr_create_split_data_weighted 0 (Some p) 1920 1080 SFR_MODE_HORIZONTAL
                              (map (sfr_weight s) ids) (put_wl p w1 s)) (\<lambda>(_, s2).
                       bnd (sderef s2 p) (\<lambda>w2.
                         Inr (MVGAL_SUCCESS, put_wl p (assign_gpu (of_nat (hd ids)) w2) s2)))))))"

section \<open>The other strategies\<close>

text \<open>A workload with assigned GPUs keeps the first of them; else the choice decides.\<close>

definition distribute_by ::
    "(mvgal_workload \<Rightarrow> u32) \<Rightarrow> nat option \<Rightarrow> mvgal_scheduler_state_t \<Rightarrow> (mvgal_error_t \<times> mvgal_scheduler_state_t) run" where
  "distribute_by choice workload s =
     (case workload of
        None \<Rightarrow> Inr (MVGAL_ERROR_INVALID_ARGUMENT, s)
      | Some p \<Rightarrow>
          bnd (sderef s p) (\<lambda>w.
            if 0 < wl_assigned_gpu_count w
            then bnd (aget (wl_assigned_gpus w) 0) (\<lambda>g. Inr (MVGAL_SUCCESS, put_wl p (assign_gpu g w) s))
            else if choice w = NO_GPU then Inr (MVGAL_ERROR_NO_GPUS, s)
            else Inr (MVGAL_SUCCESS, put_wl p (assign_single (choice w) w) s)))"

definition mvgal_scheduler_distribute_task ::
    "nat option \<Rightarrow> mvgal_scheduler_state_t \<Rightarrow> (mvgal_error_t \<times> mvgal_scheduler_state_t) run" where
  "mvgal_scheduler_distribute_task workload s =
     distribute_by (\<lambda>w. task_choice s (wd_type (wl_descriptor w))) workload s"

definition mvgal_scheduler_distribute_compute_offload ::
    "nat option \<Rightarrow> mvgal_scheduler_state_t \<Rightarrow> (mvgal_error_t \<times> mvgal_scheduler_state_t) run" where
  "mvgal_scheduler_distribute_compute_offload workload s = distribute_by (\<lambda>_. offload_choice s) workload s"

definition mvgal_scheduler_distribute_hybrid ::
    "nat option \<Rightarrow> mvgal_scheduler_state_t \<Rightarrow> (mvgal_error_t \<times> mvgal_scheduler_state_t) run" where
  "mvgal_scheduler_distribute_hybrid workload s =
     (case workload of
        None \<Rightarrow> Inr (MVGAL_ERROR_INVALID_ARGUMENT, s)
      | Some p \<Rightarrow>
          bnd (sderef s p) (\<lambda>w.
            case hybrid_select_strategy s (Some w) of
              MVGAL_STRATEGY_AFR \<Rightarrow> mvgal_scheduler_distribute_afr workload s
            | MVGAL_STRATEGY_SFR \<Rightarrow> mvgal_scheduler_distribute_sfr workload s
            | MVGAL_STRATEGY_TASK \<Rightarrow> mvgal_scheduler_distribute_task workload s
            | MVGAL_STRATEGY_COMPUTE_OFFLOAD \<Rightarrow> mvgal_scheduler_distribute_compute_offload workload s
            | _ \<Rightarrow> assign_best p s))"

section \<open>Workloads as the strategies find them\<close>

lemma small_u32: "n \<le> 16 \<Longrightarrow> unat (of_nat n :: u32) = n"
  by (simp add: unat_of_nat)

definition unassigned :: "mvgal_workload \<Rightarrow> bool" where
  "unassigned w \<longleftrightarrow> wl_assigned_gpu_count w = 0 \<and> length (wl_assigned_gpus w) = 16"

end
