(* ===== verification/Afr_Rotation.thy ===== *)
theory Afr_Rotation
  imports Strategies
begin

text \<open>
  Alternate frame rendering hands frames to the configured GPUs in turn: the state of the rotation, one step,
  and a whole sequence of frames.
\<close>

section \<open>The rotation of alternate frame rendering\<close>

text \<open>The rotation \<open>ids\<close> with the entry \<open>k\<close> next.\<close>

definition afr_rotation :: "u32 list \<Rightarrow> nat \<Rightarrow> afr_state \<Rightarrow> bool" where
  "afr_rotation ids k a \<longleftrightarrow> afr_initialized a \<and> ids \<noteq> [] \<and> length ids \<le> 16 \<and> length (afr_gpu_indices a) = 16
     \<and> take (length ids) (afr_gpu_indices a) = ids \<and> afr_gpu_count a = of_nat (length ids)
     \<and> unat (afr_current_gpu_index a) = k mod length ids"

lemma afr_configure_rotation:
  assumes "ids \<noteq> []" and "length ids \<le> 16" and "length (afr_gpu_indices a) = 16"
  shows "\<exists>a'. afr_configure (Some ids) a = (MVGAL_SUCCESS, a') \<and> afr_rotation ids 0 a'"
  using assms by (simp add: afr_configure_def afr_rotation_def afr_init_def)

lemma afr_next_rotation:
  assumes r: "afr_rotation ids k a"
  shows "\<exists>a'. afr_get_next_gpu a = Inr (ids ! (k mod length ids), a') \<and> afr_rotation ids (Suc k) a'"
proof -
  let ?n = "length ids" and ?c = "afr_current_gpu_index a"
  have n: "0 < ?n" "?n \<le> 16" "unat (afr_gpu_count a) = ?n" and c: "unat ?c = k mod ?n"
    using r by (auto simp: afr_rotation_def small_u32)
  have lt: "unat ?c < ?n" using c n(1) by simp
  have g: "afr_gpu_indices a ! unat ?c = ids ! (k mod ?n)"
    using r lt c unfolding afr_rotation_def by (metis nth_take)
  have "unat (?c + 1) = unat ?c + 1"
    using lt n(2) by (intro trans [OF unat_add_no_wrap]) simp_all
  then have "unat ((?c + 1) mod afr_gpu_count a) = Suc k mod ?n"
    by (simp add: unat_mod n(3) c mod_Suc_eq)
  moreover have "unat ?c < 16" using lt n(2) by linarith
  then have "unat ?c < length (afr_gpu_indices a)" using r by (simp add: afr_rotation_def)
  then have "aget (afr_gpu_indices a) ?c = Inr (ids ! (k mod ?n))" using g by (simp add: aget_def)
  moreover have "afr_gpu_count a \<noteq> 0" using n by (metis less_numeral_extra(3) unat_0)
  ultimately show ?thesis using r by (auto simp: afr_get_next_gpu_def afr_rotation_def)
qed

lemma distribute_afr_rotation:
  assumes r: "afr_rotation ids k (sc_afr s)" and w: "sc_heap s p = Some w" "unassigned w"
    and m: "wd_gpu_mask (wl_descriptor w) = 0xFFFFFFFF" and g: "ids ! (k mod length ids) \<noteq> NO_GPU"
  shows "\<exists>a'. mvgal_scheduler_distribute_afr (Some p) s =
      Inr (MVGAL_SUCCESS, put_wl p (assign_single (ids ! (k mod length ids)) w) (s\<lparr>sc_afr := a'\<rparr>))
    \<and> afr_rotation ids (Suc k) a'"
proof -
  have i: "afr_init (sc_afr s) = sc_afr s" using r by (simp add: afr_rotation_def afr_init_def)
  from afr_next_rotation [OF r] obtain a' where
    "afr_get_next_gpu (sc_afr s) = Inr (ids ! (k mod length ids), a')" "afr_rotation ids (Suc k) a'" by blast
  with i w m g show ?thesis
    by (intro exI [of _ a']) (simp add: mvgal_scheduler_distribute_afr_def sderef_def unassigned_def Let_def)
qed

text \<open>A strategy applied to one workload after the other; every application must succeed.\<close>

fun distribute_all ::
    "(nat option \<Rightarrow> mvgal_scheduler_state_t \<Rightarrow> (mvgal_error_t \<times> mvgal_scheduler_state_t) run) \<Rightarrow>
       nat list \<Rightarrow> mvgal_scheduler_state_t \<Rightarrow> mvgal_scheduler_state_t option" where
  "distribute_all f [] s = Some s"
| "distribute_all f (p # ps) s =
     (case f (Some p) s of Inr (MVGAL_SUCCESS, s') \<Rightarrow> distribute_all f ps s' | _ \<Rightarrow> None)"

lemma distribute_all_afr:
  assumes "afr_rotation ids k (sc_afr s)" and "NO_GPU \<notin> set ids" and "distinct ps"
    and "\<forall>p \<in> set ps. \<exists>w. sc_heap s p = Some w \<and> unassigned w \<and> wd_gpu_mask (wl_descriptor w) = 0xFFFFFFFF"
  shows "\<exists>s'. distribute_all mvgal_scheduler_distribute_afr ps s = Some s'
    \<and> (\<forall>x. x \<notin> set ps \<longrightarrow> sc_heap s' x = sc_heap s x)
    \<and> (\<forall>j < length ps. \<exists>w. sc_heap s' (ps ! j) = Some w
         \<and> wd_assigned_gpu (wl_descriptor w) = ids ! ((k + j) mod length ids))"
  using assms
proof (induction ps arbitrary: k s)
  case (Cons p ps)
  let ?g = "ids ! (k mod length ids)"
  from Cons.prems(4) obtain w where w: "sc_heap s p = Some w" "unassigned w" "wd_gpu_mask (wl_descriptor w) = 0xFFFFFFFF"
    by auto
  have "ids \<noteq> []" using Cons.prems(1) by (simp add: afr_rotation_def)
  then have "?g \<in> set ids" by simp
  with Cons.prems(2) have "?g \<noteq> NO_GPU" by metis
  from distribute_afr_rotation [OF Cons.prems(1) w this] obtain a' where
    d: "mvgal_scheduler_distribute_afr (Some p) s = Inr (MVGAL_SUCCESS, put_wl p (assign_single ?g w) (s\<lparr>sc_afr := a'\<rparr>))"
      and r: "afr_rotation ids (Suc k) a'" by blast
  let ?s1 = "put_wl p (assign_single ?g w) (s\<lparr>sc_afr := a'\<rparr>)"
  have h1: "sc_heap ?s1 = (sc_heap s)(p \<mapsto> assign_single ?g w)" "sc_afr ?s1 = a'" by (simp_all add: put_wl_def)
  have pre: "\<forall>q \<in> set ps. \<exists>w. sc_heap ?s1 q = Some w \<and> unassigned w \<and> wd_gpu_mask (wl_descriptor w) = 0xFFFFFFFF"
    using Cons.prems(3,4) by (auto simp: h1)
  obtain s' where s': "distribute_all mvgal_scheduler_distribute_afr ps ?s1 = Some s'"
    "\<forall>x. x \<notin> set ps \<longrightarrow> sc_heap s' x = sc_heap ?s1 x"
    "\<forall>j < length ps. \<exists>w. sc_heap s' (ps ! j) = Some w \<and> wd_assigned_gpu (wl_descriptor w) = ids ! ((Suc k + j) mod length ids)"
    using Cons.IH [of "Suc k" ?s1] r Cons.prems(2,3) pre by (auto simp: h1)
  have "sc_heap s' p = Some (assign_single ?g w)" using s'(2) Cons.prems(3) by (simp add: h1)
  then have "\<exists>w. sc_heap s' ((p # ps) ! j) = Some w \<and> wd_assigned_gpu (wl_descriptor w) = ids ! ((k + j) mod length ids)"
    if "j < length (p # ps)" for j
    using s'(3) that by (cases j) (auto simp: assign_single_def assign_gpu_def)
  with s'(1,2) d show ?case by (auto simp: h1)
qed simp

lemma mask_indices_set: "g \<in> set (mask_indices mk) \<Longrightarrow> g \<noteq> NO_GPU"
  by (auto simp: mask_indices_def dest: of_nat_not_NO_GPU)

lemma mask_indices_length: "length (mask_indices mk) \<le> 16"
  unfolding mask_indices_def by (simp add: order_trans [OF length_filter_le])

lemma distribute_afr_masked:
  assumes w: "sc_heap s p = Some w" "unassigned w" and m: "wd_gpu_mask (wl_descriptor w) = mk"
    and mk: "mk \<noteq> 0xFFFFFFFF" "mask_indices mk \<noteq> []" and a: "length (afr_gpu_indices (sc_afr s)) = 16"
  shows "\<exists>a'. mvgal_scheduler_distribute_afr (Some p) s =
      Inr (MVGAL_SUCCESS, put_wl p (assign_single (hd (mask_indices mk)) w) (s\<lparr>sc_afr := a'\<rparr>))"
proof -
  have "length (afr_gpu_indices (afr_init (sc_afr s))) = 16" using a by (simp add: afr_init_def)
  from afr_configure_rotation [OF mk(2) mask_indices_length this] obtain a1 where
    c: "afr_configure (Some (mask_indices mk)) (afr_init (sc_afr s)) = (MVGAL_SUCCESS, a1)" and
    r: "afr_rotation (mask_indices mk) 0 a1" by blast
  from afr_next_rotation [OF r] mk(2) obtain a' where "afr_get_next_gpu a1 = Inr (hd (mask_indices mk), a')"
    by (auto simp: hd_conv_nth)
  moreover have "hd (mask_indices mk) \<noteq> NO_GPU" using mk(2) hd_in_set mask_indices_set by blast
  ultimately show ?thesis
    using w m mk c
    by (intro exI [of _ a']) (simp add: mvgal_scheduler_distribute_afr_def sderef_def unassigned_def Let_def)
qed

text \<open>
  C11. Alternate frame rendering over a configured list of GPUs hands out workloads in turn: the
  \<open>j\<close>-th of a sequence of workloads without a mask or pre-assigned GPUs goes to entry \<open>j\<close> modulo the
  length of the list. A workload with a mask restarts the rotation on the GPUs of its mask, so it
  always goes to the lowest of them.
\<close>

theorem afr_round_robin:
  assumes "ids \<noteq> []" and "length ids \<le> 16" and "NO_GPU \<notin> set ids"
    and "afr_configure (Some ids) a = (MVGAL_SUCCESS, sc_afr s)" and "length (afr_gpu_indices a) = 16" and "distinct ps"
    and "\<forall>p \<in> set ps. \<exists>w. sc_heap s p = Some w \<and> unassigned w \<and> wd_gpu_mask (wl_descriptor w) = 0xFFFFFFFF"
    and "sc_heap s m = Some wm" and "unassigned wm" and "wd_gpu_mask (wl_descriptor wm) \<noteq> 0xFFFFFFFF"
    and "mask_indices (wd_gpu_mask (wl_descriptor wm)) \<noteq> []"
  shows "(\<exists>s'. distribute_all mvgal_scheduler_distribute_afr ps s = Some s'
      \<and> (\<forall>j < length ps. \<exists>w. sc_heap s' (ps ! j) = Some w
           \<and> wd_assigned_gpu (wl_descriptor w) = ids ! (j mod length ids)))
    \<and> (\<exists>s' w. mvgal_scheduler_distribute_afr (Some m) s = Inr (MVGAL_SUCCESS, s') \<and> sc_heap s' m = Some w
         \<and> wd_assigned_gpu (wl_descriptor w) = hd (mask_indices (wd_gpu_mask (wl_descriptor wm))))"
proof
  from afr_configure_rotation [OF assms(1,2,5)] assms(4) have r: "afr_rotation ids 0 (sc_afr s)" by auto
  from distribute_all_afr [OF r assms(3,6,7)]
  show "\<exists>s'. distribute_all mvgal_scheduler_distribute_afr ps s = Some s'
      \<and> (\<forall>j < length ps. \<exists>w. sc_heap s' (ps ! j) = Some w
           \<and> wd_assigned_gpu (wl_descriptor w) = ids ! (j mod length ids))" by auto
  have "length (afr_gpu_indices (sc_afr s)) = 16" using r by (simp add: afr_rotation_def)
  from distribute_afr_masked [OF assms(8,9) refl assms(10,11) this]
  show "\<exists>s' w. mvgal_scheduler_distribute_afr (Some m) s = Inr (MVGAL_SUCCESS, s') \<and> sc_heap s' m = Some w
         \<and> wd_assigned_gpu (wl_descriptor w) = hd (mask_indices (wd_gpu_mask (wl_descriptor wm)))"
    by (auto simp: put_wl_def assign_single_def assign_gpu_def)
qed

text \<open>Three frames alternate between the GPUs 3 and 5, and a workload for the GPUs 1 and 2 goes to GPU 1: the witness for C11.\<close>

definition three_frames :: mvgal_scheduler_state_t where
  "three_frames = idle_sched\<lparr>sc_afr := snd (afr_configure (Some [3, 5]) afr_zero),
     sc_heap := (\<lambda>p. Some (zero_workload\<lparr>wl_descriptor :=
       zero_workload_descriptor\<lparr>wd_gpu_mask := if p = 9 then 6 else 0xFFFFFFFF\<rparr>\<rparr>))\<rparr>"

theorem afr_round_robin_witness:
  "(\<exists>s'. distribute_all mvgal_scheduler_distribute_afr [0, 1, 2] three_frames = Some s'
      \<and> map (\<lambda>p. map_option (\<lambda>w. wd_assigned_gpu (wl_descriptor w)) (sc_heap s' p)) [0, 1, 2] = [Some 3, Some 5, Some 3])
   \<and> (\<exists>s' w. mvgal_scheduler_distribute_afr (Some 9) three_frames = Inr (MVGAL_SUCCESS, s') \<and> sc_heap s' 9 = Some w
         \<and> wd_assigned_gpu (wl_descriptor w) = 1)"
proof -
  let ?wm = "zero_workload\<lparr>wl_descriptor := zero_workload_descriptor\<lparr>wd_gpu_mask := 6\<rparr>\<rparr>"
  have c: "afr_configure (Some [3, 5]) afr_zero = (MVGAL_SUCCESS, sc_afr three_frames)"
    by (simp add: three_frames_def afr_configure_def)
  have mi: "mask_indices 6 = [1, 2]" by code_simp
  have u: "unassigned (zero_workload\<lparr>wl_descriptor := d\<rparr>)" for d by (simp add: unassigned_def zero_workload_def)
  have ps: "\<forall>p \<in> set [0, 1, 2]. \<exists>w. sc_heap three_frames p = Some w \<and> unassigned w \<and> wd_gpu_mask (wl_descriptor w) = 0xFFFFFFFF"
    using u by (auto simp: three_frames_def)
  have m: "sc_heap three_frames 9 = Some ?wm" by (simp add: three_frames_def)
  have a: "length (afr_gpu_indices afr_zero) = 16" by (simp add: afr_zero_def)
  have n: "[3, 5 :: u32] \<noteq> []" "length [3, 5 :: u32] \<le> 16" "NO_GPU \<notin> set [3, 5]" "distinct [0, 1, 2 :: nat]" by simp_all
  have mk: "wd_gpu_mask (wl_descriptor ?wm) = 6" by simp
  from afr_round_robin [OF n(1-3) c a n(4) ps m u, unfolded mk mi]
  show ?thesis by (auto simp: All_less_Suc simp del: distribute_all.simps)
qed

end
