(* ===== verification/Sched_Core.thy ===== *)
theory Sched_Core
  imports Strategies Fence_Sync
begin

unbundle bit_operations_syntax

text \<open>
  The user-space scheduler (\<^verbatim>\<open>src/userspace/scheduler/scheduler.c\<close>): start and stop, the life of a
  workload, the loop that serves the ready queue, and the public interface. An operation takes the global
  state and returns it; a fault of the run (a dangling pointer, an array index out of range) is \<open>Inl\<close>.
  Every operation is one step under its locks.
\<close>

section \<open>Start and stop\<close>

text \<open>The part of a GPU descriptor that the scheduler reads.\<close>

record scanned_gpu_t =
  gd_available :: bool
  gd_enabled :: bool
  gd_features :: u64
  gd_compute_score :: f32
  gd_graphics_score :: f32

definition get_time_ns :: "mvgal_scheduler_state_t \<Rightarrow> u64 \<times> mvgal_scheduler_state_t" where
  "get_time_ns s = (sc_clock s (sc_ticks s), s\<lparr>sc_ticks := Suc (sc_ticks s)\<rparr>)"

definition found_gpu :: "scanned_gpu_t \<Rightarrow> mvgal_gpu_state_t" where
  "found_gpu g = initial_gpu\<lparr>gs_available := gd_enabled g \<and> gd_available g, gs_features := gd_features g,
     gs_compute_score := gd_compute_score g, gs_graphics_score := gd_graphics_score g, gs_priority := 50\<rparr>"

text \<open>
  \<open>found\<close> are the GPUs the GPU manager knows; \<^verbatim>\<open>mvgal_gpu_enumerate\<close> copies at most sixteen of
  them. A splitter array that is still allocated is lost, not freed.
\<close>

definition mvgal_scheduler_module_init ::
    "scanned_gpu_t list \<Rightarrow> mvgal_scheduler_state_t \<Rightarrow> mvgal_error_t \<times> mvgal_scheduler_state_t" where
  "mvgal_scheduler_module_init found s =
     (if sc_initialized s then (MVGAL_ERROR_ALREADY_INITIALIZED, s)
      else
        (let gpus = take MVGAL_SCHEDULER_MAX_GPUS found
         in (MVGAL_SUCCESS,
             s\<lparr>sc_paused := False, sc_running := False, sc_thread_running := False, sc_config := initial_config,
               sc_global_queue := workload_queue_init, sc_ready_queue := workload_queue_init,
               sc_running_queue := workload_queue_init, sc_completed_queue := workload_queue_init,
               sc_gpu_count := of_nat (length gpus),
               sc_gpus := map found_gpu gpus @ replicate (MVGAL_SCHEDULER_MAX_GPUS - length gpus) initial_gpu,
               sc_stats := \<lparr>st_workloads_submitted = 0, st_workloads_completed = 0, st_workloads_failed = 0\<rparr>,
               sc_splitters := [], sc_splitter_count := 0, sc_next_workload_id := 1, sc_initialized := True\<rparr>)))"

text \<open>The queues keep the workloads that were not processed, and the number of splitters is not reset.\<close>

definition mvgal_scheduler_module_shutdown :: "mvgal_scheduler_state_t \<Rightarrow> mvgal_scheduler_state_t" where
  "mvgal_scheduler_module_shutdown s =
     (if \<not> sc_initialized s then s
      else
        (let s1 = (if sc_thread_running s then s\<lparr>sc_running := False, sc_thread_running := False\<rparr> else s)
         in s1\<lparr>sc_splitters := [], sc_initialized := False\<rparr>))"

section \<open>Life of a workload\<close>

record mvgal_workload_submit_info_t =
  si_type :: mvgal_workload_type_t
  si_priority :: u32
  si_deadline :: u64
  si_gpu_mask :: u32
  si_dependency_count :: u32
  si_dependencies :: "nat option"
  si_user_data :: "nat option"

text \<open>\<open>a\<close> is the address that \<^verbatim>\<open>calloc\<close> returns if it succeeds.\<close>

definition mvgal_workload_create_internal ::
    "nat \<Rightarrow> mvgal_workload_submit_info_t \<Rightarrow> mvgal_scheduler_state_t \<Rightarrow> nat option \<times> mvgal_scheduler_state_t" where
  "mvgal_workload_create_internal a info s =
     (if \<not> sc_calloc_ok s (sc_ticks s) then (None, s)
      else
        (let (now, s1) = get_time_ns s;
             desc = zero_workload_descriptor
               \<lparr>wd_id := ucast (sc_next_workload_id s), wd_type := si_type info, wd_priority := si_priority info,
                wd_submission_time := now, wd_deadline := si_deadline info, wd_gpu_preference := NO_GPU,
                wd_gpu_mask := ucast (si_gpu_mask info), wd_dependency_count := si_dependency_count info,
                wd_dependencies := si_dependencies info, wd_assigned_gpu := NO_GPU\<rparr>
         in (Some a, put_wl a (zero_workload\<lparr>wl_refcount := 1, wl_descriptor := desc, wl_user_data := si_user_data info\<rparr>)
                       (s1\<lparr>sc_next_workload_id := sc_next_workload_id s + 1\<rparr>))))"

text \<open>
  A completion callback belongs to the client; its call is recorded, and it is taken not to call the
  scheduler.
\<close>

definition completed_as :: "mvgal_error_t \<Rightarrow> u64 \<Rightarrow> mvgal_workload \<Rightarrow> mvgal_workload" where
  "completed_as result now w =
     w\<lparr>wl_end_time := now,
       wl_state := (if result = MVGAL_SUCCESS then MVGAL_WORKLOAD_STATE_COMPLETED else MVGAL_WORKLOAD_STATE_FAILED),
       wl_descriptor := (wl_descriptor w)\<lparr>wd_completed := True, wd_result := result, wd_end_time := now\<rparr>,
       wl_completion_signaled := True, wl_completion_status := result\<rparr>"

definition mvgal_workload_complete ::
    "nat option \<Rightarrow> mvgal_error_t \<Rightarrow> mvgal_scheduler_state_t \<Rightarrow> mvgal_scheduler_state_t run" where
  "mvgal_workload_complete workload result s =
     (case workload of
        None \<Rightarrow> Inr s
      | Some p \<Rightarrow>
          bnd (sderef s p) (\<lambda>w.
            let (now, s1) = get_time_ns s;
                s2 = put_wl p (completed_as result now w) s1;
                st = sc_stats s2;
                st1 = st\<lparr>st_workloads_completed := st_workloads_completed st + 1\<rparr>;
                st2 = (if result \<noteq> MVGAL_SUCCESS then st1\<lparr>st_workloads_failed := st_workloads_failed st1 + 1\<rparr> else st1);
                s3 = s2\<lparr>sc_stats := st2\<rparr>
            in Inr (case wl_callback w of
                      None \<Rightarrow> s3
                    | Some f \<Rightarrow> s3\<lparr>sc_callbacks := (f, p, result, wl_user_data w) # sc_callbacks s3\<rparr>)))"

section \<open>Scheduling\<close>

definition auto_strategy :: "mvgal_workload_type_t \<Rightarrow> mvgal_distribution_strategy_t" where
  "auto_strategy t =
     (case t of
        MVGAL_WORKLOAD_GRAPHICS \<Rightarrow> MVGAL_STRATEGY_AFR
      | MVGAL_WORKLOAD_COMPUTE \<Rightarrow> MVGAL_STRATEGY_COMPUTE_OFFLOAD
      | MVGAL_WORKLOAD_VIDEO \<Rightarrow> MVGAL_STRATEGY_SFR
      | _ \<Rightarrow> MVGAL_STRATEGY_SINGLE_GPU)"

definition mvgal_scheduler_apply_strategy ::
    "nat option \<Rightarrow> mvgal_scheduler_state_t \<Rightarrow> (mvgal_error_t \<times> mvgal_scheduler_state_t) run" where
  "mvgal_scheduler_apply_strategy workload s =
     (case workload of
        None \<Rightarrow> Inr (MVGAL_ERROR_INVALID_ARGUMENT, s)
      | Some p \<Rightarrow>
          bnd (sderef s p) (\<lambda>w.
            let configured = cf_strategy (sc_config s);
                strategy = (if configured = MVGAL_STRATEGY_AUTO then auto_strategy (wd_type (wl_descriptor w))
                            else configured)
            in case strategy of
                 MVGAL_STRATEGY_AFR \<Rightarrow> mvgal_scheduler_distribute_afr workload s
               | MVGAL_STRATEGY_SFR \<Rightarrow> mvgal_scheduler_distribute_sfr workload s
               | MVGAL_STRATEGY_TASK \<Rightarrow> mvgal_scheduler_distribute_task workload s
               | MVGAL_STRATEGY_COMPUTE_OFFLOAD \<Rightarrow> assign_best p s
               | MVGAL_STRATEGY_HYBRID \<Rightarrow> assign_best p s
               | MVGAL_STRATEGY_SINGLE_GPU \<Rightarrow> assign_best p s
               | _ \<Rightarrow> Inr (MVGAL_ERROR_NOT_SUPPORTED, s)))"

text \<open>A well-formed queue has as many nodes as it counts, so the search may visit that many.\<close>

definition take_ready ::
    "mvgal_scheduler_state_t \<Rightarrow> (nat option \<times> mvgal_scheduler_state_t) run" where
  "take_ready s =
     bnd (mvgal_workload_dequeue_priority (unat (wq_count (sc_ready_queue s))) (sc_ready_queue s) (sc_heap s))
       (\<lambda>(workload, q, h). Inr (workload, s\<lparr>sc_ready_queue := q, sc_heap := h\<rparr>))"

definition release_ref :: "nat option \<Rightarrow> mvgal_scheduler_state_t \<Rightarrow> mvgal_scheduler_state_t run" where
  "release_ref workload s = bnd (mvgal_workload_release workload (sc_heap s)) (\<lambda>h. Inr (s\<lparr>sc_heap := h\<rparr>))"

text \<open>What the loops of the scheduler do with a workload they took from the queue.\<close>

definition run_workload :: "nat \<Rightarrow> mvgal_scheduler_state_t \<Rightarrow> mvgal_scheduler_state_t run" where
  "run_workload p s =
     bnd (mvgal_scheduler_apply_strategy (Some p) s) (\<lambda>(_, s1).
     bnd (mvgal_workload_complete (Some p) MVGAL_SUCCESS s1) (\<lambda>s2.
       release_ref (Some p) s2))"

text \<open>
  One turn of the loop of \<^verbatim>\<open>mvgal_scheduler_thread\<close>: \<open>None\<close> when the thread leaves the loop; it goes to
  sleep and comes back to the head of the loop when there is nothing to do.
\<close>

definition mvgal_scheduler_thread_turn :: "mvgal_scheduler_state_t \<Rightarrow> mvgal_scheduler_state_t option run" where
  "mvgal_scheduler_thread_turn s =
     (if \<not> sc_running s then Inr None
      else if sc_paused s \<or> wq_count (sc_ready_queue s) = 0 then Inr (Some s)
      else
        bnd (take_ready s) (\<lambda>(workload, s1).
          case workload of
            None \<Rightarrow> Inr (Some s1)
          | Some p \<Rightarrow> bnd (run_workload p s1) (\<lambda>s2. Inr (Some s2))))"

text \<open>The loop need not end; the first argument bounds the turns.\<close>

fun process_loop :: "nat \<Rightarrow> mvgal_scheduler_state_t \<Rightarrow> mvgal_scheduler_state_t run" where
  "process_loop n s =
     (if wq_count (sc_ready_queue s) = 0 then Inr s
      else case n of
             0 \<Rightarrow> Inl Depth_Exceeded
           | Suc m \<Rightarrow>
               bnd (take_ready s) (\<lambda>(workload, s1).
                 case workload of
                   None \<Rightarrow> process_loop m s1
                 | Some p \<Rightarrow> bnd (run_workload p s1) (process_loop m)))"

declare process_loop.simps [simp del]

definition mvgal_scheduler_process_internal ::
    "nat \<Rightarrow> mvgal_scheduler_state_t \<Rightarrow> (mvgal_error_t \<times> mvgal_scheduler_state_t) run" where
  "mvgal_scheduler_process_internal n s =
     (if \<not> sc_initialized s then Inr (MVGAL_ERROR_NOT_INITIALIZED, s)
      else bnd (process_loop n s) (\<lambda>s1. Inr (MVGAL_SUCCESS, s1)))"

section \<open>The interface\<close>

definition ensure_scheduler :: "scanned_gpu_t list \<Rightarrow> mvgal_scheduler_state_t \<Rightarrow> mvgal_error_t \<times> mvgal_scheduler_state_t" where
  "ensure_scheduler found s =
     (if \<not> sc_initialized s then mvgal_scheduler_module_init found s else (MVGAL_SUCCESS, s))"

text \<open>
  From the creation of a workload to the end of a submission, the same in both functions: the workload is
  prepared and queued, and destroyed again if the queue is full; without a scheduler thread the queue is
  processed at once.
\<close>

definition enqueue_new ::
    "nat \<Rightarrow> (mvgal_workload \<Rightarrow> mvgal_workload) \<Rightarrow> mvgal_scheduler_state_t \<Rightarrow>
       (mvgal_error_t \<times> mvgal_scheduler_state_t) run" where
  "enqueue_new p prepare s =
     bnd (sderef s p) (\<lambda>w0.
     let (now, s1) = get_time_ns s;
         w1 = prepare w0;
         w2 = w1\<lparr>wl_state := MVGAL_WORKLOAD_STATE_QUEUED, wl_queue_time := now,
                 wl_descriptor := (wl_descriptor w1)\<lparr>wd_submission_time := now\<rparr>\<rparr>;
         s2 = put_wl p w2 s1
     in bnd (mvgal_workload_queue (Some p) (sc_ready_queue s2) (sc_heap s2)) (\<lambda>(err, q, h).
          let s3 = s2\<lparr>sc_ready_queue := q, sc_heap := h\<rparr>
          in if err \<noteq> MVGAL_SUCCESS then
               bnd (mvgal_workload_destroy_internal (Some p) (sc_heap s3)) (\<lambda>h4. Inr (err, s3\<lparr>sc_heap := h4\<rparr>))
             else
               Inr (MVGAL_SUCCESS,
                    s3\<lparr>sc_stats := (sc_stats s3)\<lparr>st_workloads_submitted := st_workloads_submitted (sc_stats s3) + 1\<rparr>\<rparr>)))"

definition queue_new ::
    "nat \<Rightarrow> nat \<Rightarrow> (mvgal_workload \<Rightarrow> mvgal_workload) \<Rightarrow> mvgal_scheduler_state_t \<Rightarrow>
       (mvgal_error_t \<times> mvgal_scheduler_state_t) run" where
  "queue_new n p prepare s =
     bnd (enqueue_new p prepare s) (\<lambda>(err, s1).
       if err = MVGAL_SUCCESS \<and> \<not> sc_thread_running s1 then mvgal_scheduler_process_internal n s1
       else Inr (err, s1))"

text \<open>
  \<open>a\<close> is the address of the new workload; \<open>out\<close> says whether the caller passes a place for the handle,
  which is the second part of the result.
\<close>

definition mvgal_workload_submit ::
    "nat \<Rightarrow> scanned_gpu_t list \<Rightarrow> nat \<Rightarrow> nat option \<Rightarrow> mvgal_workload_submit_info_t option \<Rightarrow> bool \<Rightarrow>
       mvgal_scheduler_state_t \<Rightarrow> (mvgal_error_t \<times> nat option \<times> mvgal_scheduler_state_t) run" where
  "mvgal_workload_submit n found a ctx info out s =
     (case info of
        None \<Rightarrow> Inr (MVGAL_ERROR_INVALID_ARGUMENT, None, s)
      | Some i \<Rightarrow>
          if \<not> out then Inr (MVGAL_ERROR_INVALID_ARGUMENT, None, s)
          else
            (let (err, s1) = ensure_scheduler found s
             in if err \<noteq> MVGAL_SUCCESS then Inr (err, None, s1)
                else case mvgal_workload_create_internal a i s1 of
                       (None, s2) \<Rightarrow> Inr (MVGAL_ERROR_OUT_OF_MEMORY, None, s2)
                     | (Some p, s2) \<Rightarrow>
                         bnd (queue_new n p (\<lambda>w. w\<lparr>wl_context := ctx,
                                wl_descriptor := (wl_descriptor w)\<lparr>wd_api := 0\<rparr>\<rparr>) s2) (\<lambda>(err2, s3).
                           Inr (err2, if err2 = MVGAL_SUCCESS then Some p else None, s3))))"

text \<open>With a callback the pointers are not checked.\<close>

definition mvgal_workload_submit_with_callback ::
    "nat \<Rightarrow> scanned_gpu_t list \<Rightarrow> nat \<Rightarrow> nat option \<Rightarrow> mvgal_workload_submit_info_t option \<Rightarrow> nat option \<Rightarrow> bool \<Rightarrow>
       mvgal_scheduler_state_t \<Rightarrow> (mvgal_error_t \<times> nat option \<times> mvgal_scheduler_state_t) run" where
  "mvgal_workload_submit_with_callback n found a ctx info callback out s =
     (case callback of
        None \<Rightarrow> mvgal_workload_submit n found a ctx info out s
      | Some f \<Rightarrow>
          (let (err, s1) = ensure_scheduler found s
           in if err \<noteq> MVGAL_SUCCESS then Inr (err, None, s1)
              else if \<not> sc_calloc_ok s1 (sc_ticks s1) then Inr (MVGAL_ERROR_OUT_OF_MEMORY, None, s1)
              else case info of
                     None \<Rightarrow> Inl Null_Pointer
                   | Some i \<Rightarrow>
                       (case mvgal_workload_create_internal a i s1 of
                          (None, s2) \<Rightarrow> Inr (MVGAL_ERROR_OUT_OF_MEMORY, None, s2)
                        | (Some p, s2) \<Rightarrow>
                            bnd (queue_new n p (\<lambda>w. w\<lparr>wl_context := ctx, wl_callback := Some f\<rparr>) s2) (\<lambda>(err2, s3).
                              if err2 \<noteq> MVGAL_SUCCESS then Inr (err2, None, s3)
                              else if out then Inr (MVGAL_SUCCESS, Some p, s3) else Inl Null_Pointer))))"

text \<open>A wait leaves the loop early only on \<^verbatim>\<open>ETIMEDOUT\<close>.\<close>

definition workload_early :: "pthread_ret \<Rightarrow> mvgal_error_t option" where
  "workload_early ret = (case ret of ETIMEDOUT \<Rightarrow> Some MVGAL_ERROR_TIMEOUT | _ \<Rightarrow> None)"

definition mvgal_workload_wait ::
    "mvgal_workload option \<Rightarrow> u32 \<Rightarrow> timespec \<Rightarrow> mvgal_workload wait_env \<Rightarrow>
       (mvgal_workload option \<times> mvgal_error_t) option" where
  "mvgal_workload_wait workload timeout_ms now env =
     (case workload of
        None \<Rightarrow> Some (None, MVGAL_ERROR_INVALID_ARGUMENT)
      | Some w \<Rightarrow>
          if wl_completion_signaled w then Some (Some w, wl_completion_status w)
          else case block_until workload_early wl_completion_signaled (ms_deadline now timeout_ms) w env of
                 None \<Rightarrow> None
               | Some (v, None) \<Rightarrow> Some (Some v, wl_completion_status v)
               | Some (v, Some e) \<Rightarrow> Some (Some v, e))"

definition mvgal_workload_is_completed :: "nat option \<Rightarrow> mvgal_scheduler_state_t \<Rightarrow> bool run" where
  "mvgal_workload_is_completed workload s =
     (case workload of None \<Rightarrow> Inr True | Some p \<Rightarrow> bnd (sderef s p) (\<lambda>w. Inr (wl_completion_signaled w)))"

definition mvgal_workload_get_result :: "nat option \<Rightarrow> mvgal_scheduler_state_t \<Rightarrow> mvgal_error_t run" where
  "mvgal_workload_get_result workload s =
     (case workload of
        None \<Rightarrow> Inr MVGAL_ERROR_INVALID_ARGUMENT
      | Some p \<Rightarrow> bnd (sderef s p) (\<lambda>w. Inr (wl_completion_status w)))"

definition mvgal_workload_get_descriptor ::
    "nat option \<Rightarrow> bool \<Rightarrow> mvgal_scheduler_state_t \<Rightarrow> (mvgal_error_t \<times> mvgal_workload_descriptor_t option) run" where
  "mvgal_workload_get_descriptor workload out s =
     (case workload of
        None \<Rightarrow> Inr (MVGAL_ERROR_INVALID_ARGUMENT, None)
      | Some p \<Rightarrow>
          if \<not> out then Inr (MVGAL_ERROR_INVALID_ARGUMENT, None)
          else bnd (sderef s p) (\<lambda>w. Inr (MVGAL_SUCCESS, Some (wl_descriptor w))))"

definition mvgal_workload_cancel ::
    "nat option \<Rightarrow> mvgal_scheduler_state_t \<Rightarrow> (mvgal_error_t \<times> mvgal_scheduler_state_t) run" where
  "mvgal_workload_cancel workload s =
     (case workload of
        None \<Rightarrow> Inr (MVGAL_ERROR_INVALID_ARGUMENT, s)
      | Some p \<Rightarrow>
          bnd (sderef s p) (\<lambda>w.
            if wl_state w = MVGAL_WORKLOAD_STATE_PENDING \<or> wl_state w = MVGAL_WORKLOAD_STATE_QUEUED then
              Inr (MVGAL_SUCCESS,
                   put_wl p (w\<lparr>wl_state := MVGAL_WORKLOAD_STATE_CANCELLED, wl_completion_signaled := True,
                               wl_completion_status := MVGAL_ERROR_INTERRUPTED\<rparr>)
                     (s\<lparr>sc_stats := (sc_stats s)\<lparr>st_workloads_failed := st_workloads_failed (sc_stats s) + 1\<rparr>\<rparr>))
            else Inr (MVGAL_ERROR_NOT_SUPPORTED, s)))"

definition mvgal_workload_destroy :: "nat option \<Rightarrow> mvgal_scheduler_state_t \<Rightarrow> mvgal_scheduler_state_t run" where
  "mvgal_workload_destroy workload s = (case workload of None \<Rightarrow> Inr s | Some p \<Rightarrow> release_ref (Some p) s)"

definition mvgal_workload_set_priority ::
    "nat option \<Rightarrow> u32 \<Rightarrow> mvgal_scheduler_state_t \<Rightarrow> (mvgal_error_t \<times> mvgal_scheduler_state_t) run" where
  "mvgal_workload_set_priority workload priority s =
     (case workload of
        None \<Rightarrow> Inr (MVGAL_ERROR_INVALID_ARGUMENT, s)
      | Some p \<Rightarrow>
          if 100 < priority then Inr (MVGAL_ERROR_INVALID_ARGUMENT, s)
          else
            bnd (sderef s p) (\<lambda>w.
              let w1 = w\<lparr>wl_descriptor := (wl_descriptor w)\<lparr>wd_priority := priority\<rparr>\<rparr>;
                  q = sc_ready_queue s;
                  q1 = (if wl_state w = MVGAL_WORKLOAD_STATE_QUEUED
                        then q\<lparr>wq_total_priority := wq_total_priority q - ucast (wl_priority w) + ucast priority\<rparr>
                        else q)
              in Inr (MVGAL_SUCCESS, put_wl p w1 (s\<lparr>sc_ready_queue := q1\<rparr>))))"

section \<open>Configuration\<close>

text \<open>The public configuration has a quantum of 32 bits, the internal one of 64.\<close>

record mvgal_scheduler_config_t =
  pc_strategy :: mvgal_distribution_strategy_t
  pc_dynamic_load_balance :: bool
  pc_thermal_aware :: bool
  pc_power_aware :: bool
  pc_load_balance_threshold :: f32
  pc_max_queued_workloads :: u32
  pc_quantum_ns :: u32

definition mvgal_scheduler_configure ::
    "mvgal_scheduler_config_t option \<Rightarrow> mvgal_scheduler_state_t \<Rightarrow> mvgal_error_t \<times> mvgal_scheduler_state_t" where
  "mvgal_scheduler_configure config s =
     (case config of
        None \<Rightarrow> (MVGAL_ERROR_INVALID_ARGUMENT, s)
      | Some c \<Rightarrow>
          (MVGAL_SUCCESS,
           s\<lparr>sc_config := (sc_config s)
               \<lparr>cf_strategy := pc_strategy c, cf_dynamic_load_balance := pc_dynamic_load_balance c,
                cf_thermal_aware := pc_thermal_aware c, cf_power_aware := pc_power_aware c,
                cf_load_balance_threshold := pc_load_balance_threshold c,
                cf_max_queued_workloads := pc_max_queued_workloads c, cf_quantum_ns := ucast (pc_quantum_ns c)\<rparr>\<rparr>))"

definition mvgal_scheduler_get_config ::
    "bool \<Rightarrow> mvgal_scheduler_state_t \<Rightarrow> mvgal_error_t \<times> mvgal_scheduler_config_t option" where
  "mvgal_scheduler_get_config out s =
     (if \<not> out then (MVGAL_ERROR_INVALID_ARGUMENT, None)
      else
        (let c = sc_config s
         in (MVGAL_SUCCESS,
             Some \<lparr>pc_strategy = cf_strategy c, pc_dynamic_load_balance = cf_dynamic_load_balance c,
                   pc_thermal_aware = cf_thermal_aware c, pc_power_aware = cf_power_aware c,
                   pc_load_balance_threshold = cf_load_balance_threshold c,
                   pc_max_queued_workloads = cf_max_queued_workloads c, pc_quantum_ns = ucast (cf_quantum_ns c)\<rparr>)))"

definition mvgal_scheduler_get_stats ::
    "bool \<Rightarrow> mvgal_scheduler_state_t \<Rightarrow> mvgal_error_t \<times> mvgal_scheduler_stats_t option" where
  "mvgal_scheduler_get_stats out s =
     (if \<not> out then (MVGAL_ERROR_INVALID_ARGUMENT, None) else (MVGAL_SUCCESS, Some (sc_stats s)))"

definition mvgal_scheduler_reset_stats :: "mvgal_scheduler_state_t \<Rightarrow> mvgal_scheduler_state_t" where
  "mvgal_scheduler_reset_stats s =
     s\<lparr>sc_stats := \<lparr>st_workloads_submitted = 0, st_workloads_completed = 0, st_workloads_failed = 0\<rparr>\<rparr>"

definition mvgal_scheduler_set_strategy ::
    "mvgal_distribution_strategy_t \<Rightarrow> mvgal_scheduler_state_t \<Rightarrow> mvgal_scheduler_state_t" where
  "mvgal_scheduler_set_strategy strategy s = s\<lparr>sc_config := (sc_config s)\<lparr>cf_strategy := strategy\<rparr>\<rparr>"

definition mvgal_scheduler_get_strategy :: "mvgal_scheduler_state_t \<Rightarrow> mvgal_distribution_strategy_t" where
  "mvgal_scheduler_get_strategy s = cf_strategy (sc_config s)"

text \<open>An index of sixteen or more is skipped: its place in the array keeps its value, but is counted.\<close>

fun assign_loop :: "nat \<Rightarrow> u32 list \<Rightarrow> mvgal_workload \<Rightarrow> mvgal_workload" where
  "assign_loop i [] w = w"
| "assign_loop i (g # gs) w =
     assign_loop (Suc i) gs
       (if g < 16
        then w\<lparr>wl_assigned_gpus := (wl_assigned_gpus w)[i := g],
               wl_descriptor := (wl_descriptor w)\<lparr>wd_gpu_mask := wd_gpu_mask (wl_descriptor w) OR push_bit (unat g) 1\<rparr>\<rparr>
        else w)"

definition mvgal_workload_assign_gpus ::
    "nat option \<Rightarrow> u32 list option \<Rightarrow> mvgal_scheduler_state_t \<Rightarrow> (mvgal_error_t \<times> mvgal_scheduler_state_t) run" where
  "mvgal_workload_assign_gpus workload gpu_indices s =
     (case (workload, gpu_indices) of
        (Some p, Some gs) \<Rightarrow>
          if gs = [] \<or> MVGAL_SCHEDULER_MAX_GPUS < length gs then Inr (MVGAL_ERROR_INVALID_ARGUMENT, s)
          else
            bnd (sderef s p) (\<lambda>w.
              let w1 = assign_loop 0 gs (w\<lparr>wl_assigned_gpu_count := of_nat (length gs)\<rparr>);
                  w2 = (if length gs = 1 then assign_gpu (gs ! 0) w1 else w1)
              in Inr (MVGAL_SUCCESS, put_wl p w2 s))
      | _ \<Rightarrow> Inr (MVGAL_ERROR_INVALID_ARGUMENT, s))"

text \<open>The array of splitters grows by one place, the copy of the argument goes to the place counted.\<close>

definition mvgal_scheduler_register_splitter ::
    "mvgal_workload_splitter_t option \<Rightarrow> mvgal_scheduler_state_t \<Rightarrow> mvgal_error_t \<times> mvgal_scheduler_state_t" where
  "mvgal_scheduler_register_splitter splitter s =
     (case splitter of
        None \<Rightarrow> (MVGAL_ERROR_INVALID_ARGUMENT, s)
      | Some sp \<Rightarrow>
          if sp_analyze sp = None \<or> sp_split sp = None \<or> sp_merge sp = None then (MVGAL_ERROR_INVALID_ARGUMENT, s)
          else if \<not> sc_calloc_ok s (sc_ticks s) then (MVGAL_ERROR_OUT_OF_MEMORY, s)
          else
            (let n = unat (sc_splitter_count s);
                 grown = take (Suc n) (sc_splitters s @ replicate (Suc n - length (sc_splitters s)) None)
             in (MVGAL_SUCCESS, s\<lparr>sc_splitters := grown[n := Some sp], sc_splitter_count := sc_splitter_count s + 1\<rparr>)))"

text \<open>
  A splitter is identified by its address, which is that of a place of the array or not.
\<close>

datatype splitter_ptr = Null_splitter | Array_place nat | Elsewhere

definition mvgal_scheduler_unregister_splitter ::
    "splitter_ptr \<Rightarrow> mvgal_scheduler_state_t \<Rightarrow> mvgal_error_t \<times> mvgal_scheduler_state_t" where
  "mvgal_scheduler_unregister_splitter splitter s =
     (case splitter of
        Array_place i \<Rightarrow>
          if i < unat (sc_splitter_count s) then
            (let n = sc_splitter_count s - 1
             in (MVGAL_SUCCESS,
                 s\<lparr>sc_splitter_count := n,
                   sc_splitters := (if n = 0 then []
                     else take i (sc_splitters s) @ take (unat n - i) (drop (Suc i) (sc_splitters s))
                          @ drop (unat n) (sc_splitters s))\<rparr>))
          else (MVGAL_ERROR_INVALID_ARGUMENT, s)
      | _ \<Rightarrow> (MVGAL_ERROR_INVALID_ARGUMENT, s))"

definition mvgal_scheduler_set_gpu_priority ::
    "u32 \<Rightarrow> u32 \<Rightarrow> mvgal_scheduler_state_t \<Rightarrow> mvgal_error_t \<times> mvgal_scheduler_state_t" where
  "mvgal_scheduler_set_gpu_priority gpu_index priority s =
     (if 16 \<le> gpu_index \<or> 100 < priority then (MVGAL_ERROR_INVALID_ARGUMENT, s)
      else
        (MVGAL_SUCCESS,
         s\<lparr>sc_config := (sc_config s)\<lparr>cf_gpu_priorities := (cf_gpu_priorities (sc_config s))[unat gpu_index := priority]\<rparr>,
           sc_gpus := (sc_gpus s)[unat gpu_index := (sc_gpu s (unat gpu_index))\<lparr>gs_priority := priority\<rparr>]\<rparr>))"

definition mvgal_scheduler_get_gpu_priority :: "u32 \<Rightarrow> bool \<Rightarrow> mvgal_scheduler_state_t \<Rightarrow> mvgal_error_t \<times> u32 option" where
  "mvgal_scheduler_get_gpu_priority gpu_index out s =
     (if \<not> out \<or> 16 \<le> gpu_index then (MVGAL_ERROR_INVALID_ARGUMENT, None)
      else (MVGAL_SUCCESS, Some (cf_gpu_priorities (sc_config s) ! unat gpu_index)))"

definition mvgal_scheduler_pause :: "mvgal_scheduler_state_t \<Rightarrow> mvgal_scheduler_state_t" where
  "mvgal_scheduler_pause s = s\<lparr>sc_paused := True\<rparr>"

definition mvgal_scheduler_resume :: "mvgal_scheduler_state_t \<Rightarrow> mvgal_scheduler_state_t" where
  "mvgal_scheduler_resume s = s\<lparr>sc_paused := False\<rparr>"

definition mvgal_scheduler_is_paused :: "mvgal_scheduler_state_t \<Rightarrow> bool" where
  "mvgal_scheduler_is_paused s = sc_paused s"

definition mvgal_scheduler_process ::
    "nat \<Rightarrow> mvgal_scheduler_state_t \<Rightarrow> (mvgal_error_t \<times> mvgal_scheduler_state_t) run" where
  "mvgal_scheduler_process n s = mvgal_scheduler_process_internal n s"

text \<open>The three explicit distributions store the GPUs without a bound and then call the strategy.\<close>

definition distribute_over ::
    "(nat option \<Rightarrow> mvgal_scheduler_state_t \<Rightarrow> (mvgal_error_t \<times> mvgal_scheduler_state_t) run) \<Rightarrow>
       nat option \<Rightarrow> u32 list option \<Rightarrow> mvgal_scheduler_state_t \<Rightarrow> (mvgal_error_t \<times> mvgal_scheduler_state_t) run" where
  "distribute_over strategy workload gpu_indices s =
     (case (workload, gpu_indices) of
        (Some p, Some gs) \<Rightarrow>
          if gs = [] then Inr (MVGAL_ERROR_INVALID_ARGUMENT, s)
          else
            bnd (sderef s p) (\<lambda>w.
            bnd (aput_all (wl_assigned_gpus w) gs) (\<lambda>assigned.
              strategy (Some p)
                (put_wl p (w\<lparr>wl_assigned_gpu_count := of_nat (length gs), wl_assigned_gpus := assigned\<rparr>) s)))
      | _ \<Rightarrow> Inr (MVGAL_ERROR_INVALID_ARGUMENT, s))"

definition mvgal_distribute_afr ::
    "nat option \<Rightarrow> u32 list option \<Rightarrow> mvgal_scheduler_state_t \<Rightarrow> (mvgal_error_t \<times> mvgal_scheduler_state_t) run" where
  "mvgal_distribute_afr = distribute_over mvgal_scheduler_distribute_afr"

definition mvgal_distribute_sfr ::
    "nat option \<Rightarrow> u32 list option \<Rightarrow> mvgal_scheduler_state_t \<Rightarrow> (mvgal_error_t \<times> mvgal_scheduler_state_t) run" where
  "mvgal_distribute_sfr = distribute_over mvgal_scheduler_distribute_sfr"

definition mvgal_distribute_task ::
    "nat option \<Rightarrow> u32 list option \<Rightarrow> mvgal_scheduler_state_t \<Rightarrow> (mvgal_error_t \<times> mvgal_scheduler_state_t) run" where
  "mvgal_distribute_task = distribute_over mvgal_scheduler_distribute_task"

end
