(* ===== verification/Sfr_Tiling.thy ===== *)
theory Sfr_Tiling
  imports Strategies
begin

text \<open>
  Split frame rendering cuts the frame into strips that tile it.  The equal split is integer arithmetic; the
  weighted split goes through rounded floats, so the strips are bounded through the rounding error of the shares.
\<close>

section \<open>Regions that tile a frame\<close>

text \<open>The pieces of a list start at \<open>y\<close>, end at \<open>bottom\<close> and leave no gap or overlap.\<close>

fun tiles_from :: "('r \<Rightarrow> u32) \<Rightarrow> ('r \<Rightarrow> u32) \<Rightarrow> nat \<Rightarrow> 'r list \<Rightarrow> nat \<Rightarrow> bool" where
  "tiles_from pos len y [] bottom \<longleftrightarrow> y = bottom"
| "tiles_from pos len y (r # rs) bottom \<longleftrightarrow> unat (pos r) = y \<and> tiles_from pos len (y + unat (len r)) rs bottom"

lemma tiles_from_map: "tiles_from pos len y (map f rs) b = tiles_from (pos \<circ> f) (len \<circ> f) y rs b"
  by (induction rs arbitrary: y) auto

lemma equal_regions_tile:
  assumes n: "N \<le> 16" and g: "length gpus = 16" and k: "k < N"
  shows "\<exists>rs. equal_regions gpus (of_nat N) (1080 div of_nat N) [k..<N] = Inr rs \<and> length rs = N - k
    \<and> tiles_from rg_y rg_height (k * (1080 div N)) rs 1080 \<and> map rg_gpu_index rs = map ((!) gpus) [k..<N]
    \<and> (\<forall>r \<in> set rs. rg_x r = 0 \<and> rg_width r = 1920)"
  using k
proof (induction "N - Suc k" arbitrary: k)
  case (0 k)
  then have kN: "Suc k = N" by simp
  then have l: "[k..<N] = [k]" by (simp add: upt_rec)
  let ?h = "1080 div of_nat N :: u32"
  have h: "unat ?h = 1080 div N" using n by (simp add: unat_div small_u32)
  have le: "k * (1080 div N) \<le> 1080"
    using kN by (intro order_trans [OF mult_le_mono1 [of k N] times_div_less_eq_dividend]) simp
  have y: "unat (of_nat k * ?h) = k * (1080 div N)"
    using n kN le h by (simp add: unat_word_ariths small_u32 unat_of_nat)
  have last: "of_nat k = (of_nat N - 1 :: u32)" using kN by (metis of_nat_Suc add_diff_cancel_left')
  have "unat (1080 - of_nat k * ?h) = 1080 - k * (1080 div N)"
    using y le by (subst unat_sub_no_wrap) (simp_all add: word_le_nat_alt)
  with l g n kN y le last [symmetric] show ?case
    by (simp add: aget_def region_def Let_def small_u32)
next
  case (Suc d k)
  then have kN: "Suc k < N" by simp
  then have l: "[k..<N] = k # [Suc k..<N]" by (simp add: upt_rec)
  let ?h = "1080 div of_nat N :: u32"
  have h: "unat ?h = 1080 div N" using n by (simp add: unat_div small_u32)
  have le: "k * (1080 div N) \<le> 1080"
    using kN by (intro order_trans [OF mult_le_mono1 [of k N] times_div_less_eq_dividend]) simp
  have y: "unat (of_nat k * ?h) = k * (1080 div N)"
    using n kN le h by (simp add: unat_word_ariths small_u32 unat_of_nat)
  have "unat (of_nat k :: u32) \<noteq> unat (of_nat N - 1 :: u32)"
    using kN n by (subst unat_sub_no_wrap) (simp_all add: small_u32 word_le_nat_alt)
  then have last: "of_nat k \<noteq> (of_nat N - 1 :: u32)" by metis
  have d: "d = N - Suc (Suc k)" using Suc.hyps(2) by simp
  from Suc.hyps(1) [OF d kN] obtain rs where
    "equal_regions gpus (of_nat N) ?h [Suc k..<N] = Inr rs" "length rs = N - Suc k"
    "tiles_from rg_y rg_height (Suc k * (1080 div N)) rs 1080" "map rg_gpu_index rs = map ((!) gpus) [Suc k..<N]"
    "\<forall>r \<in> set rs. rg_x r = 0 \<and> rg_width r = 1920" by blast
  with l g n kN y h last show ?case
    by (simp add: aget_def region_def Let_def small_u32 add.commute)
qed

section \<open>Rounding in the weighted split\<close>


text \<open>One strip: the part of the length \<open>H\<close> for a share \<open>q\<close> exceeds the exact part by rounding only.\<close>

lemma strip_part:
  assumes "0 \<le> h" "h \<le> 2 ^ 20" "0 \<le> q" "q \<le> 2"
  shows "\<exists>part. f32_to_u32 (f32_mul (F32 h) (F32 q)) = Inr part \<and> of_nat (unat part) \<le> h * (1 + eps) * q + tiny"
proof -
  have hq: "0 \<le> h * q" "h * q \<le> 2 ^ 21"
    using assms mult_mono [of h "2 ^ 20" q 2] by simp_all
  then have "\<bar>h * q\<bar> \<le> 2 ^ 100" by simp
  then obtain t where t: "f32_round (h * q) = F32 t" using f32_round_finite by blast
  have t0: "0 \<le> t" using f32_round_nonneg [OF hq(1) t] .
  have t1: "t \<le> h * q * (1 + eps) + tiny" using f32_round_le [OF hq(1) t] .
  have "h * q * (1 + eps) \<le> 2 ^ 21 * (1 + eps)" using hq by (intro mult_right_mono) auto
  with t1 have t2: "t < 2 ^ 32" by simp
  define part where "part = (of_int \<lfloor>t\<rfloor> :: u32)"
  have "\<lfloor>t\<rfloor> < 2 ^ 32" using t2 by (simp add: floor_less_iff)
  then have "int (unat part) = \<lfloor>t\<rfloor>" using t0 by (simp add: part_def unat_eq_nat_uint uint_word_of_int)
  then have "rat_of_int (int (unat part)) \<le> t" by simp
  then have "of_nat (unat part) \<le> t" by (simp only: of_int_of_nat_eq)
  with t1 have "of_nat (unat part) \<le> h * (1 + eps) * q + tiny" by (simp add: algebra_simps)
  moreover have "f32_to_u32 (f32_mul (F32 h) (F32 q)) = Inr part" using t t0 t2 by (simp add: part_def)
  ultimately show ?thesis by blast
qed

text \<open>What all the strips together exceed the length by is less than 1.\<close>

lemma strips_bound:
  assumes H: "HN \<le> 65536" and h: "h \<le> of_nat HN * (1 + eps) + tiny" "0 \<le> h"
    and q: "0 \<le> q" "q \<le> 1 + 32 * eps" and k: "k \<le> 16"
  shows "h * (1 + eps) * q + of_nat k * tiny < of_nat HN + 1"
proof -
  have "h * (1 + eps) * q \<le> h * (1 + eps) * (1 + 32 * eps)"
    using q h(2) by (intro mult_left_mono) auto
  also have "\<dots> \<le> (of_nat HN * (1 + eps) + tiny) * (1 + eps) * (1 + 32 * eps)"
    using h(1) by (intro mult_right_mono) auto
  also have "\<dots> \<le> of_nat HN + 1 / 4"
  proof -
    have "(of_nat HN :: rat) \<le> of_nat 65536" using H by (simp only: of_nat_le_iff)
    then show ?thesis by (simp add: field_simps)
  qed
  finally have 1: "h * (1 + eps) * q \<le> of_nat HN + 1 / 4" .
  have "(of_nat k :: rat) \<le> of_nat 16" using k by (simp only: of_nat_le_iff)
  then have "of_nat k * tiny \<le> 1 / 4" by (simp add: field_simps)
  with 1 show ?thesis by linarith
qed

lemma f32_of_u32_bounds:
  assumes "f32_of_u32 H = F32 h" and "unat H \<le> 65536"
  shows "0 \<le> h" and "h \<le> of_nat (unat H) * (1 + eps) + tiny" and "h \<le> 2 ^ 20"
proof -
  define HN where "HN = unat H"
  have r: "f32_round (of_nat HN) = F32 h"
    using assms(1) by (simp add: f32_of_int_def HN_def)
  show "0 \<le> h" by (rule f32_round_nonneg [OF _ r]) simp
  show h: "h \<le> of_nat (unat H) * (1 + eps) + tiny"
    unfolding HN_def [symmetric] by (rule f32_round_le [OF _ r]) simp
  have "(of_nat HN :: rat) \<le> of_nat 65536" using assms(2) by (simp only: of_nat_le_iff HN_def)
  then have "of_nat HN * (1 + eps) + tiny \<le> 2 ^ 20" by (simp add: field_simps)
  with h show "h \<le> 2 ^ 20" unfolding HN_def [symmetric] by linarith
qed

lemma f32_of_u32_finite:
  assumes "unat H \<le> 65536"
  shows "\<exists>h. f32_of_u32 H = F32 h"
proof -
  define HN where "HN = unat H"
  have "(of_nat HN :: rat) \<le> of_nat 65536" using assms by (simp only: of_nat_le_iff HN_def)
  then have "\<bar>of_nat HN :: rat\<bar> \<le> 2 ^ 100" by simp
  then have "\<exists>h. f32_round (of_nat HN) = F32 h" by (rule f32_round_finite)
  then show ?thesis by (simp add: f32_of_int_def HN_def)
qed

lemma strips_tile:
  assumes H: "unat H \<le> 65536" and sh: "\<And>i. i < n \<Longrightarrow> share_of i = F32 (q i) \<and> 0 \<le> q i"
    and sum: "(\<Sum>i<n. q i) \<le> 1 + 32 * eps" and n: "n \<le> 16" and h: "f32_of_u32 H = F32 h" and m: "m < n"
    and c: "of_nat (unat c) \<le> h * (1 + eps) * (\<Sum>i<m. q i) + of_nat m * tiny"
  shows "\<exists>ss. strips [m..<n] n H share_of c = Inr ss \<and> map (snd \<circ> snd) ss = [m..<n]
    \<and> tiles_from fst (fst \<circ> snd) (unat c) ss (unat H)"
proof -
  note hb = f32_of_u32_bounds [OF h H]
  have q1: "0 \<le> (\<Sum>i<k. q i)" "(\<Sum>i<k. q i) \<le> 1 + 32 * eps" if "k \<le> n" for k
    using that sh sum_mono2 [of "{..<n}" "{..<k}" q] sum by (auto intro!: sum_nonneg)
  have le: "u \<le> unat H" if "of_nat u \<le> h * (1 + eps) * (\<Sum>i<k. q i) + of_nat k * tiny" "k \<le> n" for u k
  proof -
    have "(of_nat u :: rat) < of_nat (unat H) + 1"
      using strips_bound [OF H hb(2,1) q1 [OF that(2)], of k] that n by linarith
    then have "of_nat u < (of_nat (unat H + 1) :: rat)" by (simp only: of_nat_add of_nat_1)
    then show ?thesis by (simp only: of_nat_less_iff)
  qed
  have part: "\<exists>part. f32_to_u32 (f32_mul (f32_of_u32 H) (share_of i)) = Inr part
      \<and> of_nat (unat part) \<le> h * (1 + eps) * q i + tiny" if "i < n" for i
  proof -
    have "q i \<le> (\<Sum>i<n. q i)" using that sh by (intro member_le_sum) auto
    with sum have "q i \<le> 2" by simp
    then show ?thesis using strip_part [OF hb(1,3)] sh [OF that] by (simp add: h)
  qed
  show ?thesis using m c
  proof (induction "n - Suc m" arbitrary: m c)
    case (0 m c)
    then have mn: "Suc m = n" "[m..<n] = [m]" by (simp_all add: upt_rec)
    from part [of m] obtain pt where "f32_to_u32 (f32_mul (f32_of_u32 H) (share_of m)) = Inr pt" using mn by auto
    moreover have "unat c \<le> unat H" using le [OF 0(3)] mn by simp
    ultimately show ?case using mn by (auto simp: unat_sub_no_wrap word_le_nat_alt)
  next
    case (Suc d m c)
    then have mn: "Suc m < n" "[m..<n] = m # [Suc m..<n]" "d = n - Suc (Suc m)" by (simp_all add: upt_rec)
    from part [of m] mn obtain pt where pt: "f32_to_u32 (f32_mul (f32_of_u32 H) (share_of m)) = Inr pt"
      "of_nat (unat pt) \<le> h * (1 + eps) * q m + tiny" by auto
    have "of_nat (unat c + unat pt) \<le> h * (1 + eps) * (\<Sum>i<Suc m. q i) + of_nat (Suc m) * tiny"
      using Suc.prems(2) pt(2) by (simp only: of_nat_add of_nat_Suc sum.lessThan_Suc distrib_left distrib_right)
    moreover have "unat c + unat pt \<le> 65536" using le [OF calculation] mn(1) H by simp
    then have u: "unat (c + pt) = unat c + unat pt" by (intro unat_add_no_wrap) simp
    ultimately have "of_nat (unat (c + pt)) \<le> h * (1 + eps) * (\<Sum>i<Suc m. q i) + of_nat (Suc m) * tiny" by (simp only: u)
    from Suc.hyps(1) [OF mn(3,1) this] obtain ss where "strips [Suc m..<n] n H share_of (c + pt) = Inr ss"
      "map (snd \<circ> snd) ss = [Suc m..<n]" "tiles_from fst (fst \<circ> snd) (unat (c + pt)) ss (unat H)" by blast
    moreover have "m \<noteq> n - 1" using mn(1) by simp
    ultimately show ?case using pt(1) mn(2) u by simp
  qed
qed

text \<open>The shares of a list of weights, and the equal shares, add up to 1 up to rounding.\<close>

lemma foldl_f32_add_inf: "foldl f32_add (F32_inf s) (map F32 ws) = F32_inf s"
  by (induction ws) auto

lemma foldl_f32_add_ge:
  assumes "foldl f32_add (F32 a) (map F32 ws) = F32 t" and "0 \<le> a" and "\<forall>w \<in> set ws. 0 \<le> w" and "length ws \<le> 16"
  shows "(a + sum_list ws) * (1 - of_nat (length ws) * eps) - of_nat (length ws) * tiny \<le> t"
  using assms
proof (induction ws arbitrary: a)
  case (Cons w ws)
  obtain b where b: "f32_round (a + w) = F32 b"
  proof (cases "f32_round (a + w)")
    case (F32_inf s)
    with Cons.prems(1) foldl_f32_add_inf [of s ws] show ?thesis by simp
  qed (use that in auto)
  let ?l = "of_nat (length ws) :: rat"
  have l: "0 \<le> ?l" "?l \<le> 16" using Cons.prems(4) by (simp_all add: of_nat_le_iff [of _ 16, where ?'a = rat, simplified])
  have s0: "0 \<le> sum_list ws" using Cons.prems(3) by (intro sum_list_nonneg) auto
  have b0: "0 \<le> b" using f32_round_nonneg [OF _ b] Cons.prems(2,3) by simp
  have "(a + w) * (1 - eps) - tiny \<le> b" using f32_round_ge [OF _ b] Cons.prems(2,3) by simp
  then have "(a + w + sum_list ws) * (1 - eps) - tiny \<le> b + sum_list ws" using s0 by (simp add: field_simps)
  then have "((a + w + sum_list ws) * (1 - eps) - tiny) * (1 - ?l * eps) \<le> (b + sum_list ws) * (1 - ?l * eps)"
    using l by (intro mult_right_mono) (simp_all add: field_simps)
  also have "\<dots> \<le> t + ?l * tiny" using Cons.IH [of b] Cons.prems b b0 by simp
  finally have 1: "((a + w + sum_list ws) * (1 - eps) - tiny) * (1 - ?l * eps) \<le> t + ?l * tiny" .
  let ?S = "a + w + sum_list ws"
  have S: "0 \<le> ?S" using s0 Cons.prems(2,3) by simp
  have "?S * (1 - (?l + 1) * eps) - tiny \<le> (?S * (1 - eps) - tiny) * (1 - ?l * eps)"
  proof -
    have "(?S * (1 - eps) - tiny) * (1 - ?l * eps) - (?S * (1 - (?l + 1) * eps) - tiny) = ?S * (?l * eps * eps) + tiny * (?l * eps)"
      by (simp add: field_simps)
    moreover have "0 \<le> ?S * (?l * eps * eps) + tiny * (?l * eps)" using S l(1) by simp
    ultimately show ?thesis by linarith
  qed
  with 1 have "?S * (1 - (?l + 1) * eps) - tiny \<le> t + ?l * tiny" by linarith
  moreover have "(?l + 1) * tiny = ?l * tiny + tiny" by (simp only: distrib_right mult_1)
  ultimately have "?S * (1 - (?l + 1) * eps) - (?l + 1) * tiny \<le> t" by linarith
  moreover have "of_nat (length (w # ws)) = ?l + 1" "a + sum_list (w # ws) = ?S" by simp_all
  ultimately show ?case by (simp only:)
qed simp

lemma total_weight_ge:
  assumes u: "foldl f32_add (F32 0) (map F32 ws) = F32 t" and w: "\<forall>w \<in> set ws. 1 / 2 ^ 100 \<le> w"
    and ne: "ws \<noteq> []" and len: "length ws \<le> 16"
  shows "sum_list ws * (1 - 17 * eps) \<le> t" and "0 < t" and "total_weight (Some (map F32 ws)) (length ws) = F32 t"
proof -
  have pos: "\<forall>w \<in> set ws. 0 \<le> w" using w by (auto intro: order_trans [rotated])
  from ne obtain v vs where ws: "ws = v # vs" by (cases ws) auto
  have S: "1 / 2 ^ 100 \<le> sum_list ws"
    using w pos sum_list_nonneg [of vs] by (simp add: ws)
  let ?l = "of_nat (length ws) :: rat"
  have l: "?l \<le> 16" using len by (simp add: of_nat_le_iff [of _ 16, where ?'a = rat, simplified])
  have "sum_list ws * (1 - ?l * eps) - ?l * tiny \<le> t"
    using foldl_f32_add_ge [OF u _ pos len] by simp
  moreover have "?l * tiny \<le> sum_list ws * eps"
  proof -
    have "?l * tiny \<le> 16 * tiny" using l by (intro mult_right_mono) auto
    also have "\<dots> \<le> 1 / 2 ^ 100 * eps" by simp
    also have "\<dots> \<le> sum_list ws * eps" using S by (intro mult_right_mono) auto
    finally show ?thesis .
  qed
  moreover have "sum_list ws * (1 - 16 * eps) \<le> sum_list ws * (1 - ?l * eps)"
  proof (rule mult_left_mono)
    show "1 - 16 * eps \<le> 1 - ?l * eps" using l by (simp add: field_simps)
    show "0 \<le> sum_list ws" using S by (rule order_trans [rotated]) simp
  qed
  moreover have "sum_list ws * (1 - 17 * eps) = sum_list ws * (1 - 16 * eps) - sum_list ws * eps"
    by (simp add: field_simps)
  ultimately show ge: "sum_list ws * (1 - 17 * eps) \<le> t" by linarith
  have "0 < sum_list ws * (1 - 17 * eps)" using S by (intro mult_pos_pos) (auto intro: less_le_trans [rotated])
  with ge show t: "0 < t" by linarith
  then show "total_weight (Some (map F32 ws)) (length ws) = F32 t"
    using u by (simp add: total_weight_def Let_def f32_le_def)
qed

lemma elem_le_sum_list_rat: "i < length ws \<Longrightarrow> \<forall>w \<in> set ws. 0 \<le> w \<Longrightarrow> ws ! i \<le> (sum_list ws :: rat)"
proof (induction ws arbitrary: i)
  case (Cons w ws)
  then show ?case using sum_list_nonneg [of ws] by (cases i) (auto simp: add_increasing)
qed simp

lemma weighted_shares:
  assumes u: "foldl f32_add (F32 0) (map F32 ws) = F32 t" and w: "\<forall>w \<in> set ws. 1 / 2 ^ 100 \<le> w"
    and ne: "ws \<noteq> []" and len: "length ws \<le> 16"
  shows "\<exists>q. (\<forall>i < length ws. share (Some (map F32 ws)) (length ws) i = F32 (q i) \<and> 0 \<le> q i)
    \<and> (\<Sum>i<length ws. q i) \<le> 1 + 32 * eps"
proof -
  note tw = total_weight_ge [OF assms]
  have pos: "\<forall>w \<in> set ws. 0 \<le> w" using w by (auto intro: order_trans [rotated])
  have ratio: "sum_list ws / t \<le> 1 + 18 * eps"
  proof -
    have S: "0 \<le> sum_list ws" using pos by (intro sum_list_nonneg) auto
    have "1 \<le> (1 + 18 * eps) * (1 - 17 * eps)" by simp
    from mult_left_mono [OF this S] have "sum_list ws \<le> (1 + 18 * eps) * (sum_list ws * (1 - 17 * eps))"
      by (simp add: field_simps)
    also have "\<dots> \<le> (1 + 18 * eps) * t" using tw(1) by (intro mult_left_mono) auto
    finally show ?thesis using tw(2) by (simp add: divide_le_eq)
  qed
  have ex: "\<exists>q. f32_round (ws ! i / t) = F32 q" if i: "i < length ws" for i
  proof -
    have "ws ! i \<le> sum_list ws" using i pos by (intro elem_le_sum_list_rat) auto
    then have "ws ! i / t \<le> sum_list ws / t" using tw(2) by (intro divide_right_mono) auto
    also note ratio
    also have "1 + 18 * eps \<le> 2" by simp
    finally have "ws ! i / t \<le> 2" .
    moreover have "0 \<le> ws ! i / t" using pos i tw(2) by simp
    ultimately show ?thesis by (intro f32_round_finite) simp
  qed
  define q where "q i = (case f32_round (ws ! i / t) of F32 r \<Rightarrow> r | _ \<Rightarrow> 0)" for i
  have q: "f32_round (ws ! i / t) = F32 (q i)" if "i < length ws" for i
    using ex [OF that] by (auto simp: q_def)
  have nn: "0 \<le> ws ! i / t" if "i < length ws" for i using pos that tw(2) by simp
  have "(\<Sum>i<length ws. q i) \<le> (\<Sum>i<length ws. ws ! i / t * (1 + eps) + tiny)"
    by (intro sum_mono f32_round_le [OF nn q]) (simp_all only: lessThan_iff)
  also have "\<dots> = sum_list ws / t * (1 + eps) + of_nat (length ws) * tiny"
    by (simp add: sum.distrib sum_list_sum_nth atLeast0LessThan flip: sum_distrib_right sum_divide_distrib)
  also have "\<dots> \<le> (1 + 18 * eps) * (1 + eps) + 16 * tiny"
    using ratio len by (intro add_mono mult_right_mono) (auto simp: of_nat_le_iff [of _ 16, where ?'a = rat, simplified])
  also have "\<dots> \<le> 1 + 32 * eps" by simp
  finally show ?thesis
    using q nn tw(2,3) f32_round_nonneg by (intro exI [of _ q]) (auto simp: share_def)
qed

lemma split_horizontal:
  assumes u: "foldl f32_add (F32 0) (map F32 ws) = F32 t" and w: "\<forall>w \<in> set ws. 1 / 2 ^ 100 \<le> w"
    and ne: "ws \<noteq> []" and len: "length ws \<le> 16" and H: "unat height \<le> 65536"
  shows "\<exists>rs. sfr_split_frame fuel width height (length ws) (Some (map F32 ws)) SFR_MODE_HORIZONTAL 64 = Inr rs
    \<and> map rg_gpu_index rs = map of_nat [0..<length ws] \<and> tiles_from rg_y rg_height 0 rs (unat height)
    \<and> (\<forall>r \<in> set rs. rg_x r = 0 \<and> rg_width r = width)"
proof -
  let ?n = "length ws" and ?f = "\<lambda>(y, h, i). region 0 y width h (of_nat i)"
  obtain h where h: "f32_of_u32 height = F32 h" using f32_of_u32_finite [OF H] by blast
  from weighted_shares [OF u w ne len] obtain q where
    q: "\<And>i. i < ?n \<Longrightarrow> share (Some (map F32 ws)) ?n i = F32 (q i) \<and> 0 \<le> q i" and
    sum: "(\<Sum>i<?n. q i) \<le> 1 + 32 * eps" by blast
  have "0 < ?n" using ne by simp
  from strips_tile [OF H q sum len h this, of 0] obtain ss where
    ss: "strips [0..<?n] ?n height (share (Some (map F32 ws)) ?n) 0 = Inr ss" "map (snd \<circ> snd) ss = [0..<?n]"
      "tiles_from fst (fst \<circ> snd) 0 ss (unat height)" by auto
  have min: "min ?n 64 = ?n" using len by simp
  have split: "sfr_split_frame fuel width height ?n (Some (map F32 ws)) SFR_MODE_HORIZONTAL 64 = Inr (map ?f ss)"
    using ne ss(1) by (simp add: sfr_split_frame_def min)
  have f: "rg_y \<circ> ?f = fst" "rg_height \<circ> ?f = fst \<circ> snd" "rg_gpu_index \<circ> ?f = of_nat \<circ> (snd \<circ> snd)"
    by (auto simp: region_def fun_eq_iff)
  have "map rg_gpu_index (map ?f ss) = map of_nat [0..<?n]"
    unfolding map_map f using ss(2) by (metis map_map)
  moreover have "tiles_from rg_y rg_height 0 (map ?f ss) (unat height)"
    unfolding tiles_from_map f using ss(3) .
  ultimately show ?thesis using split by (auto simp: region_def)
qed

text \<open>The weights of GPUs whose score and utilisation are in a sane range.\<close>

definition gpu_sane :: "mvgal_gpu_state_t \<Rightarrow> bool" where
  "gpu_sane g \<longleftrightarrow> (\<exists>a u. gs_graphics_score g = F32 a \<and> gs_utilization g = F32 u
     \<and> (a \<le> 0 \<or> 1 / 2 ^ 40 \<le> a) \<and> a \<le> 2 ^ 40 \<and> 0 \<le> u \<and> u \<le> 1)"

lemma f32_lit_one: "f32_lit 1 = F32 1" by code_simp

lemma f32_lit_percent: "f32_lit (1 / 100) = F32 (5368709 / 536870912)" by code_simp

lemma f32_round_range:
  assumes "0 \<le> lo" and "lo \<le> q" and "q \<le> hi" and "f32_round q = F32 r"
  shows "lo * (1 - eps) - tiny \<le> r \<and> r \<le> hi * (1 + eps) + tiny"
proof -
  have "0 \<le> q" using assms by linarith
  note f32_round_ge [OF this assms(4)] f32_round_le [OF this assms(4)]
  moreover have "lo * (1 - eps) \<le> q * (1 - eps)" "q * (1 + eps) \<le> hi * (1 + eps)"
    using assms by (auto intro!: mult_right_mono)
  ultimately show ?thesis by linarith
qed

lemma sfr_weight_sane:
  assumes "gpu_sane (sc_gpu s i)"
  shows "\<exists>v. sfr_weight s i = F32 v \<and> 1 / 2 ^ 100 \<le> v \<and> v \<le> 2 ^ 60"
proof -
  from assms obtain a u where g: "gs_graphics_score (sc_gpu s i) = F32 a" "gs_utilization (sc_gpu s i) = F32 u"
    and a: "a \<le> 0 \<or> 1 / 2 ^ 40 \<le> a" "a \<le> 2 ^ 40" and u: "0 \<le> u" "u \<le> 1" by (auto simp: gpu_sane_def)
  define b where "b = (if a \<le> 0 then 1 else a)"
  have b: "1 / 2 ^ 40 \<le> b" "b \<le> 2 ^ 40" using a by (auto simp: b_def)
  have base: "(if f32_le (F32 a) (F32 0) then f32_lit 1 else F32 a) = F32 b"
    by (simp add: b_def f32_le_def f32_lit_one)
  define v where "v = max u (5368709 / 536870912)"
  have v: "1 / 200 \<le> v" "v \<le> 1" using u by (auto simp: v_def)
  have util: "(if f32_less (F32 u) (f32_lit (1 / 100)) then f32_lit (1 / 100) else F32 u) = F32 v"
    by (simp add: f32_lit_percent v_def max_def not_less)
  have inv: "1 \<le> 1 / v" "1 / v \<le> 200" using v by (simp_all add: field_simps)
  obtain r where r: "f32_round (1 / v) = F32 r" using f32_round_finite [of "1 / v"] inv v by (auto simp: abs_of_pos)
  have r1: "1 / 2 \<le> r" and r2: "r \<le> 400" using f32_round_range [OF _ inv r] by simp_all
  have br: "1 / 2 ^ 41 \<le> b * r" "b * r \<le> 2 ^ 50"
    using mult_mono [of "1 / 2 ^ 40" b "1 / 2" r] mult_mono [of b "2 ^ 40" r 400] b r1 r2 by simp_all
  obtain x where x: "f32_round (b * r) = F32 x" using f32_round_finite [of "b * r"] br by auto
  have "1 / 2 ^ 100 \<le> x" "x \<le> 2 ^ 60"
    using f32_round_range [OF _ br x] by simp_all
  with b x r v show ?thesis
    by (cases "cf_dynamic_load_balance (sc_config s)")
       (simp_all add: sfr_weight_def g base util f32_lit_one Let_def)
qed

lemma foldl_f32_add_finite:
  assumes "\<forall>w \<in> set ws. 0 \<le> w \<and> w \<le> 2 ^ 60" and "0 \<le> a" and "a + of_nat (length ws) * 2 ^ 67 \<le> 2 ^ 90"
  shows "\<exists>t. foldl f32_add (F32 a) (map F32 ws) = F32 t"
  using assms
proof (induction ws arbitrary: a)
  case (Cons w ws)
  then have w: "0 \<le> w" "w \<le> 2 ^ 60" and len: "a + of_nat (length ws) * 2 ^ 67 + 2 ^ 67 \<le> 2 ^ 90"
    by (simp_all add: algebra_simps)
  have "0 \<le> (of_nat (length ws) :: rat) * 2 ^ 67" by simp
  then have "a \<le> a + of_nat (length ws) * 2 ^ 67 + 2 ^ 67" by (simp del: of_nat_0_le_iff)
  with len have a: "a \<le> 2 ^ 90" by (rule order_trans [rotated])
  obtain r where r: "f32_round (a + w) = F32 r"
    using f32_round_finite [of "a + w"] a w Cons.prems(2) by auto
  have "0 \<le> r" using f32_round_nonneg [OF _ r] Cons.prems(2) w by simp
  moreover have "r \<le> (a + w) * (1 + eps) + tiny" using f32_round_le [OF _ r] Cons.prems(2) w by simp
  then have "r \<le> a + 2 ^ 67" using a w by (simp add: algebra_simps add_divide_distrib)
  then have "r + of_nat (length ws) * 2 ^ 67 \<le> 2 ^ 90" using len by linarith
  ultimately show ?case using Cons.IH [of r] Cons.prems(1) r by simp
qed simp

lemma sfr_weights_sane:
  assumes "\<forall>i \<in> set ids. gpu_sane (sc_gpu s i)"
  shows "\<exists>ws. map (sfr_weight s) ids = map F32 ws \<and> (\<forall>w \<in> set ws. 1 / 2 ^ 100 \<le> w \<and> w \<le> 2 ^ 60)"
  using assms
proof (induction ids)
  case (Cons i ids)
  then obtain ws v where "map (sfr_weight s) ids = map F32 ws" "\<forall>w \<in> set ws. 1 / 2 ^ 100 \<le> w \<and> w \<le> 2 ^ 60"
    and "sfr_weight s i = F32 v" "1 / 2 ^ 100 \<le> v" "v \<le> 2 ^ 60" using sfr_weight_sane by fastforce
  then show ?case by (intro exI [of _ "v # ws"]) auto
qed simp

lemma assign_regions_ok:
  assumes "length (wl_assigned_gpus w) = 16" and "i + length rs \<le> unat (wl_assigned_gpu_count w)"
    and "unat (wl_assigned_gpu_count w) \<le> 16"
  shows "\<exists>rs'. assign_regions w i rs = Inr rs' \<and> map rg_gpu_index rs' = map ((!) (wl_assigned_gpus w)) [i..<i + length rs]
    \<and> map (rg_gpu_index_update (\<lambda>_. 0)) rs' = map (rg_gpu_index_update (\<lambda>_. 0)) rs"
  using assms(2)
proof (induction rs arbitrary: i)
  case (Cons r rs)
  let ?c = "wl_assigned_gpu_count w"
  have i: "i < unat ?c" using Cons.prems by simp
  have "unat (of_nat i mod ?c) = i" using i assms(3) by (simp add: unat_mod small_u32)
  then have "aget (wl_assigned_gpus w) (of_nat i mod ?c) = Inr (wl_assigned_gpus w ! i)"
    using i assms by (simp add: aget_def)
  moreover obtain rs' where "assign_regions w (Suc i) rs = Inr rs'"
    "map rg_gpu_index rs' = map ((!) (wl_assigned_gpus w)) [Suc i..<Suc i + length rs]"
    "map (rg_gpu_index_update (\<lambda>_. 0)) rs' = map (rg_gpu_index_update (\<lambda>_. 0)) rs"
    using Cons.IH [of "Suc i"] Cons.prems by auto
  moreover have "[i..<i + length (r # rs)] = i # [Suc i..<Suc i + length rs]" by (subst upt_conv_Cons) simp_all
  ultimately show ?case by simp
qed simp

lemma tiles_from_assigned:
  assumes "map (rg_gpu_index_update (\<lambda>_. 0)) rs' = map (rg_gpu_index_update (\<lambda>_. 0)) rs"
  shows "tiles_from rg_y rg_height y rs' b = tiles_from rg_y rg_height y rs b
    \<and> map rg_x rs' = map rg_x rs \<and> map rg_width rs' = map rg_width rs"
  using assms
proof (induction rs arbitrary: rs' y)
  case (Cons r rs)
  then obtain r' t where rs': "rs' = r' # t" "rg_gpu_index_update (\<lambda>_. 0) r' = rg_gpu_index_update (\<lambda>_. 0) r"
    "map (rg_gpu_index_update (\<lambda>_. 0)) t = map (rg_gpu_index_update (\<lambda>_. 0)) rs" by auto
  have "rg_x r' = rg_x r" "rg_y r' = rg_y r" "rg_width r' = rg_width r" "rg_height r' = rg_height r"
    using rs'(2) by (cases r, cases r', simp)+
  with Cons.IH [OF rs'(3)] rs'(1) show ?case by simp
qed simp

text \<open>What a split leaves in the workload at \<open>p\<close>: full-width strips that tile the frame, one per GPU.\<close>

definition frame_split :: "mvgal_scheduler_state_t \<Rightarrow> nat \<Rightarrow> u32 list \<Rightarrow> bool" where
  "frame_split s p gpus \<longleftrightarrow> (\<exists>w d. sc_heap s p = Some w \<and> wl_strategy_data w = Some d
     \<and> map rg_gpu_index (sfr_regions d) = gpus \<and> tiles_from rg_y rg_height 0 (sfr_regions d) 1080
     \<and> (\<forall>r \<in> set (sfr_regions d). rg_x r = 0 \<and> rg_width r = 1920)
     \<and> wd_assigned_gpu (wl_descriptor w) = gpus ! 0)"

lemma distribute_sfr_assigned:
  assumes h: "sc_heap s p = Some w" "length (wl_assigned_gpus w) = 16" and c: "sc_calloc_ok s (sc_ticks s)"
    and n: "wl_assigned_gpu_count w \<noteq> 0" "unat (wl_assigned_gpu_count w) \<le> 16"
  shows "\<exists>s'. mvgal_scheduler_distribute_sfr (Some p) s = Inr (MVGAL_SUCCESS, s')
    \<and> frame_split s' p (take (unat (wl_assigned_gpu_count w)) (wl_assigned_gpus w))"
proof -
  let ?N = "unat (wl_assigned_gpu_count w)"
  have N: "0 < ?N" using n(1) by (simp add: unat_gt_0)
  from equal_regions_tile [OF n(2) h(2) N] obtain rs where
    rs: "equal_regions (wl_assigned_gpus w) (wl_assigned_gpu_count w) (1080 div wl_assigned_gpu_count w) [0..<?N] = Inr rs"
      "tiles_from rg_y rg_height 0 rs 1080" "map rg_gpu_index rs = map ((!) (wl_assigned_gpus w)) [0..<?N]"
      "\<forall>r \<in> set rs. rg_x r = 0 \<and> rg_width r = 1920" by auto
  have t: "map ((!) (wl_assigned_gpus w)) [0..<?N] = take ?N (wl_assigned_gpus w)"
    using h(2) n(2) by (simp add: list_eq_iff_nth_eq)
  have "aget (wl_assigned_gpus w) 0 = Inr (wl_assigned_gpus w ! 0)" using h(2) by (simp add: aget_def)
  then show ?thesis using n(1) N h c rs t
    by (simp add: mvgal_scheduler_distribute_sfr_def sderef_def wderef_def word_gt_0 Let_def put_wl_def frame_split_def assign_gpu_def)
qed

lemma weighted_split:
  assumes sane: "\<forall>i \<in> set ids. gpu_sane (sc_gpu s i)" and ids: "ids \<noteq> []" and len: "length ids \<le> 16"
  shows "\<exists>rs. sfr_split_frame 0 1920 1080 (length ids) (Some (map (sfr_weight s) ids)) SFR_MODE_HORIZONTAL 64 = Inr rs
    \<and> length rs = length ids \<and> tiles_from rg_y rg_height 0 rs 1080 \<and> (\<forall>r \<in> set rs. rg_x r = 0 \<and> rg_width r = 1920)"
proof -
  from sfr_weights_sane [OF sane] obtain ws where ws: "map (sfr_weight s) ids = map F32 ws"
    "\<forall>w \<in> set ws. 1 / 2 ^ 100 \<le> w \<and> w \<le> 2 ^ 60" by auto
  have lw: "length ws = length ids" using ws(1) by (metis length_map)
  then have ne: "ws \<noteq> []" using ids by auto
  have "\<forall>w \<in> set ws. 0 \<le> w \<and> w \<le> 2 ^ 60" using ws(2) by (auto intro: order_trans [of 0 "1 / 2 ^ 100"])
  moreover have "0 + of_nat (length ws) * 2 ^ 67 \<le> (2 ^ 90 :: rat)"
    using mult_right_mono [of "of_nat (length ws)" 16 "2 ^ 67 :: rat"] len lw by simp
  ultimately obtain t where "foldl f32_add (F32 0) (map F32 ws) = F32 t"
    using foldl_f32_add_finite [of ws 0] by auto
  from split_horizontal [OF this, of 1080 0 1920] ws(2) ne len lw obtain rs where
    rs: "sfr_split_frame 0 1920 1080 (length ids) (Some (map F32 ws)) SFR_MODE_HORIZONTAL 64 = Inr rs"
      "map rg_gpu_index rs = map of_nat [0..<length ids]" "tiles_from rg_y rg_height 0 rs 1080"
      "\<forall>r \<in> set rs. rg_x r = 0 \<and> rg_width r = 1920" by auto
  have lr: "length rs = length ids" using rs(2) by (metis length_map length_upt minus_nat.diff_0)
  with rs ws(1) show ?thesis by auto
qed

lemma distribute_sfr_weighted:
  assumes h: "sc_heap s p = Some w" "unassigned w" and c: "sc_calloc_ok s (sc_ticks s)" and wf: "gpus_wf s"
    and ids: "active_gpus s \<noteq> []" and sane: "\<forall>i \<in> set (active_gpus s). gpu_sane (sc_gpu s i)"
  shows "\<exists>s'. mvgal_scheduler_distribute_sfr (Some p) s = Inr (MVGAL_SUCCESS, s')
    \<and> frame_split s' p (map of_nat (active_gpus s))"
proof -
  let ?ids = "active_gpus s" and ?g = "map of_nat (active_gpus s) :: u32 list"
  have len: "length ?ids \<le> 16" and cnt: "sc_gpu_count s \<noteq> 0"
    using wf ids by (auto simp: active_gpus_def gpu_range_def gpus_wf_def intro!: order_trans [OF length_filter_le])
  define w1 where "w1 = w\<lparr>wl_assigned_gpu_count := of_nat (length ?ids),
    wl_assigned_gpus := ?g @ drop (length ?ids) (wl_assigned_gpus w)\<rparr>"
  have n: "unat (wl_assigned_gpu_count w1) = length ?ids" using len by (simp add: w1_def small_u32)
  have l: "length (wl_assigned_gpus w1) = 16" using h(2) len by (simp add: w1_def unassigned_def)
  have nz: "wl_assigned_gpu_count w1 \<noteq> 0" using n ids by (metis length_0_conv unat_0)
  from weighted_split [OF sane ids len] obtain rs where
    rs: "sfr_split_frame 0 1920 1080 (length ?ids) (Some (map (sfr_weight s) ?ids)) SFR_MODE_HORIZONTAL 64 = Inr rs"
      "length rs = length ?ids" "tiles_from rg_y rg_height 0 rs 1080" "\<forall>r \<in> set rs. rg_x r = 0 \<and> rg_width r = 1920"
    by blast
  from assign_regions_ok [OF l, of 0 rs] n rs(2) len obtain rs' where
    rs': "assign_regions w1 0 rs = Inr rs'" "map rg_gpu_index rs' = map ((!) (wl_assigned_gpus w1)) [0..<length ?ids]"
      "map (rg_gpu_index_update (\<lambda>_. 0)) rs' = map (rg_gpu_index_update (\<lambda>_. 0)) rs" by auto
  have g: "map ((!) (wl_assigned_gpus w1)) [0..<length ?ids] = ?g"
    by (rule nth_equalityI) (simp_all add: w1_def nth_append)
  have xw: "\<forall>r \<in> set rs'. rg_x r = 0 \<and> rg_width r = 1920"
  proof -
    have "rg_x ` set rs' = rg_x ` set rs" "rg_width ` set rs' = rg_width ` set rs"
      using tiles_from_assigned [OF rs'(3)] by (metis list.set_map)+
    moreover have "rg_x ` set rs \<subseteq> {0}" "rg_width ` set rs \<subseteq> {1920}" using rs(4) by auto
    ultimately have "rg_x ` set rs' \<subseteq> {0}" "rg_width ` set rs' \<subseteq> {1920}" by (simp_all only:)
    then show ?thesis by (simp add: image_subset_iff)
  qed
  let ?d = "\<lparr>sfr_regions = rs', sfr_original_width = 1920, sfr_original_height = 1080\<rparr>"
  let ?s1 = "put_wl p w1 s" and ?w2 = "w1\<lparr>wl_strategy_data := Some ?d\<rparr>"
  have heap: "sderef ?s1 p = Inr w1" "sc_calloc_ok ?s1 (sc_ticks ?s1)" using c by (simp_all add: put_wl_def sderef_def wderef_def)
  have create: "sfr_create_split_data_weighted 0 (Some p) 1920 1080 SFR_MODE_HORIZONTAL (map (sfr_weight s) ?ids) ?s1
      = Inr (MVGAL_SUCCESS, put_wl p ?w2 ?s1)"
    by (simp add: sfr_create_split_data_weighted_def create_split_data_def heap nz n rs(1) rs'(1))
  have "mvgal_scheduler_distribute_sfr (Some p) s
      = Inr (MVGAL_SUCCESS, put_wl p (assign_gpu (of_nat (hd ?ids)) ?w2) (put_wl p ?w2 ?s1))" (is "_ = Inr (_, ?s')")
  proof -
    have "0 < wl_assigned_gpu_count w \<longleftrightarrow> False" "aput_all (wl_assigned_gpus w) ?g = Inr (wl_assigned_gpus w1)"
      using h(2) len by (simp_all add: unassigned_def aput_all_def w1_def)
    then show ?thesis using h(1) cnt ids create
      by (simp add: mvgal_scheduler_distribute_sfr_def sderef_def wderef_def Let_def put_wl_def w1_def)
  qed
  moreover have "frame_split ?s' p ?g"
    using rs'(2) g xw rs(3) tiles_from_assigned [OF rs'(3), of 0 1080] ids
    by (simp add: frame_split_def put_wl_def assign_gpu_def hd_conv_nth)
  ultimately show ?thesis by blast
qed

text \<open>
  C12. Split frame rendering.  A workload with up to sixteen assigned GPUs, or a fresh one when the active GPUs
  have scores and utilisations in range, is split into full-width strips, one per GPU in order, that tile the
  1920x1080 frame without gap or overlap although the weights and shares are rounded floats.  The first GPU
  becomes the GPU of the workload.
\<close>
theorem sfr_tiles_frame:
  assumes "sc_heap s p = Some w" and "length (wl_assigned_gpus w) = 16" and "unat (wl_assigned_gpu_count w) \<le> 16"
    and "sc_calloc_ok s (sc_ticks s)" and "gpus_wf s"
    and "gpus = (if wl_assigned_gpu_count w = 0 then map of_nat (active_gpus s)
                 else take (unat (wl_assigned_gpu_count w)) (wl_assigned_gpus w))"
    and "wl_assigned_gpu_count w = 0 \<longrightarrow> active_gpus s \<noteq> [] \<and> (\<forall>i \<in> set (active_gpus s). gpu_sane (sc_gpu s i))"
  shows "\<exists>s'. mvgal_scheduler_distribute_sfr (Some p) s = Inr (MVGAL_SUCCESS, s') \<and> frame_split s' p gpus"
proof (cases "wl_assigned_gpu_count w = 0")
  case True
  with assms have "unassigned w" "active_gpus s \<noteq> []" "\<forall>i \<in> set (active_gpus s). gpu_sane (sc_gpu s i)"
    and g: "gpus = map of_nat (active_gpus s)" by (auto simp: unassigned_def)
  from distribute_sfr_weighted [OF assms(1) this(1) assms(4,5) this(2,3)] show ?thesis unfolding g .
next
  case False
  with assms(6) have g: "gpus = take (unat (wl_assigned_gpu_count w)) (wl_assigned_gpus w)" by simp
  from distribute_sfr_assigned [OF assms(1,2,4) False assms(3)] show ?thesis unfolding g .
qed

text \<open>Two active GPUs share a frame: the witness for C12.\<close>

definition sfr_frame :: mvgal_scheduler_state_t where
  "sfr_frame = two_gpus\<lparr>sc_heap := [7 \<mapsto> zero_workload]\<rparr>"

theorem sfr_tiles_frame_witness:
  "\<exists>s'. mvgal_scheduler_distribute_sfr (Some 7) sfr_frame = Inr (MVGAL_SUCCESS, s') \<and> frame_split s' 7 [0, 1]"
proof -
  have ids: "active_gpus sfr_frame = [0, 1]"
    by (simp add: active_gpus_def gpu_range_def gpu_active_def sfr_frame_def two_gpus_def initial_gpu_def upt_rec)
  have sane: "gpu_sane (sc_gpu sfr_frame 0)" "gpu_sane (sc_gpu sfr_frame (Suc 0))"
    by (auto simp: gpu_sane_def sfr_frame_def two_gpus_def initial_gpu_def)
  have f: "sc_heap sfr_frame 7 = Some zero_workload" "sc_calloc_ok sfr_frame (sc_ticks sfr_frame)" "gpus_wf sfr_frame"
    by (simp_all add: sfr_frame_def two_gpus_def idle_sched_def gpus_wf_def initial_config_def)
  have "length (wl_assigned_gpus zero_workload) = 16" "wl_assigned_gpu_count zero_workload = 0"
    by (simp_all add: zero_workload_def)
  with sfr_tiles_frame [OF f(1) _ _ f(2,3), of "[0, 1]"] show ?thesis using ids sane by simp
qed

end
