(* ===== verification/Sched_Serve.thy ===== *)
theory Sched_Serve
  imports Sched_Core Sfr_Tiling
begin

text \<open>
  The contract of the strategies, and the loop that serves the ready queue
  (\<^verbatim>\<open>mvgal_scheduler_process_internal\<close>): what it does with every workload, in which order, and when
  it returns.
\<close>

section \<open>What a strategy may change\<close>

definition wl_ok :: "mvgal_workload \<Rightarrow> bool" where
  "wl_ok w \<longleftrightarrow> length (wl_assigned_gpus w) = 16 \<and> unat (wl_assigned_gpu_count w) \<le> 16"

definition afr_ok :: "afr_state \<Rightarrow> bool" where
  "afr_ok a \<longleftrightarrow> length (afr_gpu_indices a) = 16 \<and> unat (afr_gpu_count a) \<le> 16
     \<and> (afr_gpu_count a \<noteq> 0 \<longrightarrow> afr_current_gpu_index a < afr_gpu_count a)"

text \<open>Arrays of the right size, and GPUs whose scores and utilisations are in range.\<close>

definition sched_ok :: "mvgal_scheduler_state_t \<Rightarrow> bool" where
  "sched_ok s \<longleftrightarrow> gpus_wf s \<and> afr_ok (sc_afr s) \<and> (\<forall>g \<in> set (sc_gpus s). gpu_sane g)"

text \<open>A workload without what the strategies write.\<close>

definition wl_core :: "mvgal_workload \<Rightarrow> mvgal_workload" where
  "wl_core w = w\<lparr>wl_assigned_gpu_count := 0, wl_assigned_gpus := [], wl_strategy_data := None,
     wl_descriptor := (wl_descriptor w)\<lparr>wd_assigned_gpu := 0\<rparr>\<rparr>"

abbreviation with_gpu :: "nat \<Rightarrow> mvgal_workload \<Rightarrow> afr_state \<Rightarrow> mvgal_scheduler_state_t \<Rightarrow> mvgal_scheduler_state_t" where
  "with_gpu p w a s \<equiv> s\<lparr>sc_heap := (sc_heap s)(p \<mapsto> w), sc_afr := a\<rparr>"

text \<open>A run that returns and changed only the GPUs of the workload \<open>w\<close> at \<open>p\<close> and the rotation.\<close>

definition assigns_only ::
    "mvgal_scheduler_state_t \<Rightarrow> nat \<Rightarrow> mvgal_workload \<Rightarrow> (mvgal_error_t \<times> mvgal_scheduler_state_t) run \<Rightarrow> bool" where
  "assigns_only s p w r \<longleftrightarrow> (\<exists>e w' a. r = Inr (e, with_gpu p w' a s) \<and> wl_ok w' \<and> wl_core w' = wl_core w \<and> afr_ok a)"

lemma assigns_onlyI:
  "wl_ok w' \<Longrightarrow> wl_core w' = wl_core w \<Longrightarrow> afr_ok a \<Longrightarrow> s' = with_gpu p w' a s \<Longrightarrow> assigns_only s p w (Inr (e, s'))"
  by (auto simp: assigns_only_def)

lemma assigns_only_same: "sched_ok s \<Longrightarrow> sc_heap s p = Some w \<Longrightarrow> wl_ok w \<Longrightarrow> assigns_only s p w (Inr (e, s))"
  by (rule assigns_onlyI [of w _ "sc_afr s"]) (simp_all add: sched_ok_def fun_upd_idem)

lemma wl_core_links:
  assumes "wl_core w' = wl_core w"
  shows "wl_next w' = wl_next w" "wl_prev w' = wl_prev w" "wl_priority w' = wl_priority w" "wl_refcount w' = wl_refcount w"
    "wl_callback w' = wl_callback w" "wl_user_data w' = wl_user_data w"
  using assms [THEN arg_cong [of _ _ wl_next]] assms [THEN arg_cong [of _ _ wl_prev]]
    assms [THEN arg_cong [of _ _ wl_priority]] assms [THEN arg_cong [of _ _ wl_refcount]]
    assms [THEN arg_cong [of _ _ wl_callback]] assms [THEN arg_cong [of _ _ wl_user_data]]
  by (simp_all add: wl_core_def)

text \<open>The contract of a strategy, and what it means for a queue the workload may be in.\<close>

locale strategy =
  fixes distribute :: "nat option \<Rightarrow> mvgal_scheduler_state_t \<Rightarrow> (mvgal_error_t \<times> mvgal_scheduler_state_t) run"
  assumes distributes: "sched_ok s \<Longrightarrow> sc_heap s p = Some w \<Longrightarrow> wl_ok w \<Longrightarrow> assigns_only s p w (distribute (Some p) s)"
begin

lemma distribute_returns:
  assumes "sched_ok s" and "sc_heap s p = Some w" and "wl_ok w"
  shows "\<exists>e w' a. distribute (Some p) s = Inr (e, with_gpu p w' a s) \<and> wl_ok w' \<and> wl_core w' = wl_core w
    \<and> sched_ok (with_gpu p w' a s)
    \<and> (\<forall>d q xs. queue_at d q (sc_heap s) xs \<longrightarrow> queue_at d q ((sc_heap s)(p \<mapsto> w')) xs)"
proof -
  from distributes [OF assms] obtain e w' a where
    r: "distribute (Some p) s = Inr (e, with_gpu p w' a s)" "wl_ok w'" "wl_core w' = wl_core w" "afr_ok a"
    by (auto simp: assigns_only_def)
  have "queue_at d q ((sc_heap s)(p \<mapsto> w')) xs" if "queue_at d q (sc_heap s) xs" for d q xs
    using assms(2) by (intro queue_of_cong [OF that]) (auto simp: wl_core_links [OF r(3)])
  moreover have "sched_ok (with_gpu p w' a s)" using assms(1) r(4) by (simp add: sched_ok_def gpus_wf_def)
  ultimately show ?thesis using r by blast
qed

end

lemma wl_ok_assign [simp]:
  "wl_ok w \<Longrightarrow> wl_ok (assign_gpu g w)" "wl_ok w \<Longrightarrow> wl_ok (assign_single g w)"
  by (simp_all add: wl_ok_def assign_gpu_def assign_single_def)

lemma wl_core_assign [simp]: "wl_core (assign_gpu g w) = wl_core w" "wl_core (assign_single g w) = wl_core w"
  by (simp_all add: wl_core_def assign_gpu_def assign_single_def)

lemma assigns_only_put:
  assumes "sched_ok s" and "wl_ok w'" and "wl_core w' = wl_core w"
  shows "assigns_only s p w (Inr (e, put_wl p w' s))"
  by (rule assigns_onlyI [of w' _ "sc_afr s"]) (use assms in \<open>simp_all add: sched_ok_def put_wl_def\<close>)

lemma assign_best_only:
  assumes "sched_ok s" and "sc_heap s p = Some w" and "wl_ok w"
  shows "assigns_only s p w (assign_best p s)"
proof (cases "mvgal_scheduler_find_best_gpu s w")
  case (Pair e r)
  with assms show ?thesis
    by (cases r) (simp_all add: assign_best_def sderef_def assigns_only_same assigns_only_put)
qed

lemma distribute_by_only:
  assumes "sched_ok s" and "sc_heap s p = Some w" and "wl_ok w"
  shows "assigns_only s p w (distribute_by choice (Some p) s)"
proof -
  have "aget (wl_assigned_gpus w) 0 = Inr (wl_assigned_gpus w ! 0)" using assms(3) by (simp add: aget_def wl_ok_def)
  with assms show ?thesis
    by (simp add: distribute_by_def sderef_def assigns_only_same assigns_only_put)
qed

interpretation task: strategy mvgal_scheduler_distribute_task
  by unfold_locales (simp add: mvgal_scheduler_distribute_task_def distribute_by_only)

interpretation compute_offload: strategy mvgal_scheduler_distribute_compute_offload
  by unfold_locales (simp add: mvgal_scheduler_distribute_compute_offload_def distribute_by_only)

lemma assigns_only_afr:
  assumes "assigns_only (s\<lparr>sc_afr := a\<rparr>) p w r"
  shows "assigns_only s p w r"
  using assms by (auto simp: assigns_only_def)

lemma afr_init_ok: "afr_ok a \<Longrightarrow> afr_ok (afr_init a)"
  by (simp add: afr_ok_def afr_init_def)

lemma afr_configure_ok:
  assumes "afr_ok a"
  shows "afr_ok (snd (afr_configure ids a))"
proof (cases ids)
  case (Some l)
  show ?thesis
  proof (cases "l \<noteq> [] \<and> length l \<le> 16")
    case True
    then have "(0 :: u32) < of_nat (length l)" by (simp add: word_less_nat_alt small_u32)
    with True Some assms show ?thesis by (simp add: afr_configure_def afr_ok_def afr_init_def small_u32)
  qed (use Some assms in \<open>auto simp: afr_configure_def\<close>)
qed (use assms in \<open>simp add: afr_configure_def\<close>)

lemma afr_next_ok:
  assumes "afr_ok a"
  shows "\<exists>g a'. afr_get_next_gpu a = Inr (g, a') \<and> afr_ok a'"
proof (cases "afr_gpu_count a = 0")
  case False
  then have "unat (afr_current_gpu_index a) < 16" "(afr_current_gpu_index a + 1) mod afr_gpu_count a < afr_gpu_count a"
    using assms by (auto simp: afr_ok_def word_less_nat_alt unat_mod unat_gt_0)
  with False assms show ?thesis by (simp add: afr_get_next_gpu_def afr_ok_def aget_def)
qed (use assms in \<open>simp add: afr_get_next_gpu_def\<close>)

interpretation afr: strategy mvgal_scheduler_distribute_afr
proof
  fix s p w
  assume a: "sched_ok s" "sc_heap s p = Some w" "wl_ok w"
  let ?ids = "mask_indices (wd_gpu_mask (wl_descriptor w))" and ?a1 = "afr_init (sc_afr s)"
  define a2 where "a2 = (if wd_gpu_mask (wl_descriptor w) \<noteq> 0xFFFFFFFF \<and> 0 < length ?ids
    then snd (afr_configure (Some ?ids) ?a1) else ?a1)"
  have ok1: "afr_ok ?a1" using a(1) by (simp add: sched_ok_def afr_init_ok)
  then have "afr_ok a2" by (simp add: a2_def afr_configure_ok)
  from afr_next_ok [OF this] obtain g a3 where n: "afr_get_next_gpu a2 = Inr (g, a3)" "afr_ok a3" by blast
  have ok: "sched_ok (s\<lparr>sc_afr := b\<rparr>)" if "afr_ok b" for b using a(1) that by (simp add: sched_ok_def gpus_wf_def)
  have get: "aget (wl_assigned_gpus w) 0 = Inr (wl_assigned_gpus w ! 0)" using a(3) by (simp add: aget_def wl_ok_def)
  have "assigns_only s p w (Inr (e, put_wl p w' (s\<lparr>sc_afr := b\<rparr>)))" if "afr_ok b" "wl_ok w'" "wl_core w' = wl_core w" for e w' b
    by (rule assigns_only_afr [OF assigns_only_put [OF ok [OF that(1)] that(2,3)]])
  moreover have "assigns_only s p w (assign_best p (s\<lparr>sc_afr := a3\<rparr>))"
    by (rule assigns_only_afr [OF assign_best_only [OF ok [OF n(2)]]]) (use a in simp_all)
  moreover have "mvgal_scheduler_distribute_afr (Some p) s =
      (if 0 < wl_assigned_gpu_count w then Inr (MVGAL_SUCCESS, put_wl p (assign_gpu (wl_assigned_gpus w ! 0) w) (s\<lparr>sc_afr := ?a1\<rparr>))
       else if g = NO_GPU then assign_best p (s\<lparr>sc_afr := a3\<rparr>)
       else Inr (MVGAL_SUCCESS, put_wl p (assign_single g w) (s\<lparr>sc_afr := a3\<rparr>)))"
    using a(2) get n(1) unfolding a2_def
    by (cases "0 < wl_assigned_gpu_count w") (simp_all add: mvgal_scheduler_distribute_afr_def Let_def sderef_def split del: if_split)
  ultimately show "assigns_only s p w (mvgal_scheduler_distribute_afr (Some p) s)" using a(3) ok1 n(2) by simp
qed

lemma active_sane: "sched_ok s \<Longrightarrow> i \<in> set (active_gpus s) \<Longrightarrow> gpu_sane (sc_gpu s i)"
  by (auto simp: sched_ok_def gpus_wf_def active_gpus_def gpu_range_def)

lemma create_weighted_only:
  assumes s: "sched_ok s" "wl_ok w" and ids: "active_gpus s \<noteq> []"
    and w1: "w1 = w\<lparr>wl_assigned_gpu_count := of_nat (length (active_gpus s)), wl_assigned_gpus := assigned\<rparr>"
    and l: "length assigned = 16"
  shows "\<exists>e w2. sfr_create_split_data_weighted 0 (Some p) 1920 1080 SFR_MODE_HORIZONTAL
      (map (sfr_weight s) (active_gpus s)) (put_wl p w1 s) = Inr (e, put_wl p w2 s) \<and> wl_ok w2 \<and> wl_core w2 = wl_core w"
proof -
  let ?n = "length (active_gpus s)"
  have n: "?n \<le> 16" using s(1) by (auto simp: sched_ok_def active_gpus_def gpu_range_def gpus_wf_def intro!: order_trans [OF length_filter_le])
  have w1': "unat (wl_assigned_gpu_count w1) = ?n" "length (wl_assigned_gpus w1) = 16" "wl_ok w1" "wl_core w1 = wl_core w"
    using n l by (simp_all add: w1 small_u32 wl_ok_def wl_core_def)
  then have nz: "wl_assigned_gpu_count w1 \<noteq> 0" using ids by (metis length_0_conv unat_0)
  from weighted_split [of "active_gpus s" s] active_sane [OF s(1)] ids n obtain rs where
    rs: "sfr_split_frame 0 1920 1080 ?n (Some (map (sfr_weight s) (active_gpus s))) SFR_MODE_HORIZONTAL 64 = Inr rs"
      "length rs = ?n" by blast
  from assign_regions_ok [OF w1'(2), of 0 rs] w1'(1) rs(2) n obtain rs' where rs': "assign_regions w1 0 rs = Inr rs'" by auto
  let ?d = "\<lparr>sfr_regions = rs', sfr_original_width = 1920, sfr_original_height = 1080\<rparr>"
  have "wl_ok (w1\<lparr>wl_strategy_data := Some ?d\<rparr>)" "wl_core (w1\<lparr>wl_strategy_data := Some ?d\<rparr>) = wl_core w"
    using w1'(3,4) by (simp_all add: wl_ok_def wl_core_def)
  then show ?thesis using w1' nz rs(1) rs'
    by (cases "sc_calloc_ok s (sc_ticks s)")
       (auto simp: sfr_create_split_data_weighted_def create_split_data_def put_wl_def sderef_def)
qed

interpretation sfr: strategy mvgal_scheduler_distribute_sfr
proof
  fix s p w
  assume a: "sched_ok s" "sc_heap s p = Some w" "wl_ok w"
  consider (assigned) "wl_assigned_gpu_count w \<noteq> 0" | (none) "wl_assigned_gpu_count w = 0" "active_gpus s = []"
    | (fresh) "wl_assigned_gpu_count w = 0" "active_gpus s \<noteq> []" by blast
  then show "assigns_only s p w (mvgal_scheduler_distribute_sfr (Some p) s)"
  proof cases
    case assigned
    let ?N = "unat (wl_assigned_gpu_count w)"
    have N: "0 < ?N" using assigned by (simp add: unat_gt_0)
    from equal_regions_tile [OF _ _ N, of "wl_assigned_gpus w"] a(3) obtain rs where
      rs: "equal_regions (wl_assigned_gpus w) (wl_assigned_gpu_count w) (1080 div wl_assigned_gpu_count w) [0..<?N] = Inr rs"
      by (auto simp: wl_ok_def)
    have "wl_ok (assign_gpu g w\<lparr>wl_strategy_data := d\<rparr>)" "wl_core (assign_gpu g w\<lparr>wl_strategy_data := d\<rparr>) = wl_core w" for g d
      using a(3) by (simp_all add: wl_ok_def wl_core_def assign_gpu_def)
    moreover have "aget (wl_assigned_gpus w) 0 = Inr (wl_assigned_gpus w ! 0)" using a(3) by (simp add: aget_def wl_ok_def)
    ultimately show ?thesis using a assigned rs
      by (simp add: mvgal_scheduler_distribute_sfr_def sderef_def word_gt_0 Let_def assigns_only_same assigns_only_put)
  next
    case none
    with assign_best_only [OF a] a(2) show ?thesis by (simp add: mvgal_scheduler_distribute_sfr_def sderef_def)
  next
    case fresh
    let ?ids = "map of_nat (active_gpus s) :: u32 list"
    let ?arr = "?ids @ drop (length ?ids) (wl_assigned_gpus w)"
    have cnt: "sc_gpu_count s \<noteq> 0" using fresh by (auto simp: active_gpus_def gpu_range_def)
    have n: "length (active_gpus s) \<le> 16" using a(1) by (auto simp: sched_ok_def active_gpus_def gpu_range_def gpus_wf_def intro!: order_trans [OF length_filter_le])
    then have l: "length ?arr = 16" "aput_all (wl_assigned_gpus w) ?ids = Inr ?arr"
      using a(3) by (simp_all add: wl_ok_def aput_all_def)
    from create_weighted_only [OF a(1,3) fresh(2) refl l(1), of p] obtain e w2 where
      c: "sfr_create_split_data_weighted 0 (Some p) 1920 1080 SFR_MODE_HORIZONTAL (map (sfr_weight s) (active_gpus s))
        (put_wl p (w\<lparr>wl_assigned_gpu_count := of_nat (length (active_gpus s)), wl_assigned_gpus := ?arr\<rparr>) s) = Inr (e, put_wl p w2 s)"
      "wl_ok w2" "wl_core w2 = wl_core w" by blast
    have "mvgal_scheduler_distribute_sfr (Some p) s =
        Inr (MVGAL_SUCCESS, put_wl p (assign_gpu (of_nat (hd (active_gpus s))) w2) s)"
      using a(2) fresh cnt l(2) c(1) by (simp add: mvgal_scheduler_distribute_sfr_def sderef_def Let_def put_wl_def)
    then show ?thesis using a(1) c(2,3) by (simp add: assigns_only_put)
  qed
qed

interpretation hybrid: strategy mvgal_scheduler_distribute_hybrid
  by unfold_locales (simp add: mvgal_scheduler_distribute_hybrid_def sderef_def afr.distributes sfr.distributes
    task.distributes compute_offload.distributes assign_best_only split: mvgal_distribution_strategy_t.split)

interpretation applied: strategy mvgal_scheduler_apply_strategy
  by unfold_locales (simp add: mvgal_scheduler_apply_strategy_def sderef_def afr.distributes sfr.distributes
    task.distributes assign_best_only assigns_only_same Let_def split: mvgal_distribution_strategy_t.split)

section \<open>Serving the queue\<close>

text \<open>A workload after the scheduler served it and gave its reference back.\<close>

definition served :: "mvgal_workload \<Rightarrow> mvgal_workload \<Rightarrow> bool" where
  "served w w' \<longleftrightarrow> wl_ok w' \<and> wl_refcount w' = wl_refcount w - 1 \<and> wl_state w' = MVGAL_WORKLOAD_STATE_COMPLETED
     \<and> wl_completion_signaled w' \<and> wl_completion_status w' = MVGAL_SUCCESS
     \<and> wd_completed (wl_descriptor w') \<and> wd_result (wl_descriptor w') = MVGAL_SUCCESS
     \<and> wl_priority w' = wl_priority w \<and> wl_callback w' = wl_callback w"

text \<open>The call of the completion callback that serving \<open>p\<close> makes, if it has one.\<close>

definition completion_call :: "wheap \<Rightarrow> nat \<Rightarrow> (nat \<times> nat \<times> mvgal_error_t \<times> nat option) list" where
  "completion_call h p =
     (case h p of
        None \<Rightarrow> []
      | Some w \<Rightarrow> (case wl_callback w of None \<Rightarrow> [] | Some f \<Rightarrow> [(f, p, MVGAL_SUCCESS, wl_user_data w)]))"

lemma run_workload_ok:
  assumes s: "sched_ok s" and w: "sc_heap s p = Some w" "wl_ok w"
  shows "\<exists>w' a. served w w' \<and> afr_ok a \<and> run_workload p s = Inr (s\<lparr>
    sc_heap := (sc_heap s)(p := if wl_refcount w = 1 then None else Some w'), sc_afr := a, sc_ticks := Suc (sc_ticks s),
    sc_stats := (sc_stats s)\<lparr>st_workloads_completed := st_workloads_completed (sc_stats s) + 1\<rparr>,
    sc_callbacks := completion_call (sc_heap s) p @ sc_callbacks s\<rparr>)"
proof -
  from applied.distributes [OF s w] obtain e v a where
    v: "mvgal_scheduler_apply_strategy (Some p) s = Inr (e, with_gpu p v a s)" "wl_ok v" "wl_core v = wl_core w" "afr_ok a"
    by (auto simp: assigns_only_def)
  note c = wl_core_links [OF v(3)]
  let ?v = "completed_as MVGAL_SUCCESS (sc_clock s (sc_ticks s)) v"
  let ?w = "?v\<lparr>wl_refcount := wl_refcount ?v - 1\<rparr>"
  have "served w ?w" using v(2) c by (simp add: served_def completed_as_def wl_ok_def)
  moreover have "run_workload p s = Inr (s\<lparr>
      sc_heap := (sc_heap s)(p := if wl_refcount w = 1 then None else Some ?w), sc_afr := a, sc_ticks := Suc (sc_ticks s),
      sc_stats := (sc_stats s)\<lparr>st_workloads_completed := st_workloads_completed (sc_stats s) + 1\<rparr>,
      sc_callbacks := completion_call (sc_heap s) p @ sc_callbacks s\<rparr>)"
    using v(1) w(1) c
    by (simp add: run_workload_def mvgal_workload_complete_def sderef_def get_time_ns_def put_wl_def release_ref_def
        mvgal_workload_release_def mvgal_workload_destroy_internal_def completion_call_def completed_as_def Let_def
        split: option.split)
  ultimately show ?thesis using v(4) by blast
qed

lemma same_bodies_SomeD:
  assumes "same_bodies h h' x" and "h x = Some w"
  obtains w' where "h' x = Some w'" "wl_body w' = wl_body w"
  using assms by (auto simp: same_bodies_def)

lemma wl_body_fields:
  assumes "wl_body w' = wl_body w"
  shows "wl_callback w' = wl_callback w" "wl_user_data w' = wl_user_data w" "wl_refcount w' = wl_refcount w"
    "wl_priority w' = wl_priority w" "wl_ok w' = wl_ok w"
  using assms [THEN arg_cong [of _ _ wl_callback]] assms [THEN arg_cong [of _ _ wl_user_data]]
    assms [THEN arg_cong [of _ _ wl_refcount]] assms [THEN arg_cong [of _ _ wl_priority]]
    assms [THEN arg_cong [of _ _ wl_ok]]
  by (simp_all add: wl_body_def wl_ok_def)

lemma served_body:
  assumes "wl_body v = wl_body w"
  shows "served v w' \<longleftrightarrow> served w w'"
  by (simp add: served_def wl_body_fields [OF assms])

lemma same_bodies_call:
  assumes "same_bodies h h' x"
  shows "completion_call h' x = completion_call h x"
proof (cases "h x")
  case None
  then show ?thesis using assms by (simp add: same_bodies_def completion_call_def)
next
  case (Some w)
  obtain w' where w': "h' x = Some w'" "wl_body w' = wl_body w" by (rule same_bodies_SomeD [OF assms Some])
  then show ?thesis using Some by (simp add: completion_call_def wl_body_fields [OF w'(2)] split: option.split)
qed

definition all_ok :: "mvgal_scheduler_state_t \<Rightarrow> bool" where
  "all_ok s \<longleftrightarrow> sched_ok s \<and> (\<forall>w \<in> ran (sc_heap s). wl_ok w)"

text \<open>The scheduler served the workload \<open>p\<close> on the way from \<open>s\<close> to \<open>s'\<close>.\<close>

definition served_at :: "mvgal_scheduler_state_t \<Rightarrow> mvgal_scheduler_state_t \<Rightarrow> nat \<Rightarrow> bool" where
  "served_at s s' p \<longleftrightarrow> (\<forall>w. sc_heap s p = Some w \<longrightarrow>
     (if wl_refcount w = 1 then sc_heap s' p = None else \<exists>w'. sc_heap s' p = Some w' \<and> served w w'))"

definition counts_served :: "mvgal_scheduler_state_t \<Rightarrow> mvgal_scheduler_state_t \<Rightarrow> nat list \<Rightarrow> bool" where
  "counts_served s s' ps \<longleftrightarrow>
     sc_stats s' = (sc_stats s)\<lparr>st_workloads_completed := st_workloads_completed (sc_stats s) + of_nat (length ps)\<rparr>
   \<and> sc_callbacks s' = concat (map (completion_call (sc_heap s)) (rev ps)) @ sc_callbacks s"

lemma take_ready_ok:
  assumes "queue_at d (sc_ready_queue s) (sc_heap s) xs"
  shows "(\<forall>x \<in> set xs. hprio (sc_heap s) x = 0) \<and> take_ready s = Inr (None, s)
    \<or> (\<exists>as p bs q h. take_ready s = Inr (Some p, s\<lparr>sc_ready_queue := q, sc_heap := h\<rparr>) \<and> xs = as @ p # bs
         \<and> first_max (hprio (sc_heap s)) 0 xs p \<and> queue_at d q h (as @ bs) \<and> (\<forall>x. same_bodies (sc_heap s) h x))"
proof -
  have "length xs \<le> unat (wq_count (sc_ready_queue s))" using assms by (simp add: queue_at_def)
  from workload_dequeue_priority_ok [OF assms this] show ?thesis
  proof (elim disjE exE conjE)
    fix as p bs q h
    assume "mvgal_workload_dequeue_priority (unat (wq_count (sc_ready_queue s))) (sc_ready_queue s) (sc_heap s) = Inr (Some p, q, h)"
      "xs = as @ p # bs" "first_max (hprio (sc_heap s)) 0 xs p" "queue_at d q h (as @ bs)" "\<forall>x. same_bodies (sc_heap s) h x"
    then show ?thesis
      by (intro disjI2 exI [of _ as] exI [of _ p] exI [of _ bs] exI [of _ q] exI [of _ h]) (simp add: take_ready_def)
  qed (simp add: take_ready_def)
qed

lemma process_step:
  assumes ok: "all_ok s" and q: "queue_at d (sc_ready_queue s) (sc_heap s) xs" and ne: "\<exists>x \<in> set xs. hprio (sc_heap s) x \<noteq> 0"
  shows "\<exists>as p bs s'. process_loop (Suc n) s = process_loop n s' \<and> xs = as @ p # bs \<and> first_max (hprio (sc_heap s)) 0 xs p
    \<and> all_ok s' \<and> queue_at d (sc_ready_queue s') (sc_heap s') (as @ bs) \<and> (\<forall>x. x \<noteq> p \<longrightarrow> same_bodies (sc_heap s) (sc_heap s') x)
    \<and> served_at s s' p \<and> counts_served s s' [p]"
proof -
  from take_ready_ok [OF q] ne obtain as p bs q1 h1 where
    t: "take_ready s = Inr (Some p, s\<lparr>sc_ready_queue := q1, sc_heap := h1\<rparr>)" (is "_ = Inr (_, ?s1)") and
    x: "xs = as @ p # bs" "first_max (hprio (sc_heap s)) 0 xs p" and q1: "queue_at d q1 h1 (as @ bs)" and
    b: "\<forall>x. same_bodies (sc_heap s) h1 x" by blast
  obtain w0 where w0: "sc_heap s p = Some w0" using queue_of_dom [OF q, of p] x(1) by auto
  obtain w where w: "h1 p = Some w" "wl_body w = wl_body w0" by (rule same_bodies_SomeD [OF b [rule_format] w0])
  have ok1: "sched_ok ?s1" using ok by (simp add: all_ok_def sched_ok_def gpus_wf_def)
  have okw: "wl_ok v" if hx: "h1 x = Some v" for x v
  proof -
    obtain u where u: "sc_heap s x = Some u" "wl_body v = wl_body u"
      using b [rule_format, of x] hx by (cases "sc_heap s x") (simp_all add: same_bodies_def)
    then have "wl_ok u" using ok by (auto simp: all_ok_def ran_def)
    then show ?thesis by (simp add: wl_body_fields [OF u(2)])
  qed
  from run_workload_ok [OF ok1, of p w] w okw obtain w' a where r: "served w w'" "afr_ok a" "run_workload p ?s1 = Inr (?s1\<lparr>
    sc_heap := h1(p := if wl_refcount w = 1 then None else Some w'), sc_afr := a, sc_ticks := Suc (sc_ticks s),
    sc_stats := (sc_stats s)\<lparr>st_workloads_completed := st_workloads_completed (sc_stats s) + 1\<rparr>,
    sc_callbacks := completion_call h1 p @ sc_callbacks s\<rparr>)" (is "_ = Inr ?s2") by auto
  have np: "p \<notin> set (as @ bs)" using queue_of_distinct [OF q] x(1) by auto
  have "wq_count (sc_ready_queue s) \<noteq> 0" using queue_of_empty_iff [OF q] x(1) by auto
  then have "process_loop (Suc n) s = process_loop n ?s2" using t r(3) by (subst process_loop.simps) simp
  moreover have "all_ok ?s2"
    using ok1 okw r(1,2) by (auto simp: all_ok_def sched_ok_def gpus_wf_def ran_def served_def split: if_splits)
  moreover have "queue_at d q1 (h1(p := y)) (as @ bs)" for y using np by (intro queue_of_cong [OF q1]) auto
  then have "queue_at d (sc_ready_queue ?s2) (sc_heap ?s2) (as @ bs)" by simp
  moreover have "\<forall>x. x \<noteq> p \<longrightarrow> same_bodies (sc_heap s) (sc_heap ?s2) x" using b by (simp add: same_bodies_def)
  moreover have "served_at s ?s2 p" using w0 w r(1) by (simp add: served_at_def wl_body_fields [OF w(2)] served_body [OF w(2)])
  moreover have "counts_served s ?s2 [p]" using same_bodies_call [OF b [rule_format, of p]] by (simp add: counts_served_def)
  ultimately show ?thesis using x by blast
qed

lemma first_max_sort:
  assumes "distinct xs" and "xs = as @ p # bs" and "first_max (hprio h) 0 xs p"
  shows "sort_key (urgency h) xs = p # sort_key (urgency h) (as @ bs)"
proof -
  have "p \<notin> set as" "p \<notin> set bs" using assms(1,2) by auto
  with assms(2,3) have "\<forall>a \<in> set as. urgency h p < urgency h a" "\<forall>b \<in> set bs. urgency h p \<le> urgency h b"
    by (auto simp: first_max_def urgency_less urgency_le append_eq_append_conv2 append_eq_Cons_conv Cons_eq_append_conv)
  then show ?thesis unfolding assms(2) by (rule sort_key_first)
qed

lemma insort_key_cong_on: "f x = g x \<Longrightarrow> \<forall>y \<in> set ys. f y = g y \<Longrightarrow> insort_key f x ys = insort_key g x ys"
  by (induction ys) auto

lemma sort_key_cong_on: "(\<And>x. x \<in> set xs \<Longrightarrow> f x = g x) \<Longrightarrow> sort_key f xs = sort_key g xs"
proof (induction xs)
  case (Cons x xs)
  then have e: "sort_key f xs = sort_key g xs" by simp
  have "insort_key f x (sort_key g xs) = insort_key g x (sort_key g xs)"
    using Cons.prems by (intro insort_key_cong_on) auto
  with e show ?case by simp
qed simp

lemma urgency_cong:
  assumes "\<And>x. x \<in> set xs \<Longrightarrow> same_bodies h h' x"
  shows "sort_key (urgency h') xs = sort_key (urgency h) xs"
proof -
  have "urgency h' x = urgency h x" if "x \<in> set xs" for x
    using same_bodies_hprio [OF assms [OF that]] by (simp add: urgency_def)
  then show ?thesis by (rule sort_key_cong_on)
qed

lemma served_to_body: "served w (wl_body w') \<longleftrightarrow> served w w'"
  by (simp add: served_def wl_body_def wl_ok_def)

lemma served_at_before:
  assumes "same_bodies (sc_heap s) (sc_heap s1) x" and "served_at s1 s' x"
  shows "served_at s s' x"
  unfolding served_at_def
proof (intro allI impI)
  fix w assume "sc_heap s x = Some w"
  then obtain v where v: "sc_heap s1 x = Some v" "wl_body v = wl_body w" by (rule same_bodies_SomeD [OF assms(1)])
  then have "if wl_refcount v = 1 then sc_heap s' x = None else \<exists>w'. sc_heap s' x = Some w' \<and> served v w'"
    using assms(2) by (simp add: served_at_def)
  then show "if wl_refcount w = 1 then sc_heap s' x = None else \<exists>w'. sc_heap s' x = Some w' \<and> served w w'"
    unfolding wl_body_fields(3) [OF v(2)] served_body [OF v(2)] .
qed

lemma served_at_after:
  assumes "served_at s s1 x" and "same_bodies (sc_heap s1) (sc_heap s') x"
  shows "served_at s s' x"
  unfolding served_at_def
proof (intro allI impI)
  fix w assume w: "sc_heap s x = Some w"
  show "if wl_refcount w = 1 then sc_heap s' x = None else \<exists>w'. sc_heap s' x = Some w' \<and> served w w'"
  proof (cases "wl_refcount w = 1")
    case False
    with assms(1) w obtain v where v: "sc_heap s1 x = Some v" "served w v" by (auto simp: served_at_def)
    obtain u where u: "sc_heap s' x = Some u" "wl_body u = wl_body v" by (rule same_bodies_SomeD [OF assms(2) v(1)])
    have "served w u" using v(2) served_to_body [of w u] served_to_body [of w v] u(2) by simp
    with u(1) False show ?thesis by simp
  qed (use assms w in \<open>simp add: served_at_def same_bodies_def\<close>)
qed

lemma counts_served_Cons:
  assumes "counts_served s s1 [p]" and "counts_served s1 s' ps" and "\<And>x. x \<in> set ps \<Longrightarrow> same_bodies (sc_heap s) (sc_heap s1) x"
  shows "counts_served s s' (p # ps)"
proof -
  have "map (completion_call (sc_heap s1)) (rev ps) = map (completion_call (sc_heap s)) (rev ps)"
    using same_bodies_call [OF assms(3)] by simp
  with assms(1,2) show ?thesis by (simp add: counts_served_def add.assoc)
qed

lemma process_loop_serves:
  assumes "all_ok s" and "queue_at d (sc_ready_queue s) (sc_heap s) xs" and "\<forall>x \<in> set xs. hprio (sc_heap s) x \<noteq> 0"
    and "length xs \<le> n"
  shows "\<exists>s'. process_loop n s = Inr s' \<and> all_ok s' \<and> queue_at d (sc_ready_queue s') (sc_heap s') []
    \<and> (\<forall>x. if x \<in> set xs then served_at s s' x else same_bodies (sc_heap s) (sc_heap s') x)
    \<and> counts_served s s' (sort_key (urgency (sc_heap s)) xs)"
  using assms
proof (induction "length xs" arbitrary: s xs n)
  case 0
  then have "wq_count (sc_ready_queue s) = 0" by (simp add: queue_at_def unat_eq_0)
  with 0 show ?case by (subst process_loop.simps) (simp add: counts_served_def same_bodies_def)
next
  case (Suc k)
  then obtain m where n: "n = Suc m" by (cases n) auto
  have "\<exists>x \<in> set xs. hprio (sc_heap s) x \<noteq> 0" using Suc.hyps(2) Suc.prems(3) by (cases xs) auto
  from process_step [OF Suc.prems(1,2) this, of m] obtain as p bs s1 where
    st: "process_loop n s = process_loop m s1" "xs = as @ p # bs" "first_max (hprio (sc_heap s)) 0 xs p" "all_ok s1"
      "queue_at d (sc_ready_queue s1) (sc_heap s1) (as @ bs)" "\<And>x. x \<noteq> p \<Longrightarrow> same_bodies (sc_heap s) (sc_heap s1) x"
      "served_at s s1 p" "counts_served s s1 [p]" unfolding n by blast
  have dist: "distinct xs" by (rule queue_of_distinct [OF Suc.prems(2)])
  then have np: "p \<notin> set (as @ bs)" using st(2) by auto
  have "\<forall>x \<in> set (as @ bs). hprio (sc_heap s1) x \<noteq> 0"
  proof
    fix x assume x: "x \<in> set (as @ bs)"
    then have "x \<noteq> p" using np by auto
    then have "hprio (sc_heap s1) x = hprio (sc_heap s) x" by (intro same_bodies_hprio st(6))
    then show "hprio (sc_heap s1) x \<noteq> 0" using Suc.prems(3) st(2) x by auto
  qed
  from Suc.hyps(1) [OF _ st(4,5) this, of m] Suc.hyps(2) Suc.prems(4) st(2) n obtain s' where
    r: "process_loop m s1 = Inr s'" "all_ok s'" "queue_at d (sc_ready_queue s') (sc_heap s') []"
      "\<And>x. if x \<in> set (as @ bs) then served_at s1 s' x else same_bodies (sc_heap s1) (sc_heap s') x"
      "counts_served s1 s' (sort_key (urgency (sc_heap s1)) (as @ bs))" by auto
  have order: "sort_key (urgency (sc_heap s)) xs = p # sort_key (urgency (sc_heap s1)) (as @ bs)"
  proof -
    have "sort_key (urgency (sc_heap s1)) (as @ bs) = sort_key (urgency (sc_heap s)) (as @ bs)"
      by (rule urgency_cong, rule st(6)) (use np in blast)
    then show ?thesis using first_max_sort [OF dist st(2,3)] by simp
  qed
  have each: "if x \<in> set xs then served_at s s' x else same_bodies (sc_heap s) (sc_heap s') x" for x
  proof (cases "x = p")
    case True
    then show ?thesis using r(4) [of p] np st(2) served_at_after [OF st(7)] by simp
  next
    case False
    note b = st(6) [OF False]
    show ?thesis
      using r(4) [of x] st(2) False served_at_before [OF b, of s'] same_bodies_trans [OF b, of "sc_heap s'"]
      by (cases "x \<in> set (as @ bs)") simp_all
  qed
  have "counts_served s s' (p # sort_key (urgency (sc_heap s1)) (as @ bs))"
    by (rule counts_served_Cons [OF st(8) r(5)], rule st(6)) (use np in auto)
  then show ?case unfolding order st(1) using r(1-3) each by (intro exI [of _ s']) blast
qed

lemma process_loop_stuck:
  assumes "all_ok s" and "queue_at d (sc_ready_queue s) (sc_heap s) xs" and "z \<in> set xs" and "hprio (sc_heap s) z = 0"
  shows "process_loop n s = Inl Depth_Exceeded"
  using assms
proof (induction n arbitrary: s xs)
  case 0
  then have "wq_count (sc_ready_queue s) \<noteq> 0" using queue_of_empty_iff by fastforce
  then show ?case by (subst process_loop.simps) simp
next
  case (Suc n)
  show ?case
  proof (cases "\<exists>x \<in> set xs. hprio (sc_heap s) x \<noteq> 0")
    case True
    from process_step [OF Suc.prems(1,2) True, of n] obtain as p bs s1 where
      st: "process_loop (Suc n) s = process_loop n s1" "xs = as @ p # bs" "first_max (hprio (sc_heap s)) 0 xs p" "all_ok s1"
        "queue_at d (sc_ready_queue s1) (sc_heap s1) (as @ bs)" "\<And>x. x \<noteq> p \<Longrightarrow> same_bodies (sc_heap s) (sc_heap s1) x" by blast
    have "z \<noteq> p" using st(3) Suc.prems(4) by (auto simp: first_max_def)
    then have "hprio (sc_heap s1) z = 0" "z \<in> set (as @ bs)"
      using same_bodies_hprio [OF st(6)] Suc.prems(3,4) st(2) by auto
    then show ?thesis unfolding st(1) by (intro Suc.IH [OF st(4,5)])
  next
    case False
    with take_ready_ok [OF Suc.prems(2)] have "take_ready s = Inr (None, s)"
      by (auto simp: first_max_def)
    moreover have "wq_count (sc_ready_queue s) \<noteq> 0" using queue_of_empty_iff [OF Suc.prems(2)] Suc.prems(3) by auto
    ultimately show ?thesis using Suc.IH [OF Suc.prems] by (subst process_loop.simps) simp
  qed
qed

text \<open>
  C5. Serving the ready queue. When every queued workload has a priority above 0, processing returns
  after as many turns as there are workloads: all of them are completed successfully, in the order of
  descending priority and of submission among equals, which is also the order of the callbacks. The
  queue's reference is given back, so a workload nobody else holds is freed; the others are untouched and
  the statistics count each workload once.
\<close>
theorem process_serves_by_priority:
  assumes "all_ok s" and "sc_initialized s" and "queue_at d (sc_ready_queue s) (sc_heap s) xs"
    and "\<forall>x \<in> set xs. hprio (sc_heap s) x \<noteq> 0" and "length xs \<le> n"
  shows "\<exists>s'. mvgal_scheduler_process_internal n s = Inr (MVGAL_SUCCESS, s')
    \<and> queue_at d (sc_ready_queue s') (sc_heap s') []
    \<and> (\<forall>x. if x \<in> set xs then served_at s s' x else same_bodies (sc_heap s) (sc_heap s') x)
    \<and> counts_served s s' (sort_key (\<lambda>p. 2 ^ 32 - unat (hprio (sc_heap s) p)) xs)"
  using process_loop_serves [OF assms(1,3,4,5)] assms(2)
  by (auto simp: mvgal_scheduler_process_internal_def urgency_def [abs_def])

text \<open>
  C6. Processing returns, with some number of turns, exactly when no queued workload has priority 0; with
  such a workload every bound on the turns is exceeded.
\<close>
theorem process_returns_iff:
  assumes "all_ok s" and "sc_initialized s" and "queue_at d (sc_ready_queue s) (sc_heap s) xs"
  shows "((\<exists>n s'. mvgal_scheduler_process_internal n s = Inr (MVGAL_SUCCESS, s')) \<longleftrightarrow> (\<forall>x \<in> set xs. hprio (sc_heap s) x \<noteq> 0))
    \<and> ((\<exists>x \<in> set xs. hprio (sc_heap s) x = 0) \<longrightarrow>
         (\<forall>n. mvgal_scheduler_process_internal n s = Inl Depth_Exceeded))"
proof -
  have "mvgal_scheduler_process_internal n s = Inl Depth_Exceeded" if "x \<in> set xs" "hprio (sc_heap s) x = 0" for n x
    using process_loop_stuck [OF assms(1,3) that] assms(2) by (simp add: mvgal_scheduler_process_internal_def)
  moreover have "\<exists>s'. mvgal_scheduler_process_internal (length xs) s = Inr (MVGAL_SUCCESS, s')"
    if "\<forall>x \<in> set xs. hprio (sc_heap s) x \<noteq> 0"
    using process_loop_serves [OF assms(1,3) that order_refl] assms(2) by (auto simp: mvgal_scheduler_process_internal_def)
  ultimately show ?thesis by (metis sum.distinct(1))
qed

section \<open>Submitting\<close>

text \<open>The workload a submission creates, before it is queued.\<close>

definition fresh_workload :: "mvgal_workload_submit_info_t \<Rightarrow> mvgal_workload \<Rightarrow> bool" where
  "fresh_workload i w \<longleftrightarrow> wl_ok w \<and> wl_refcount w = 1 \<and> wl_priority w = si_priority i"

lemma enqueue_new_ok:
  assumes ok: "all_ok s" and q: "queue_at d (sc_ready_queue s) (sc_heap s) xs" and room: "length xs < 1024"
    and a: "a \<notin> set xs" "sc_heap s a = Some w0" and prep: "fresh_workload i (prepare w0)"
  shows "\<exists>s' w. enqueue_new a prepare s = Inr (MVGAL_SUCCESS, s')
    \<and> all_ok s' \<and> sc_initialized s' = sc_initialized s \<and> sc_thread_running s' = sc_thread_running s \<and> queue_at d (sc_ready_queue s') (sc_heap s') (xs @ [a])
    \<and> (\<forall>x. x \<noteq> a \<longrightarrow> same_bodies (sc_heap s) (sc_heap s') x)
    \<and> sc_heap s' a = Some w \<and> wl_refcount w = 2 \<and> wl_priority w = si_priority i
    \<and> sc_stats s' = (sc_stats s)\<lparr>st_workloads_submitted := st_workloads_submitted (sc_stats s) + 1\<rparr>
    \<and> sc_callbacks s' = sc_callbacks s"
proof -
  let ?w1 = "prepare w0" and ?now = "sc_clock s (sc_ticks s)"
  define w2 where "w2 = ?w1\<lparr>wl_state := MVGAL_WORKLOAD_STATE_QUEUED, wl_queue_time := ?now,
    wl_descriptor := (wl_descriptor ?w1)\<lparr>wd_submission_time := ?now\<rparr>\<rparr>"
  have w2: "wl_ok w2" "wl_refcount w2 = 1" "wl_priority w2 = si_priority i"
    using prep by (simp_all add: w2_def fresh_workload_def wl_ok_def)
  let ?h = "(sc_heap s)(a \<mapsto> w2)"
  have "queue_at d (sc_ready_queue s) ?h xs" using a(1) by (intro queue_of_cong [OF q]) auto
  from workload_queue_ok [OF this _ a(1) room, of w2] obtain q' h' w where
    e: "mvgal_workload_queue (Some a) (sc_ready_queue s) ?h = Inr (MVGAL_SUCCESS, q', h')" "queue_at d q' h' (xs @ [a])"
      "h' a = Some w" "wl_body w = wl_body (w2\<lparr>wl_refcount := wl_refcount w2 + 1\<rparr>)" "\<And>x. x \<noteq> a \<Longrightarrow> same_bodies ?h h' x" by auto
  note f = wl_body_fields [OF e(4)]
  let ?s' = "s\<lparr>sc_ticks := Suc (sc_ticks s), sc_ready_queue := q', sc_heap := h',
    sc_stats := (sc_stats s)\<lparr>st_workloads_submitted := st_workloads_submitted (sc_stats s) + 1\<rparr>\<rparr>"
  have same: "same_bodies (sc_heap s) h' x" if "x \<noteq> a" for x using e(5) [OF that] that by (simp add: same_bodies_def)
  have "wl_ok v" if hx: "h' x = Some v" for x v
  proof (cases "x = a")
    case True
    then show ?thesis using e(3) f(5) w2(1) hx by (simp add: wl_ok_def)
  next
    case False
    from same [OF False] hx obtain u where u: "sc_heap s x = Some u" "wl_body v = wl_body u"
      by (cases "sc_heap s x") (simp_all add: same_bodies_def)
    then show ?thesis using ok wl_body_fields(5) [OF u(2)] by (auto simp: all_ok_def ran_def)
  qed
  then have "all_ok ?s'" using ok by (auto simp: all_ok_def sched_ok_def gpus_wf_def ran_def)
  moreover have "enqueue_new a prepare s = Inr (MVGAL_SUCCESS, ?s')"
    using a(2) e(1) unfolding w2_def
    by (simp add: enqueue_new_def sderef_def get_time_ns_def put_wl_def Let_def)
  ultimately show ?thesis using e(2,3) f w2 same by (intro exI [of _ ?s'] exI [of _ w]) simp
qed

text \<open>The state in which a submission puts its new workload \<open>a\<close> into the queue.\<close>

lemma submit_creates:
  assumes ok: "all_ok s" and init: "sc_initialized s" and alloc: "sc_calloc_ok s (sc_ticks s)"
    and q: "queue_at d (sc_ready_queue s) (sc_heap s) xs" and a: "sc_heap s a = None"
  shows "\<exists>s1 w0. mvgal_workload_submit n found a ctx (Some i) True s =
      bnd (queue_new n a (\<lambda>w. w\<lparr>wl_context := ctx, wl_descriptor := (wl_descriptor w)\<lparr>wd_api := 0\<rparr>\<rparr>) s1) (\<lambda>(err, s3).
        Inr (err, if err = MVGAL_SUCCESS then Some a else None, s3))
    \<and> s1 = s\<lparr>sc_ticks := Suc (sc_ticks s), sc_next_workload_id := sc_next_workload_id s + 1, sc_heap := (sc_heap s)(a \<mapsto> w0)\<rparr>
    \<and> all_ok s1 \<and> queue_at d (sc_ready_queue s1) (sc_heap s1) xs \<and> a \<notin> set xs
    \<and> fresh_workload i (w0\<lparr>wl_context := ctx, wl_descriptor := (wl_descriptor w0)\<lparr>wd_api := 0\<rparr>\<rparr>)"
proof -
  obtain w0 s1 where c: "mvgal_workload_create_internal a i s = (Some a, s1)"
    "s1 = s\<lparr>sc_ticks := Suc (sc_ticks s), sc_next_workload_id := sc_next_workload_id s + 1, sc_heap := (sc_heap s)(a \<mapsto> w0)\<rparr>"
    "wl_ok w0" "wl_refcount w0 = 1" "wl_priority w0 = si_priority i"
    using alloc by (simp add: mvgal_workload_create_internal_def get_time_ns_def put_wl_def Let_def zero_workload_def wl_ok_def)
  have n: "a \<notin> set xs" using queue_of_dom [OF q, of a] a by auto
  then have "queue_at d (sc_ready_queue s) ((sc_heap s)(a \<mapsto> w0)) xs" by (intro queue_of_cong [OF q]) auto
  moreover have "all_ok s1" using ok c(2,3) by (auto simp: all_ok_def sched_ok_def gpus_wf_def ran_def)
  ultimately show ?thesis using c n init
    by (intro exI [of _ s1] exI [of _ w0])
       (simp add: mvgal_workload_submit_def ensure_scheduler_def fresh_workload_def wl_ok_def)
qed

lemma submit_queues:
  assumes ok: "all_ok s" and init: "sc_initialized s" and alloc: "sc_calloc_ok s (sc_ticks s)" and t: "\<not> sc_thread_running s"
    and q: "queue_at d (sc_ready_queue s) (sc_heap s) xs" and room: "length xs < 1024" and a: "sc_heap s a = None"
  shows "\<exists>s2 w. mvgal_workload_submit n found a ctx (Some i) True s =
      bnd (mvgal_scheduler_process_internal n s2) (\<lambda>(err, s3). Inr (err, if err = MVGAL_SUCCESS then Some a else None, s3))
    \<and> all_ok s2 \<and> sc_initialized s2 \<and> queue_at d (sc_ready_queue s2) (sc_heap s2) (xs @ [a])
    \<and> (\<forall>x \<in> set xs. same_bodies (sc_heap s) (sc_heap s2) x) \<and> a \<notin> set xs
    \<and> sc_heap s2 a = Some w \<and> wl_refcount w = 2 \<and> wl_priority w = si_priority i
    \<and> sc_stats s2 = (sc_stats s)\<lparr>st_workloads_submitted := st_workloads_submitted (sc_stats s) + 1\<rparr>"
proof -
  let ?p = "\<lambda>w. w\<lparr>wl_context := ctx, wl_descriptor := (wl_descriptor w)\<lparr>wd_api := 0\<rparr>\<rparr>"
  from submit_creates [OF ok init alloc q a, of n found ctx i] obtain s1 w0 where
    c: "mvgal_workload_submit n found a ctx (Some i) True s = bnd (queue_new n a ?p s1) (\<lambda>(err, s3).
        Inr (err, if err = MVGAL_SUCCESS then Some a else None, s3))"
      "s1 = s\<lparr>sc_ticks := Suc (sc_ticks s), sc_next_workload_id := sc_next_workload_id s + 1, sc_heap := (sc_heap s)(a \<mapsto> w0)\<rparr>"
      "all_ok s1" "queue_at d (sc_ready_queue s1) (sc_heap s1) xs" "a \<notin> set xs" "fresh_workload i (?p w0)" by blast
  have "sc_heap s1 a = Some w0" using c(2) by simp
  from enqueue_new_ok [where prepare = ?p, OF c(3,4) room c(5) this c(6)] obtain s2 w where
    r: "enqueue_new a ?p s1 = Inr (MVGAL_SUCCESS, s2)"
      "all_ok s2" "sc_initialized s2 = sc_initialized s1" "sc_thread_running s2 = sc_thread_running s1" "queue_at d (sc_ready_queue s2) (sc_heap s2) (xs @ [a])"
      "\<And>x. x \<noteq> a \<Longrightarrow> same_bodies (sc_heap s1) (sc_heap s2) x" "sc_heap s2 a = Some w" "wl_refcount w = 2"
      "wl_priority w = si_priority i"
      "sc_stats s2 = (sc_stats s1)\<lparr>st_workloads_submitted := st_workloads_submitted (sc_stats s1) + 1\<rparr>" by blast
  have "same_bodies (sc_heap s) (sc_heap s2) x" if "x \<in> set xs" for x
  proof -
    have "x \<noteq> a" using c(5) that by auto
    with r(6) [OF this] c(2) show ?thesis by (simp add: same_bodies_def)
  qed
  with r c(1,2,5) init t show ?thesis by (intro exI [of _ s2] exI [of _ w]) (simp add: queue_new_def)
qed

text \<open>
  C7. Submitting a workload of positive priority to a started scheduler without a thread, whose queue holds
  positive priorities and has room, returns a handle to a completed workload with one reference: waiting on
  it returns success at once, its result is success, and destroying the handle frees it. The workloads
  queued before it are served too.
\<close>
theorem submit_serves_and_destroy_frees:
  assumes "all_ok s" and "sc_initialized s" and "sc_calloc_ok s (sc_ticks s)" and "\<not> sc_thread_running s"
    and "queue_at d (sc_ready_queue s) (sc_heap s) xs" and "length xs < 1024" and "\<forall>x \<in> set xs. hprio (sc_heap s) x \<noteq> 0"
    and "sc_heap s a = None" and "si_priority i \<noteq> 0" and "length xs < n"
  shows "\<exists>s' w. mvgal_workload_submit n found a ctx (Some i) True s = Inr (MVGAL_SUCCESS, Some a, s')
    \<and> queue_at d (sc_ready_queue s') (sc_heap s') [] \<and> (\<forall>x \<in> set xs. served_at s s' x)
    \<and> sc_heap s' a = Some w \<and> wl_refcount w = 1 \<and> wl_state w = MVGAL_WORKLOAD_STATE_COMPLETED
    \<and> mvgal_workload_wait (Some w) timeout_ms now env = Some (Some w, MVGAL_SUCCESS)
    \<and> mvgal_workload_get_result (Some a) s' = Inr MVGAL_SUCCESS
    \<and> mvgal_workload_destroy (Some a) s' = Inr (s'\<lparr>sc_heap := (sc_heap s')(a := None)\<rparr>)"
proof -
  from submit_queues [OF assms(1-6,8), of n found ctx i] obtain s2 w2 where
    r: "mvgal_workload_submit n found a ctx (Some i) True s =
      bnd (mvgal_scheduler_process_internal n s2) (\<lambda>(err, s3). Inr (err, if err = MVGAL_SUCCESS then Some a else None, s3))"
      "all_ok s2" "sc_initialized s2" "queue_at d (sc_ready_queue s2) (sc_heap s2) (xs @ [a])"
      "\<And>x. x \<in> set xs \<Longrightarrow> same_bodies (sc_heap s) (sc_heap s2) x" "sc_heap s2 a = Some w2" "wl_refcount w2 = 2"
      "wl_priority w2 = si_priority i" "a \<notin> set xs" by blast
  have prio: "\<forall>x \<in> set (xs @ [a]). hprio (sc_heap s2) x \<noteq> 0"
  proof
    fix x assume "x \<in> set (xs @ [a])"
    then show "hprio (sc_heap s2) x \<noteq> 0"
      using same_bodies_hprio [OF r(5), of x] assms(7,9) r(6,8) by (cases "x = a") auto
  qed
  have "length (xs @ [a]) \<le> n" using assms(10) by simp
  from process_loop_serves [OF r(2,4) prio this] obtain s' where
    p: "process_loop n s2 = Inr s'" "queue_at d (sc_ready_queue s') (sc_heap s') []"
      "\<And>x. if x \<in> set (xs @ [a]) then served_at s2 s' x else same_bodies (sc_heap s2) (sc_heap s') x" by blast
  have "served_at s s' x" if "x \<in> set xs" for x
    using p(3) [of x] that by (intro served_at_before [OF r(5) [OF that]]) simp
  moreover from p(3) [of a] obtain w where w: "sc_heap s' a = Some w" "served w2 w"
    using r(6,7) by (auto simp: served_at_def)
  ultimately show ?thesis using p(1,2) r(1,3,7)
    by (intro exI [of _ s'] exI [of _ w])
       (simp add: mvgal_scheduler_process_internal_def served_def mvgal_workload_wait_def mvgal_workload_get_result_def sderef_def
         mvgal_workload_destroy_def release_ref_def mvgal_workload_release_def mvgal_workload_destroy_internal_def)
qed

text \<open>A submission with priority 0, the lowest of the documented range 0 to 100, never returns.\<close>
lemma submit_priority_zero_hangs:
  assumes "all_ok s" and "sc_initialized s" and "sc_calloc_ok s (sc_ticks s)" and "\<not> sc_thread_running s"
    and "queue_at d (sc_ready_queue s) (sc_heap s) xs" and "length xs < 1024" and "sc_heap s a = None" and "si_priority i = 0"
  shows "mvgal_workload_submit n found a ctx (Some i) True s = Inl Depth_Exceeded"
proof -
  from submit_queues [OF assms(1-7), of n found ctx i] obtain s2 w2 where
    r: "mvgal_workload_submit n found a ctx (Some i) True s =
      bnd (mvgal_scheduler_process_internal n s2) (\<lambda>(err, s3). Inr (err, if err = MVGAL_SUCCESS then Some a else None, s3))"
      "all_ok s2" "sc_initialized s2" "queue_at d (sc_ready_queue s2) (sc_heap s2) (xs @ [a])" "sc_heap s2 a = Some w2"
      "wl_priority w2 = si_priority i" by blast
  have "process_loop n s2 = Inl Depth_Exceeded"
    by (rule process_loop_stuck [OF r(2,4), of a]) (use r(5,6) assms(8) in simp_all)
  with r(1,3) show ?thesis by (simp add: mvgal_scheduler_process_internal_def)
qed

section \<open>Examples\<close>

text \<open>Two GPUs, and two queued workloads of priorities 20 and 70; a client still holds the second.\<close>

definition two_waiting :: mvgal_scheduler_state_t where
  "two_waiting = two_gpus\<lparr>
     sc_ready_queue := \<lparr>wq_head = Some 0, wq_tail = Some 1, wq_count = 2, wq_total_priority = 90\<rparr>,
     sc_heap := [0 \<mapsto> zero_workload\<lparr>wl_refcount := 1, wl_next := Some 1,
                     wl_descriptor := zero_workload_descriptor\<lparr>wd_priority := 20\<rparr>\<rparr>,
                 1 \<mapsto> zero_workload\<lparr>wl_refcount := 2, wl_prev := Some 0,
                     wl_descriptor := zero_workload_descriptor\<lparr>wd_priority := 70\<rparr>\<rparr>]\<rparr>"

lemma afr_zero_ok [simp]: "afr_ok afr_zero" by (simp add: afr_ok_def afr_zero_def)

lemma zero_workload_ok [simp]: "wl_ok (zero_workload\<lparr>wl_refcount := n, wl_next := a, wl_prev := b, wl_descriptor := desc\<rparr>)"
  by (simp add: wl_ok_def zero_workload_def)

lemma initial_gpu_sane [simp]: "gpu_sane initial_gpu" "gpu_sane (initial_gpu\<lparr>gs_available := x\<rparr>)"
  "gpu_sane (initial_gpu\<lparr>gs_available := x, gs_graphics_score := F32 800\<rparr>)"
  by (simp_all add: gpu_sane_def initial_gpu_def)

lemma two_gpus_ok: "sched_ok two_gpus"
  by (simp add: sched_ok_def gpus_wf_def two_gpus_def idle_sched_def initial_config_def)

lemma two_waiting_ok: "all_ok two_waiting" "sc_initialized two_waiting"
  using two_gpus_ok by (auto simp: all_ok_def two_waiting_def sched_ok_def gpus_wf_def ran_def wl_ok_def
    two_gpus_def idle_sched_def zero_workload_def)

lemma two_waiting_queue: "queue_of (sc_ready_queue two_waiting) (sc_heap two_waiting) [0, 1]"
  by (simp add: two_waiting_def queue_at_def hseg_def hfield_def hprio_def zero_workload_def zero_workload_descriptor_def)

lemma two_waiting_prio: "hprio (sc_heap two_waiting) 0 = 20" "hprio (sc_heap two_waiting) (Suc 0) = 70"
  by (simp_all add: two_waiting_def hprio_def zero_workload_def zero_workload_descriptor_def)

text \<open>Processing frees the first workload and completes the second, as the witness for C5.\<close>

theorem process_serves_by_priority_witness:
  "\<exists>s' w. mvgal_scheduler_process_internal 2 two_waiting = Inr (MVGAL_SUCCESS, s')
    \<and> sc_heap s' 0 = None \<and> sc_heap s' 1 = Some w \<and> wl_refcount w = 1 \<and> wl_state w = MVGAL_WORKLOAD_STATE_COMPLETED
    \<and> st_workloads_completed (sc_stats s') = 2"
proof -
  have "\<forall>x \<in> set [0, 1]. hprio (sc_heap two_waiting) x \<noteq> 0" using two_waiting_prio by simp
  from process_serves_by_priority [OF two_waiting_ok two_waiting_queue this, of 2] obtain s' where
    r: "mvgal_scheduler_process_internal 2 two_waiting = Inr (MVGAL_SUCCESS, s')"
      "\<forall>x. if x \<in> set [0, 1] then served_at two_waiting s' x else same_bodies (sc_heap two_waiting) (sc_heap s') x"
      "counts_served two_waiting s' (sort_key (\<lambda>p. 2 ^ 32 - unat (hprio (sc_heap two_waiting) p)) [0, 1])" by auto
  have "served_at two_waiting s' 0" "served_at two_waiting s' 1" using r(2) [rule_format, of 0] r(2) [rule_format, of 1] by simp_all
  moreover have "st_workloads_completed (sc_stats s') = 2"
    using r(3) by (simp add: counts_served_def two_waiting_def two_gpus_def idle_sched_def)
  ultimately show ?thesis using r(1)
    by (auto simp: served_at_def served_def two_waiting_def)
qed

text \<open>That queue is processed, one with a workload of priority 0 is not, as the witness for C6.\<close>

definition zero_waiting :: mvgal_scheduler_state_t where
  "zero_waiting = two_gpus\<lparr>
     sc_ready_queue := \<lparr>wq_head = Some 0, wq_tail = Some 0, wq_count = 1, wq_total_priority = 0\<rparr>,
     sc_heap := [0 \<mapsto> zero_workload\<lparr>wl_refcount := 1\<rparr>]\<rparr>"

theorem process_returns_iff_witness:
  "(\<exists>n s'. mvgal_scheduler_process_internal n two_waiting = Inr (MVGAL_SUCCESS, s'))
   \<and> (\<forall>n. mvgal_scheduler_process_internal n zero_waiting = Inl Depth_Exceeded)"
proof
  show "\<exists>n s'. mvgal_scheduler_process_internal n two_waiting = Inr (MVGAL_SUCCESS, s')"
    using process_returns_iff [OF two_waiting_ok two_waiting_queue] two_waiting_prio by simp
  have "all_ok zero_waiting" "sc_initialized zero_waiting"
    using two_gpus_ok by (auto simp: all_ok_def zero_waiting_def sched_ok_def gpus_wf_def ran_def wl_ok_def
      two_gpus_def idle_sched_def zero_workload_def)
  moreover have "queue_of (sc_ready_queue zero_waiting) (sc_heap zero_waiting) [0]" "hprio (sc_heap zero_waiting) 0 = 0"
    by (simp_all add: zero_waiting_def queue_at_def hseg_def hfield_def hprio_def zero_workload_def zero_workload_descriptor_def)
  ultimately show "\<forall>n. mvgal_scheduler_process_internal n zero_waiting = Inl Depth_Exceeded"
    using process_returns_iff [of zero_waiting 0 "[0]"] by simp
qed

text \<open>A third workload is submitted, served and destroyed, as the witness for C7.\<close>

definition urgent :: mvgal_workload_submit_info_t where
  "urgent = \<lparr>si_type = MVGAL_WORKLOAD_COMPUTE, si_priority = 100, si_deadline = 0, si_gpu_mask = 3,
     si_dependency_count = 0, si_dependencies = None, si_user_data = None\<rparr>"

theorem submit_serves_and_destroy_frees_witness:
  "\<exists>s' w. mvgal_workload_submit 3 [] 7 None (Some urgent) True two_waiting = Inr (MVGAL_SUCCESS, Some 7, s')
    \<and> sc_heap s' 7 = Some w \<and> wl_state w = MVGAL_WORKLOAD_STATE_COMPLETED
    \<and> mvgal_workload_destroy (Some 7) s' = Inr (s'\<lparr>sc_heap := (sc_heap s')(7 := None)\<rparr>)"
proof -
  have "\<forall>x \<in> set [0, 1]. hprio (sc_heap two_waiting) x \<noteq> 0" using two_waiting_prio by simp
  with submit_serves_and_destroy_frees [OF two_waiting_ok _ _ two_waiting_queue, of 7 urgent 3] show ?thesis
    by (fastforce simp: two_waiting_def two_gpus_def idle_sched_def urgent_def)
qed

end
