(* ===== verification/Sched_Conc.thy ===== *)
theory Sched_Conc
  imports Sched_Serve
begin

text \<open>
  The scheduler with several clients and workers at work: the calls of \<^verbatim>\<open>scheduler.c\<close> as the steps of
  one relation, in any order. The invariant ties every reference count to the owners of the workload, and
  gives that no call touches freed memory.
\<close>

section \<open>Clients and workers\<close>

text \<open>
  The scheduler state, the handles that clients hold, and the workloads that worker threads took from the
  queue and did not release yet.
\<close>

record sched_conc =
  cc_state :: mvgal_scheduler_state_t
  cc_handles :: "nat set"
  cc_busy :: "nat set"

text \<open>
  A step is one call under its locks: of a client on a handle it holds, or of a worker on a workload it
  took. A call that would fault has no step.
\<close>

inductive sched_step :: "sched_conc \<Rightarrow> sched_conc \<Rightarrow> bool" where
  submit: "sc_heap (cc_state c) a = None \<Longrightarrow> mvgal_workload_create_internal a i (cc_state c) = (Some a, s1) \<Longrightarrow>
     enqueue_new a (\<lambda>w. w\<lparr>wl_context := ctx, wl_callback := cb\<rparr>) s1 = Inr (e, s2) \<Longrightarrow>
     sched_step c (c\<lparr>cc_state := s2, cc_handles := (if e = MVGAL_SUCCESS then insert a (cc_handles c) else cc_handles c)\<rparr>)"
| take_one: "take_ready (cc_state c) = Inr (po, s1) \<Longrightarrow>
     sched_step c (c\<lparr>cc_state := s1, cc_busy := set_option po \<union> cc_busy c\<rparr>)"
| assign: "p \<in> cc_busy c \<Longrightarrow> mvgal_scheduler_apply_strategy (Some p) (cc_state c) = Inr (e, s1) \<Longrightarrow>
     sched_step c (c\<lparr>cc_state := s1\<rparr>)"
| complete: "p \<in> cc_busy c \<Longrightarrow> mvgal_workload_complete (Some p) e (cc_state c) = Inr s1 \<Longrightarrow>
     sched_step c (c\<lparr>cc_state := s1\<rparr>)"
| release: "p \<in> cc_busy c \<Longrightarrow> release_ref (Some p) (cc_state c) = Inr s1 \<Longrightarrow>
     sched_step c (c\<lparr>cc_state := s1, cc_busy := cc_busy c - {p}\<rparr>)"
| cancel: "p \<in> cc_handles c \<Longrightarrow> mvgal_workload_cancel (Some p) (cc_state c) = Inr (e, s1) \<Longrightarrow>
     sched_step c (c\<lparr>cc_state := s1\<rparr>)"
| destroy: "p \<in> cc_handles c \<Longrightarrow> mvgal_workload_destroy (Some p) (cc_state c) = Inr s1 \<Longrightarrow>
     sched_step c (c\<lparr>cc_state := s1, cc_handles := cc_handles c - {p}\<rparr>)"
| set_priority: "p \<in> cc_handles c \<Longrightarrow> mvgal_workload_set_priority (Some p) n (cc_state c) = Inr (e, s1) \<Longrightarrow>
     sched_step c (c\<lparr>cc_state := s1\<rparr>)"
| assign_gpus: "p \<in> cc_handles c \<Longrightarrow> mvgal_workload_assign_gpus (Some p) gs (cc_state c) = Inr (e, s1) \<Longrightarrow>
     sched_step c (c\<lparr>cc_state := s1\<rparr>)"
| configure: "mvgal_scheduler_configure cfg (cc_state c) = (e, s1) \<Longrightarrow> sched_step c (c\<lparr>cc_state := s1\<rparr>)"
| set_strategy: "sched_step c (c\<lparr>cc_state := mvgal_scheduler_set_strategy st (cc_state c)\<rparr>)"
| gpu_priority: "mvgal_scheduler_set_gpu_priority g n (cc_state c) = (e, s1) \<Longrightarrow> sched_step c (c\<lparr>cc_state := s1\<rparr>)"
| pause: "sched_step c (c\<lparr>cc_state := mvgal_scheduler_pause (cc_state c)\<rparr>)"
| resume: "sched_step c (c\<lparr>cc_state := mvgal_scheduler_resume (cc_state c)\<rparr>)"
| reset_stats: "sched_step c (c\<lparr>cc_state := mvgal_scheduler_reset_stats (cc_state c)\<rparr>)"

text \<open>Every workload has one reference per owner: a client, a worker, the queue.\<close>

definition owners :: "nat set \<Rightarrow> nat set \<Rightarrow> nat list \<Rightarrow> nat \<Rightarrow> u32" where
  "owners H B xs p = of_bool (p \<in> H) + of_bool (p \<in> B) + of_bool (p \<in> set xs)"

definition refs_at :: "sched_conc \<Rightarrow> nat list \<Rightarrow> bool" where
  "refs_at c xs \<longleftrightarrow> dom (sc_heap (cc_state c)) = cc_handles c \<union> cc_busy c \<union> set xs \<and> cc_busy c \<inter> set xs = {}
     \<and> (\<forall>p w. sc_heap (cc_state c) p = Some w \<longrightarrow> wl_refcount w = owners (cc_handles c) (cc_busy c) xs p)"

definition linked :: "sched_conc \<Rightarrow> nat list \<Rightarrow> bool" where
  "linked c xs \<longleftrightarrow> (\<exists>d. queue_at d (sc_ready_queue (cc_state c)) (sc_heap (cc_state c)) xs)"

definition conc_inv :: "sched_conc \<Rightarrow> bool" where
  "conc_inv c \<longleftrightarrow> all_ok (cc_state c) \<and> (\<exists>xs. linked c xs \<and> refs_at c xs)"

section \<open>Changes of one workload\<close>

text \<open>A change of one workload that keeps its links and its references keeps the invariant.\<close>

lemma linked_update:
  assumes "queue_at d q h xs" and "h p = Some w" and "wl_next v = wl_next w" and "wl_prev v = wl_prev w"
    and "wq_head q' = wq_head q" and "wq_tail q' = wq_tail q" and "wq_count q' = wq_count q"
  shows "\<exists>d. queue_at d q' (h(p \<mapsto> v)) xs"
proof -
  have "hseg wl_next wl_prev (h(p \<mapsto> v)) None (wq_head q) xs (wq_tail q) None"
  proof (rule hseg_cong)
    show seg: "hseg wl_next wl_prev h None (wq_head q) xs (wq_tail q) None" using assms(1) by (simp add: queue_at_def)
    fix x assume "x \<in> set xs"
    then have "h x \<noteq> None" using seg by (auto simp: hseg_def)
    then show "(h(p \<mapsto> v)) x \<noteq> None \<and> hfield wl_next (h(p \<mapsto> v)) x = hfield wl_next h x
      \<and> hfield wl_prev (h(p \<mapsto> v)) x = hfield wl_prev h x"
      using assms(2-4) by (simp add: hfield_def)
  qed
  then have "queue_at (wq_total_priority q' - (\<Sum>x\<leftarrow>xs. ucast (hprio (h(p \<mapsto> v)) x))) q' (h(p \<mapsto> v)) xs"
    using assms by (simp add: queue_at_def)
  then show ?thesis by blast
qed

lemma conc_inv_put:
  assumes inv: "conc_inv c" and w: "sc_heap (cc_state c) p = Some w"
    and v: "wl_next v = wl_next w" "wl_prev v = wl_prev w" "wl_refcount v = wl_refcount w" "wl_ok v"
    and s': "sc_heap s' = (sc_heap (cc_state c))(p \<mapsto> v)" "sched_ok s'"
    and q': "wq_head (sc_ready_queue s') = wq_head (sc_ready_queue (cc_state c))"
      "wq_tail (sc_ready_queue s') = wq_tail (sc_ready_queue (cc_state c))"
      "wq_count (sc_ready_queue s') = wq_count (sc_ready_queue (cc_state c))"
  shows "conc_inv (c\<lparr>cc_state := s'\<rparr>)"
proof -
  from inv obtain d xs where x: "queue_at d (sc_ready_queue (cc_state c)) (sc_heap (cc_state c)) xs" "refs_at c xs"
    "all_ok (cc_state c)" by (auto simp: conc_inv_def linked_def)
  have "linked (c\<lparr>cc_state := s'\<rparr>) xs"
    using linked_update [OF x(1) w v(1,2) q'] s'(1) by (simp add: linked_def)
  moreover have "dom (sc_heap s') = dom (sc_heap (cc_state c))" using w s'(1) by auto
  then have "refs_at (c\<lparr>cc_state := s'\<rparr>) xs" using x(2) w v(3) s'(1) by (simp add: refs_at_def)
  moreover have "all_ok s'" using x(3) s' v(4) by (auto simp: all_ok_def ran_def)
  ultimately show ?thesis by (auto simp: conc_inv_def)
qed

lemma conc_invD:
  assumes "conc_inv c" and "p \<in> cc_handles c \<union> cc_busy c"
  obtains w where "sc_heap (cc_state c) p = Some w" "wl_ok w" "sched_ok (cc_state c)" "all_ok (cc_state c)"
proof -
  from assms obtain w where w: "sc_heap (cc_state c) p = Some w" by (fastforce simp: conc_inv_def refs_at_def)
  with assms(1) that show thesis by (auto simp: conc_inv_def all_ok_def ran_def)
qed

lemma sched_ok_cong:
  "sc_gpus s' = sc_gpus s \<Longrightarrow> sc_gpu_count s' = sc_gpu_count s \<Longrightarrow> sc_afr s' = sc_afr s \<Longrightarrow>
   length (cf_gpu_priorities (sc_config s')) = length (cf_gpu_priorities (sc_config s)) \<Longrightarrow> sched_ok s' = sched_ok s"
  by (simp add: sched_ok_def gpus_wf_def)

lemma conc_inv_cong:
  assumes "conc_inv c" and "sc_heap s' = sc_heap (cc_state c)" and "sc_ready_queue s' = sc_ready_queue (cc_state c)" and "sched_ok s'"
  shows "conc_inv (c\<lparr>cc_state := s'\<rparr>)"
  using assms by (simp add: conc_inv_def linked_def refs_at_def all_ok_def)

section \<open>Each call returns and keeps the invariant\<close>

lemma apply_safe:
  assumes "conc_inv c" and "p \<in> cc_busy c"
  shows "\<exists>e s1. mvgal_scheduler_apply_strategy (Some p) (cc_state c) = Inr (e, s1) \<and> conc_inv (c\<lparr>cc_state := s1\<rparr>)"
proof -
  obtain w where w: "sc_heap (cc_state c) p = Some w" "wl_ok w" "sched_ok (cc_state c)"
    using conc_invD [OF assms(1), of p] assms(2) by blast
  from applied.distribute_returns [OF w(3,1,2)] obtain e v a where
    r: "mvgal_scheduler_apply_strategy (Some p) (cc_state c) = Inr (e, with_gpu p v a (cc_state c))" "wl_ok v"
      "wl_core v = wl_core w" "sched_ok (with_gpu p v a (cc_state c))" by blast
  have "conc_inv (c\<lparr>cc_state := with_gpu p v a (cc_state c)\<rparr>)"
    by (rule conc_inv_put [OF assms(1) w(1) wl_core_links(1,2,4) [OF r(3)] r(2)]) (use r(4) in simp_all)
  with r(1) show ?thesis by blast
qed

lemma complete_safe:
  assumes "conc_inv c" and "p \<in> cc_busy c"
  shows "\<exists>s1. mvgal_workload_complete (Some p) e (cc_state c) = Inr s1 \<and> conc_inv (c\<lparr>cc_state := s1\<rparr>)"
proof -
  obtain w where w: "sc_heap (cc_state c) p = Some w" "wl_ok w" "sched_ok (cc_state c)"
    using conc_invD [OF assms(1), of p] assms(2) by blast
  let ?v = "completed_as e (sc_clock (cc_state c) (sc_ticks (cc_state c))) w"
  obtain s1 where s1: "mvgal_workload_complete (Some p) e (cc_state c) = Inr s1" "sc_heap s1 = (sc_heap (cc_state c))(p \<mapsto> ?v)"
    "sc_ready_queue s1 = sc_ready_queue (cc_state c)" "sched_ok s1"
    using w by (cases "wl_callback w")
      (simp_all add: mvgal_workload_complete_def sderef_def get_time_ns_def put_wl_def Let_def sched_ok_def gpus_wf_def)
  have "conc_inv (c\<lparr>cc_state := s1\<rparr>)"
    by (rule conc_inv_put [OF assms(1) w(1), of ?v]) (use s1 w(2) in \<open>simp_all add: completed_as_def wl_ok_def\<close>)
  with s1(1) show ?thesis by blast
qed

lemma cancel_safe:
  assumes "conc_inv c" and "p \<in> cc_handles c"
  shows "\<exists>e s1. mvgal_workload_cancel (Some p) (cc_state c) = Inr (e, s1) \<and> conc_inv (c\<lparr>cc_state := s1\<rparr>)"
proof -
  obtain w where w: "sc_heap (cc_state c) p = Some w" "wl_ok w" "sched_ok (cc_state c)"
    using conc_invD [OF assms(1), of p] assms(2) by blast
  show ?thesis
  proof (cases "wl_state w = MVGAL_WORKLOAD_STATE_PENDING \<or> wl_state w = MVGAL_WORKLOAD_STATE_QUEUED")
    case True
    let ?v = "w\<lparr>wl_state := MVGAL_WORKLOAD_STATE_CANCELLED, wl_completion_signaled := True,
      wl_completion_status := MVGAL_ERROR_INTERRUPTED\<rparr>"
    obtain s1 where s1: "mvgal_workload_cancel (Some p) (cc_state c) = Inr (MVGAL_SUCCESS, s1)"
      "sc_heap s1 = (sc_heap (cc_state c))(p \<mapsto> ?v)" "sc_ready_queue s1 = sc_ready_queue (cc_state c)" "sched_ok s1"
      using w True by (simp add: mvgal_workload_cancel_def sderef_def put_wl_def sched_ok_def gpus_wf_def)
    have "conc_inv (c\<lparr>cc_state := s1\<rparr>)"
      by (rule conc_inv_put [OF assms(1) w(1), of ?v]) (use s1 w(2) in \<open>simp_all add: wl_ok_def\<close>)
    with s1(1) show ?thesis by blast
  next
    case False
    then show ?thesis using w(1) assms(1) by (simp add: mvgal_workload_cancel_def sderef_def)
  qed
qed

lemma set_priority_safe:
  assumes "conc_inv c" and "p \<in> cc_handles c"
  shows "\<exists>e s1. mvgal_workload_set_priority (Some p) n (cc_state c) = Inr (e, s1) \<and> conc_inv (c\<lparr>cc_state := s1\<rparr>)"
proof (cases "100 < n")
  case True
  then show ?thesis using assms(1) by (simp add: mvgal_workload_set_priority_def)
next
  case False
  obtain w where w: "sc_heap (cc_state c) p = Some w" "wl_ok w" "sched_ok (cc_state c)"
    using conc_invD [OF assms(1), of p] assms(2) by blast
  let ?v = "w\<lparr>wl_descriptor := (wl_descriptor w)\<lparr>wd_priority := n\<rparr>\<rparr>"
  obtain s1 where s1: "mvgal_workload_set_priority (Some p) n (cc_state c) = Inr (MVGAL_SUCCESS, s1)"
    "sc_heap s1 = (sc_heap (cc_state c))(p \<mapsto> ?v)" "sched_ok s1"
    "wq_head (sc_ready_queue s1) = wq_head (sc_ready_queue (cc_state c))"
    "wq_tail (sc_ready_queue s1) = wq_tail (sc_ready_queue (cc_state c))"
    "wq_count (sc_ready_queue s1) = wq_count (sc_ready_queue (cc_state c))"
    using w False by (simp add: mvgal_workload_set_priority_def sderef_def put_wl_def sched_ok_def gpus_wf_def Let_def)
  have "conc_inv (c\<lparr>cc_state := s1\<rparr>)"
    by (rule conc_inv_put [OF assms(1) w(1), of ?v]) (use s1 w(2) in \<open>simp_all add: wl_ok_def\<close>)
  with s1(1) show ?thesis by blast
qed

lemma assign_loop_keeps:
  assumes "wl_ok w"
  shows "wl_ok (assign_loop i gs w) \<and> wl_next (assign_loop i gs w) = wl_next w \<and> wl_prev (assign_loop i gs w) = wl_prev w
    \<and> wl_refcount (assign_loop i gs w) = wl_refcount w"
  using assms by (induction gs arbitrary: i w) (simp_all add: wl_ok_def)

lemma assign_gpus_safe:
  assumes "conc_inv c" and "p \<in> cc_handles c"
  shows "\<exists>e s1. mvgal_workload_assign_gpus (Some p) go (cc_state c) = Inr (e, s1) \<and> conc_inv (c\<lparr>cc_state := s1\<rparr>)"
proof (cases "\<exists>gs. go = Some gs \<and> gs \<noteq> [] \<and> length gs \<le> 16")
  case False
  then show ?thesis using assms(1) by (auto simp: mvgal_workload_assign_gpus_def split: option.split)
next
  case True
  then obtain gs where gs: "go = Some gs" "gs \<noteq> []" "length gs \<le> 16" by blast
  obtain w where w: "sc_heap (cc_state c) p = Some w" "wl_ok w" "sched_ok (cc_state c)"
    using conc_invD [OF assms(1), of p] assms(2) by blast
  define w1 where "w1 = assign_loop 0 gs (w\<lparr>wl_assigned_gpu_count := of_nat (length gs)\<rparr>)"
  define w2 where "w2 = (if length gs = 1 then assign_gpu (gs ! 0) w1 else w1)"
  have "wl_ok (w\<lparr>wl_assigned_gpu_count := of_nat (length gs)\<rparr>)" using w(2) gs(3) by (simp add: wl_ok_def small_u32)
  from assign_loop_keeps [OF this, of 0 gs]
  have "wl_ok w1" "wl_next w1 = wl_next w" "wl_prev w1 = wl_prev w" "wl_refcount w1 = wl_refcount w"
    by (simp_all add: w1_def)
  then have k: "wl_ok w2" "wl_next w2 = wl_next w" "wl_prev w2 = wl_prev w" "wl_refcount w2 = wl_refcount w"
    by (simp_all add: w2_def assign_gpu_def wl_ok_def)
  have r: "mvgal_workload_assign_gpus (Some p) go (cc_state c) = Inr (MVGAL_SUCCESS, put_wl p w2 (cc_state c))"
    using gs w(1) unfolding w2_def w1_def by (simp add: mvgal_workload_assign_gpus_def sderef_def Let_def)
  have "conc_inv (c\<lparr>cc_state := put_wl p w2 (cc_state c)\<rparr>)"
    by (rule conc_inv_put [OF assms(1) w(1) k(2,3,4,1)]) (use w(3) in \<open>simp_all add: put_wl_def sched_ok_def gpus_wf_def\<close>)
  with r show ?thesis by blast
qed

lemma owners_0: "owners H B xs p = 0 \<longleftrightarrow> p \<notin> H \<and> p \<notin> B \<and> p \<notin> set xs"
  by (simp add: owners_def of_bool_def)

lemma release_safe:
  assumes inv: "conc_inv c" and p: "p \<in> cc_handles c \<union> cc_busy c"
    and H: "H - {p} = cc_handles c - {p}" and B: "B - {p} = cc_busy c - {p}" "B \<subseteq> cc_busy c"
    and one: "\<And>xs. owners (cc_handles c) (cc_busy c) xs p = owners H B xs p + 1"
  shows "\<exists>s1. release_ref (Some p) (cc_state c) = Inr s1 \<and> conc_inv (c\<lparr>cc_state := s1, cc_handles := H, cc_busy := B\<rparr>)"
proof -
  obtain w where w: "sc_heap (cc_state c) p = Some w" "wl_ok w" "sched_ok (cc_state c)" "all_ok (cc_state c)"
    using conc_invD [OF inv p] by blast
  from inv obtain d xs where q: "queue_at d (sc_ready_queue (cc_state c)) (sc_heap (cc_state c)) xs" and refs: "refs_at c xs"
    by (auto simp: conc_inv_def linked_def)
  let ?v = "w\<lparr>wl_refcount := wl_refcount w - 1\<rparr>"
  define h where "h = (sc_heap (cc_state c))(p := if wl_refcount w = 1 then None else Some ?v)"
  let ?s1 = "(cc_state c)\<lparr>sc_heap := h\<rparr>"
  have rc: "wl_refcount w = owners H B xs p + 1" using refs w(1) one by (simp add: refs_at_def)
  have run: "release_ref (Some p) (cc_state c) = Inr ?s1"
    using w(1) by (simp add: release_ref_def mvgal_workload_release_def mvgal_workload_destroy_internal_def h_def)
  have free: "wl_refcount w = 1 \<longleftrightarrow> p \<notin> H \<and> p \<notin> B \<and> p \<notin> set xs" using rc owners_0 [of H B xs p] by simp
  have own: "owners (cc_handles c) (cc_busy c) xs x = owners H B xs x" if "x \<noteq> p" for x
    using H B(1) that by (simp add: owners_def set_eq_iff) (metis)
  have "linked (c\<lparr>cc_state := ?s1, cc_handles := H, cc_busy := B\<rparr>) xs"
  proof -
    have "queue_at d (sc_ready_queue (cc_state c)) h xs"
      using free w(1) unfolding h_def by (intro queue_of_cong [OF q]) auto
    then show ?thesis by (auto simp: linked_def)
  qed
  moreover have "dom h = H \<union> B \<union> set xs"
  proof -
    have "dom (sc_heap (cc_state c)) = cc_handles c \<union> cc_busy c \<union> set xs" using refs by (simp add: refs_at_def)
    then have "dom h - {p} = (H \<union> B \<union> set xs) - {p}" using H B(1) by (auto simp: h_def split: if_splits)
    moreover have "p \<in> dom h \<longleftrightarrow> p \<in> H \<union> B \<union> set xs" using free by (auto simp: h_def)
    ultimately show ?thesis by blast
  qed
  then have "refs_at (c\<lparr>cc_state := ?s1, cc_handles := H, cc_busy := B\<rparr>) xs"
    using refs B(2) rc own unfolding refs_at_def by (auto simp: h_def split: if_splits)
  moreover have "all_ok ?s1" using w(2,4) by (auto simp: all_ok_def h_def ran_def sched_ok_def gpus_wf_def wl_ok_def split: if_splits)
  ultimately show ?thesis using run by (auto simp: conc_inv_def)
qed

lemma take_safe:
  assumes inv: "conc_inv c"
  shows "\<exists>po s1. take_ready (cc_state c) = Inr (po, s1)
    \<and> conc_inv (c\<lparr>cc_state := s1, cc_busy := set_option po \<union> cc_busy c\<rparr>)"
proof -
  from inv obtain d xs where q: "queue_at d (sc_ready_queue (cc_state c)) (sc_heap (cc_state c)) xs" and refs: "refs_at c xs"
    and ok: "all_ok (cc_state c)" by (auto simp: conc_inv_def linked_def)
  from take_ready_ok [OF q] consider "take_ready (cc_state c) = Inr (None, cc_state c)"
    | as p bs q1 h1 where "take_ready (cc_state c) = Inr (Some p, (cc_state c)\<lparr>sc_ready_queue := q1, sc_heap := h1\<rparr>)"
      "xs = as @ p # bs" "queue_at d q1 h1 (as @ bs)" "\<forall>x. same_bodies (sc_heap (cc_state c)) h1 x" by blast
  then show ?thesis
  proof cases
    case 1
    with inv show ?thesis by simp
  next
    case (2 as p bs q1 h1)
    let ?s1 = "(cc_state c)\<lparr>sc_ready_queue := q1, sc_heap := h1\<rparr>"
    have np: "p \<notin> set (as @ bs)" "p \<notin> cc_busy c" using queue_of_distinct [OF q] refs 2(2) by (auto simp: refs_at_def)
    have own: "owners H (insert p (cc_busy c)) (as @ bs) x = owners H (cc_busy c) xs x" for H x
      using np 2(2) by (auto simp: owners_def)
    have body: "\<exists>u. sc_heap (cc_state c) x = Some u \<and> wl_body v = wl_body u" if "h1 x = Some v" for x v
      using 2(4) [rule_format, of x] that by (cases "sc_heap (cc_state c) x") (simp_all add: same_bodies_def)
    have "dom h1 = dom (sc_heap (cc_state c))" using 2(4) same_bodies_dom by blast
    then have "dom h1 = cc_handles c \<union> insert p (cc_busy c) \<union> set (as @ bs)" using refs 2(2) by (auto simp: refs_at_def)
    moreover have "wl_refcount v = owners (cc_handles c) (insert p (cc_busy c)) (as @ bs) x" if "h1 x = Some v" for x v
      using body [OF that] refs own by (auto simp: refs_at_def dest: wl_body_fields(3))
    ultimately have "refs_at (c\<lparr>cc_state := ?s1, cc_busy := insert p (cc_busy c)\<rparr>) (as @ bs)"
      using np refs 2(2) by (auto simp: refs_at_def)
    moreover have "wl_ok v" if "h1 x = Some v" for x v
      using body [OF that] ok by (auto simp: all_ok_def ran_def dest: wl_body_fields(5))
    then have "all_ok ?s1" using ok by (auto simp: all_ok_def ran_def sched_ok_def gpus_wf_def)
    ultimately have "conc_inv (c\<lparr>cc_state := ?s1, cc_busy := insert p (cc_busy c)\<rparr>)"
      using 2(3) by (auto simp: conc_inv_def linked_def)
    with 2(1) show ?thesis by simp
  qed
qed

lemma create_safe:
  assumes inv: "conc_inv c" and a: "sc_heap (cc_state c) a = None"
    and create: "mvgal_workload_create_internal a i (cc_state c) = (Some a, s1)"
  shows "\<exists>w0. s1 = (cc_state c)\<lparr>sc_ticks := Suc (sc_ticks (cc_state c)),
      sc_next_workload_id := sc_next_workload_id (cc_state c) + 1, sc_heap := (sc_heap (cc_state c))(a \<mapsto> w0)\<rparr>
    \<and> wl_ok w0 \<and> wl_refcount w0 = 1 \<and> wl_priority w0 = si_priority i \<and> all_ok s1"
proof -
  obtain w0 where c: "s1 = (cc_state c)\<lparr>sc_ticks := Suc (sc_ticks (cc_state c)),
      sc_next_workload_id := sc_next_workload_id (cc_state c) + 1, sc_heap := (sc_heap (cc_state c))(a \<mapsto> w0)\<rparr>"
    "wl_ok w0" "wl_refcount w0 = 1" "wl_priority w0 = si_priority i"
    using create by (auto simp: mvgal_workload_create_internal_def get_time_ns_def put_wl_def Let_def zero_workload_def wl_ok_def split: if_splits)
  moreover have "all_ok s1" using inv c(1,2) by (auto simp: conc_inv_def all_ok_def sched_ok_def gpus_wf_def ran_def)
  ultimately show ?thesis by blast
qed

lemma submit_safe:
  assumes inv: "conc_inv c" and a: "sc_heap (cc_state c) a = None"
    and create: "mvgal_workload_create_internal a i (cc_state c) = (Some a, s1)"
  shows "\<exists>e s2. enqueue_new a (\<lambda>w. w\<lparr>wl_context := ctx, wl_callback := cb\<rparr>) s1 = Inr (e, s2)
    \<and> conc_inv (c\<lparr>cc_state := s2, cc_handles := (if e = MVGAL_SUCCESS then insert a (cc_handles c) else cc_handles c)\<rparr>)"
proof -
  let ?s = "cc_state c" and ?p = "\<lambda>w. w\<lparr>wl_context := ctx, wl_callback := cb\<rparr>"
  from inv obtain d xs where q: "queue_at d (sc_ready_queue ?s) (sc_heap ?s) xs" and refs: "refs_at c xs"
    by (auto simp: conc_inv_def linked_def)
  from create_safe [OF assms] obtain w0 where w0: "s1 = ?s\<lparr>sc_ticks := Suc (sc_ticks ?s),
      sc_next_workload_id := sc_next_workload_id ?s + 1, sc_heap := (sc_heap ?s)(a \<mapsto> w0)\<rparr>"
    "wl_ok w0" "wl_refcount w0 = 1" "wl_priority w0 = si_priority i" "all_ok s1" by blast
  have "a \<notin> dom (sc_heap ?s)" using a by (simp add: domIff)
  then have na: "a \<notin> set xs" "a \<notin> cc_handles c" "a \<notin> cc_busy c" using refs by (simp_all add: refs_at_def)
  have q1: "queue_at d (sc_ready_queue s1) (sc_heap s1) xs" using na(1) w0(1) by (simp, intro queue_of_cong [OF q]) auto
  have prep: "fresh_workload i (?p w0)" using w0 by (simp add: fresh_workload_def wl_ok_def)
  show ?thesis
  proof (cases "length xs < 1024")
    case True
    from enqueue_new_ok [where prepare = ?p, OF w0(5) q1 True na(1) _ prep] w0(1) obtain s2 w where
      r: "enqueue_new a ?p s1 = Inr (MVGAL_SUCCESS, s2)" "all_ok s2" "queue_at d (sc_ready_queue s2) (sc_heap s2) (xs @ [a])"
        "\<And>x. x \<noteq> a \<Longrightarrow> same_bodies (sc_heap s1) (sc_heap s2) x" "sc_heap s2 a = Some w" "wl_refcount w = 2" by auto
    have same: "same_bodies (sc_heap ?s) (sc_heap s2) x" if "x \<noteq> a" for x
      using r(4) [OF that] w0(1) that by (simp add: same_bodies_def)
    have dom: "dom (sc_heap s2) = insert a (dom (sc_heap ?s))"
    proof (intro set_eqI)
      fix x
      show "x \<in> dom (sc_heap s2) \<longleftrightarrow> x \<in> insert a (dom (sc_heap ?s))"
        using same_bodies_dom [OF same, of x] r(5) by (cases "x = a") (simp_all add: domIff)
    qed
    have "wl_refcount v = owners (insert a (cc_handles c)) (cc_busy c) (xs @ [a]) x" if hx: "sc_heap s2 x = Some v" for x v
    proof (cases "x = a")
      case True
      then show ?thesis using hx r(5,6) na by (simp add: owners_def)
    next
      case False
      from same [OF False] hx obtain u where u: "sc_heap ?s x = Some u" "wl_body v = wl_body u"
        by (cases "sc_heap ?s x") (simp_all add: same_bodies_def)
      then show ?thesis using refs wl_body_fields(3) [OF u(2)] False by (simp add: refs_at_def owners_def)
    qed
    then have "refs_at (c\<lparr>cc_state := s2, cc_handles := insert a (cc_handles c)\<rparr>) (xs @ [a])"
      using refs dom na by (auto simp: refs_at_def)
    with r(1-3) show ?thesis by (auto simp: conc_inv_def linked_def)
  next
    case False
    then have full: "length xs = 1024" using q by (simp add: queue_at_def)
    have count: "1024 \<le> wq_count (sc_ready_queue ?s)" using q full by (simp add: queue_at_def word_le_nat_alt)
    obtain s2 where s2: "enqueue_new a ?p s1 = Inr (MVGAL_ERROR_MEMORY, s2)" "sc_heap s2 = sc_heap ?s"
      "sc_ready_queue s2 = sc_ready_queue ?s" "sched_ok s2"
      using w0(1,5) a count
      by (simp add: enqueue_new_def sderef_def get_time_ns_def put_wl_def Let_def mvgal_workload_queue_def
          mvgal_workload_destroy_internal_def all_ok_def sched_ok_def gpus_wf_def fun_upd_idem)
    with conc_inv_cong [OF inv s2(2-4)] show ?thesis by simp
  qed
qed

lemma destroy_safe:
  assumes "conc_inv c" and "p \<in> cc_handles c"
  shows "\<exists>s1. mvgal_workload_destroy (Some p) (cc_state c) = Inr s1
    \<and> conc_inv (c\<lparr>cc_state := s1, cc_handles := cc_handles c - {p}\<rparr>)"
proof -
  have "owners (cc_handles c) (cc_busy c) xs p = owners (cc_handles c - {p}) (cc_busy c) xs p + 1" for xs
    using assms(2) by (simp add: owners_def)
  from release_safe [OF assms(1) _ _ refl _ this] assms(2) show ?thesis
    by (simp add: mvgal_workload_destroy_def)
qed

lemma release_busy_safe:
  assumes "conc_inv c" and "p \<in> cc_busy c"
  shows "\<exists>s1. release_ref (Some p) (cc_state c) = Inr s1 \<and> conc_inv (c\<lparr>cc_state := s1, cc_busy := cc_busy c - {p}\<rparr>)"
proof -
  have "owners (cc_handles c) (cc_busy c) xs p = owners (cc_handles c) (cc_busy c - {p}) xs p + 1" for xs
    using assms(2) by (simp add: owners_def)
  from release_safe [OF assms(1) _ refl _ _ this] assms(2) show ?thesis by auto
qed

lemma config_safe:
  assumes "conc_inv c"
  shows "mvgal_scheduler_configure cfg (cc_state c) = (e, s1) \<Longrightarrow> conc_inv (c\<lparr>cc_state := s1\<rparr>)"
    and "mvgal_scheduler_set_gpu_priority g n (cc_state c) = (e, s1) \<Longrightarrow> conc_inv (c\<lparr>cc_state := s1\<rparr>)"
    and "conc_inv (c\<lparr>cc_state := mvgal_scheduler_set_strategy st (cc_state c)\<rparr>)"
    and "conc_inv (c\<lparr>cc_state := mvgal_scheduler_pause (cc_state c)\<rparr>)"
    and "conc_inv (c\<lparr>cc_state := mvgal_scheduler_resume (cc_state c)\<rparr>)"
    and "conc_inv (c\<lparr>cc_state := mvgal_scheduler_reset_stats (cc_state c)\<rparr>)"
proof -
  have ok: "sched_ok (cc_state c)" using assms by (simp add: conc_inv_def all_ok_def)
  note simps = sched_ok_def gpus_wf_def mvgal_scheduler_configure_def mvgal_scheduler_set_strategy_def mvgal_scheduler_pause_def
    mvgal_scheduler_resume_def mvgal_scheduler_reset_stats_def
  show "conc_inv (c\<lparr>cc_state := s1\<rparr>)" if "mvgal_scheduler_configure cfg (cc_state c) = (e, s1)"
    by (rule conc_inv_cong [OF assms]) (use ok that in \<open>auto simp: simps split: option.splits\<close>)
  show "conc_inv (c\<lparr>cc_state := s1\<rparr>)" if "mvgal_scheduler_set_gpu_priority g n (cc_state c) = (e, s1)"
  proof (cases "16 \<le> g \<or> 100 < n")
    case False
    then have i: "unat g < 16" by (simp add: word_le_nat_alt not_le)
    let ?gpu = "sc_gpu (cc_state c) (unat g)"
    have "?gpu \<in> set (sc_gpus (cc_state c))" using ok i by (simp add: sched_ok_def gpus_wf_def)
    then have "gpu_sane (?gpu\<lparr>gs_priority := n\<rparr>)" using ok by (auto simp: sched_ok_def gpu_sane_def)
    then have "\<forall>x \<in> set ((sc_gpus (cc_state c))[unat g := ?gpu\<lparr>gs_priority := n\<rparr>]). gpu_sane x"
      using ok set_update_subset_insert [of "sc_gpus (cc_state c)" "unat g" "?gpu\<lparr>gs_priority := n\<rparr>"]
      by (auto simp: sched_ok_def)
    then have "sched_ok s1" using ok that False by (auto simp: mvgal_scheduler_set_gpu_priority_def sched_ok_def gpus_wf_def)
    then show ?thesis by (rule conc_inv_cong [OF assms, rotated 2]) (use that False in \<open>auto simp: mvgal_scheduler_set_gpu_priority_def\<close>)
  qed (use that assms in \<open>auto simp: mvgal_scheduler_set_gpu_priority_def\<close>)
  show "conc_inv (c\<lparr>cc_state := mvgal_scheduler_set_strategy st (cc_state c)\<rparr>)"
    "conc_inv (c\<lparr>cc_state := mvgal_scheduler_pause (cc_state c)\<rparr>)"
    "conc_inv (c\<lparr>cc_state := mvgal_scheduler_resume (cc_state c)\<rparr>)"
    "conc_inv (c\<lparr>cc_state := mvgal_scheduler_reset_stats (cc_state c)\<rparr>)"
    by (rule conc_inv_cong [OF assms]; use ok in \<open>simp add: simps\<close>)+
qed

lemma sched_step_inv: "sched_step c c' \<Longrightarrow> conc_inv c \<Longrightarrow> conc_inv c'"
proof (induction rule: sched_step.induct)
  case (submit c a i s1 ctx cb e s2)
  with submit_safe [OF submit.prems submit.hyps(1,2), of ctx cb] show ?case by auto
next
  case (take_one c po s1)
  with take_safe [OF take_one.prems] show ?case by auto
next
  case (assign p c e s1)
  with apply_safe [OF assign.prems assign.hyps(1)] show ?case by auto
next
  case (complete p c e s1)
  with complete_safe [OF complete.prems complete.hyps(1), of e] show ?case by auto
next
  case (release p c s1)
  with release_busy_safe [OF release.prems release.hyps(1)] show ?case by auto
next
  case (cancel p c e s1)
  with cancel_safe [OF cancel.prems cancel.hyps(1)] show ?case by auto
next
  case (destroy p c s1)
  with destroy_safe [OF destroy.prems destroy.hyps(1)] show ?case by auto
next
  case (set_priority p c n e s1)
  with set_priority_safe [OF set_priority.prems set_priority.hyps(1), of n] show ?case by auto
next
  case (assign_gpus p c gs e s1)
  with assign_gpus_safe [OF assign_gpus.prems assign_gpus.hyps(1), of gs] show ?case by auto
qed (blast intro: config_safe)+

lemma reachable_inv: "sched_step\<^sup>*\<^sup>* c c' \<Longrightarrow> conc_inv c \<Longrightarrow> conc_inv c'"
  by (induction rule: rtranclp_induct) (auto intro: sched_step_inv)

lemma start_inv:
  assumes "mvgal_scheduler_module_init found s0 = (MVGAL_SUCCESS, s)" and "sc_heap s0 = Map.empty" and "sc_afr s0 = afr_zero"
    and "\<forall>g \<in> set found. gpu_sane (found_gpu g)"
  shows "conc_inv \<lparr>cc_state = s, cc_handles = {}, cc_busy = {}\<rparr>"
proof -
  have s: "sc_heap s = Map.empty" "sc_ready_queue s = workload_queue_init" "sc_afr s = afr_zero"
    "sc_gpus s = map found_gpu (take 16 found) @ replicate (16 - length (take 16 found)) initial_gpu"
    "sc_gpu_count s = of_nat (length (take 16 found))" "sc_config s = initial_config"
    using assms(1-3) by (auto simp: mvgal_scheduler_module_init_def Let_def split: if_splits)
  have "unat (sc_gpu_count s) \<le> 16" unfolding s(5) by (subst small_u32) simp_all
  moreover have "\<forall>g \<in> set (sc_gpus s). gpu_sane g" unfolding s(4) using assms(4) by (auto dest: in_set_takeD)
  ultimately have "sched_ok s" by (simp add: sched_ok_def gpus_wf_def s initial_config_def)
  then show ?thesis by (simp add: conc_inv_def all_ok_def linked_def refs_at_def s) (use queue_of_init in blast)
qed

text \<open>
  C4. Memory safety of the scheduler under interleaving. After any sequence of calls by clients on the
  handles they hold and by workers on the workloads they took, starting from an initialised scheduler, every
  further such call returns: none of them touches a freed workload or an array out of range. The allocated
  workloads are exactly those that a client, a worker or the queue holds, so none is leaked.
\<close>
theorem sched_memory_safe:
  assumes "mvgal_scheduler_module_init found s0 = (MVGAL_SUCCESS, s)" and "sc_heap s0 = Map.empty" and "sc_afr s0 = afr_zero"
    and "\<forall>g \<in> set found. gpu_sane (found_gpu g)"
    and "sched_step\<^sup>*\<^sup>* \<lparr>cc_state = s, cc_handles = {}, cc_busy = {}\<rparr> c"
  shows "(\<forall>p \<in> cc_busy c. (\<exists>r. mvgal_scheduler_apply_strategy (Some p) (cc_state c) = Inr r)
        \<and> (\<forall>e. \<exists>r. mvgal_workload_complete (Some p) e (cc_state c) = Inr r) \<and> (\<exists>r. release_ref (Some p) (cc_state c) = Inr r))
    \<and> (\<forall>p \<in> cc_handles c. (\<exists>r. mvgal_workload_cancel (Some p) (cc_state c) = Inr r)
        \<and> (\<exists>r. mvgal_workload_destroy (Some p) (cc_state c) = Inr r)
        \<and> (\<forall>n. \<exists>r. mvgal_workload_set_priority (Some p) n (cc_state c) = Inr r)
        \<and> (\<forall>gs. \<exists>r. mvgal_workload_assign_gpus (Some p) gs (cc_state c) = Inr r)
        \<and> (\<exists>r. mvgal_workload_get_result (Some p) (cc_state c) = Inr r))
    \<and> (\<exists>r. take_ready (cc_state c) = Inr r)
    \<and> (\<exists>d xs. queue_at d (sc_ready_queue (cc_state c)) (sc_heap (cc_state c)) xs
        \<and> dom (sc_heap (cc_state c)) = cc_handles c \<union> cc_busy c \<union> set xs)"
proof -
  have inv: "conc_inv c" by (rule reachable_inv [OF assms(5) start_inv [OF assms(1-4)]])
  have "\<exists>r. mvgal_workload_get_result (Some p) (cc_state c) = Inr r" if p: "p \<in> cc_handles c" for p
  proof -
    have "p \<in> cc_handles c \<union> cc_busy c" using p by simp
    then obtain w where "sc_heap (cc_state c) p = Some w" using conc_invD [OF inv] by blast
    then show ?thesis by (simp add: mvgal_workload_get_result_def sderef_def)
  qed
  moreover obtain d xs where "queue_at d (sc_ready_queue (cc_state c)) (sc_heap (cc_state c)) xs" "refs_at c xs"
    using inv by (auto simp: conc_inv_def linked_def)
  then have "\<exists>d xs. queue_at d (sc_ready_queue (cc_state c)) (sc_heap (cc_state c)) xs
      \<and> dom (sc_heap (cc_state c)) = cc_handles c \<union> cc_busy c \<union> set xs" unfolding refs_at_def by blast
  ultimately show ?thesis
    using apply_safe [OF inv] complete_safe [OF inv] release_busy_safe [OF inv] cancel_safe [OF inv] destroy_safe [OF inv]
      set_priority_safe [OF inv] assign_gpus_safe [OF inv] take_safe [OF inv]
    by (intro conjI ballI allI) blast+
qed

text \<open>A client submits a workload and a worker takes it, as the witness for C4.\<close>

definition started_sched :: mvgal_scheduler_state_t where
  "started_sched = snd (mvgal_scheduler_module_init [] (idle_sched\<lparr>sc_initialized := False\<rparr>))"

theorem sched_memory_safe_witness:
  "\<exists>c. sched_step\<^sup>*\<^sup>* \<lparr>cc_state = started_sched, cc_handles = {}, cc_busy = {}\<rparr> c \<and> cc_handles c = {5} \<and> cc_busy c = {5}
    \<and> (\<exists>r. mvgal_workload_complete (Some 5) MVGAL_SUCCESS (cc_state c) = Inr r)
    \<and> (\<exists>r. mvgal_workload_destroy (Some 5) (cc_state c) = Inr r)"
proof -
  let ?c0 = "\<lparr>cc_state = started_sched, cc_handles = {}, cc_busy = {}\<rparr>"
  have init: "mvgal_scheduler_module_init [] (idle_sched\<lparr>sc_initialized := False\<rparr>) = (MVGAL_SUCCESS, started_sched)"
    by (simp add: started_sched_def mvgal_scheduler_module_init_def Let_def)
  have start: "sc_heap (idle_sched\<lparr>sc_initialized := False\<rparr>) = Map.empty" "sc_afr (idle_sched\<lparr>sc_initialized := False\<rparr>) = afr_zero"
    "\<forall>g \<in> set []. gpu_sane (found_gpu g)" by (simp_all add: idle_sched_def)
  note inv0 = start_inv [OF init start]
  have s0: "sc_heap started_sched = Map.empty" "sc_ready_queue started_sched = workload_queue_init"
    "sc_calloc_ok started_sched (sc_ticks started_sched)"
    by (simp_all add: started_sched_def mvgal_scheduler_module_init_def idle_sched_def Let_def)
  obtain s1 where s1: "mvgal_workload_create_internal 5 urgent started_sched = (Some 5, s1)"
    using s0(3) by (simp add: mvgal_workload_create_internal_def get_time_ns_def Let_def)
  obtain w0 where w0: "sc_heap s1 5 = Some w0" "sc_ready_queue s1 = workload_queue_init" "wl_ok w0" "wl_refcount w0 = 1"
    "wl_priority w0 = si_priority urgent" "all_ok s1" using create_safe [OF inv0, of 5 urgent s1] s0 s1 by auto
  have "fresh_workload urgent (w0\<lparr>wl_context := None, wl_callback := None\<rparr>)"
    using w0(3-5) by (simp add: fresh_workload_def wl_ok_def)
  from enqueue_new_ok [where prepare = "\<lambda>w. w\<lparr>wl_context := None, wl_callback := None\<rparr>", OF w0(6) _ _ _ w0(1) this, of 0 "[]"] w0(2)
  obtain s2 w where s2: "enqueue_new 5 (\<lambda>w. w\<lparr>wl_context := None, wl_callback := None\<rparr>) s1 = Inr (MVGAL_SUCCESS, s2)"
    "queue_of (sc_ready_queue s2) (sc_heap s2) [5]" "sc_heap s2 5 = Some w" "wl_priority w = 100" by (auto simp: urgent_def)
  obtain s3 where s3: "take_ready s2 = Inr (Some 5, s3)"
    using take_ready_ok [OF s2(2)] s2(3,4) by (auto simp: Cons_eq_append_conv append_eq_Cons_conv)
  let ?c1 = "\<lparr>cc_state = s2, cc_handles = {5}, cc_busy = {}\<rparr>" and ?c2 = "\<lparr>cc_state = s3, cc_handles = {5}, cc_busy = {5}\<rparr>"
  have "sched_step ?c0 ?c1" using sched_step.submit [of ?c0 5 urgent s1 None None MVGAL_SUCCESS s2] s0(1) s1 s2(1) by simp
  moreover have "sched_step ?c1 ?c2" using sched_step.take_one [of ?c1 "Some 5" s3] s3 by simp
  ultimately have run: "sched_step\<^sup>*\<^sup>* ?c0 ?c2" by simp
  from sched_memory_safe [OF init start run] have "\<exists>r. mvgal_workload_complete (Some 5) MVGAL_SUCCESS (cc_state ?c2) = Inr r"
    "\<exists>r. mvgal_workload_destroy (Some 5) (cc_state ?c2) = Inr r" by simp_all
  with run show ?thesis by (intro exI [of _ ?c2]) simp
qed

section \<open>Cancelling\<close>

text \<open>
  C8. A pending or queued workload can be cancelled once: its waiters get \<^verbatim>\<open>MVGAL_ERROR_INTERRUPTED\<close>, and a
  second attempt is refused and changes nothing, as is one on a workload in any other state. The workload
  stays in the ready queue, and a worker that takes it reports success in place of the interruption.
\<close>
theorem cancel_is_overwritten:
  assumes "sc_heap s p = Some w" and "all_ok s" and "wl_refcount w \<noteq> 1"
  shows "(wl_state w \<in> {MVGAL_WORKLOAD_STATE_PENDING, MVGAL_WORKLOAD_STATE_QUEUED} \<longrightarrow>
      (\<exists>s' w'. mvgal_workload_cancel (Some p) s = Inr (MVGAL_SUCCESS, s') \<and> sc_heap s' p = Some w'
        \<and> mvgal_workload_wait (Some w') timeout_ms now env = Some (Some w', MVGAL_ERROR_INTERRUPTED)
        \<and> mvgal_workload_get_result (Some p) s' = Inr MVGAL_ERROR_INTERRUPTED
        \<and> mvgal_workload_cancel (Some p) s' = Inr (MVGAL_ERROR_NOT_SUPPORTED, s')
        \<and> sc_ready_queue s' = sc_ready_queue s \<and> wl_next w' = wl_next w \<and> wl_prev w' = wl_prev w
        \<and> (\<exists>s2. run_workload p s' = Inr s2 \<and> mvgal_workload_get_result (Some p) s2 = Inr MVGAL_SUCCESS)))
    \<and> (wl_state w \<notin> {MVGAL_WORKLOAD_STATE_PENDING, MVGAL_WORKLOAD_STATE_QUEUED} \<longrightarrow>
        mvgal_workload_cancel (Some p) s = Inr (MVGAL_ERROR_NOT_SUPPORTED, s))"
proof (cases "wl_state w \<in> {MVGAL_WORKLOAD_STATE_PENDING, MVGAL_WORKLOAD_STATE_QUEUED}")
  case True
  let ?w = "w\<lparr>wl_state := MVGAL_WORKLOAD_STATE_CANCELLED, wl_completion_signaled := True,
    wl_completion_status := MVGAL_ERROR_INTERRUPTED\<rparr>"
  obtain s' where s': "mvgal_workload_cancel (Some p) s = Inr (MVGAL_SUCCESS, s')" "sc_heap s' = (sc_heap s)(p \<mapsto> ?w)"
    "sc_ready_queue s' = sc_ready_queue s" "sched_ok s'"
    using True assms(1,2) by (auto simp: mvgal_workload_cancel_def sderef_def put_wl_def all_ok_def sched_ok_def gpus_wf_def)
  have w: "sc_heap s' p = Some ?w" "wl_ok ?w" using s'(2) assms(1,2) by (auto simp: all_ok_def ran_def wl_ok_def)
  from run_workload_ok [OF s'(4) w] assms(3) obtain w2 s2 where
    "served ?w w2" "run_workload p s' = Inr s2" "sc_heap s2 p = Some w2" by fastforce
  then have "\<exists>s2. run_workload p s' = Inr s2 \<and> mvgal_workload_get_result (Some p) s2 = Inr MVGAL_SUCCESS"
    by (auto simp: mvgal_workload_get_result_def sderef_def served_def)
  with True s' w show ?thesis
    by (auto simp: mvgal_workload_wait_def mvgal_workload_get_result_def mvgal_workload_cancel_def sderef_def)
qed (use assms(1) in \<open>simp add: mvgal_workload_cancel_def sderef_def\<close>)

text \<open>The second workload of the example queue is cancelled and then served, as the witness for C8.\<close>

theorem cancel_is_overwritten_witness:
  "\<exists>s' s2. mvgal_workload_cancel (Some 1) two_waiting = Inr (MVGAL_SUCCESS, s')
     \<and> mvgal_workload_get_result (Some 1) s' = Inr MVGAL_ERROR_INTERRUPTED
     \<and> run_workload 1 s' = Inr s2 \<and> mvgal_workload_get_result (Some 1) s2 = Inr MVGAL_SUCCESS"
proof -
  obtain w where w: "sc_heap two_waiting 1 = Some w" "wl_refcount w = 2" "wl_state w = MVGAL_WORKLOAD_STATE_PENDING"
    by (simp add: two_waiting_def zero_workload_def)
  with cancel_is_overwritten [OF w(1) two_waiting_ok(1), of 0 undefined undefined] show ?thesis by auto
qed

end
