(* ===== verification/Load_Balancer.thy ===== *)
theory Load_Balancer
  imports Gpu_Select
begin

text \<open>
The load balancer of \<^verbatim>\<open>src/userspace/scheduler/load_balancer.c\<close>: smoothed utilizations, the change of
  priorities when the GPUs are unevenly loaded, load factors and the choice of a GPU by them. What the driver
  reports is an argument.
\<close>

section \<open>Readings\<close>

text \<open>
  What the driver answers: the utilization in percent, the temperature, and the compute score of the
  descriptor of a GPU; \<open>None\<close> when the query fails.
\<close>

record driver_readings =
  dr_utilization :: "u32 \<Rightarrow> f32 option"
  dr_temperature :: "u32 \<Rightarrow> f32 option"
  dr_compute_score :: "u32 \<Rightarrow> f32 option"

definition clamp01 :: "f32 \<Rightarrow> f32" where
  "clamp01 u =
     (let v = (if f32_less u (F32 0) then F32 0 else u)
      in if f32_less (F32 1) v then F32 1 else v)"

definition update_gpu_utilization :: "driver_readings \<Rightarrow> u32 \<Rightarrow> mvgal_gpu_state_t \<Rightarrow> mvgal_gpu_state_t" where
  "update_gpu_utilization d index gpu =
     (let sample =
            (case dr_utilization d index of
               Some util \<Rightarrow> f32_div util (F32 100)
             | None \<Rightarrow> f32_div (f32_of_u32 (wq_count (gs_queue gpu))) (F32 10));
          u = f32_add (f32_mul (gs_utilization gpu) (f32_lit (7 / 10))) (f32_mul sample (f32_lit (3 / 10)));
          t = (case dr_temperature d index of Some temp \<Rightarrow> temp | None \<Rightarrow> gs_temperature gpu)
      in gpu\<lparr>gs_utilization := clamp01 u, gs_temperature := t\<rparr>)"

definition update_all_utilization :: "driver_readings \<Rightarrow> mvgal_scheduler_state_t \<Rightarrow> mvgal_scheduler_state_t" where
  "update_all_utilization d s =
     s\<lparr>sc_gpus := fold (\<lambda>i gs. gs[i := update_gpu_utilization d (of_nat i) (gs ! i)]) [0..<unat (sc_gpu_count s)] (sc_gpus s)\<rparr>"

section \<open>Rebalancing\<close>

definition active_gpu :: "mvgal_gpu_state_t \<Rightarrow> bool" where
  "active_gpu g \<longleftrightarrow> gs_available g \<and> gs_enabled g"

definition util_range_step :: "mvgal_scheduler_state_t \<Rightarrow> nat \<Rightarrow> f32 \<times> f32 \<Rightarrow> f32 \<times> f32" where
  "util_range_step s i r =
     (let g = sc_gpus s ! i; (max_util, min_util) = r
      in if active_gpu g then
           (if f32_less max_util (gs_utilization g) then gs_utilization g else max_util,
            if f32_less (gs_utilization g) min_util then gs_utilization g else min_util)
         else r)"

text \<open>The scan for the hottest and the coolest GPU.\<close>

record balance_scan =
  bs_idx_hot :: nat
  bs_idx_cool :: nat
  bs_util_hot :: f32
  bs_util_cool :: f32
  bs_active :: nat

definition balance_scan_step :: "mvgal_scheduler_state_t \<Rightarrow> nat \<Rightarrow> balance_scan \<Rightarrow> balance_scan" where
  "balance_scan_step s i b =
     (let g = sc_gpus s ! i; u = gs_utilization g
      in if \<not> active_gpu g then b
         else
           let b1 = b\<lparr>bs_active := Suc (bs_active b)\<rparr>;
               b2 = (if f32_less (bs_util_hot b1) u then b1\<lparr>bs_util_hot := u, bs_idx_hot := i\<rparr> else b1)
           in (if f32_less u (bs_util_cool b2) then b2\<lparr>bs_util_cool := u, bs_idx_cool := i\<rparr> else b2))"

definition scan_gpus :: "mvgal_scheduler_state_t \<Rightarrow> balance_scan" where
  "scan_gpus s = fold (balance_scan_step s) [0..<unat (sc_gpu_count s)]
     \<lparr>bs_idx_hot = 0, bs_idx_cool = 0, bs_util_hot = F32 (- 1), bs_util_cool = F32 2, bs_active = 0\<rparr>"

definition lowered_priority :: "u32 \<Rightarrow> u32" where
  "lowered_priority p = (if 3 + 10 < p then p - 3 else 10)"

definition raised_priority :: "u32 \<Rightarrow> u32" where
  "raised_priority p = (if p + 3 < 100 then p + 3 else 100)"

definition set_gpu_priority :: "nat \<Rightarrow> u32 \<Rightarrow> mvgal_scheduler_state_t \<Rightarrow> mvgal_scheduler_state_t" where
  "set_gpu_priority i p s =
     s\<lparr>sc_gpus := (sc_gpus s)[i := (sc_gpus s ! i)\<lparr>gs_priority := p\<rparr>],
       sc_config := (sc_config s)\<lparr>cf_gpu_priorities := (cf_gpu_priorities (sc_config s))[i := p]\<rparr>\<rparr>"

definition balance_priorities :: "mvgal_scheduler_state_t \<Rightarrow> mvgal_scheduler_state_t" where
  "balance_priorities s =
     (let b = scan_gpus s; hot = bs_idx_hot b; cool = bs_idx_cool b
      in if 2 \<le> bs_active b \<and> hot \<noteq> cool \<and> f32_less (f32_lit (5 / 100)) (f32_sub (bs_util_hot b) (bs_util_cool b)) then
           let pri_hot = lowered_priority (gs_priority (sc_gpus s ! hot));
               pri_cool = raised_priority (gs_priority (sc_gpus s ! cool))
           in set_gpu_priority cool pri_cool (set_gpu_priority hot pri_hot s)
         else s)"

definition mvgal_scheduler_balance_load :: "driver_readings \<Rightarrow> mvgal_scheduler_state_t \<Rightarrow> mvgal_scheduler_state_t" where
  "mvgal_scheduler_balance_load d s =
     (if \<not> cf_dynamic_load_balance (sc_config s) then s
      else
        let s1 = update_all_utilization d s;
            (max_util, min_util) = fold (util_range_step s1) [0..<unat (sc_gpu_count s1)] (F32 0, F32 1);
            imbalance = f32_sub max_util min_util
        in if f32_less (cf_load_balance_threshold (sc_config s1)) imbalance then balance_priorities s1 else s1)"

section \<open>Recommendations\<close>

definition load_factor :: "driver_readings \<Rightarrow> mvgal_scheduler_state_t \<Rightarrow> u32 \<Rightarrow> f32" where
  "load_factor d s gpu_index =
     (if sc_gpu_count s \<le> gpu_index then F32 0
      else
        let gpu = sc_gpus s ! unat gpu_index;
            base_util = f32_sub (F32 1) (gs_utilization gpu);
            capacity_weight =
              (case dr_compute_score d gpu_index of
                 None \<Rightarrow> F32 1
               | Some score \<Rightarrow>
                   (let w = f32_div score (F32 50)
                    in if f32_less w (f32_lit (1 / 10)) then f32_lit (1 / 10) else w));
            factor = f32_mul base_util capacity_weight
        in if cf_thermal_aware (sc_config s) \<and> f32_less (F32 60) (gs_temperature gpu) then
             (let p = f32_div (f32_sub (gs_temperature gpu) (F32 60)) (F32 25);
                  thermal_penalty = (if f32_less (f32_lit (9 / 10)) p then f32_lit (9 / 10) else p)
              in f32_mul factor (f32_sub (F32 1) thermal_penalty))
           else factor)"

text \<open>
  The arrays have the lengths the caller gives them: a read of an index behind the end of
  \<^verbatim>\<open>gpu_indices\<close> or a write behind the end of \<^verbatim>\<open>recommendation\<close> is out of bounds.
\<close>

definition load_balancer_get_recommendation ::
    "driver_readings \<Rightarrow> mvgal_scheduler_state_t \<Rightarrow> nat option \<Rightarrow> u32 \<Rightarrow> u32 list option \<Rightarrow> f32 list option \<Rightarrow>
       (mvgal_error_t \<times> f32 list option) run" where
  "load_balancer_get_recommendation d s workload gpu_count gpu_indices recommendation =
     (case (workload, gpu_indices, recommendation) of
        (Some _, Some ids, Some rec) \<Rightarrow>
          if gpu_count = 0 then Inr (MVGAL_ERROR_INVALID_ARGUMENT, recommendation)
          else if length ids < unat gpu_count \<or> length rec < unat gpu_count then Inl Out_Of_Bounds
          else Inr (MVGAL_SUCCESS, Some (map (load_factor d s) (take (unat gpu_count) ids) @ drop (unat gpu_count) rec))
      | _ \<Rightarrow> Inr (MVGAL_ERROR_INVALID_ARGUMENT, recommendation))"

definition best_step :: "f32 list \<Rightarrow> u32 list \<Rightarrow> nat \<Rightarrow> f32 \<times> u32 \<Rightarrow> f32 \<times> u32" where
  "best_step recs ids i b = (if f32_less (fst b) (recs ! i) then (recs ! i, ids ! i) else b)"

definition load_balancer_select_gpu ::
    "driver_readings \<Rightarrow> mvgal_scheduler_state_t \<Rightarrow> nat option \<Rightarrow> u32 \<Rightarrow> u32 list option \<Rightarrow> u32 option \<Rightarrow>
       (mvgal_error_t \<times> u32 option) run" where
  "load_balancer_select_gpu d s workload gpu_count gpu_indices selected_gpu =
     (case (workload, gpu_indices, selected_gpu) of
        (Some _, Some ids, Some _) \<Rightarrow>
          if gpu_count = 0 then Inr (MVGAL_ERROR_INVALID_ARGUMENT, selected_gpu)
          else
            (case load_balancer_get_recommendation d s workload gpu_count gpu_indices
                    (Some (replicate MVGAL_SCHEDULER_MAX_GPUS (F32 0))) of
               Inl e \<Rightarrow> Inl e
             | Inr (err, recs) \<Rightarrow>
                 if err \<noteq> MVGAL_SUCCESS then Inr (err, selected_gpu)
                 else
                   let sel = snd (fold (best_step (the recs) ids) [0..<unat gpu_count] (F32 (- 1), 0xFFFFFFFF))
                   in if sel = 0xFFFFFFFF then Inr (MVGAL_ERROR_NO_GPUS, Some sel) else Inr (MVGAL_SUCCESS, Some sel))
      | _ \<Rightarrow> Inr (MVGAL_ERROR_INVALID_ARGUMENT, selected_gpu))"

section \<open>Readings of one GPU\<close>

definition load_balancer_update_temperature :: "u32 \<Rightarrow> f32 \<Rightarrow> mvgal_scheduler_state_t \<Rightarrow> mvgal_scheduler_state_t" where
  "load_balancer_update_temperature gpu_index temperature_c s =
     (if sc_gpu_count s \<le> gpu_index then s
      else s\<lparr>sc_gpus := (sc_gpus s)[unat gpu_index := (sc_gpus s ! unat gpu_index)\<lparr>gs_temperature := temperature_c\<rparr>]\<rparr>)"

definition load_balancer_update_power :: "u32 \<Rightarrow> f32 \<Rightarrow> mvgal_scheduler_state_t \<Rightarrow> mvgal_scheduler_state_t" where
  "load_balancer_update_power gpu_index power_w s =
     (if sc_gpu_count s \<le> gpu_index then s
      else s\<lparr>sc_gpus := (sc_gpus s)[unat gpu_index := (sc_gpus s ! unat gpu_index)\<lparr>gs_power_usage_w := power_w\<rparr>]\<rparr>)"

text \<open>The three results are the values written through the pointers that are not NULL.\<close>

definition load_balancer_get_gpu_load ::
    "u32 \<Rightarrow> bool \<Rightarrow> bool \<Rightarrow> bool \<Rightarrow> mvgal_scheduler_state_t \<Rightarrow> mvgal_error_t \<times> f32 option \<times> f32 option \<times> f32 option" where
  "load_balancer_get_gpu_load gpu_index utilization temperature power_w s =
     (if sc_gpu_count s \<le> gpu_index \<or> \<not> utilization \<and> \<not> temperature \<and> \<not> power_w
      then (MVGAL_ERROR_INVALID_ARGUMENT, None, None, None)
      else
        let g = sc_gpus s ! unat gpu_index
        in (MVGAL_SUCCESS,
            if utilization then Some (f32_mul (gs_utilization g) (F32 100)) else None,
            if temperature then Some (gs_temperature g) else None,
            if power_w then Some (gs_power_usage_w g) else None))"

section \<open>What rebalancing does\<close>

definition in01 :: "f32 \<Rightarrow> bool" where
  "in01 u \<longleftrightarrow> \<not> f32_less u (F32 0) \<and> \<not> f32_less (F32 1) u"

lemma clamp01_in01: "in01 (clamp01 u)"
  by (cases u) (auto simp: in01_def clamp01_def Let_def)

lemma in01_num: "in01 u \<Longrightarrow> u \<noteq> F32_nan \<Longrightarrow> \<exists>r. u = F32 r \<and> 0 \<le> r \<and> r \<le> 1"
  by (cases u) (auto simp: in01_def)

text \<open>
  The GPUs that a scan of the first \<open>n\<close> looks at, active ones whose utilization is a number, and the first
  of them with the greatest and with the least utilization.
\<close>

definition looked_at :: "mvgal_scheduler_state_t \<Rightarrow> nat \<Rightarrow> nat \<Rightarrow> bool" where
  "looked_at s n i \<longleftrightarrow> i < n \<and> active_gpu (sc_gpus s ! i) \<and> gs_utilization (sc_gpus s ! i) \<noteq> F32_nan"

definition hottest :: "mvgal_scheduler_state_t \<Rightarrow> nat \<Rightarrow> nat \<Rightarrow> bool" where
  "hottest s n h \<longleftrightarrow> looked_at s n h \<and>
     (\<forall>i. looked_at s n i \<longrightarrow> \<not> f32_less (gs_utilization (sc_gpus s ! h)) (gs_utilization (sc_gpus s ! i))
        \<and> (i < h \<longrightarrow> f32_less (gs_utilization (sc_gpus s ! i)) (gs_utilization (sc_gpus s ! h))))"

definition coolest :: "mvgal_scheduler_state_t \<Rightarrow> nat \<Rightarrow> nat \<Rightarrow> bool" where
  "coolest s n c \<longleftrightarrow> looked_at s n c \<and>
     (\<forall>i. looked_at s n i \<longrightarrow> \<not> f32_less (gs_utilization (sc_gpus s ! i)) (gs_utilization (sc_gpus s ! c))
        \<and> (i < c \<longrightarrow> f32_less (gs_utilization (sc_gpus s ! c)) (gs_utilization (sc_gpus s ! i))))"

lemma hottest_unique: "hottest s n h \<Longrightarrow> hottest s n h' \<Longrightarrow> h = h'"
  unfolding hottest_def using linorder_neqE_nat by metis

lemma coolest_unique: "coolest s n c \<Longrightarrow> coolest s n c' \<Longrightarrow> c = c'"
  unfolding coolest_def using linorder_neqE_nat by metis

lemma looked_at_Suc:
  "looked_at s (Suc n) i \<longleftrightarrow> looked_at s n i \<or> i = n \<and> active_gpu (sc_gpus s ! n) \<and> gs_utilization (sc_gpus s ! n) \<noteq> F32_nan"
  by (auto simp: looked_at_def less_Suc_eq)

lemma looked_at_less: "looked_at s n i \<Longrightarrow> i < n"
  by (simp add: looked_at_def)

lemma f32_less_asym: "f32_less x y \<Longrightarrow> \<not> f32_less y x"
  using f32_less_trans [of x y x] by auto

lemma hottest_Suc:
  assumes "hottest s n h" and "looked_at s (Suc n) n"
  shows "hottest s (Suc n) (if f32_less (gs_utilization (sc_gpus s ! h)) (gs_utilization (sc_gpus s ! n)) then n else h)"
proof -
  let ?u = "\<lambda>i. gs_utilization (sc_gpus s ! i)"
  have num: "?u i \<noteq> F32_nan" if "looked_at s n i" for i using that by (simp add: looked_at_def)
  have h: "looked_at s n h" "\<And>i. looked_at s n i \<Longrightarrow> \<not> f32_less (?u h) (?u i)"
    "\<And>i. looked_at s n i \<Longrightarrow> i < h \<Longrightarrow> f32_less (?u i) (?u h)" using assms(1) by (auto simp: hottest_def)
  have new: "f32_less (?u i) (?u n)" if "looked_at s n i" "f32_less (?u h) (?u n)" for i
    using that h(2) [OF that(1)] num [OF that(1)] num [OF h(1)] by (cases "?u i"; cases "?u h"; cases "?u n") auto
  show ?thesis
  proof (cases "f32_less (?u h) (?u n)")
    case True
    then show ?thesis using assms(2) new by (auto simp: hottest_def looked_at_Suc dest: f32_less_asym)
  next
    case False
    then show ?thesis using h looked_at_less [OF h(1)] by (auto simp: hottest_def looked_at_Suc)
  qed
qed

lemma coolest_Suc:
  assumes "coolest s n c" and "looked_at s (Suc n) n"
  shows "coolest s (Suc n) (if f32_less (gs_utilization (sc_gpus s ! n)) (gs_utilization (sc_gpus s ! c)) then n else c)"
proof -
  let ?u = "\<lambda>i. gs_utilization (sc_gpus s ! i)"
  have num: "?u i \<noteq> F32_nan" if "looked_at s n i" for i using that by (simp add: looked_at_def)
  have c: "looked_at s n c" "\<And>i. looked_at s n i \<Longrightarrow> \<not> f32_less (?u i) (?u c)"
    "\<And>i. looked_at s n i \<Longrightarrow> i < c \<Longrightarrow> f32_less (?u c) (?u i)" using assms(1) by (auto simp: coolest_def)
  have new: "f32_less (?u n) (?u i)" if "looked_at s n i" "f32_less (?u n) (?u c)" for i
    using that c(2) [OF that(1)] num [OF that(1)] num [OF c(1)] by (cases "?u i"; cases "?u c"; cases "?u n") auto
  show ?thesis
  proof (cases "f32_less (?u n) (?u c)")
    case True
    then show ?thesis using assms(2) new by (auto simp: coolest_def looked_at_Suc dest: f32_less_asym)
  next
    case False
    then show ?thesis using c looked_at_less [OF c(1)] by (auto simp: coolest_def looked_at_Suc)
  qed
qed

lemma hottest_skip: "\<not> looked_at s (Suc n) n \<Longrightarrow> hottest s n h \<Longrightarrow> hottest s (Suc n) h"
  by (auto simp: hottest_def looked_at_Suc)

lemma coolest_skip: "\<not> looked_at s (Suc n) n \<Longrightarrow> coolest s n c \<Longrightarrow> coolest s (Suc n) c"
  by (auto simp: coolest_def looked_at_Suc)

text \<open>
  The two scans of the first \<open>n\<close> GPUs agree: they have looked at none, or found the extremes of the
  utilization. The count is that of the active GPUs.
\<close>

definition scanned :: "mvgal_scheduler_state_t \<Rightarrow> nat \<Rightarrow> balance_scan \<Rightarrow> f32 \<times> f32 \<Rightarrow> bool" where
  "scanned s n b r \<longleftrightarrow> bs_active b = card {i. i < n \<and> active_gpu (sc_gpus s ! i)} \<and>
     ((\<forall>i. \<not> looked_at s n i) \<and> bs_util_hot b = F32 (- 1) \<and> bs_util_cool b = F32 2 \<and> r = (F32 0, F32 1)
        \<and> bs_idx_hot b = 0 \<and> bs_idx_cool b = 0
      \<or> hottest s n (bs_idx_hot b) \<and> coolest s n (bs_idx_cool b)
        \<and> bs_util_hot b = gs_utilization (sc_gpus s ! bs_idx_hot b) \<and> bs_util_cool b = gs_utilization (sc_gpus s ! bs_idx_cool b)
        \<and> r = (bs_util_hot b, bs_util_cool b))"

lemma active_card_Suc:
  "card {i. i < Suc n \<and> P i} = (if P n then Suc (card {i. i < n \<and> P i}) else card {i. i < n \<and> P i})"
proof -
  have "{i. i < Suc n \<and> P i} = (if P n then insert n {i. i < n \<and> P i} else {i. i < n \<and> P i})"
    by (auto simp: less_Suc_eq)
  then show ?thesis by simp
qed

lemma scanned_step:
  assumes sc: "scanned s n b r" and u: "active_gpu (sc_gpus s ! n) \<Longrightarrow> in01 (gs_utilization (sc_gpus s ! n))"
  shows "scanned s (Suc n) (balance_scan_step s n b) (util_range_step s n r)"
proof (cases "looked_at s (Suc n) n")
  case False
  let ?b = "balance_scan_step s n b"
  have "active_gpu (sc_gpus s ! n) \<Longrightarrow> gs_utilization (sc_gpus s ! n) = F32_nan" using False by (simp add: looked_at_def)
  then have e: "util_range_step s n r = r" "bs_util_hot ?b = bs_util_hot b" "bs_util_cool ?b = bs_util_cool b"
      "bs_idx_hot ?b = bs_idx_hot b" "bs_idx_cool ?b = bs_idx_cool b"
      "bs_active ?b = (if active_gpu (sc_gpus s ! n) then Suc (bs_active b) else bs_active b)"
    by (auto simp: util_range_step_def balance_scan_step_def Let_def split: prod.split)
  have "looked_at s (Suc n) i = looked_at s n i" for i using False by (auto simp: looked_at_Suc)
  then show ?thesis
    using sc hottest_skip [OF False] coolest_skip [OF False] unfolding scanned_def e active_card_Suc by auto
next
  case True
  let ?u = "\<lambda>i. gs_utilization (sc_gpus s ! i)" and ?b = "balance_scan_step s n b"
  have act: "active_gpu (sc_gpus s ! n)" and "?u n \<noteq> F32_nan" using True by (simp_all add: looked_at_def)
  with u obtain v where v: "?u n = F32 v" "0 \<le> v" "v \<le> 1" using in01_num by blast
  have e: "util_range_step s n r = (if f32_less (fst r) (?u n) then ?u n else fst r, if f32_less (?u n) (snd r) then ?u n else snd r)"
      "bs_util_hot ?b = (if f32_less (bs_util_hot b) (?u n) then ?u n else bs_util_hot b)"
      "bs_util_cool ?b = (if f32_less (?u n) (bs_util_cool b) then ?u n else bs_util_cool b)"
      "bs_idx_hot ?b = (if f32_less (bs_util_hot b) (?u n) then n else bs_idx_hot b)"
      "bs_idx_cool ?b = (if f32_less (?u n) (bs_util_cool b) then n else bs_idx_cool b)"
      "bs_active ?b = Suc (bs_active b)"
    using act by (auto simp: util_range_step_def balance_scan_step_def Let_def split: prod.split)
  from sc have cnt: "bs_active b = card {i. i < n \<and> active_gpu (sc_gpus s ! i)}" by (simp add: scanned_def)
  from sc consider (none) "\<forall>i. \<not> looked_at s n i" "bs_util_hot b = F32 (- 1)" "bs_util_cool b = F32 2" "r = (F32 0, F32 1)"
    | (some) "hottest s n (bs_idx_hot b)" "coolest s n (bs_idx_cool b)"
        "bs_util_hot b = ?u (bs_idx_hot b)" "bs_util_cool b = ?u (bs_idx_cool b)" "r = (bs_util_hot b, bs_util_cool b)"
    unfolding scanned_def by blast
  then show ?thesis
  proof cases
    case none
    then have "hottest s (Suc n) n" "coolest s (Suc n) n" using True by (auto simp: hottest_def coolest_def looked_at_Suc)
    with none v cnt act show ?thesis unfolding scanned_def e active_card_Suc by simp
  next
    case some
    with hottest_Suc [OF some(1) True] coolest_Suc [OF some(2) True] cnt act show ?thesis
      unfolding scanned_def e active_card_Suc by auto
  qed
qed

lemma scanned_all:
  assumes "\<forall>i < n. active_gpu (sc_gpus s ! i) \<longrightarrow> in01 (gs_utilization (sc_gpus s ! i))"
  shows "scanned s n (fold (balance_scan_step s) [0..<n]
     \<lparr>bs_idx_hot = 0, bs_idx_cool = 0, bs_util_hot = F32 (- 1), bs_util_cool = F32 2, bs_active = 0\<rparr>)
     (fold (util_range_step s) [0..<n] (F32 0, F32 1))"
  using assms by (induction n) (simp_all add: scanned_step, simp add: scanned_def looked_at_def)

lemma fold_update_nth:
  assumes "n \<le> length gs"
  shows "length (fold (\<lambda>i gs. gs[i := f i (gs ! i)]) [0..<n] gs) = length gs
    \<and> (\<forall>i. fold (\<lambda>i gs. gs[i := f i (gs ! i)]) [0..<n] gs ! i = (if i < n then f i (gs ! i) else gs ! i))"
  using assms by (induction n) (auto simp: nth_list_update less_Suc_eq)

lemma update_all_utilization_gpu:
  assumes "unat (sc_gpu_count s) \<le> length (sc_gpus s)"
  shows "length (sc_gpus (update_all_utilization d s)) = length (sc_gpus s)"
    and "sc_gpus (update_all_utilization d s) ! i =
      (if i < unat (sc_gpu_count s) then update_gpu_utilization d (of_nat i) (sc_gpus s ! i) else sc_gpus s ! i)"
  using fold_update_nth [OF assms, of "\<lambda>i. update_gpu_utilization d (of_nat i)"]
  by (simp_all add: update_all_utilization_def)

lemma update_all_utilization_frame [simp]:
  "sc_gpu_count (update_all_utilization d s) = sc_gpu_count s" "sc_config (update_all_utilization d s) = sc_config s"
  by (simp_all add: update_all_utilization_def)

lemma update_gpu_utilization_fields [simp]:
  "gs_priority (update_gpu_utilization d i g) = gs_priority g" "active_gpu (update_gpu_utilization d i g) = active_gpu g"
  "in01 (gs_utilization (update_gpu_utilization d i g))"
  by (simp_all add: update_gpu_utilization_def Let_def active_gpu_def clamp01_in01)

text \<open>
  \<open>t\<close> has the priorities of \<open>s\<close> with that of \<open>hot\<close> three lower but at least 10 and that of \<open>cool\<close> three higher
  in 32 bits but at most 100, in the GPU states and in the configuration.
\<close>

definition steered :: "nat \<Rightarrow> nat \<Rightarrow> mvgal_scheduler_state_t \<Rightarrow> mvgal_scheduler_state_t \<Rightarrow> bool" where
  "steered hot cool s t \<longleftrightarrow>
     unat (gs_priority (sc_gpus t ! hot)) = max 10 (unat (gs_priority (sc_gpus s ! hot)) - 3)
   \<and> unat (gs_priority (sc_gpus t ! cool)) = min 100 ((unat (gs_priority (sc_gpus s ! cool)) + 3) mod 2 ^ 32)
   \<and> (\<forall>i. i \<noteq> hot \<longrightarrow> i \<noteq> cool \<longrightarrow> gs_priority (sc_gpus t ! i) = gs_priority (sc_gpus s ! i))
   \<and> cf_gpu_priorities (sc_config t) =
       (cf_gpu_priorities (sc_config s))[hot := gs_priority (sc_gpus t ! hot), cool := gs_priority (sc_gpus t ! cool)]"

definition unsteered :: "mvgal_scheduler_state_t \<Rightarrow> mvgal_scheduler_state_t \<Rightarrow> bool" where
  "unsteered s t \<longleftrightarrow> (\<forall>i. gs_priority (sc_gpus t ! i) = gs_priority (sc_gpus s ! i)) \<and> sc_config t = sc_config s"

lemma lowered_priority_unat: "unat (lowered_priority p) = max 10 (unat p - 3)"
proof (cases "13 < p")
  case True
  then have "unat (p - 3) = unat p - 3" using unat_sub [of 3 p] by (simp add: word_le_nat_alt word_less_nat_alt)
  then show ?thesis using True by (simp add: lowered_priority_def word_less_nat_alt)
next
  case False
  then show ?thesis by (simp add: lowered_priority_def word_less_nat_alt)
qed

lemma raised_priority_unat: "unat (raised_priority p) = min 100 ((unat p + 3) mod 2 ^ 32)"
  by (auto simp: raised_priority_def word_less_nat_alt unat_word_ariths)

lemma steered_set:
  assumes "hot < length (sc_gpus s)" and "cool < length (sc_gpus s)" and "hot \<noteq> cool"
  shows "steered hot cool s (set_gpu_priority cool (raised_priority (gs_priority (sc_gpus s ! cool)))
    (set_gpu_priority hot (lowered_priority (gs_priority (sc_gpus s ! hot))) s))"
  using assms by (simp add: steered_def set_gpu_priority_def lowered_priority_unat raised_priority_unat)

lemma set_gpu_priority_utilization: "gs_utilization (sc_gpus (set_gpu_priority k p s) ! i) = gs_utilization (sc_gpus s ! i)"
  by (cases "k < length (sc_gpus s)") (auto simp: set_gpu_priority_def nth_list_update list_update_beyond)

lemma no_gap_alone: "in01 u \<Longrightarrow> u \<noteq> F32_nan \<Longrightarrow> \<not> f32_less (f32_lit (5 / 100)) (f32_sub u u)"
proof -
  have "\<not> f32_less (f32_lit (5 / 100)) (f32_round 0)" by code_simp
  then show "in01 u \<Longrightarrow> u \<noteq> F32_nan \<Longrightarrow> \<not> f32_less (f32_lit (5 / 100)) (f32_sub u u)"
    using in01_num [of u] by (auto simp: f32_sub_def)
qed

text \<open>What a pass does, once the utilizations are updated.\<close>

lemma balance_priorities_when:
  fixes s n
  defines "n \<equiv> unat (sc_gpu_count s)"
  assumes u: "\<forall>i < n. in01 (gs_utilization (sc_gpus s ! i))" and len: "n \<le> length (sc_gpus s)"
    and h: "hottest s n hot" and c: "coolest s n cool"
  defines "gap \<equiv> f32_sub (gs_utilization (sc_gpus s ! hot)) (gs_utilization (sc_gpus s ! cool))"
  shows "fold (util_range_step s) [0..<n] (F32 0, F32 1) = (gs_utilization (sc_gpus s ! hot), gs_utilization (sc_gpus s ! cool))"
    and "f32_less (f32_lit (5 / 100)) gap \<Longrightarrow> hot \<noteq> cool \<and> steered hot cool s (balance_priorities s)"
    and "\<not> f32_less (f32_lit (5 / 100)) gap \<Longrightarrow> balance_priorities s = s"
proof -
  let ?b = "scan_gpus s"
  have sc: "scanned s n ?b (fold (util_range_step s) [0..<n] (F32 0, F32 1))"
    using scanned_all [of n s] u by (simp add: scan_gpus_def n_def)
  have lh: "looked_at s n hot" and lc: "looked_at s n cool" using h c by (simp_all add: hottest_def coolest_def)
  from sc lh have f: "hottest s n (bs_idx_hot ?b)" "coolest s n (bs_idx_cool ?b)"
      "bs_util_hot ?b = gs_utilization (sc_gpus s ! bs_idx_hot ?b)" "bs_util_cool ?b = gs_utilization (sc_gpus s ! bs_idx_cool ?b)"
      "fold (util_range_step s) [0..<n] (F32 0, F32 1) = (bs_util_hot ?b, bs_util_cool ?b)"
      "bs_active ?b = card {i. i < n \<and> active_gpu (sc_gpus s ! i)}" unfolding scanned_def by blast+
  have i: "bs_idx_hot ?b = hot" "bs_idx_cool ?b = cool" using hottest_unique [OF f(1) h] coolest_unique [OF f(2) c] .
  then show "fold (util_range_step s) [0..<n] (F32 0, F32 1) = (gs_utilization (sc_gpus s ! hot), gs_utilization (sc_gpus s ! cool))"
    using f(3-5) by simp
  show "balance_priorities s = s" if "\<not> f32_less (f32_lit (5 / 100)) gap"
    using that f(3,4) i by (simp add: balance_priorities_def Let_def gap_def)
  show "hot \<noteq> cool \<and> steered hot cool s (balance_priorities s)" if g: "f32_less (f32_lit (5 / 100)) gap"
  proof -
    have "hot \<noteq> cool" using g no_gap_alone u lh unfolding gap_def by (auto simp: looked_at_def)
    moreover have "card {hot, cool} \<le> bs_active ?b"
      unfolding f(6) using lh lc by (intro card_mono) (auto simp: looked_at_def)
    ultimately have "balance_priorities s = set_gpu_priority cool (raised_priority (gs_priority (sc_gpus s ! cool)))
        (set_gpu_priority hot (lowered_priority (gs_priority (sc_gpus s ! hot))) s)"
      using g f(3,4) i by (simp add: balance_priorities_def Let_def gap_def)
    then show ?thesis using steered_set [of hot s cool] lh lc len \<open>hot \<noteq> cool\<close> by (simp add: looked_at_def)
  qed
qed

lemma balance_priorities_idle:
  assumes "\<forall>i < unat (sc_gpu_count s). in01 (gs_utilization (sc_gpus s ! i))"
    and "\<nexists>hot cool. hottest s (unat (sc_gpu_count s)) hot \<and> coolest s (unat (sc_gpu_count s)) cool"
  shows "balance_priorities s = s"
proof -
  have "scanned s (unat (sc_gpu_count s)) (scan_gpus s) (fold (util_range_step s) [0..<unat (sc_gpu_count s)] (F32 0, F32 1))"
    using scanned_all [of "unat (sc_gpu_count s)" s] assms(1) by (simp add: scan_gpus_def)
  with assms(2) have "bs_idx_hot (scan_gpus s) = bs_idx_cool (scan_gpus s)" unfolding scanned_def by auto
  then show ?thesis by (simp add: balance_priorities_def Let_def)
qed

lemma balance_priorities_utilization: "gs_utilization (sc_gpus (balance_priorities s) ! i) = gs_utilization (sc_gpus s ! i)"
  by (simp add: balance_priorities_def Let_def set_gpu_priority_utilization)

lemma steered_cong:
  assumes "\<And>i. gs_priority (sc_gpus s' ! i) = gs_priority (sc_gpus s ! i)" and "sc_config s' = sc_config s"
  shows "steered hot cool s' t = steered hot cool s t"
  by (simp add: steered_def assms)

text \<open>
  C27. When rebalancing steers new work, and how. A pass with dynamic balancing on first updates every
  utilization, which is then in \<open>[0, 1]\<close> or not a number. Take the first active GPU with the greatest and the
  first with the least of the new utilizations. If they differ by more than the threshold of the configuration and by more than
  0.05, they are two GPUs, the priority of the hottest becomes three less, at least 10, and that of the
  coolest three more, at most 100, in the GPU states and in the configuration alike, and no other
  priority changes; otherwise, or when no active GPU has a number as its utilization, no priority changes. A hottest GPU
  with a priority below 10 is thus raised to 10.
\<close>
theorem balance_load_steers:
  assumes len: "unat (sc_gpu_count s) \<le> length (sc_gpus s)" and on: "cf_dynamic_load_balance (sc_config s)"
    and n: "n = unat (sc_gpu_count s)" and s1: "s1 = update_all_utilization d s" and t: "t = mvgal_scheduler_balance_load d s"
  shows "(\<forall>i < n. in01 (gs_utilization (sc_gpus s1 ! i))) \<and> (\<forall>i. gs_utilization (sc_gpus t ! i) = gs_utilization (sc_gpus s1 ! i))
    \<and> (\<forall>hot cool. hottest s1 n hot \<longrightarrow> coolest s1 n cool \<longrightarrow>
         (let gap = f32_sub (gs_utilization (sc_gpus s1 ! hot)) (gs_utilization (sc_gpus s1 ! cool))
          in if f32_less (cf_load_balance_threshold (sc_config s)) gap \<and> f32_less (f32_lit (5 / 100)) gap
             then hot \<noteq> cool \<and> steered hot cool s t else unsteered s t))
    \<and> ((\<exists>hot cool. hottest s1 n hot \<and> coolest s1 n cool) \<or> unsteered s t)"
proof -
  note upd = update_all_utilization_gpu [OF len, of d, folded s1]
  have p1: "gs_priority (sc_gpus s1 ! i) = gs_priority (sc_gpus s ! i)" for i by (simp add: upd)
  have c1: "sc_config s1 = sc_config s" "unat (sc_gpu_count s1) = n" by (simp_all add: s1 n)
  have u1: "\<forall>i < n. in01 (gs_utilization (sc_gpus s1 ! i))" by (simp add: upd n)
  let ?r = "fold (util_range_step s1) [0..<n] (F32 0, F32 1)"
  have t': "t = (if f32_less (cf_load_balance_threshold (sc_config s)) (f32_sub (fst ?r) (snd ?r)) then balance_priorities s1 else s1)"
    using on t by (simp add: mvgal_scheduler_balance_load_def Let_def s1 n split: prod.split)
  have same: "unsteered s s1" by (simp add: unsteered_def p1 c1)
  have "let gap = f32_sub (gs_utilization (sc_gpus s1 ! hot)) (gs_utilization (sc_gpus s1 ! cool))
        in if f32_less (cf_load_balance_threshold (sc_config s)) gap \<and> f32_less (f32_lit (5 / 100)) gap
           then hot \<noteq> cool \<and> steered hot cool s t else unsteered s t"
    if h: "hottest s1 n hot" and c: "coolest s1 n cool" for hot cool
  proof -
    have l: "unat (sc_gpu_count s1) \<le> length (sc_gpus s1)" using len by (simp add: upd(1) c1 n)
    note w = balance_priorities_when [of s1 hot cool, unfolded c1(2), OF u1 l [unfolded c1(2)] h c]
    show ?thesis
    proof (cases "f32_less (f32_lit (5 / 100)) (f32_sub (gs_utilization (sc_gpus s1 ! hot)) (gs_utilization (sc_gpus s1 ! cool)))")
      case True
      with w(1,2) same t' show ?thesis by (simp add: Let_def steered_cong [of s1 s, OF p1 c1(1)])
    next
      case False
      with w(1,3) same t' show ?thesis by (simp add: Let_def)
    qed
  qed
  moreover have "(\<exists>hot cool. hottest s1 n hot \<and> coolest s1 n cool) \<or> unsteered s t"
  proof (cases "\<exists>hot cool. hottest s1 n hot \<and> coolest s1 n cool")
    case False
    then have "t = s1" using balance_priorities_idle [of s1, unfolded c1(2), OF u1] t' by simp
    then show ?thesis using same by simp
  qed simp
  moreover have "\<forall>i. gs_utilization (sc_gpus t ! i) = gs_utilization (sc_gpus s1 ! i)"
    by (simp add: t' balance_priorities_utilization)
  ultimately show ?thesis using u1 by blast
qed

text \<open>GPU 0 is busy and GPU 1 idle: a witness for C27.\<close>

definition skewed_gpus :: mvgal_scheduler_state_t where
  "skewed_gpus = two_gpus\<lparr>sc_config := initial_config\<lparr>cf_load_balance_threshold := f32_lit (1 / 10)\<rparr>\<rparr>"

definition skewed_readings :: driver_readings where
  "skewed_readings = \<lparr>dr_utilization = (\<lambda>i. Some (if i = 0 then F32 100 else F32 0)), dr_temperature = (\<lambda>_. None),
     dr_compute_score = (\<lambda>_. None)\<rparr>"

theorem balance_load_steers_witness:
  "gs_priority (sc_gpus (mvgal_scheduler_balance_load skewed_readings skewed_gpus) ! 0) = 47
   \<and> (\<exists>hot cool. hottest (update_all_utilization skewed_readings skewed_gpus) 2 hot
        \<and> coolest (update_all_utilization skewed_readings skewed_gpus) 2 cool \<and> hot \<noteq> cool
        \<and> steered hot cool skewed_gpus (mvgal_scheduler_balance_load skewed_readings skewed_gpus))"
proof -
  let ?t = "mvgal_scheduler_balance_load skewed_readings skewed_gpus" and ?s1 = "update_all_utilization skewed_readings skewed_gpus"
  have e: "gs_priority (sc_gpus ?t ! 0) = 47" "gs_priority (sc_gpus skewed_gpus ! 0) = 50" by code_simp+
  have g: "unat (sc_gpu_count skewed_gpus) = 2" "cf_dynamic_load_balance (sc_config skewed_gpus)" "length (sc_gpus skewed_gpus) = 16"
    by (simp_all add: skewed_gpus_def two_gpus_def initial_config_def)
  then have l: "unat (sc_gpu_count skewed_gpus) \<le> length (sc_gpus skewed_gpus)" by simp
  have ns: "\<not> unsteered skewed_gpus ?t"
  proof
    assume "unsteered skewed_gpus ?t"
    then have "gs_priority (sc_gpus ?t ! 0) = gs_priority (sc_gpus skewed_gpus ! 0)" by (simp only: unsteered_def)
    then show False unfolding e by simp
  qed
  note w = balance_load_steers [OF l g(2) g(1) [symmetric] refl refl, of skewed_readings]
  from w ns obtain hot cool where hc: "hottest ?s1 2 hot" "coolest ?s1 2 cool" by blast
  note p = w [THEN conjunct2, THEN conjunct2, THEN conjunct1, rule_format, OF hc]
  from p ns have "hot \<noteq> cool \<and> steered hot cool skewed_gpus ?t" unfolding Let_def by (simp split: if_split_asm)
  with hc e(1) show ?thesis by blast
qed

section \<open>Selection\<close>

lemma best_fold:
  assumes "fold (best_step recs ids) [0..<n] (F32 (- 1), none) = (best, sel)"
  shows "(\<forall>i < n. \<not> f32_less best (recs ! i))
    \<and> (best = F32 (- 1) \<and> sel = none \<or> (\<exists>k < n. best = recs ! k \<and> sel = ids ! k))"
  using assms
proof (induction n arbitrary: best sel)
  case 0
  then show ?case by simp
next
  case (Suc n)
  obtain b c where b: "fold (best_step recs ids) [0..<n] (F32 (- 1), none) = (b, c)" by force
  note ih = Suc.IH [OF b]
  have step: "(best, sel) = best_step recs ids n (b, c)" using Suc.prems b by simp
  show ?case
  proof (cases "f32_less b (recs ! n)")
    case True
    then have "best = recs ! n" "sel = ids ! n" using step by (simp_all add: best_step_def)
    then show ?thesis using ih True f32_not_less_less by (auto simp: less_Suc_eq)
  next
    case False
    then show ?thesis using ih step by (auto simp: best_step_def less_Suc_eq)
  qed
qed

text \<open>The selection returns an index whose load factor is not below any other.\<close>

lemma select_gpu_best:
  assumes sel: "load_balancer_select_gpu d s w n (Some ids) (Some x) = Inr (MVGAL_SUCCESS, Some y)"
  shows "\<exists>k < unat n. y = ids ! k \<and> (\<forall>i < unat n. \<not> f32_less (load_factor d s y) (load_factor d s (ids ! i)))"
proof -
  let ?recs = "map (load_factor d s) (take (unat n) ids) @ drop (unat n) (replicate MVGAL_SCHEDULER_MAX_GPUS (F32 0))"
  obtain best where f: "fold (best_step ?recs ids) [0..<unat n] (F32 (- 1), 0xFFFFFFFF) = (best, y)"
    and y: "y \<noteq> 0xFFFFFFFF" and len: "unat n \<le> length ids"
    using sel by (cases "fold (best_step ?recs ids) [0..<unat n] (F32 (- 1), 0xFFFFFFFF)")
      (auto simp: load_balancer_select_gpu_def load_balancer_get_recommendation_def Let_def split: option.splits if_splits)
  have r: "?recs ! i = load_factor d s (ids ! i)" if "i < unat n" for i using that len by (simp add: nth_append)
  from best_fold [OF f] y obtain k where "k < unat n" "best = ?recs ! k" "y = ids ! k"
    "\<forall>i < unat n. \<not> f32_less best (?recs ! i)" by blast
  then show ?thesis using r by metis
qed

text \<open>An index that names no GPU has load factor 0 and can be the one selected.\<close>

lemma unknown_gpu_selected:
  "load_balancer_select_gpu skewed_readings two_gpus (Some 1) 1 (Some [7]) (Some 0) = Inr (MVGAL_SUCCESS, Some 7)"
  by code_simp

text \<open>More indices than the local array holds are written behind its end.\<close>

lemma many_gpus_overflow:
  assumes "MVGAL_SCHEDULER_MAX_GPUS < unat n" and "unat n \<le> length ids"
  shows "load_balancer_select_gpu d s (Some w) n (Some ids) (Some x) = Inl Out_Of_Bounds"
  using assms by (auto simp: load_balancer_select_gpu_def load_balancer_get_recommendation_def)

end
