(* ===== verification/Splitter_Table.thy ===== *)
theory Splitter_Table
  imports Gpu_Select
begin

text \<open>
The table of custom splitters of \<^verbatim>\<open>src/userspace/scheduler/workload_splitter.c\<close>: sixteen slots that
  hold the functions of a splitter, and the application of them one after the other.
\<close>

section \<open>The table\<close>

abbreviation (input) MAX_SPLITTERS :: nat where
  "MAX_SPLITTERS \<equiv> 16"

record registered_splitter_t =
  rs_splitter :: mvgal_workload_splitter_t
  rs_used :: bool

definition no_splitter :: mvgal_workload_splitter_t where
  "no_splitter = \<lparr>sp_analyze = None, sp_split = None, sp_merge = None, sp_user_data = None\<rparr>"

definition g_splitters_init :: "registered_splitter_t list" where
  "g_splitters_init = replicate MAX_SPLITTERS \<lparr>rs_splitter = no_splitter, rs_used = False\<rparr>"

text \<open>The first entry that satisfies a condition, as the loops over the table find it.\<close>

fun first_slot :: "(registered_splitter_t \<Rightarrow> bool) \<Rightarrow> registered_splitter_t list \<Rightarrow> nat option" where
  "first_slot p [] = None"
| "first_slot p (r # rs) = (if p r then Some 0 else map_option Suc (first_slot p rs))"

definition register_custom_splitter ::
    "mvgal_workload_splitter_t option \<Rightarrow> registered_splitter_t list \<Rightarrow> mvgal_error_t \<times> registered_splitter_t list" where
  "register_custom_splitter splitter tab =
     (case splitter of
        None \<Rightarrow> (MVGAL_ERROR_INVALID_ARGUMENT, tab)
      | Some sp \<Rightarrow>
          (case first_slot (\<lambda>r. \<not> rs_used r) tab of
             Some i \<Rightarrow> (MVGAL_SUCCESS, tab[i := \<lparr>rs_splitter = sp, rs_used = True\<rparr>])
           | None \<Rightarrow> (MVGAL_ERROR_OUT_OF_MEMORY, tab)))"

definition same_splitter :: "mvgal_workload_splitter_t \<Rightarrow> registered_splitter_t \<Rightarrow> bool" where
  "same_splitter sp r \<longleftrightarrow> rs_used r \<and> sp_split (rs_splitter r) = sp_split sp \<and> sp_merge (rs_splitter r) = sp_merge sp"

definition unregister_custom_splitter ::
    "mvgal_workload_splitter_t option \<Rightarrow> registered_splitter_t list \<Rightarrow> mvgal_error_t \<times> registered_splitter_t list" where
  "unregister_custom_splitter splitter tab =
     (case splitter of
        None \<Rightarrow> (MVGAL_ERROR_INVALID_ARGUMENT, tab)
      | Some sp \<Rightarrow>
          (case first_slot (same_splitter sp) tab of
             Some i \<Rightarrow> (MVGAL_SUCCESS, tab[i := \<lparr>rs_splitter = no_splitter, rs_used = False\<rparr>])
           | None \<Rightarrow> (MVGAL_ERROR_INVALID_ARGUMENT, tab)))"

definition get_custom_splitter_count :: "registered_splitter_t list \<Rightarrow> u32" where
  "get_custom_splitter_count tab = fold (\<lambda>r n. if rs_used r then n + 1 else n) tab 0"

text \<open>
  \<open>call\<close> stands for the call of a split function with its user data: what it returns and the world it
  leaves, in which it has stored the parts.
\<close>

definition apply_custom_splitter ::
    "(nat \<Rightarrow> nat option \<Rightarrow> 'w \<Rightarrow> bool \<times> 'w) \<Rightarrow> nat \<Rightarrow> registered_splitter_t list \<Rightarrow> 'w \<Rightarrow> mvgal_error_t \<times> 'w" where
  "apply_custom_splitter call i tab w =
     (if MAX_SPLITTERS \<le> i then (MVGAL_ERROR_INVALID_ARGUMENT, w)
      else if \<not> rs_used (tab ! i) then (MVGAL_ERROR_INVALID_ARGUMENT, w)
      else case sp_split (rs_splitter (tab ! i)) of
        None \<Rightarrow> (MVGAL_ERROR_INVALID_ARGUMENT, w)
      | Some f \<Rightarrow>
          (let (success, w') = call f (sp_user_data (rs_splitter (tab ! i))) w
           in (if success then MVGAL_SUCCESS else MVGAL_ERROR_SCHEDULER, w')))"

fun apply_splitters_from ::
    "(nat \<Rightarrow> nat option \<Rightarrow> 'w \<Rightarrow> bool \<times> 'w) \<Rightarrow> nat list \<Rightarrow> registered_splitter_t list \<Rightarrow> 'w \<Rightarrow> mvgal_error_t \<times> 'w" where
  "apply_splitters_from call [] tab w = (MVGAL_ERROR_NOT_SUPPORTED, w)"
| "apply_splitters_from call (i # is) tab w =
     (if rs_used (tab ! i) then
        (let (err, w') = apply_custom_splitter call i tab w
         in if err = MVGAL_SUCCESS then (MVGAL_SUCCESS, w') else apply_splitters_from call is tab w')
      else apply_splitters_from call is tab w)"

definition apply_all_custom_splitters ::
    "(nat \<Rightarrow> nat option \<Rightarrow> 'w \<Rightarrow> bool \<times> 'w) \<Rightarrow> registered_splitter_t list \<Rightarrow> 'w \<Rightarrow> mvgal_error_t \<times> 'w" where
  "apply_all_custom_splitters call tab w = apply_splitters_from call [0..<MAX_SPLITTERS] tab w"

section \<open>The table as a list of slots\<close>

lemma first_slot_Some:
  "first_slot p tab = Some i \<longleftrightarrow> i < length tab \<and> p (tab ! i) \<and> (\<forall>j < i. \<not> p (tab ! j))"
proof (induction tab arbitrary: i)
  case Nil
  then show ?case by simp
next
  case (Cons r tab)
  show ?case
    by (cases i) (auto simp: Cons.IH All_less_Suc2)
qed

lemma first_slot_None: "first_slot p tab = None \<longleftrightarrow> (\<forall>r \<in> set tab. \<not> p r)"
  by (induction tab) auto

lemma splitter_count: "get_custom_splitter_count tab = of_nat (length (filter rs_used tab))"
proof -
  have "fold (\<lambda>r n. if rs_used r then n + 1 else n) tab k = k + of_nat (length (filter rs_used tab))" for k :: u32
    by (induction tab arbitrary: k) auto
  then show ?thesis by (simp add: get_custom_splitter_count_def)
qed

text \<open>A failing splitter is passed over; the first that succeeds ends the loop.\<close>

lemma apply_splitters_success:
  assumes "apply_splitters_from call is tab w = (MVGAL_SUCCESS, w')"
  shows "\<exists>i \<in> set is. rs_used (tab ! i) \<and> (\<exists>v. apply_custom_splitter call i tab v = (MVGAL_SUCCESS, w'))"
  using assms by (induction "is" arbitrary: w) (auto split: if_splits prod.splits)

text \<open>Unregistering a splitter right after its registration gives the table back, when no entry had its functions.\<close>

lemma register_unregister:
  assumes reg: "register_custom_splitter (Some sp) tab = (MVGAL_SUCCESS, t)"
    and clean: "\<forall>r \<in> set tab. \<not> rs_used r \<longrightarrow> rs_splitter r = no_splitter"
    and fresh: "\<forall>r \<in> set tab. \<not> same_splitter sp r"
  shows "unregister_custom_splitter (Some sp) t = (MVGAL_SUCCESS, tab)"
proof -
  obtain i where i: "first_slot (\<lambda>r. \<not> rs_used r) tab = Some i" and t: "t = tab[i := \<lparr>rs_splitter = sp, rs_used = True\<rparr>]"
    using reg by (auto simp: register_custom_splitter_def split: option.splits)
  have len: "i < length tab" "\<not> rs_used (tab ! i)" using i by (simp_all add: first_slot_Some)
  then have "first_slot (same_splitter sp) t = Some i"
    using fresh by (auto simp: first_slot_Some t same_splitter_def)
  moreover have "tab ! i = \<lparr>rs_splitter = no_splitter, rs_used = False\<rparr>" using len clean by (intro registered_splitter_t.equality) simp_all
  ultimately show ?thesis using len by (simp add: unregister_custom_splitter_def t list_update_same_conv)
qed

end
