(* ===== verification/Kernel_Sched.thy ===== *)
theory Kernel_Sched
  imports Mvgal_Prelude
begin

text \<open>
  The scheduler of the kernel module, \<^verbatim>\<open>kernel/mvgal_scheduler.c\<close>: allocation and submission of workloads,
  four priority queues, the choice of a GPU, the dispatcher, and the ioctl that submits a workload. The result of a
  vendor's \<^verbatim>\<open>submit_cs\<close> is an argument. The mutex is a flag; its release by a thread that
  does not hold it is a fault.
\<close>

unbundle bit_operations_syntax

section \<open>State\<close>

datatype mvgal_schedule_state = SCHEDULE_PENDING | SCHEDULE_RUNNING | SCHEDULE_COMPLETE | SCHEDULE_ERROR

record kernel_workload =
  kw_id :: u32
  kw_priority :: u32
  kw_gpu_mask :: u32
  kw_type :: u32
  kw_command_buffer_addr :: u64
  kw_command_buffer_size :: u64
  kw_completions :: nat
  kw_signaled :: bool
  kw_state :: mvgal_schedule_state
  kw_result :: int
  kw_assigned_gpu :: "nat option"
  kw_start_time :: u64
  kw_end_time :: u64

text \<open>A GPU of the list of the logical device; \<open>kg_submit_cs\<close> says whether its vendor has the operation.\<close>

record mvgal_gpu_device =
  kg_devfn :: u32
  kg_enabled :: bool
  kg_available :: bool
  kg_utilization :: u32
  kg_submit_cs :: bool

text \<open>
  The scheduler with the heap of workloads, the GPUs, the clock, and the addresses of the workloads in the
  order in which the dispatcher signals them.
\<close>

record kernel_scheduler =
  ks_queues :: "nat list list"
  ks_locked :: bool
  ks_next_workload_id :: u32
  ks_heap :: "nat \<rightharpoonup> kernel_workload"
  ks_gpus :: "mvgal_gpu_device list"
  ks_clock :: "nat \<Rightarrow> u64"
  ks_ticks :: nat
  ks_served :: "nat list"

datatype kernel_fault = Unlock_Not_Held | Bad_Pointer nat | Out_Of_Fuel

abbreviation (input) MVGAL_NUM_PRIORITY_QUEUES :: nat where "MVGAL_NUM_PRIORITY_QUEUES \<equiv> 4"
abbreviation (input) MVGAL_MAX_PRIORITY :: u32 where "MVGAL_MAX_PRIORITY \<equiv> 15"
abbreviation (input) EINVAL :: int where "EINVAL \<equiv> 22"
abbreviation (input) ENOMEM :: int where "ENOMEM \<equiv> 12"
abbreviation (input) EFAULT :: int where "EFAULT \<equiv> 14"
abbreviation (input) ENODEV :: int where "ENODEV \<equiv> 19"
abbreviation (input) ETIMEDOUT_KERNEL :: int where "ETIMEDOUT_KERNEL \<equiv> 110"

definition k_lock :: "kernel_scheduler \<Rightarrow> kernel_scheduler" where
  "k_lock s = s\<lparr>ks_locked := True\<rparr>"

definition k_unlock :: "kernel_scheduler \<Rightarrow> kernel_fault + kernel_scheduler" where
  "k_unlock s = (if ks_locked s then Inr (s\<lparr>ks_locked := False\<rparr>) else Inl Unlock_Not_Held)"

section \<open>Workloads\<close>

text \<open>\<open>wq\<close> is whether the workqueue could be created; the heap, the GPUs and the clock are the environment's.\<close>

definition kernel_scheduler_init :: "bool \<Rightarrow> kernel_scheduler \<Rightarrow> int \<times> kernel_scheduler" where
  "kernel_scheduler_init wq s =
     (let s1 = s\<lparr>ks_queues := replicate MVGAL_NUM_PRIORITY_QUEUES [], ks_locked := False, ks_next_workload_id := 1\<rparr>
      in (if wq then 0 else - ENOMEM, s1))"

definition kernel_workload_alloc :: "nat option \<Rightarrow> kernel_scheduler \<Rightarrow> nat option \<times> kernel_scheduler" where
  "kernel_workload_alloc a s =
     (case a of
        None \<Rightarrow> (None, s)
      | Some p \<Rightarrow>
          (Some p,
           s\<lparr>ks_next_workload_id := ks_next_workload_id s + 1,
             ks_heap := (ks_heap s)(p \<mapsto>
               \<lparr>kw_id = ks_next_workload_id s, kw_priority = 8, kw_gpu_mask = - 1, kw_type = 0, kw_command_buffer_addr = 0,
                kw_command_buffer_size = 0, kw_completions = 0, kw_signaled = False, kw_state = SCHEDULE_PENDING,
                kw_result = 0, kw_assigned_gpu = None, kw_start_time = 0, kw_end_time = 0\<rparr>)\<rparr>))"

definition kernel_workload_free :: "nat option \<Rightarrow> kernel_scheduler \<Rightarrow> kernel_scheduler" where
  "kernel_workload_free a s = (case a of None \<Rightarrow> s | Some p \<Rightarrow> s\<lparr>ks_heap := (ks_heap s)(p := None)\<rparr>)"

definition queue_of_priority :: "u32 \<Rightarrow> nat" where
  "queue_of_priority p = min (unat (drop_bit 2 p)) (MVGAL_NUM_PRIORITY_QUEUES - 1)"

definition kernel_workload_submit :: "nat option \<Rightarrow> kernel_scheduler \<Rightarrow> kernel_fault + (int \<times> kernel_scheduler)" where
  "kernel_workload_submit a s =
     (case a of
        None \<Rightarrow> Inr (- EINVAL, s)
      | Some p \<Rightarrow>
          (case ks_heap s p of
             None \<Rightarrow> Inl (Bad_Pointer p)
           | Some w \<Rightarrow>
               (let w1 = (if MVGAL_MAX_PRIORITY < kw_priority w then w\<lparr>kw_priority := MVGAL_MAX_PRIORITY\<rparr> else w);
                    q = queue_of_priority (kw_priority w1);
                    s1 = k_lock (s\<lparr>ks_heap := (ks_heap s)(p \<mapsto> w1)\<rparr>);
                    s2 = s1\<lparr>ks_queues := (ks_queues s1)[q := ks_queues s1 ! q @ [p]]\<rparr>
                in case k_unlock s2 of Inl e \<Rightarrow> Inl e | Inr s3 \<Rightarrow> Inr (0, s3))))"

text \<open>
  A wait: \<open>env\<close> is the workload as the completion leaves it, \<open>None\<close> when no completion comes in time. The
  result is \<open>None\<close> while the thread sleeps.
\<close>

definition kernel_workload_wait :: "kernel_workload option \<Rightarrow> u32 \<Rightarrow> kernel_workload option \<Rightarrow> int option" where
  "kernel_workload_wait workload timeout_ms env =
     (case workload of
        None \<Rightarrow> Some (- EINVAL)
      | Some w \<Rightarrow>
          if kw_state w = SCHEDULE_COMPLETE \<or> kw_state w = SCHEDULE_ERROR then Some (kw_result w)
          else case env of
            Some w' \<Rightarrow> Some (kw_result w')
          | None \<Rightarrow> if timeout_ms = 0 then None else Some (- ETIMEDOUT_KERNEL))"

definition kernel_workload_signal :: "int \<Rightarrow> kernel_workload \<Rightarrow> kernel_workload" where
  "kernel_workload_signal result w =
     w\<lparr>kw_result := result, kw_state := (if result = 0 then SCHEDULE_COMPLETE else SCHEDULE_ERROR), kw_signaled := True,
       kw_completions := Suc (kw_completions w)\<rparr>"

section \<open>The choice of a GPU\<close>

definition gpu_step :: "u32 \<Rightarrow> nat \<times> mvgal_gpu_device \<Rightarrow> u32 \<times> nat option \<Rightarrow> u32 \<times> nat option" where
  "gpu_step gpu_mask ig b =
     (let (i, gpu) = ig; gpu_idx = unat (kg_devfn gpu AND 0x1F)
      in if gpu_mask AND push_bit gpu_idx 1 \<noteq> 0 \<and> kg_enabled gpu \<and> kg_available gpu \<and> kg_utilization gpu < fst b
         then (kg_utilization gpu, Some i) else b)"

definition mvgal_find_available_gpu :: "u32 \<Rightarrow> mvgal_gpu_device list \<Rightarrow> nat option" where
  "mvgal_find_available_gpu gpu_mask gpus = snd (fold (gpu_step gpu_mask) (enumerate 0 gpus) (0x7FFFFFFF, None))"

section \<open>The dispatcher\<close>

text \<open>What the vendor's driver returns for a workload; a vendor without \<^verbatim>\<open>submit_cs\<close> counts as success.\<close>

definition vendor_submit :: "(nat \<Rightarrow> kernel_workload \<Rightarrow> int) \<Rightarrow> nat \<Rightarrow> kernel_workload \<Rightarrow> kernel_scheduler \<Rightarrow> int" where
  "vendor_submit submit_cs g w s = (if kg_submit_cs (ks_gpus s ! g) then submit_cs g w else 0)"

definition dispatch_workload :: "(nat \<Rightarrow> kernel_workload \<Rightarrow> int) \<Rightarrow> nat \<Rightarrow> nat \<Rightarrow> kernel_workload \<Rightarrow> kernel_scheduler \<Rightarrow> kernel_scheduler" where
  "dispatch_workload submit_cs a g w s =
     (let w1 = w\<lparr>kw_state := SCHEDULE_RUNNING, kw_assigned_gpu := Some g, kw_start_time := ks_clock s (ks_ticks s)\<rparr>;
          ret = vendor_submit submit_cs g w1 s;
          w2 = w1\<lparr>kw_end_time := ks_clock s (Suc (ks_ticks s))\<rparr>
      in s\<lparr>ks_ticks := Suc (Suc (ks_ticks s)), ks_heap := (ks_heap s)(a \<mapsto> kernel_workload_signal ret w2),
           ks_served := ks_served s @ [a]\<rparr>)"

text \<open>The loop over one queue, as the thread comes to its test; \<open>fuel\<close> bounds the number of passes.\<close>

fun dispatch_queue ::
    "(nat \<Rightarrow> kernel_workload \<Rightarrow> int) \<Rightarrow> nat \<Rightarrow> nat \<Rightarrow> kernel_scheduler \<Rightarrow> kernel_fault + kernel_scheduler" where
  "dispatch_queue submit_cs 0 i s = Inl Out_Of_Fuel"
| "dispatch_queue submit_cs (Suc fuel) i s =
     (case ks_queues s ! i of
        [] \<Rightarrow> k_unlock s
      | a # as \<Rightarrow>
          (case k_unlock (s\<lparr>ks_queues := (ks_queues s)[i := as]\<rparr>) of
             Inl e \<Rightarrow> Inl e
           | Inr s1 \<Rightarrow>
               (case ks_heap s1 a of
                  None \<Rightarrow> Inl (Bad_Pointer a)
                | Some w \<Rightarrow>
                    (case mvgal_find_available_gpu (kw_gpu_mask w) (ks_gpus s1) of
                       None \<Rightarrow>
                         (let s2 = k_lock s1; s3 = s2\<lparr>ks_queues := (ks_queues s2)[i := ks_queues s2 ! i @ [a]]\<rparr>
                          in case k_unlock s3 of Inl e \<Rightarrow> Inl e | Inr s4 \<Rightarrow> dispatch_queue submit_cs fuel i s4)
                     | Some g \<Rightarrow> dispatch_queue submit_cs fuel i (k_lock (dispatch_workload submit_cs a g w s1))))))"

fun dispatch_queues ::
    "(nat \<Rightarrow> kernel_workload \<Rightarrow> int) \<Rightarrow> nat \<Rightarrow> nat list \<Rightarrow> kernel_scheduler \<Rightarrow> kernel_fault + kernel_scheduler" where
  "dispatch_queues submit_cs fuel [] s = Inr s"
| "dispatch_queues submit_cs fuel (i # is) s =
     (case dispatch_queue submit_cs fuel i (k_lock s) of
        Inl e \<Rightarrow> Inl e
      | Inr s1 \<Rightarrow> dispatch_queues submit_cs fuel is s1)"

definition mvgal_scheduler_dispatch ::
    "(nat \<Rightarrow> kernel_workload \<Rightarrow> int) \<Rightarrow> nat \<Rightarrow> kernel_scheduler \<Rightarrow> kernel_fault + kernel_scheduler" where
  "mvgal_scheduler_dispatch submit_cs fuel s = dispatch_queues submit_cs fuel (rev [0..<MVGAL_NUM_PRIORITY_QUEUES]) s"

section \<open>The ioctl\<close>

record mvgal_submit_workload_args =
  sw_workload_id :: u32
  sw_workload_type :: u32
  sw_priority :: u32
  sw_gpu_mask :: u32
  sw_flags :: u32
  sw_timeout_ms :: u32
  sw_result :: int
  sw_command_buffer_addr :: u64
  sw_command_buffer_size :: u64

text \<open>
  What the environment decides: the address the allocation returns, which of the four copies from user
  space succeed, the result that \<^verbatim>\<open>mvgal_workload_signal\<close> is called with while the call waits, \<open>None\<close> when it
  is not called in time, and the list of workloads of the file, \<open>None\<close> without private data.
\<close>

record submit_env =
  se_alloc :: "nat option"
  se_copy_ok :: "nat \<Rightarrow> bool"
  se_completion :: "int option"
  se_file :: "nat list option"

definition ioctl_fill :: "mvgal_submit_workload_args \<Rightarrow> kernel_workload \<Rightarrow> kernel_workload" where
  "ioctl_fill args w =
     w\<lparr>kw_command_buffer_addr := sw_command_buffer_addr args, kw_command_buffer_size := sw_command_buffer_size args,
       kw_priority := sw_priority args, kw_gpu_mask := sw_gpu_mask args, kw_type := sw_workload_type args\<rparr>"

text \<open>The scheduler after a wait in which the workload was signaled with the result in \<open>env\<close>.\<close>

definition waited :: "nat \<Rightarrow> kernel_workload \<Rightarrow> int option \<Rightarrow> kernel_scheduler \<Rightarrow> kernel_scheduler" where
  "waited p w env s =
     (if kw_state w = SCHEDULE_COMPLETE \<or> kw_state w = SCHEDULE_ERROR then s
      else case env of None \<Rightarrow> s | Some r \<Rightarrow> s\<lparr>ks_heap := (ks_heap s)(p \<mapsto> kernel_workload_signal r w)\<rparr>)"

text \<open>The result is \<open>None\<close> while the call sleeps, otherwise the code, the arguments, the file's list and the scheduler.\<close>

definition mvgal_ioctl_submit_workload ::
    "(nat \<Rightarrow> kernel_workload \<Rightarrow> int) \<Rightarrow> submit_env \<Rightarrow> mvgal_submit_workload_args \<Rightarrow> kernel_scheduler \<Rightarrow>
       (int \<times> mvgal_submit_workload_args \<times> nat list option \<times> kernel_scheduler) option" where
  "mvgal_ioctl_submit_workload submit_cs env args s =
     (if 16 * 1024 * 1024 < sw_command_buffer_size args then Some (- EINVAL, args, se_file env, s)
      else if 2 < sw_workload_type args then Some (- EINVAL, args, se_file env, s)
      else case kernel_workload_alloc (se_alloc env) s of
        (None, s1) \<Rightarrow> Some (- ENOMEM, args, se_file env, s1)
      | (Some p, s1) \<Rightarrow>
          (if \<not> (se_copy_ok env 0 \<and> se_copy_ok env 1 \<and> se_copy_ok env 2 \<and> se_copy_ok env 3)
           then Some (- EFAULT, args, se_file env, kernel_workload_free (Some p) s1)
           else
             let w = ioctl_fill args (the (ks_heap s1 p))
             in case mvgal_find_available_gpu (kw_gpu_mask w) (ks_gpus s1) of
                  None \<Rightarrow> Some (- ENODEV, args, se_file env, kernel_workload_free (Some p) s1)
                | Some g \<Rightarrow>
                    (let w1 = w\<lparr>kw_assigned_gpu := Some g\<rparr>;
                         ops = kg_submit_cs (ks_gpus s1 ! g);
                         ret = (if ops then submit_cs g w1 else 0);
                         w2 = (if ops then w1 else w1\<lparr>kw_state := SCHEDULE_COMPLETE\<rparr>)
                     in if ret < 0 then Some (ret, args, se_file env, kernel_workload_free (Some p) s1)
                        else
                          let args1 = args\<lparr>sw_workload_id := kw_id w2\<rparr>;
                              s2 = s1\<lparr>ks_heap := (ks_heap s1)(p \<mapsto> w2)\<rparr>;
                              file = map_option (\<lambda>ws. ws @ [p]) (se_file env)
                          in if sw_flags args AND 1 \<noteq> 0 then
                               map_option (\<lambda>r. (0, args1\<lparr>sw_result := r\<rparr>, file, waited p w2 (se_completion env) s2))
                                 (kernel_workload_wait (Some w2) (sw_timeout_ms args) (map_option (\<lambda>r. kernel_workload_signal r w2) (se_completion env)))
                             else Some (0, args1, file, s2))))"

section \<open>The dispatcher returns if every workload has a GPU\<close>

definition servable :: "kernel_scheduler \<Rightarrow> nat \<Rightarrow> bool" where
  "servable s a \<longleftrightarrow> (\<exists>w. ks_heap s a = Some w \<and> mvgal_find_available_gpu (kw_gpu_mask w) (ks_gpus s) \<noteq> None)"

text \<open>A workload that was served on the GPU its mask selects, with the outcome of the vendor.\<close>

definition was_served :: "kernel_scheduler \<Rightarrow> nat \<Rightarrow> bool" where
  "was_served s a \<longleftrightarrow> (\<exists>w. ks_heap s a = Some w \<and> kw_signaled w \<and> kw_completions w \<noteq> 0
     \<and> kw_state w = (if kw_result w = 0 then SCHEDULE_COMPLETE else SCHEDULE_ERROR)
     \<and> kw_assigned_gpu w = mvgal_find_available_gpu (kw_gpu_mask w) (ks_gpus s) \<and> kw_assigned_gpu w \<noteq> None)"

text \<open>What serving keeps: the GPUs, the masks, and who was served.\<close>

definition keeps :: "kernel_scheduler \<Rightarrow> kernel_scheduler \<Rightarrow> bool" where
  "keeps s t \<longleftrightarrow> ks_gpus t = ks_gpus s
     \<and> (\<forall>a. map_option kw_gpu_mask (ks_heap t a) = map_option kw_gpu_mask (ks_heap s a))
     \<and> (\<forall>a. was_served s a \<longrightarrow> was_served t a)"

lemma keeps_refl: "keeps s s"
  by (simp add: keeps_def)

lemma keeps_trans: "keeps s t \<Longrightarrow> keeps t u \<Longrightarrow> keeps s u"
  by (simp add: keeps_def)

lemma keeps_servable: "keeps s t \<Longrightarrow> servable t a = servable s a"
proof -
  assume k: "keeps s t"
  then have "map_option kw_gpu_mask (ks_heap t a) = map_option kw_gpu_mask (ks_heap s a)" "ks_gpus t = ks_gpus s"
    by (simp_all add: keeps_def)
  then show ?thesis by (cases "ks_heap t a"; cases "ks_heap s a") (simp_all add: servable_def)
qed

lemma dispatch_workload_effect:
  assumes "ks_heap s a = Some w" and "mvgal_find_available_gpu (kw_gpu_mask w) (ks_gpus s) = Some g"
  shows "was_served (dispatch_workload sub a g w s) a" "keeps s (dispatch_workload sub a g w s)"
    "ks_served (dispatch_workload sub a g w s) = ks_served s @ [a]" "ks_queues (dispatch_workload sub a g w s) = ks_queues s"
    "ks_locked (dispatch_workload sub a g w s) = ks_locked s"
  using assms by (auto simp: dispatch_workload_def kernel_workload_signal_def Let_def was_served_def keeps_def)

lemma was_served_frame [simp]:
  "was_served (s\<lparr>ks_locked := l\<rparr>) a = was_served s a" "was_served (s\<lparr>ks_queues := q\<rparr>) a = was_served s a" "was_served (k_lock s) a = was_served s a"
  by (simp_all add: was_served_def k_lock_def)

lemma keeps_frame [simp]:
  "keeps s (t\<lparr>ks_locked := l\<rparr>) = keeps s t" "keeps s (t\<lparr>ks_queues := q\<rparr>) = keeps s t" "keeps s (k_lock t) = keeps s t"
  "keeps (s\<lparr>ks_locked := l\<rparr>) t = keeps s t" "keeps (s\<lparr>ks_queues := q\<rparr>) t = keeps s t" "keeps (k_lock s) t = keeps s t"
  by (simp_all add: keeps_def k_lock_def)

lemma dispatch_queue_serves:
  assumes "ks_locked s" and "ks_queues s ! i = as" and "i < length (ks_queues s)" and "\<forall>a \<in> set as. servable s a"
    and "length as < fuel"
  shows "\<exists>t. dispatch_queue sub fuel i s = Inr t \<and> ks_queues t = (ks_queues s)[i := []] \<and> \<not> ks_locked t
    \<and> ks_served t = ks_served s @ as \<and> keeps s t \<and> (\<forall>a \<in> set as. was_served t a)"
  using assms
proof (induction as arbitrary: s fuel)
  case Nil
  then obtain n where "fuel = Suc n" by (cases fuel) auto
  moreover have "(ks_queues s)[i := []] = ks_queues s" using Nil by (metis list_update_id)
  ultimately show ?case using Nil by (simp add: k_unlock_def keeps_refl)
next
  case (Cons a as)
  obtain n where n: "fuel = Suc n" "length as < n" using Cons.prems(5) by (cases fuel) auto
  let ?s1 = "s\<lparr>ks_queues := (ks_queues s)[i := as], ks_locked := False\<rparr>"
  obtain w g where w: "ks_heap ?s1 a = Some w" and g: "mvgal_find_available_gpu (kw_gpu_mask w) (ks_gpus ?s1) = Some g"
    using Cons.prems(4) by (auto simp: servable_def)
  let ?s2 = "k_lock (dispatch_workload sub a g w ?s1)"
  note eff = dispatch_workload_effect [OF w g, of sub]
  have k: "keeps s ?s2" using eff(2) by simp
  have "dispatch_queue sub fuel i s = dispatch_queue sub n i ?s2"
    using Cons.prems w g n(1) by (simp add: k_unlock_def)
  moreover have "\<exists>t. dispatch_queue sub n i ?s2 = Inr t \<and> ks_queues t = (ks_queues ?s2)[i := []] \<and> \<not> ks_locked t
    \<and> ks_served t = ks_served ?s2 @ as \<and> keeps ?s2 t \<and> (\<forall>b \<in> set as. was_served t b)"
    by (rule Cons.IH) (use Cons.prems n(2) k keeps_servable [OF k] eff in \<open>auto simp: k_lock_def\<close>)
  ultimately obtain t where t: "dispatch_queue sub fuel i s = Inr t" "ks_queues t = (ks_queues ?s2)[i := []]" "\<not> ks_locked t"
    "ks_served t = ks_served ?s2 @ as" "keeps ?s2 t" "\<forall>b \<in> set as. was_served t b" by auto
  have "was_served ?s2 a" using eff(1) by simp
  then have "was_served t a" using t(5) unfolding keeps_def by blast
  moreover have "ks_queues t = (ks_queues s)[i := []]" "ks_served t = ks_served s @ a # as"
    using t(2,4) eff by (simp_all add: k_lock_def)
  ultimately show ?case using t keeps_trans [OF k t(5)] by auto
qed

lemma dispatch_queues_serve:
  assumes "distinct is" and "\<forall>i \<in> set is. i < length (ks_queues s) \<and> length (ks_queues s ! i) < fuel"
    and "\<forall>i \<in> set is. \<forall>a \<in> set (ks_queues s ! i). servable s a" and "\<not> ks_locked s"
  shows "\<exists>t. dispatch_queues sub fuel is s = Inr t \<and> ks_served t = ks_served s @ concat (map ((!) (ks_queues s)) is)
    \<and> length (ks_queues t) = length (ks_queues s) \<and> (\<forall>i \<in> set is. ks_queues t ! i = [])
    \<and> \<not> ks_locked t \<and> keeps s t \<and> (\<forall>i \<in> set is. \<forall>a \<in> set (ks_queues s ! i). was_served t a)
    \<and> (\<forall>i. i \<notin> set is \<longrightarrow> ks_queues t ! i = ks_queues s ! i)"
  using assms
proof (induction "is" arbitrary: s)
  case Nil
  then show ?case by (simp add: keeps_refl)
next
  case (Cons i "is")
  let ?q = "ks_queues s ! i"
  obtain u where u: "dispatch_queue sub fuel i (k_lock s) = Inr u" "ks_queues u = (ks_queues s)[i := []]" "\<not> ks_locked u"
      "ks_served u = ks_served s @ ?q" "keeps s u" "\<forall>a \<in> set ?q. was_served u a"
    using dispatch_queue_serves [of "k_lock s" i ?q fuel sub] Cons.prems by (auto simp: k_lock_def servable_def)
  have other: "ks_queues u ! j = ks_queues s ! j" if "j \<in> set is" for j
    using that Cons.prems(1) u(2) by (metis distinct.simps(2) nth_list_update_neq)
  have pre: "\<forall>j \<in> set is. j < length (ks_queues u) \<and> length (ks_queues u ! j) < fuel"
      "\<forall>j \<in> set is. \<forall>a \<in> set (ks_queues u ! j). servable u a"
    using Cons.prems(2,3) other u(2) keeps_servable [OF u(5)] by simp_all
  obtain t where t: "dispatch_queues sub fuel is u = Inr t" "ks_served t = ks_served u @ concat (map ((!) (ks_queues u)) is)"
      "length (ks_queues t) = length (ks_queues u)" "\<forall>j \<in> set is. ks_queues t ! j = []" "\<not> ks_locked t" "keeps u t"
      "\<forall>j \<in> set is. \<forall>a \<in> set (ks_queues u ! j). was_served t a" "\<forall>j. j \<notin> set is \<longrightarrow> ks_queues t ! j = ks_queues u ! j"
    using Cons.IH [OF _ pre u(3)] Cons.prems(1) by auto
  have "map ((!) (ks_queues u)) is = map ((!) (ks_queues s)) is" by (rule map_cong) (simp_all add: other)
  then have "ks_served t = ks_served s @ concat (map ((!) (ks_queues s)) (i # is))" using t(2) u(4) by (metis append.assoc concat.simps(2) list.simps(9))
  moreover have "\<forall>a \<in> set ?q. was_served t a" using u(6) t(6) by (simp add: keeps_def)
  moreover have "ks_queues t ! i = []" using t(8) u(2) Cons.prems(1,2) by simp
  moreover have "\<forall>j. j \<notin> set (i # is) \<longrightarrow> ks_queues t ! j = ks_queues s ! j" using t(8) u(2) by simp
  ultimately show ?case
    using u(1,2) t(1,3-5,7) other keeps_trans [OF u(5) t(6)] by simp
qed

text \<open>A thread that comes back to the loop without the lock releases it once more.\<close>

lemma dispatch_queue_unlocked:
  assumes "\<not> ks_locked s"
  shows "dispatch_queue sub fuel i s = Inl Unlock_Not_Held \<or> dispatch_queue sub fuel i s = Inl Out_Of_Fuel"
  using assms by (cases fuel) (auto simp: k_unlock_def split: list.split)

lemma dispatch_queue_requeue:
  assumes "ks_queues s ! i = a # as" and "\<not> servable s a"
  shows "\<exists>e. dispatch_queue sub fuel i s = Inl e"
proof (cases fuel)
  case (Suc n)
  let ?s1 = "s\<lparr>ks_queues := (ks_queues s)[i := as], ks_locked := False\<rparr>"
  let ?s4 = "s\<lparr>ks_queues := (ks_queues ?s1)[i := ks_queues ?s1 ! i @ [a]], ks_locked := False\<rparr>"
  have un: "\<exists>e. dispatch_queue sub n i ?s4 = Inl e" using dispatch_queue_unlocked [of ?s4 sub n i] by auto
  show ?thesis
  proof (cases "ks_locked s")
    case True
    show ?thesis
    proof (cases "ks_heap s a")
      case (Some w)
      then have "mvgal_find_available_gpu (kw_gpu_mask w) (ks_gpus s) = None" using assms(2) by (simp add: servable_def)
      then show ?thesis using un Suc assms(1) Some True by (simp add: k_unlock_def k_lock_def)
    qed (use Suc assms(1) True in \<open>simp add: k_unlock_def\<close>)
  qed (use Suc assms(1) in \<open>simp add: k_unlock_def\<close>)
qed simp

lemma dispatch_queue_stuck:
  assumes "a \<in> set (ks_queues s ! i)" and "\<not> servable s a" and "i < length (ks_queues s)"
  shows "\<exists>e. dispatch_queue sub fuel i s = Inl e"
  using assms
proof (induction fuel arbitrary: s)
  case 0
  then show ?case by simp
next
  case (Suc n)
  obtain b bs where q: "ks_queues s ! i = b # bs" using Suc.prems(1) by (cases "ks_queues s ! i") auto
  let ?s1 = "s\<lparr>ks_queues := (ks_queues s)[i := bs], ks_locked := False\<rparr>"
  show ?case
  proof (cases "ks_locked s \<and> servable s b")
    case True
    then obtain w g where w: "ks_heap ?s1 b = Some w" "mvgal_find_available_gpu (kw_gpu_mask w) (ks_gpus ?s1) = Some g"
      by (auto simp: servable_def)
    let ?s2 = "k_lock (dispatch_workload sub b g w ?s1)"
    have k: "keeps s ?s2" using dispatch_workload_effect(2) [OF w] by simp
    have "a \<in> set bs" using Suc.prems(1,2) True q by auto
    then have "\<exists>e. dispatch_queue sub n i ?s2 = Inl e"
      using Suc.IH [of ?s2] Suc.prems keeps_servable [OF k] dispatch_workload_effect(4) [OF w, of sub] by (simp add: k_lock_def)
    then show ?thesis using True q w by (simp add: k_unlock_def)
  next
    case False
    then consider "\<not> ks_locked s" | "\<not> servable s b" by blast
    then show ?thesis
      using dispatch_queue_requeue [OF q] dispatch_queue_unlocked [of s sub "Suc n" i] by cases blast+
  qed
qed

lemma dispatch_queue_frame:
  assumes "dispatch_queue sub fuel i s = Inr t"
  shows "keeps s t \<and> length (ks_queues t) = length (ks_queues s) \<and> (\<forall>j. j \<noteq> i \<longrightarrow> ks_queues t ! j = ks_queues s ! j)"
  using assms
proof (induction fuel arbitrary: s)
  case 0
  then show ?case by simp
next
  case (Suc n)
  show ?case
  proof (cases "ks_queues s ! i")
    case Nil
    then show ?thesis using Suc.prems by (auto simp: k_unlock_def keeps_refl split: if_splits)
  next
    case (Cons a as)
    let ?s1 = "s\<lparr>ks_queues := (ks_queues s)[i := as], ks_locked := False\<rparr>"
    have l: "ks_locked s" using Suc.prems dispatch_queue_unlocked [of s sub "Suc n" i] by auto
    have "servable s a" using Suc.prems dispatch_queue_requeue [OF Cons, of sub "Suc n"] by auto
    then obtain w g where w: "ks_heap ?s1 a = Some w" and g: "mvgal_find_available_gpu (kw_gpu_mask w) (ks_gpus ?s1) = Some g"
      by (auto simp: servable_def)
    let ?s2 = "k_lock (dispatch_workload sub a g w ?s1)"
    have k: "keeps s ?s2" using dispatch_workload_effect(2) [OF w g] by simp
    have "dispatch_queue sub n i ?s2 = Inr t" using Suc.prems Cons l w g by (simp add: k_unlock_def)
    then have "keeps ?s2 t \<and> length (ks_queues t) = length (ks_queues ?s2) \<and> (\<forall>j. j \<noteq> i \<longrightarrow> ks_queues t ! j = ks_queues ?s2 ! j)"
      by (rule Suc.IH)
    then show ?thesis using keeps_trans [OF k] dispatch_workload_effect(4) [OF w g, of sub] by (simp add: k_lock_def)
  qed
qed

lemma dispatch_queues_stuck:
  assumes "a \<in> set (ks_queues s ! i)" and "\<not> servable s a" and "i \<in> set is" and "\<forall>j \<in> set is. j < length (ks_queues s)"
  shows "\<exists>e. dispatch_queues sub fuel is s = Inl e"
  using assms
proof (induction "is" arbitrary: s)
  case Nil
  then show ?case by simp
next
  case (Cons j "is")
  show ?case
  proof (cases "dispatch_queue sub fuel j (k_lock s)")
    case (Inr u)
    have fr: "keeps s u" "length (ks_queues u) = length (ks_queues s)" "\<forall>k. k \<noteq> j \<longrightarrow> ks_queues u ! k = ks_queues s ! k"
      using dispatch_queue_frame [OF Inr] by (simp_all add: k_lock_def)
    have "i \<noteq> j"
      using dispatch_queue_stuck [of a "k_lock s" j sub fuel] Inr Cons.prems by (auto simp: k_lock_def servable_def)
    then have "\<exists>e. dispatch_queues sub fuel is u = Inl e"
      using Cons.IH [of u] Cons.prems fr keeps_servable [OF fr(1)] by auto
    then show ?thesis using Inr by simp
  qed simp
qed

text \<open>
  C26. The kernel's dispatcher returns if and only if every queued workload has a GPU. If each has one, a
  number of passes above the lengths of the queues is enough: the queues are then empty, the workloads
  were served from the highest queue to the lowest and in the order of arrival in each, each is signalled
  with the result of the vendor's driver, on the GPU its mask selects, and the lock is free. If one
  workload has no GPU the dispatcher never returns, however long it runs: it puts the workload back and
  goes on without the lock, which it then releases a second time.
\<close>
theorem kernel_dispatch_returns_iff:
  assumes "length (ks_queues s) = 4" and "\<not> ks_locked s"
  shows "((\<exists>fuel t. mvgal_scheduler_dispatch sub fuel s = Inr t) \<longleftrightarrow> (\<forall>q \<in> set (ks_queues s). \<forall>a \<in> set q. servable s a))
    \<and> ((\<forall>q \<in> set (ks_queues s). \<forall>a \<in> set q. servable s a) \<and> (\<forall>q \<in> set (ks_queues s). length q < fuel) \<longrightarrow>
        (\<exists>t. mvgal_scheduler_dispatch sub fuel s = Inr t \<and> ks_queues t = [[], [], [], []] \<and> \<not> ks_locked t
          \<and> ks_served t = ks_served s @ concat (rev (ks_queues s)) \<and> (\<forall>q \<in> set (ks_queues s). \<forall>a \<in> set q. was_served t a)))"
proof -
  obtain q0 q1 q2 q3 where q: "ks_queues s = [q0, q1, q2, q3]" using assms(1) by (auto simp: eval_nat_numeral length_Suc_conv)
  have i: "rev [0..<4] = [3, 2, 1, 0 :: nat]" by (simp add: upt_rec)
  have good: "\<exists>t. mvgal_scheduler_dispatch sub f s = Inr t \<and> ks_queues t = [[], [], [], []] \<and> \<not> ks_locked t
      \<and> ks_served t = ks_served s @ concat (rev (ks_queues s)) \<and> (\<forall>q \<in> set (ks_queues s). \<forall>a \<in> set q. was_served t a)"
    if all: "\<forall>q \<in> set (ks_queues s). \<forall>a \<in> set q. servable s a" and f: "\<forall>q \<in> set (ks_queues s). length q < f" for f
  proof -
    have "\<exists>t. dispatch_queues sub f [3, 2, 1, 0] s = Inr t \<and> ks_served t = ks_served s @ concat (map ((!) (ks_queues s)) [3, 2, 1, 0])
      \<and> length (ks_queues t) = length (ks_queues s) \<and> (\<forall>i \<in> set [3, 2, 1, 0]. ks_queues t ! i = [])
      \<and> \<not> ks_locked t \<and> keeps s t \<and> (\<forall>i \<in> set [3, 2, 1, 0]. \<forall>a \<in> set (ks_queues s ! i). was_served t a)
      \<and> (\<forall>i. i \<notin> set [3, 2, 1, 0] \<longrightarrow> ks_queues t ! i = ks_queues s ! i)"
      by (rule dispatch_queues_serve) (use all f q assms in auto)
    then obtain t where t: "dispatch_queues sub f [3, 2, 1, 0] s = Inr t" "ks_served t = ks_served s @ concat (rev (ks_queues s))"
        "length (ks_queues t) = 4" "\<forall>i \<in> {3, 2, 1, 0}. ks_queues t ! i = []" "\<not> ks_locked t"
        "\<forall>q \<in> set (ks_queues s). \<forall>a \<in> set q. was_served t a" by (auto simp: q)
    obtain p0 p1 p2 p3 where "ks_queues t = [p0, p1, p2, p3]" using t(3) by (auto simp: eval_nat_numeral length_Suc_conv)
    then have "ks_queues t = [[], [], [], []]" using t(4) by simp
    then show ?thesis using t by (auto simp: mvgal_scheduler_dispatch_def i)
  qed
  have "\<forall>q \<in> set (ks_queues s). \<forall>a \<in> set q. servable s a" if "mvgal_scheduler_dispatch sub f s = Inr t" for f t
  proof (rule ccontr)
    assume "\<not> (\<forall>q \<in> set (ks_queues s). \<forall>a \<in> set q. servable s a)"
    then obtain k a where "k < 4" "a \<in> set (ks_queues s ! k)" "\<not> servable s a"
      using assms(1) by (metis in_set_conv_nth)
    moreover have "k \<in> set [3, 2, 1, 0]" using \<open>k < 4\<close> by auto
    ultimately have "\<exists>e. dispatch_queues sub f [3, 2, 1, 0] s = Inl e" using assms(1) by (intro dispatch_queues_stuck) auto
    then show False using that by (simp add: mvgal_scheduler_dispatch_def i)
  qed
  moreover have "\<exists>f t. mvgal_scheduler_dispatch sub f s = Inr t" if "\<forall>q \<in> set (ks_queues s). \<forall>a \<in> set q. servable s a"
    using good [OF that, of "Suc (length q0 + length q1 + length q2 + length q3)"] by (auto simp: q)
  ultimately show ?thesis using good by blast
qed

text \<open>Two queued workloads and one GPU: a witness for C1.\<close>

definition blank_workload :: kernel_workload where
  "blank_workload = \<lparr>kw_id = 1, kw_priority = 8, kw_gpu_mask = - 1, kw_type = 0, kw_command_buffer_addr = 0,
     kw_command_buffer_size = 0, kw_completions = 0, kw_signaled = False, kw_state = SCHEDULE_PENDING,
     kw_result = 0, kw_assigned_gpu = None, kw_start_time = 0, kw_end_time = 0\<rparr>"

definition queued_pair :: kernel_scheduler where
  "queued_pair = \<lparr>ks_queues = [[], [7], [9], []], ks_locked = False, ks_next_workload_id = 3,
     ks_heap = [7 \<mapsto> blank_workload, 9 \<mapsto> blank_workload\<lparr>kw_gpu_mask := 2\<rparr>],
     ks_gpus = [\<lparr>kg_devfn = 1, kg_enabled = True, kg_available = True, kg_utilization = 40, kg_submit_cs = True\<rparr>],
     ks_clock = (\<lambda>n. of_nat n), ks_ticks = 0, ks_served = []\<rparr>"

theorem kernel_dispatch_returns_iff_witness:
  "\<exists>t. mvgal_scheduler_dispatch (\<lambda>g w. if kw_gpu_mask w = 2 then - 5 else 0) 2 queued_pair = Inr t
     \<and> ks_served t = [9, 7] \<and> was_served t 9"
proof -
  have f: "mvgal_find_available_gpu (- 1) (ks_gpus queued_pair) = Some 0" "mvgal_find_available_gpu 2 (ks_gpus queued_pair) = Some 0"
    by code_simp+
  have "servable queued_pair 7"
    unfolding servable_def by (rule exI [of _ blank_workload]) (use f(1) in \<open>simp add: queued_pair_def blank_workload_def\<close>)
  moreover have "servable queued_pair 9"
    unfolding servable_def
    by (rule exI [of _ "blank_workload\<lparr>kw_gpu_mask := 2\<rparr>"]) (use f(2) in \<open>simp add: queued_pair_def blank_workload_def\<close>)
  moreover have q: "ks_queues queued_pair = [[], [7], [9], []]" "\<not> ks_locked queued_pair" "ks_served queued_pair = []"
    by (simp_all add: queued_pair_def)
  ultimately show ?thesis
    using kernel_dispatch_returns_iff [of queued_pair "\<lambda>g w. if kw_gpu_mask w = 2 then - 5 else 0" 2] by (auto simp: q)
qed

text \<open>The choice of a GPU takes the first of those with the least utilization that the mask allows.\<close>

definition gpu_fits :: "u32 \<Rightarrow> mvgal_gpu_device \<Rightarrow> bool" where
  "gpu_fits gpu_mask g \<longleftrightarrow> gpu_mask AND push_bit (unat (kg_devfn g AND 0x1F)) 1 \<noteq> 0 \<and> kg_enabled g \<and> kg_available g
     \<and> kg_utilization g < 0x7FFFFFFF"

lemma find_gpu_fold:
  assumes "fold (gpu_step m) (enumerate 0 gs) (0x7FFFFFFF, None) = (u, b)"
  shows "case b of
      None \<Rightarrow> u = 0x7FFFFFFF \<and> (\<forall>g \<in> set gs. \<not> gpu_fits m g)
    | Some i \<Rightarrow> i < length gs \<and> gpu_fits m (gs ! i) \<and> u = kg_utilization (gs ! i)
        \<and> (\<forall>g \<in> set gs. gpu_fits m g \<longrightarrow> u \<le> kg_utilization g)"
  using assms
proof (induction gs arbitrary: u b rule: rev_induct)
  case Nil
  then show ?case by simp
next
  case (snoc g gs)
  obtain v c where v: "fold (gpu_step m) (enumerate 0 gs) (0x7FFFFFFF, None) = (v, c)" by force
  have step: "(u, b) = gpu_step m (length gs, g) (v, c)" using snoc.prems v by (simp add: enumerate_append_eq)
  note ih = snoc.IH [OF v]
  show ?case
    using step ih by (cases c) (auto simp: gpu_step_def Let_def gpu_fits_def nth_append not_less split: if_splits)
qed

lemma find_gpu_best:
  assumes "mvgal_find_available_gpu m gs = Some i"
  shows "i < length gs \<and> gpu_fits m (gs ! i) \<and> (\<forall>g \<in> set gs. gpu_fits m g \<longrightarrow> kg_utilization (gs ! i) \<le> kg_utilization g)"
  using assms find_gpu_fold [of m gs] unfolding mvgal_find_available_gpu_def
  by (cases "fold (gpu_step m) (enumerate 0 gs) (0x7FFFFFFF, None)") fastforce

text \<open>
  What the ioctl has to leave behind on success: the workload of the arguments on the GPU \<open>i\<close>, with its state and
  result. A GPU without a submit operation completes it at once; otherwise it is pending unless it was signaled
  while the call waited. The result passed back is that of the wait.
\<close>

definition submitted :: "submit_env \<Rightarrow> mvgal_submit_workload_args \<Rightarrow> kernel_scheduler \<Rightarrow> nat \<Rightarrow> kernel_workload \<Rightarrow> bool" where
  "submitted env args s i w \<longleftrightarrow>
     kw_assigned_gpu w = Some i \<and> kw_id w = ks_next_workload_id s
   \<and> kw_priority w = sw_priority args \<and> kw_gpu_mask w = sw_gpu_mask args \<and> kw_type w = sw_workload_type args
   \<and> kw_command_buffer_addr w = sw_command_buffer_addr args \<and> kw_command_buffer_size w = sw_command_buffer_size args
   \<and> (kw_state w, kw_result w) =
       (if \<not> kg_submit_cs (ks_gpus s ! i) then (SCHEDULE_COMPLETE, 0)
        else case se_completion env of
          Some r \<Rightarrow> if sw_flags args AND 1 = 0 then (SCHEDULE_PENDING, 0) else (if r = 0 then SCHEDULE_COMPLETE else SCHEDULE_ERROR, r)
        | None \<Rightarrow> (SCHEDULE_PENDING, 0))"

definition passed_back :: "submit_env \<Rightarrow> mvgal_submit_workload_args \<Rightarrow> kernel_scheduler \<Rightarrow> nat \<Rightarrow> mvgal_submit_workload_args" where
  "passed_back env args s i = args\<lparr>sw_workload_id := ks_next_workload_id s, sw_result :=
     (if sw_flags args AND 1 = 0 then sw_result args
      else if \<not> kg_submit_cs (ks_gpus s ! i) then 0
      else case se_completion env of Some r \<Rightarrow> r | None \<Rightarrow> - ETIMEDOUT_KERNEL)\<rparr>"

lemma ioctl_success:
  assumes "mvgal_ioctl_submit_workload sub env args s = Some (0, args', file, t)" and "se_alloc env = Some p"
  shows "\<exists>i w. mvgal_find_available_gpu (sw_gpu_mask args) (ks_gpus s) = Some i \<and> ks_heap t p = Some w \<and> submitted env args s i w
    \<and> (\<forall>q. q \<noteq> p \<longrightarrow> ks_heap t q = ks_heap s q) \<and> args' = passed_back env args s i
    \<and> file = map_option (\<lambda>ws. ws @ [p]) (se_file env)"
  using assms
  by (auto simp: mvgal_ioctl_submit_workload_def kernel_workload_alloc_def kernel_workload_free_def ioctl_fill_def Let_def
      waited_def kernel_workload_wait_def kernel_workload_signal_def submitted_def passed_back_def split: if_splits option.splits)

text \<open>
  C28. The ioctl that submits a workload leaves nothing behind when it fails. Whatever the environment does,
  a call that returns a code other than 0 has changed neither the arguments nor the workloads of the file,
  and the heap is as it was. A call that returns 0 has allocated one workload with the command buffer, priority,
  mask and type of the arguments, assigned to a GPU that the mask allows with the least utilization, and left
  every other one alone. It passes back the number and, if asked to wait, the result, and keeps the
  workload in the list of the file if there is one.
\<close>
theorem ioctl_submit_cleans_up:
  assumes ret: "mvgal_ioctl_submit_workload sub env args s = Some (r, args', file, t)"
    and fresh: "\<forall>p. se_alloc env = Some p \<longrightarrow> ks_heap s p = None"
  shows "r \<le> 0 \<and> (r \<noteq> 0 \<longrightarrow> args' = args \<and> file = se_file env \<and> ks_heap t = ks_heap s)
    \<and> (r = 0 \<longrightarrow> (\<exists>p i w. se_alloc env = Some p \<and> ks_heap t p = Some w \<and> submitted env args s i w
          \<and> (\<forall>q. q \<noteq> p \<longrightarrow> ks_heap t q = ks_heap s q)
          \<and> args' = passed_back env args s i \<and> file = map_option (\<lambda>ws. ws @ [p]) (se_file env)
          \<and> mvgal_find_available_gpu (sw_gpu_mask args) (ks_gpus s) = Some i \<and> gpu_fits (sw_gpu_mask args) (ks_gpus s ! i)
          \<and> (\<forall>g \<in> set (ks_gpus s). gpu_fits (sw_gpu_mask args) g \<longrightarrow> kg_utilization (ks_gpus s ! i) \<le> kg_utilization g)))"
proof (cases "se_alloc env")
  case None
  then show ?thesis
    using ret by (auto simp: mvgal_ioctl_submit_workload_def kernel_workload_alloc_def split: if_splits)
next
  case (Some p)
  have gone: "(ks_heap s)(p := None) = ks_heap s" using fresh Some by auto
  have fail: "r \<le> 0 \<and> (r \<noteq> 0 \<longrightarrow> args' = args \<and> file = se_file env \<and> ks_heap t = ks_heap s)"
    using ret Some gone
    by (auto simp: mvgal_ioctl_submit_workload_def kernel_workload_alloc_def kernel_workload_free_def Let_def
        split: if_splits option.splits)
  show ?thesis
  proof (cases "r = 0")
    case True
    with ioctl_success [OF ret [unfolded True] Some] Some fail find_gpu_best [of "sw_gpu_mask args" "ks_gpus s"]
    show ?thesis by blast
  qed (use fail in simp)
qed

text \<open>A submission to the one GPU, and one whose mask fits none: a witness for C28.\<close>

definition plain_args :: mvgal_submit_workload_args where
  "plain_args = \<lparr>sw_workload_id = 0, sw_workload_type = 1, sw_priority = 3, sw_gpu_mask = 2, sw_flags = 0, sw_timeout_ms = 0,
     sw_result = 0, sw_command_buffer_addr = 4096, sw_command_buffer_size = 64\<rparr>"

definition plain_env :: submit_env where
  "plain_env = \<lparr>se_alloc = Some 11, se_copy_ok = (\<lambda>_. True), se_completion = None, se_file = Some []\<rparr>"

theorem ioctl_submit_cleans_up_witness:
  "(\<exists>args' file t. mvgal_ioctl_submit_workload (\<lambda>_ _. 0) plain_env plain_args queued_pair = Some (0, args', file, t)
      \<and> file = Some [11] \<and> sw_workload_id args' = 3)
   \<and> (\<exists>args' file t. mvgal_ioctl_submit_workload (\<lambda>_ _. 0) plain_env (plain_args\<lparr>sw_gpu_mask := 4\<rparr>) queued_pair = Some (- 19, args', file, t)
      \<and> ks_heap t = ks_heap queued_pair)"
proof -
  let ?io = "\<lambda>args. mvgal_ioctl_submit_workload (\<lambda>_ _. 0) plain_env args queued_pair"
  have "map_option fst (?io plain_args) = Some 0" by code_simp
  then obtain a f t where ok: "?io plain_args = Some (0, a, f, t)" by auto
  have "map_option fst (?io (plain_args\<lparr>sw_gpu_mask := 4\<rparr>)) = Some (- 19)" by code_simp
  then obtain a' f' t' where bad: "?io (plain_args\<lparr>sw_gpu_mask := 4\<rparr>) = Some (- 19, a', f', t')" by auto
  have fresh: "\<forall>p. se_alloc plain_env = Some p \<longrightarrow> ks_heap queued_pair p = None" and env: "se_alloc plain_env = Some 11"
    "se_file plain_env = Some []" "ks_next_workload_id queued_pair = 3"
    by (simp_all add: plain_env_def queued_pair_def)
  have "f = Some [11]" "sw_workload_id a = 3" using ioctl_submit_cleans_up [OF ok fresh] env by (auto simp: passed_back_def)
  moreover have "ks_heap t' = ks_heap queued_pair" using ioctl_submit_cleans_up [OF bad fresh] by simp
  ultimately show ?thesis using ok bad by blast
qed

end
