(* ===== verification/Kernel_Sync.thy ===== *)
theory Kernel_Sync
  imports Cond_Wait
begin

text \<open>
  The synchronisation of the kernel module, \<^verbatim>\<open>kernel/mvgal_sync.c\<close>: fences, timelines, the
  waits on both and the two ioctls that look a fence up by its number. Fences are objects of a heap; what
  a wait finds when it is woken is an argument.
\<close>

section \<open>State\<close>

record kernel_fence =
  fn_seq :: u32
  fn_flags :: u32
  fn_timeline_value :: u64
  fn_signaled :: bool
  fn_timeout_ns :: u64

record mvgal_timeline =
  ti_fences :: "nat list"
  ti_current_value :: u64
  ti_next_value :: u64
  ti_signaled_value :: u32

record sync_manager =
  sm_timelines :: "mvgal_timeline list"
  sm_fence_list :: "nat list"
  sm_heap :: "nat \<rightharpoonup> kernel_fence"

abbreviation (input) MVGAL_MAX_TIMELINES :: nat where "MVGAL_MAX_TIMELINES \<equiv> 64"
abbreviation (input) EINVAL :: int where "EINVAL \<equiv> 22"
abbreviation (input) ENOENT :: int where "ENOENT \<equiv> 2"
abbreviation (input) ETIME :: int where "ETIME \<equiv> 110"

definition mvgal_sync_init :: "(nat \<rightharpoonup> kernel_fence) \<Rightarrow> sync_manager" where
  "mvgal_sync_init heap =
     \<lparr>sm_timelines = replicate MVGAL_MAX_TIMELINES
        \<lparr>ti_fences = [], ti_current_value = 0, ti_next_value = 1, ti_signaled_value = 0\<rparr>,
      sm_fence_list = [], sm_heap = heap\<rparr>"

section \<open>Timelines and fences\<close>

fun first_free :: "nat \<Rightarrow> mvgal_timeline list \<Rightarrow> nat option" where
  "first_free i [] = None"
| "first_free i (t # ts) = (if ti_current_value t = 0 then Some i else first_free (Suc i) ts)"

definition mvgal_timeline_create :: "sync_manager \<Rightarrow> nat option" where
  "mvgal_timeline_create m = first_free 0 (sm_timelines m)"

text \<open>\<open>a\<close> is the address \<^verbatim>\<open>kzalloc\<close> returns, if any.\<close>

definition mvgal_fence_alloc :: "nat option \<Rightarrow> nat option \<Rightarrow> u32 \<Rightarrow> sync_manager \<Rightarrow> nat option \<times> sync_manager" where
  "mvgal_fence_alloc a timeline flags m =
     (case a of
        None \<Rightarrow> (None, m)
      | Some p \<Rightarrow>
          (let f = \<lparr>fn_seq = 0, fn_flags = flags, fn_timeline_value = 0, fn_signaled = False, fn_timeout_ns = 0\<rparr>
           in case timeline of
                None \<Rightarrow> (Some p, m\<lparr>sm_heap := (sm_heap m)(p \<mapsto> f)\<rparr>)
              | Some i \<Rightarrow>
                  (let t = sm_timelines m ! i;
                       t1 = t\<lparr>ti_next_value := ti_next_value t + 1\<rparr>;
                       f1 = f\<lparr>fn_seq := ucast (ti_next_value t), fn_timeline_value := ti_next_value t1\<rparr>
                   in (Some p, m\<lparr>sm_timelines := (sm_timelines m)[i := t1], sm_heap := (sm_heap m)(p \<mapsto> f1)\<rparr>))))"

definition mvgal_fence_free :: "nat option \<Rightarrow> sync_manager \<Rightarrow> sync_manager" where
  "mvgal_fence_free a m = (case a of None \<Rightarrow> m | Some p \<Rightarrow> m\<lparr>sm_heap := (sm_heap m)(p := None)\<rparr>)"

definition mvgal_fence_signal_kernel :: "nat option \<Rightarrow> sync_manager \<Rightarrow> int \<times> sync_manager" where
  "mvgal_fence_signal_kernel a m =
     (case a of
        None \<Rightarrow> (- EINVAL, m)
      | Some p \<Rightarrow> (0, m\<lparr>sm_heap := (sm_heap m)(p := map_option (\<lambda>f. f\<lparr>fn_signaled := True\<rparr>) (sm_heap m p))\<rparr>))"

text \<open>
  \<^verbatim>\<open>wait_event_timeout\<close>: the condition is tested after every wake-up and once more when the time is up.
  The result is \<open>None\<close> while the thread sleeps.
\<close>

fun wait_event_timeout :: "('s \<Rightarrow> bool) \<Rightarrow> 's \<Rightarrow> 's wake list \<Rightarrow> bool option" where
  "wait_event_timeout p s [] = (if p s then Some True else None)"
| "wait_event_timeout p s (w # ws) =
     (if p s then Some True
      else if wake_ret w = ETIMEDOUT then Some (p (wake_state w))
      else wait_event_timeout p (wake_state w) ws)"

definition wait_until :: "('s \<Rightarrow> bool) \<Rightarrow> u64 \<Rightarrow> 's \<Rightarrow> 's wake list \<Rightarrow> int option" where
  "wait_until p timeout_ns s wakes =
     (if p s then Some 0
      else if timeout_ns = 0 then map_option (\<lambda>_. 0) (cond_wait_loop p s wakes)
      else map_option (\<lambda>done. if done then 0 else - ETIME) (wait_event_timeout p s wakes))"

definition mvgal_fence_wait_kernel :: "kernel_fence option \<Rightarrow> u64 \<Rightarrow> kernel_fence wake list \<Rightarrow> int option" where
  "mvgal_fence_wait_kernel fence timeout_ns wakes =
     (case fence of None \<Rightarrow> Some (- EINVAL) | Some f \<Rightarrow> wait_until fn_signaled timeout_ns f wakes)"

definition mvgal_timeline_signal :: "nat option \<Rightarrow> u64 \<Rightarrow> sync_manager \<Rightarrow> int \<times> sync_manager" where
  "mvgal_timeline_signal timeline v m =
     (case timeline of
        None \<Rightarrow> (- EINVAL, m)
      | Some i \<Rightarrow>
          (let t = sm_timelines m ! i
           in if ti_current_value t < v
              then (0, m\<lparr>sm_timelines := (sm_timelines m)[i := t\<lparr>ti_current_value := v, ti_signaled_value := ucast v\<rparr>]\<rparr>)
              else (0, m)))"

definition mvgal_timeline_wait ::
    "mvgal_timeline option \<Rightarrow> u64 \<Rightarrow> u64 \<Rightarrow> mvgal_timeline wake list \<Rightarrow> int option" where
  "mvgal_timeline_wait timeline wait_value timeout_ns wakes =
     (case timeline of
        None \<Rightarrow> Some (- EINVAL)
      | Some t \<Rightarrow> wait_until (\<lambda>t. wait_value \<le> ti_current_value t) timeout_ns t wakes)"

section \<open>The ioctls\<close>

definition find_fence :: "u32 \<Rightarrow> sync_manager \<Rightarrow> nat option" where
  "find_fence fence_id m =
     List.find (\<lambda>p. case sm_heap m p of None \<Rightarrow> False | Some f \<Rightarrow> fn_seq f = fence_id) (sm_fence_list m)"

definition mvgal_ioctl_wait_fence ::
    "u32 \<Rightarrow> u64 \<Rightarrow> kernel_fence wake list \<Rightarrow> sync_manager \<Rightarrow> (int \<times> sync_manager) option" where
  "mvgal_ioctl_wait_fence fence_id timeout_ns wakes m =
     (case find_fence fence_id m of
        None \<Rightarrow> Some (- ENOENT, m)
      | Some p \<Rightarrow>
          map_option (\<lambda>r. (r, mvgal_fence_free (Some p) m)) (mvgal_fence_wait_kernel (sm_heap m p) timeout_ns wakes))"

definition mvgal_ioctl_signal_fence :: "u32 \<Rightarrow> sync_manager \<Rightarrow> int \<times> sync_manager" where
  "mvgal_ioctl_signal_fence fence_id m =
     (case find_fence fence_id m of
        None \<Rightarrow> (- ENOENT, m)
      | Some p \<Rightarrow> (let (r, m1) = mvgal_fence_signal_kernel (Some p) m in (r, mvgal_fence_free (Some p) m1)))"

section \<open>Runs\<close>

datatype sync_call = Fence_Alloc "nat option" "nat option" u32 | Fence_Free nat | Fence_Signal nat
  | Timeline_Signal nat u64 | Ioctl_Signal u32 | Ioctl_Wait u32 u64 "kernel_fence wake list"

fun sync_run :: "sync_call \<Rightarrow> sync_manager \<Rightarrow> sync_manager" where
  "sync_run (Fence_Alloc a t flags) m = snd (mvgal_fence_alloc a t flags m)"
| "sync_run (Fence_Free p) m = mvgal_fence_free (Some p) m"
| "sync_run (Fence_Signal p) m = snd (mvgal_fence_signal_kernel (Some p) m)"
| "sync_run (Timeline_Signal i v) m = snd (mvgal_timeline_signal (Some i) v m)"
| "sync_run (Ioctl_Signal i) m = snd (mvgal_ioctl_signal_fence i m)"
| "sync_run (Ioctl_Wait i timeout wakes) m =
     (case mvgal_ioctl_wait_fence i timeout wakes m of None \<Rightarrow> m | Some (_, m') \<Rightarrow> m')"

lemmas sync_op_defs = mvgal_fence_alloc_def mvgal_fence_free_def mvgal_fence_signal_kernel_def mvgal_timeline_signal_def
  mvgal_ioctl_signal_fence_def mvgal_ioctl_wait_fence_def Let_def

lemma sync_run_list: "sm_fence_list (sync_run c m) = sm_fence_list m"
  by (cases c) (auto simp: sync_op_defs split: option.splits prod.splits)

lemma sync_runs_list: "sm_fence_list (fold sync_run cs m) = sm_fence_list m"
  by (induction cs arbitrary: m) (simp_all add: sync_run_list)

lemma nth_update_any: "j < length xs \<Longrightarrow> xs[i := x] ! j = (if i = j then x else xs ! j)"
  by (cases "i = j") simp_all

lemma map_update_self: "(map f xs)[i := f (xs ! i)] = map f xs"
  by (metis list_update_id map_update)

lemma sync_run_timelines:
  "length (sm_timelines (sync_run c m)) = length (sm_timelines m)
   \<and> (\<forall>i < length (sm_timelines m). ti_current_value (sm_timelines m ! i) \<le> ti_current_value (sm_timelines (sync_run c m) ! i))"
  by (cases c) (auto simp: sync_op_defs nth_update_any split: option.splits prod.splits)

lemma sync_runs_timelines:
  "length (sm_timelines (fold sync_run cs m)) = length (sm_timelines m)
   \<and> (\<forall>i < length (sm_timelines m). ti_current_value (sm_timelines m ! i) \<le> ti_current_value (sm_timelines (fold sync_run cs m) ! i))"
proof (induction cs arbitrary: m)
  case (Cons c cs)
  then show ?case using sync_run_timelines [of c m] by (auto intro: order_trans)
qed simp

lemma no_signal_timelines:
  assumes "\<forall>c \<in> set cs. \<nexists>i v. c = Timeline_Signal i v"
  shows "map ti_current_value (sm_timelines (fold sync_run cs m)) = map ti_current_value (sm_timelines m)"
  using assms
proof (induction cs arbitrary: m)
  case (Cons c cs)
  have "map ti_current_value (sm_timelines (sync_run c m)) = map ti_current_value (sm_timelines m)"
    using Cons.prems by (cases c) (auto simp: sync_op_defs map_update map_update_self split: option.splits prod.splits)
  then show ?case using Cons by simp
qed simp

lemma first_free_values: "map ti_current_value ts = map ti_current_value us \<Longrightarrow> first_free i ts = first_free i us"
  by (induction ts us arbitrary: i rule: list_induct2') auto

text \<open>
  C34. Fences of the kernel module cannot be reached by their numbers, and timelines are not handed out one
  to each. After the initialisation and any calls, no fence is in the list that the ioctls search, so a wait and a
  signal by number both fail with \<^verbatim>\<open>ENOENT\<close>, for every number and every history; and two
  requests for a timeline with no signal between them get the same one. The values of the timelines never
  go down.
\<close>
theorem kernel_sync_unreachable:
  assumes "m = fold sync_run cs (mvgal_sync_init heap)" and "n = fold sync_run ds m"
  shows "mvgal_ioctl_wait_fence i timeout wakes m = Some (- 2, m) \<and> mvgal_ioctl_signal_fence i m = (- 2, m)
    \<and> ((\<forall>c \<in> set ds. \<nexists>j v. c = Timeline_Signal j v) \<longrightarrow> mvgal_timeline_create n = mvgal_timeline_create m)
    \<and> (\<forall>j < 64. ti_current_value (sm_timelines m ! j) \<le> ti_current_value (sm_timelines n ! j))"
proof -
  have "find_fence i m = None"
    unfolding assms(1) find_fence_def sync_runs_list by (simp add: mvgal_sync_init_def)
  moreover have "length (sm_timelines m) = 64"
    unfolding assms(1) using sync_runs_timelines [of cs "mvgal_sync_init heap"] by (simp add: mvgal_sync_init_def)
  moreover have "mvgal_timeline_create n = mvgal_timeline_create m" if "\<forall>c \<in> set ds. \<nexists>j v. c = Timeline_Signal j v"
    unfolding mvgal_timeline_create_def assms(2) by (rule first_free_values) (rule no_signal_timelines [OF that])
  ultimately show ?thesis
    using sync_runs_timelines [of ds m] assms(2) by (simp add: mvgal_ioctl_wait_fence_def mvgal_ioctl_signal_fence_def)
qed

text \<open>A fence is allocated on the timeline and its number is not found: a witness for C34.\<close>

theorem kernel_sync_unreachable_witness:
  "map_option fn_seq (sm_heap (fold sync_run [Fence_Alloc (Some 5) (Some 0) 0] (mvgal_sync_init Map.empty)) 5) = Some 1
   \<and> mvgal_ioctl_wait_fence 1 0 [] (fold sync_run [Fence_Alloc (Some 5) (Some 0) 0] (mvgal_sync_init Map.empty))
       = Some (- 2, fold sync_run [Fence_Alloc (Some 5) (Some 0) 0] (mvgal_sync_init Map.empty))
   \<and> mvgal_timeline_create (fold sync_run [Fence_Alloc (Some 5) (Some 0) 0] (mvgal_sync_init Map.empty))
       = mvgal_timeline_create (mvgal_sync_init Map.empty)"
proof -
  have "map_option fn_seq (sm_heap (fold sync_run [Fence_Alloc (Some 5) (Some 0) 0] (mvgal_sync_init Map.empty)) 5) = Some 1"
    by code_simp
  moreover have "mvgal_timeline_create (fold sync_run [Fence_Alloc (Some 5) (Some 0) 0] (mvgal_sync_init Map.empty))
       = mvgal_timeline_create (mvgal_sync_init Map.empty)"
    using kernel_sync_unreachable [of "mvgal_sync_init Map.empty" "[]" Map.empty _ "[Fence_Alloc (Some 5) (Some 0) 0]" 0 0 "[]"] by simp
  moreover have "mvgal_ioctl_wait_fence 1 0 [] (fold sync_run [Fence_Alloc (Some 5) (Some 0) 0] (mvgal_sync_init Map.empty))
       = Some (- 2, fold sync_run [Fence_Alloc (Some 5) (Some 0) 0] (mvgal_sync_init Map.empty))"
    using kernel_sync_unreachable [of _ "[Fence_Alloc (Some 5) (Some 0) 0]" Map.empty _ "[]" 1 0 "[]"] by simp
  ultimately show ?thesis by blast
qed

text \<open>A wait that returns 0 found its condition; one that gives up did not.\<close>

lemma wait_until_found:
  assumes "wait_until p timeout s wakes = Some 0"
  shows "p s \<or> (\<exists>w \<in> set wakes. p (wake_state w))"
proof -
  have "p t \<or> (\<exists>w \<in> set wakes. p (wake_state w))" if "cond_wait_loop p t wakes = Some u" for t u
    using that by (induction wakes arbitrary: t) (auto split: if_splits)
  moreover have "p t \<or> (\<exists>w \<in> set wakes. p (wake_state w))" if "wait_event_timeout p t wakes = Some True" for t
    using that by (induction wakes arbitrary: t) (auto split: if_splits)
  ultimately show ?thesis using assms by (auto simp: wait_until_def split: if_splits)
qed

end
