(* ===== verification/Frame_Pacer.thy ===== *)
theory Frame_Pacer
  imports Mvgal_Prelude
begin

text \<open>
  The frame pacer, \<^verbatim>\<open>steam/mvgal_frame_pacer.c\<close>: a ring of eight frames that a client fills and a thread
  empties, each frame with the time it is to be shown at. The thread takes a frame under the lock, sleeps, and
  counts the frame under the lock; the two critical sections are two operations. The readings of the clock
  are arguments.
\<close>

section \<open>State\<close>

abbreviation (input) MVGAL_FP_MAX_FRAMES :: nat where "MVGAL_FP_MAX_FRAMES \<equiv> 8"

record mvgal_frame_entry_t =
  fe_frame_id :: u64
  fe_ready_ns :: u64
  fe_target_present_ns :: u64
  fe_gpu_index :: u32
  fe_valid :: bool

record mvgal_frame_pacer_t =
  fp_ring :: "mvgal_frame_entry_t list"
  fp_head :: nat
  fp_tail :: nat
  fp_count :: nat
  fp_refresh_hz :: u32
  fp_frame_interval_ns :: u64
  fp_last_present_ns :: u64
  fp_running :: bool
  fp_enabled :: bool
  fp_frames_paced :: u64
  fp_frames_dropped :: u64
  fp_total_jitter_ns :: u64

definition frame_zero :: mvgal_frame_entry_t where
  "frame_zero = \<lparr>fe_frame_id = 0, fe_ready_ns = 0, fe_target_present_ns = 0, fe_gpu_index = 0, fe_valid = False\<rparr>"

section \<open>Operations\<close>

text \<open>\<open>alloc\<close> and \<open>thread\<close>: whether the allocation and the start of the thread succeed.\<close>

definition mvgal_fp_create :: "bool \<Rightarrow> bool \<Rightarrow> u32 \<Rightarrow> mvgal_frame_pacer_t option" where
  "mvgal_fp_create alloc thread refresh_hz =
     (if \<not> alloc \<or> \<not> thread then None
      else
        let hz = (if refresh_hz \<noteq> 0 then refresh_hz else 60)
        in Some \<lparr>fp_ring = replicate MVGAL_FP_MAX_FRAMES frame_zero, fp_head = 0, fp_tail = 0, fp_count = 0,
             fp_refresh_hz = hz, fp_frame_interval_ns = 1000000000 div ucast hz, fp_last_present_ns = 0,
             fp_running = True, fp_enabled = True, fp_frames_paced = 0, fp_frames_dropped = 0, fp_total_jitter_ns = 0\<rparr>)"

definition fp_target :: "u64 \<Rightarrow> mvgal_frame_pacer_t \<Rightarrow> u64" where
  "fp_target now fp =
     (let last_present = (if fp_last_present_ns fp \<noteq> 0 then fp_last_present_ns fp else now);
          next_vsync = last_present + fp_frame_interval_ns fp
      in if next_vsync < now then now + fp_frame_interval_ns fp else next_vsync)"

definition mvgal_fp_submit_frame :: "u64 \<Rightarrow> u64 \<Rightarrow> u32 \<Rightarrow> mvgal_frame_pacer_t \<Rightarrow> int \<times> mvgal_frame_pacer_t" where
  "mvgal_fp_submit_frame now frame_id gpu_index fp =
     (if \<not> fp_enabled fp then (0, fp)
      else if MVGAL_FP_MAX_FRAMES \<le> fp_count fp then (- 1, fp\<lparr>fp_frames_dropped := fp_frames_dropped fp + 1\<rparr>)
      else
        (0, fp\<lparr>fp_ring := (fp_ring fp)[fp_head fp :=
                 \<lparr>fe_frame_id = frame_id, fe_ready_ns = now, fe_target_present_ns = fp_target now fp,
                  fe_gpu_index = gpu_index, fe_valid = True\<rparr>],
              fp_head := (fp_head fp + 1) mod MVGAL_FP_MAX_FRAMES, fp_count := fp_count fp + 1\<rparr>))"

text \<open>The thread takes the oldest frame; it sleeps while there is none.\<close>

definition pacer_take :: "mvgal_frame_pacer_t \<Rightarrow> (mvgal_frame_entry_t \<times> mvgal_frame_pacer_t) option" where
  "pacer_take fp =
     (if fp_count fp = 0 \<or> \<not> fp_running fp then None
      else Some (fp_ring fp ! fp_tail fp,
             fp\<lparr>fp_tail := (fp_tail fp + 1) mod MVGAL_FP_MAX_FRAMES, fp_count := fp_count fp - 1\<rparr>))"

text \<open>After its sleep, at time \<open>actual\<close>, it counts the frame.\<close>

definition pacer_present :: "u64 \<Rightarrow> mvgal_frame_entry_t \<Rightarrow> mvgal_frame_pacer_t \<Rightarrow> mvgal_frame_pacer_t" where
  "pacer_present actual frame fp =
     (let jitter = actual - fe_target_present_ns frame;
          j = (if jitter <s 0 then - jitter else jitter)
      in fp\<lparr>fp_frames_paced := fp_frames_paced fp + 1, fp_total_jitter_ns := fp_total_jitter_ns fp + j,
            fp_last_present_ns := actual\<rparr>)"

definition mvgal_fp_set_refresh_hz :: "u32 \<Rightarrow> mvgal_frame_pacer_t \<Rightarrow> mvgal_frame_pacer_t" where
  "mvgal_fp_set_refresh_hz hz fp =
     (if hz = 0 then fp else fp\<lparr>fp_refresh_hz := hz, fp_frame_interval_ns := 1000000000 div ucast hz\<rparr>)"

text \<open>The two counters; the average of the jitter is their quotient.\<close>

definition mvgal_fp_get_stats :: "mvgal_frame_pacer_t \<Rightarrow> u64 \<times> u64 \<times> (u64 \<times> u64) option" where
  "mvgal_fp_get_stats fp =
     (fp_frames_paced fp, fp_frames_dropped fp,
      if 0 < fp_frames_paced fp then Some (fp_total_jitter_ns fp, fp_frames_paced fp) else None)"

section \<open>The ring is a bounded queue\<close>

text \<open>The frames in the ring, the oldest first.\<close>

definition fp_queue :: "mvgal_frame_pacer_t \<Rightarrow> mvgal_frame_entry_t list" where
  "fp_queue fp = map (\<lambda>i. fp_ring fp ! ((fp_tail fp + i) mod MVGAL_FP_MAX_FRAMES)) [0..<fp_count fp]"

definition fp_wf :: "mvgal_frame_pacer_t \<Rightarrow> bool" where
  "fp_wf fp \<longleftrightarrow> length (fp_ring fp) = MVGAL_FP_MAX_FRAMES \<and> fp_count fp \<le> MVGAL_FP_MAX_FRAMES
     \<and> fp_tail fp < MVGAL_FP_MAX_FRAMES \<and> fp_head fp = (fp_tail fp + fp_count fp) mod MVGAL_FP_MAX_FRAMES"

lemma fp_create_wf: "mvgal_fp_create a t hz = Some fp \<Longrightarrow> fp_wf fp \<and> fp_queue fp = []"
  by (auto simp: mvgal_fp_create_def fp_wf_def fp_queue_def Let_def split: if_splits)

lemma fp_submit_queue:
  assumes wf: "fp_wf fp" and en: "fp_enabled fp" and sub: "mvgal_fp_submit_frame now i g fp = (r, fp')"
  shows "fp_wf fp' \<and> (if length (fp_queue fp) < MVGAL_FP_MAX_FRAMES
      then r = 0 \<and> fp_queue fp' = fp_queue fp @ [\<lparr>fe_frame_id = i, fe_ready_ns = now, fe_target_present_ns = fp_target now fp,
        fe_gpu_index = g, fe_valid = True\<rparr>]
      else r = - 1 \<and> fp_queue fp' = fp_queue fp)"
proof (cases "fp_count fp < MVGAL_FP_MAX_FRAMES")
  case False
  then show ?thesis using assms by (auto simp: mvgal_fp_submit_frame_def fp_wf_def fp_queue_def)
next
  case True
  let ?e = "\<lparr>fe_frame_id = i, fe_ready_ns = now, fe_target_present_ns = fp_target now fp, fe_gpu_index = g, fe_valid = True\<rparr>"
  have fp': "r = 0" "fp' = fp\<lparr>fp_ring := (fp_ring fp)[fp_head fp := ?e], fp_head := (fp_head fp + 1) mod 8, fp_count := fp_count fp + 1\<rparr>"
    using sub en True by (auto simp: mvgal_fp_submit_frame_def)
  have h: "fp_head fp = (fp_tail fp + fp_count fp) mod 8" "fp_tail fp < 8" "length (fp_ring fp) = 8" using wf by (simp_all add: fp_wf_def)
  have other: "(fp_tail fp + j) mod 8 \<noteq> fp_head fp" if "j < fp_count fp" for j
    using that True h(1,2) by (auto simp: mod_if)
  have upd: "(fp_ring fp)[fp_head fp := ?e] ! k = (if k = fp_head fp then ?e else fp_ring fp ! k)" for k
    using h by (cases "k = fp_head fp") simp_all
  have "fp_queue fp' = fp_queue fp @ [?e]"
    unfolding fp_queue_def fp'(2) using other by (simp add: upd h(1) [symmetric])
  moreover have "fp_wf fp'" using wf True h unfolding fp'(2) fp_wf_def by (simp add: mod_Suc_eq)
  ultimately show ?thesis using True fp'(1) by (simp add: fp_queue_def)
qed

lemma pacer_take_queue:
  assumes wf: "fp_wf fp" and tk: "pacer_take fp = Some (e, fp')"
  shows "fp_wf fp' \<and> fp_queue fp = e # fp_queue fp'"
proof -
  have c: "fp_count fp \<noteq> 0" and e: "e = fp_ring fp ! fp_tail fp"
    and fp': "fp' = fp\<lparr>fp_tail := (fp_tail fp + 1) mod 8, fp_count := fp_count fp - 1\<rparr>"
    using tk by (auto simp: pacer_take_def split: if_splits)
  obtain n where n: "fp_count fp = Suc n" using c by (cases "fp_count fp") auto
  have t: "fp_tail fp < 8" using wf by (simp add: fp_wf_def)
  have "fp_queue fp = e # map (\<lambda>i. fp_ring fp ! ((fp_tail fp + Suc i) mod 8)) [0..<n]"
    unfolding fp_queue_def n upt_conv_Cons [OF zero_less_Suc] using t e by (simp add: map_Suc_upt [symmetric] del: map_Suc_upt upt_Suc)
  moreover have "((fp_tail fp + 1) mod 8 + i) mod 8 = (fp_tail fp + Suc i) mod 8" for i by (simp add: mod_simps)
  ultimately have "fp_queue fp = e # fp_queue fp'" unfolding fp' by (simp add: fp_queue_def n)
  moreover have "fp_wf fp'" using wf n unfolding fp' fp_wf_def by (simp add: mod_simps)
  ultimately show ?thesis by simp
qed

section \<open>The pacer at work\<close>

text \<open>
  The client and the thread take turns at the lock. The thread is waiting for a frame, showing one (it sleeps
  until the frame's time with the lock released), or has returned. \<open>Ev_Wake\<close> is the thread at its condition,
  \<open>Ev_Shown t\<close> the end of its sleep at time \<open>t\<close>, \<open>Ev_Destroy\<close> the first critical section of
  \<^verbatim>\<open>mvgal_fp_destroy\<close>. The lists of the accepted, the refused and the shown frames are a record of what
  happened; no operation reads them.
\<close>

datatype pacer_thread_state = Waiting | Showing mvgal_frame_entry_t | Returned

datatype pacer_event = Ev_Submit u64 u64 u32 | Ev_Refresh u32 | Ev_Wake | Ev_Shown u64 | Ev_Destroy

record pacer_system =
  ps_fp :: mvgal_frame_pacer_t
  ps_thread :: pacer_thread_state
  ps_accepted :: "u64 list"
  ps_refused :: "u64 list"
  ps_shown :: "u64 list"

definition mvgal_fp_destroy :: "mvgal_frame_pacer_t \<Rightarrow> mvgal_frame_pacer_t" where
  "mvgal_fp_destroy fp = fp\<lparr>fp_running := False\<rparr>"

fun pacer_thread :: "pacer_event \<Rightarrow> pacer_system \<Rightarrow> pacer_system" where
  "pacer_thread Ev_Wake s =
     (case ps_thread s of
        Waiting \<Rightarrow>
          if \<not> fp_running (ps_fp s) then s\<lparr>ps_thread := Returned\<rparr>
          else (case pacer_take (ps_fp s) of
                  None \<Rightarrow> s
                | Some (frame, fp) \<Rightarrow> s\<lparr>ps_fp := fp, ps_thread := Showing frame\<rparr>)
      | _ \<Rightarrow> s)"
| "pacer_thread (Ev_Shown actual) s =
     (case ps_thread s of
        Showing frame \<Rightarrow> s\<lparr>ps_fp := pacer_present actual frame (ps_fp s), ps_thread := Waiting,
                          ps_shown := ps_shown s @ [fe_frame_id frame]\<rparr>
      | _ \<Rightarrow> s)"
| "pacer_thread _ s = s"

fun pacer_client :: "pacer_event \<Rightarrow> pacer_system \<Rightarrow> pacer_system" where
  "pacer_client (Ev_Submit now i g) s =
     (case mvgal_fp_submit_frame now i g (ps_fp s) of
        (r, fp) \<Rightarrow> if r = 0 then s\<lparr>ps_fp := fp, ps_accepted := ps_accepted s @ [i]\<rparr>
                   else s\<lparr>ps_fp := fp, ps_refused := ps_refused s @ [i]\<rparr>)"
| "pacer_client (Ev_Refresh hz) s = s\<lparr>ps_fp := mvgal_fp_set_refresh_hz hz (ps_fp s)\<rparr>"
| "pacer_client Ev_Destroy s = s\<lparr>ps_fp := mvgal_fp_destroy (ps_fp s)\<rparr>"
| "pacer_client _ s = s"

definition pacer_step :: "pacer_event \<Rightarrow> pacer_system \<Rightarrow> pacer_system" where
  "pacer_step e s = pacer_client e (pacer_thread e s)"

definition pacer_start :: "mvgal_frame_pacer_t \<Rightarrow> pacer_system" where
  "pacer_start fp = \<lparr>ps_fp = fp, ps_thread = Waiting, ps_accepted = [], ps_refused = [], ps_shown = []\<rparr>"

fun in_flight :: "pacer_thread_state \<Rightarrow> u64 list" where
  "in_flight (Showing frame) = [fe_frame_id frame]"
| "in_flight _ = []"

definition pacer_inv :: "pacer_system \<Rightarrow> bool" where
  "pacer_inv s \<longleftrightarrow> fp_wf (ps_fp s) \<and> fp_enabled (ps_fp s)
     \<and> ps_accepted s = ps_shown s @ in_flight (ps_thread s) @ map fe_frame_id (fp_queue (ps_fp s))
     \<and> fp_frames_paced (ps_fp s) = of_nat (length (ps_shown s))
     \<and> fp_frames_dropped (ps_fp s) = of_nat (length (ps_refused s))
     \<and> (ps_thread s = Returned \<longrightarrow> \<not> fp_running (ps_fp s))"

lemma pacer_present_fields [simp]:
  "fp_queue (pacer_present t f fp) = fp_queue fp" "fp_wf (pacer_present t f fp) = fp_wf fp"
  "fp_enabled (pacer_present t f fp) = fp_enabled fp" "fp_running (pacer_present t f fp) = fp_running fp"
  "fp_frames_paced (pacer_present t f fp) = fp_frames_paced fp + 1"
  "fp_frames_dropped (pacer_present t f fp) = fp_frames_dropped fp"
  by (simp_all add: pacer_present_def Let_def fp_queue_def fp_wf_def)

lemma fp_setters_fields [simp]:
  "fp_queue (mvgal_fp_set_refresh_hz h fp) = fp_queue fp" "fp_wf (mvgal_fp_set_refresh_hz h fp) = fp_wf fp"
  "fp_enabled (mvgal_fp_set_refresh_hz h fp) = fp_enabled fp"
  "fp_frames_paced (mvgal_fp_set_refresh_hz h fp) = fp_frames_paced fp"
  "fp_frames_dropped (mvgal_fp_set_refresh_hz h fp) = fp_frames_dropped fp"
  "fp_running (mvgal_fp_set_refresh_hz h fp) = fp_running fp" "\<not> fp_running (mvgal_fp_destroy fp)"
  "fp_queue (mvgal_fp_destroy fp) = fp_queue fp" "fp_wf (mvgal_fp_destroy fp) = fp_wf fp"
  "fp_enabled (mvgal_fp_destroy fp) = fp_enabled fp"
  "fp_frames_paced (mvgal_fp_destroy fp) = fp_frames_paced fp"
  "fp_frames_dropped (mvgal_fp_destroy fp) = fp_frames_dropped fp"
  by (simp_all add: mvgal_fp_set_refresh_hz_def mvgal_fp_destroy_def fp_queue_def fp_wf_def)

lemma fp_submit_counters:
  assumes "fp_enabled fp" and "mvgal_fp_submit_frame now i g fp = (r, fp')"
  shows "fp_enabled fp' \<and> fp_running fp' = fp_running fp \<and> fp_frames_paced fp' = fp_frames_paced fp
    \<and> fp_frames_dropped fp' = (if r = 0 then fp_frames_dropped fp else fp_frames_dropped fp + 1)"
  using assms by (auto simp: mvgal_fp_submit_frame_def split: if_splits)

lemma pacer_take_counters:
  "pacer_take fp = Some (e, fp') \<Longrightarrow> fp_enabled fp' = fp_enabled fp \<and> fp_frames_paced fp' = fp_frames_paced fp
    \<and> fp_frames_dropped fp' = fp_frames_dropped fp \<and> fp_running fp' = fp_running fp"
  by (auto simp: pacer_take_def split: if_splits)

lemma pacer_thread_inv: "pacer_inv s \<Longrightarrow> pacer_inv (pacer_thread e s)"
proof (cases e)
  case Ev_Wake
  assume i: "pacer_inv s"
  show ?thesis
  proof (cases "ps_thread s = Waiting \<and> fp_running (ps_fp s) \<and> pacer_take (ps_fp s) \<noteq> None")
    case True
    then obtain f fp where t: "pacer_take (ps_fp s) = Some (f, fp)" by auto
    have "fp_wf fp \<and> fp_queue (ps_fp s) = f # fp_queue fp"
      using pacer_take_queue [OF _ t] i by (simp add: pacer_inv_def)
    then show ?thesis using i True t pacer_take_counters [OF t] Ev_Wake by (simp add: pacer_inv_def)
  next
    case False
    then show ?thesis using i Ev_Wake
      by (auto simp: pacer_inv_def split: pacer_thread_state.split option.split)
  qed
next
  case (Ev_Shown t)
  assume "pacer_inv s"
  then show ?thesis using Ev_Shown by (simp add: pacer_inv_def split: pacer_thread_state.split)
qed simp_all

lemma pacer_client_inv: "pacer_inv s \<Longrightarrow> pacer_inv (pacer_client e s)"
proof (cases e)
  case (Ev_Submit now i g)
  assume inv: "pacer_inv s"
  obtain r fp where sub: "mvgal_fp_submit_frame now i g (ps_fp s) = (r, fp)" by fastforce
  have wf: "fp_wf (ps_fp s)" and en: "fp_enabled (ps_fp s)" using inv by (simp_all add: pacer_inv_def)
  note q = fp_submit_queue [OF wf en sub] and c = fp_submit_counters [OF en sub]
  show ?thesis
  proof (cases "length (fp_queue (ps_fp s)) < MVGAL_FP_MAX_FRAMES")
    case True
    then show ?thesis using q c inv sub Ev_Submit by (simp add: pacer_inv_def)
  next
    case False
    then show ?thesis using q c inv sub Ev_Submit by (simp add: pacer_inv_def)
  qed
qed (simp_all add: pacer_inv_def)

lemma pacer_run_inv: "pacer_inv s \<Longrightarrow> pacer_inv (fold pacer_step es s)"
  by (induction es arbitrary: s) (simp_all add: pacer_step_def pacer_thread_inv pacer_client_inv)

lemma fp_queue_bounded: "fp_wf fp \<Longrightarrow> length (fp_queue fp) \<le> MVGAL_FP_MAX_FRAMES"
  by (simp add: fp_wf_def fp_queue_def)

text \<open>With the pacer running, one turn of the thread for each queued frame shows them all.\<close>

lemma pacer_drains:
  assumes "pacer_inv s" and "fp_running (ps_fp s)" and "ps_thread s = Waiting" and "length (fp_queue (ps_fp s)) = length ts"
  shows "let s' = fold pacer_step (concat (map (\<lambda>t. [Ev_Wake, Ev_Shown t]) ts)) s
         in ps_shown s' = ps_accepted s \<and> fp_queue (ps_fp s') = []"
  using assms
proof (induction ts arbitrary: s)
  case Nil
  then show ?case by (simp add: pacer_inv_def)
next
  case (Cons t ts)
  have wf: "fp_wf (ps_fp s)" using Cons.prems(1) by (simp add: pacer_inv_def)
  have c: "fp_count (ps_fp s) \<noteq> 0" using Cons.prems(4) by (simp add: fp_queue_def)
  obtain f fp where tk: "pacer_take (ps_fp s) = Some (f, fp)" using c Cons.prems(2) by (auto simp: pacer_take_def)
  let ?s = "pacer_step (Ev_Shown t) (pacer_step Ev_Wake s)"
  have eq: "?s = s\<lparr>ps_fp := pacer_present t f fp, ps_thread := Waiting, ps_shown := ps_shown s @ [fe_frame_id f]\<rparr>"
    using Cons.prems(2,3) tk by (simp add: pacer_step_def)
  have q: "fp_queue (ps_fp s) = f # fp_queue fp" and r: "fp_running fp"
    using pacer_take_queue [OF wf tk] pacer_take_counters [OF tk] Cons.prems(2) by simp_all
  have inv: "pacer_inv ?s" using pacer_run_inv [of s "[Ev_Wake, Ev_Shown t]"] Cons.prems(1) by simp
  have len: "length (fp_queue (ps_fp ?s)) = length ts" using Cons.prems(4) q by (simp add: eq)
  have acc: "ps_accepted ?s = ps_accepted s" by (simp add: eq)
  have "let s' = fold pacer_step (concat (map (\<lambda>t. [Ev_Wake, Ev_Shown t]) ts)) ?s
         in ps_shown s' = ps_accepted ?s \<and> fp_queue (ps_fp s') = []"
    by (rule Cons.IH [OF inv _ _ len]) (simp_all add: eq r)
  then show ?case by (simp add: Let_def acc)
qed

lemma pacer_start_inv: "mvgal_fp_create a t hz = Some fp \<Longrightarrow> pacer_inv (pacer_start fp) \<and> fp_running fp"
  using fp_create_wf [of a t hz fp]
  by (auto simp: pacer_inv_def pacer_start_def mvgal_fp_create_def Let_def split: if_splits)

text \<open>
  C35. The frame pacer shows frames in the order they were accepted. After any interleaving of submissions, changes
  of the refresh rate, turns of the thread and destruction, on a pacer that was created: the accepted frames
  are the shown ones, then the one the thread is about to show, then the queued ones, none lost and none
  twice; at most eight are queued; and the two counters count the shown and the refused frames. While it is running,
  letting the thread finish its frame and take one turn for each queued frame shows every accepted frame.
\<close>

theorem frame_pacer_fifo:
  assumes "mvgal_fp_create a t hz = Some fp" and "s = fold pacer_step es (pacer_start fp)"
  shows "ps_accepted s = ps_shown s @ in_flight (ps_thread s) @ map fe_frame_id (fp_queue (ps_fp s))
    \<and> length (fp_queue (ps_fp s)) \<le> 8
    \<and> mvgal_fp_get_stats (ps_fp s) = (of_nat (length (ps_shown s)), of_nat (length (ps_refused s)),
        snd (snd (mvgal_fp_get_stats (ps_fp s))))
    \<and> (fp_running (ps_fp s) \<and> length ts = length (fp_queue (ps_fp s)) \<longrightarrow>
        ps_shown (fold pacer_step (Ev_Shown now # concat (map (\<lambda>t. [Ev_Wake, Ev_Shown t]) ts)) s) = ps_accepted s)"
proof (intro conjI impI)
  have inv: "pacer_inv s" using pacer_run_inv pacer_start_inv [OF assms(1)] assms(2) by blast
  then show "ps_accepted s = ps_shown s @ in_flight (ps_thread s) @ map fe_frame_id (fp_queue (ps_fp s))"
    and "mvgal_fp_get_stats (ps_fp s) = (of_nat (length (ps_shown s)), of_nat (length (ps_refused s)),
           snd (snd (mvgal_fp_get_stats (ps_fp s))))"
    by (simp_all add: pacer_inv_def mvgal_fp_get_stats_def)
  show "length (fp_queue (ps_fp s)) \<le> 8" using inv fp_queue_bounded by (simp add: pacer_inv_def)
  assume h: "fp_running (ps_fp s) \<and> length ts = length (fp_queue (ps_fp s))"
  let ?s = "pacer_step (Ev_Shown now) s"
  have th: "ps_thread s \<noteq> Returned" using inv h by (simp add: pacer_inv_def)
  have eq: "ps_thread ?s = Waiting \<and> fp_running (ps_fp ?s) \<and> fp_queue (ps_fp ?s) = fp_queue (ps_fp s)
      \<and> ps_accepted ?s = ps_accepted s"
    using th h by (cases "ps_thread s") (simp_all add: pacer_step_def)
  have "pacer_inv ?s" using pacer_run_inv [of s "[Ev_Shown now]"] inv by simp
  from pacer_drains [OF this, of ts] eq h
  show "ps_shown (fold pacer_step (Ev_Shown now # concat (map (\<lambda>t. [Ev_Wake, Ev_Shown t]) ts)) s) = ps_accepted s"
    by (simp add: Let_def)
qed

text \<open>The instance with nine submissions to a pacer at 60 Hz: the ninth is refused, the other eight are shown in order.\<close>

definition pacer_demo :: pacer_system where
  "pacer_demo = fold pacer_step (map (\<lambda>i. Ev_Submit (100 + i) i 0) [1, 2, 3, 4, 5, 6, 7, 8, 9])
     (pacer_start (the (mvgal_fp_create True True 60)))"

theorem frame_pacer_fifo_witness:
  "mvgal_fp_create True True 60 \<noteq> None \<and> ps_refused pacer_demo = [9]
    \<and> ps_shown (fold pacer_step (Ev_Shown 0 # concat (map (\<lambda>t. [Ev_Wake, Ev_Shown t]) (replicate 8 0))) pacer_demo) = [1, 2, 3, 4, 5, 6, 7, 8]"
proof -
  obtain fp where c: "mvgal_fp_create True True 60 = Some fp" by (simp add: mvgal_fp_create_def)
  have d: "pacer_demo = fold pacer_step (map (\<lambda>i. Ev_Submit (100 + i) i 0) [1, 2, 3, 4, 5, 6, 7, 8, 9]) (pacer_start fp)"
    by (simp add: pacer_demo_def c)
  have e: "fp_running (ps_fp pacer_demo)" "length (fp_queue (ps_fp pacer_demo)) = 8" "ps_refused pacer_demo = [9]"
    "ps_accepted pacer_demo = [1, 2, 3, 4, 5, 6, 7, 8]" by code_simp+
  show ?thesis using frame_pacer_fifo [OF c d, of "replicate 8 0" 0] e c by simp
qed

text \<open>
  Frames that are submitted before the next one is shown are not spread over refresh intervals: once a frame
  has been shown, every frame that is submitted within one interval gets the same time, and the first
  frames of a pacer are timed one interval after their own submission.
\<close>

theorem burst_shares_target:
  assumes "fp_last_present_ns fp \<noteq> 0"
    and "now \<le> fp_last_present_ns fp + fp_frame_interval_ns fp" and "now' \<le> fp_last_present_ns fp + fp_frame_interval_ns fp"
    and "mvgal_fp_submit_frame now i g fp = (r, fp')"
  shows "fp_target now fp = fp_last_present_ns fp + fp_frame_interval_ns fp \<and> fp_target now' fp' = fp_target now fp"
proof -
  have "fp_last_present_ns fp' = fp_last_present_ns fp \<and> fp_frame_interval_ns fp' = fp_frame_interval_ns fp"
    using assms(4) by (auto simp: mvgal_fp_submit_frame_def split: if_splits)
  then show ?thesis using assms(1-3) by (auto simp: fp_target_def Let_def)
qed

end
