(* ===== verification/Gpu_Parse.thy ===== *)
theory Gpu_Parse
  imports Mvgal_Prelude
begin

text \<open>
  The text the GPU manager reads from the system (\<^verbatim>\<open>src/userspace/daemon/gpu_manager.c\<close>): numbered device
  nodes, the first line of a file of \<^verbatim>\<open>/sys\<close> as a number, and PCI addresses. A C string is a \<open>string\<close>
  without the final NUL. The numeric conversions \<^verbatim>\<open>strtoul\<close>, \<^verbatim>\<open>strtoull\<close> and the \<^verbatim>\<open>%x\<close> of
  \<^verbatim>\<open>sscanf\<close> are written out as far as the code uses them.
\<close>

section \<open>Digits\<close>

definition code :: "char \<Rightarrow> nat" where
  "code c = of_char c"

definition isdigit :: "char \<Rightarrow> bool" where
  "isdigit c \<longleftrightarrow> 48 \<le> code c \<and> code c \<le> 57"

definition isspace :: "char \<Rightarrow> bool" where
  "isspace c \<longleftrightarrow> code c = 32 \<or> (9 \<le> code c \<and> code c \<le> 13)"

text \<open>The value of a digit in a base of up to 36.\<close>

definition digit_value :: "char \<Rightarrow> nat" where
  "digit_value c =
     (if isdigit c then code c - 48
      else if 97 \<le> code c \<and> code c \<le> 122 then code c - 87
      else if 65 \<le> code c \<and> code c \<le> 90 then code c - 55
      else 36)"

definition num_value :: "nat \<Rightarrow> string \<Rightarrow> nat" where
  "num_value base ds = foldl (\<lambda>v c. v * base + digit_value c) 0 ds"

text \<open>The sign and the digits in a base at the front of a string, and what follows them.\<close>

definition skip_space :: "string \<Rightarrow> string" where
  "skip_space = dropWhile isspace"

fun take_sign :: "string \<Rightarrow> bool \<times> string" where
  "take_sign (c # cs) = (if c = CHR ''-'' then (True, cs) else if c = CHR ''+'' then (False, cs) else (False, c # cs))"
| "take_sign [] = (False, [])"

fun hex_marked :: "string \<Rightarrow> bool" where
  "hex_marked (z # x # c # cs) \<longleftrightarrow> z = CHR ''0'' \<and> (x = CHR ''x'' \<or> x = CHR ''X'') \<and> digit_value c < 16"
| "hex_marked _ \<longleftrightarrow> False"

definition is_digit_of :: "nat \<Rightarrow> char \<Rightarrow> bool" where
  "is_digit_of base c \<longleftrightarrow> digit_value c < base"

section \<open>Numbered device nodes\<close>

text \<open>The digits are checked first, so that \<^verbatim>\<open>strtoul\<close> reads them all; it fails on values of 2 ^ 64 and above.\<close>

definition parse_indexed_node :: "string \<Rightarrow> string \<Rightarrow> u32 option" where
  "parse_indexed_node name prefix =
     (if take (length prefix) name \<noteq> prefix then None
      else
        (let digits = drop (length prefix) name
         in if digits = [] \<or> \<not> list_all isdigit digits then None
            else
              (let v = num_value 10 digits
               in if 2 ^ 64 \<le> int v \<or> 2 ^ 32 - 1 < int v then None else Some (of_nat v))))"

section \<open>Numbers in files\<close>

text \<open>\<open>content\<close>: what is in the file, or \<open>None\<close> if it cannot be opened. \<^verbatim>\<open>fgets\<close> reads at most one byte less
  than the buffer holds and stops after the first line.\<close>

definition read_file_trimmed :: "string option \<Rightarrow> nat \<Rightarrow> string option" where
  "read_file_trimmed content buffer_size =
     (case content of
        None \<Rightarrow> None
      | Some text \<Rightarrow>
          if text = [] then None
          else Some (takeWhile (\<lambda>c. code c \<noteq> 10 \<and> code c \<noteq> 13) (take (buffer_size - 1) text)))"

text \<open>\<^verbatim>\<open>strtoull\<close> with base 0: \<open>None\<close> when there are no digits or the value does not fit.\<close>

definition strtoull_auto :: "string \<Rightarrow> u64 option" where
  "strtoull_auto s =
     (let (neg, s1) = take_sign (skip_space s);
          (base, ds) = (if hex_marked s1 then (16, drop 2 s1)
                        else if s1 \<noteq> [] \<and> hd s1 = CHR ''0'' then (8, s1) else (10, s1));
          digits = takeWhile (is_digit_of base) ds;
          v = num_value base digits
      in if digits = [] \<or> 2 ^ 64 \<le> int v then None
         else Some (if neg then - of_nat v else of_nat v))"

definition read_file_u64 :: "string option \<Rightarrow> u64 option" where
  "read_file_u64 content =
     (case read_file_trimmed content 128 of None \<Rightarrow> None | Some buffer \<Rightarrow> strtoull_auto buffer)"

definition read_file_u16 :: "string option \<Rightarrow> 16 word option" where
  "read_file_u16 content =
     (case read_file_u64 content of
        None \<Rightarrow> None
      | Some parsed \<Rightarrow> if 0xFFFF < parsed then None else Some (ucast parsed))"

section \<open>PCI addresses\<close>

text \<open>
  The conversion \<^verbatim>\<open>%x\<close>: blanks, a sign and a mark \<^verbatim>\<open>0x\<close> are allowed; a value that does not fit 64 bits is
  the largest one, and the low 32 bits are stored.
\<close>

definition scan_hex :: "string \<Rightarrow> (u32 \<times> string) option" where
  "scan_hex s =
     (let (neg, s1) = take_sign (skip_space s);
          s2 = (if hex_marked s1 then drop 2 s1 else s1);
          digits = takeWhile (is_digit_of 16) s2;
          v = num_value 16 digits
      in if digits = [] then None
         else Some (if 2 ^ 64 \<le> int v then UINT32_MAX
                    else if neg then - of_nat v else of_nat v, drop (length digits) s2))"

fun expect :: "char \<Rightarrow> string \<Rightarrow> string option" where
  "expect c (d # s) = (if c = d then Some s else None)"
| "expect c [] = None"

definition basename :: "string \<Rightarrow> string" where
  "basename path = rev (takeWhile (\<lambda>c. c \<noteq> CHR ''/'') (rev path))"

record pci_address =
  pa_domain :: "16 word"
  pa_bus :: "8 word"
  pa_device :: "8 word"
  pa_function :: "8 word"

definition scan_pci :: "string \<Rightarrow> (u32 \<times> u32 \<times> u32 \<times> u32) option" where
  "scan_pci s =
     Option.bind (scan_hex s) (\<lambda>(a, s1). Option.bind (expect CHR '':'' s1) (\<lambda>s2.
     Option.bind (scan_hex s2) (\<lambda>(b, s3). Option.bind (expect CHR '':'' s3) (\<lambda>s4.
     Option.bind (scan_hex s4) (\<lambda>(c, s5). Option.bind (expect CHR ''.'' s5) (\<lambda>s6.
     Option.bind (scan_hex s6) (\<lambda>(d, s7). Some (a, b, c, d))))))))"

definition parse_pci_address :: "string \<Rightarrow> pci_address option" where
  "parse_pci_address device_realpath =
     (case scan_pci (basename device_realpath) of
        None \<Rightarrow> None
      | Some (domain, bus, dev, fn) \<Rightarrow>
          if 0xFFFF < domain \<or> 0xFF < bus \<or> 0xFF < dev \<or> 0xFF < fn then None
          else Some \<lparr>pa_domain = ucast domain, pa_bus = ucast bus, pa_device = ucast dev, pa_function = ucast fn\<rparr>)"

section \<open>Reading back what is printed\<close>

text \<open>Digits without leading zeros, as the kernel numbers its device nodes.\<close>

fun dec_digits :: "nat \<Rightarrow> string" where
  "dec_digits n = (if n < 10 then [char_of (n + 48)] else dec_digits (n div 10) @ [char_of (n mod 10 + 48)])"

declare dec_digits.simps [simp del]

text \<open>The last \<open>k\<close> hexadecimal digits, as \<^verbatim>\<open>%04x\<close> prints a number that has no more than four.\<close>

definition hex_digit :: "nat \<Rightarrow> char" where
  "hex_digit d = (if d < 10 then char_of (d + 48) else char_of (d + 87))"

fun hex_digits :: "nat \<Rightarrow> nat \<Rightarrow> string" where
  "hex_digits 0 n = []"
| "hex_digits (Suc k) n = hex_digits k (n div 16) @ [hex_digit (n mod 16)]"

text \<open>
  The name of a PCI device, printed with \<^verbatim>\<open>%04x:%02x:%02x.%x\<close>: by the kernel in the paths that are parsed here and by
  the power manager (\<^verbatim>\<open>src/userspace/power/power_manager.c\<close>) in the paths it opens. A function of 16 and
  above takes two digits.
\<close>

definition pci_name :: "pci_address \<Rightarrow> string" where
  "pci_name p = hex_digits 4 (unat (pa_domain p)) @ '':'' @ hex_digits 2 (unat (pa_bus p)) @ '':''
     @ hex_digits 2 (unat (pa_device p)) @ ''.''
     @ hex_digits (if unat (pa_function p) < 16 then 1 else 2) (unat (pa_function p))"

lemma num_value_Nil [simp]: "num_value b [] = 0"
  by (simp add: num_value_def)

lemma num_value_snoc [simp]: "num_value b (ds @ [c]) = num_value b ds * b + digit_value c"
  by (simp add: num_value_def)

lemma dec_digit [simp]: "d < 10 \<Longrightarrow> isdigit (char_of (d + 48)) \<and> digit_value (char_of (d + 48)) = d"
  by (simp add: isdigit_def digit_value_def code_def)

lemma dec_digits_value: "dec_digits n \<noteq> [] \<and> list_all isdigit (dec_digits n) \<and> num_value 10 (dec_digits n) = n"
proof (induction n rule: dec_digits.induct)
  case (1 n)
  show ?case
  proof (cases "n < 10")
    case True
    then show ?thesis using dec_digit [of n] num_value_snoc [of 10 "[]" "char_of (n + 48)"] by (simp add: dec_digits.simps)
  next
    case False
    have d: "isdigit (char_of (n mod 10 + 48)) \<and> digit_value (char_of (n mod 10 + 48)) = n mod 10" by (rule dec_digit) simp
    show ?thesis using 1 [OF False] False d by (simp add: dec_digits.simps [of n])
  qed
qed

lemma hex_digit_value: "d < 16 \<Longrightarrow> digit_value (hex_digit d) = d \<and> \<not> isspace (hex_digit d)
    \<and> hex_digit d \<noteq> CHR ''-'' \<and> hex_digit d \<noteq> CHR ''+'' \<and> hex_digit d \<noteq> CHR ''x'' \<and> hex_digit d \<noteq> CHR ''X''
    \<and> hex_digit d \<noteq> CHR ''/'' \<and> hex_digit d \<noteq> CHR '':''"
  by (cases "d < 10") (auto simp: hex_digit_def digit_value_def isdigit_def isspace_def code_def dest!: arg_cong [where f = "of_char :: char \<Rightarrow> nat"])

definition hex_char :: "char \<Rightarrow> bool" where
  "hex_char c \<longleftrightarrow> digit_value c < 16 \<and> \<not> isspace c \<and> c \<noteq> CHR ''-'' \<and> c \<noteq> CHR ''+'' \<and> c \<noteq> CHR ''x'' \<and> c \<noteq> CHR ''X'' \<and> c \<noteq> CHR ''/''"

lemma hex_digits_chars: "list_all hex_char (hex_digits k n)"
  by (induction k arbitrary: n) (simp_all add: hex_char_def hex_digit_value)

lemma hex_digits_length [simp]: "length (hex_digits k n) = k"
  by (induction k arbitrary: n) simp_all

lemma hex_digits_value: "num_value 16 (hex_digits k n) = n mod 16 ^ k"
proof (induction k arbitrary: n)
  case (Suc k)
  have "n mod 16 ^ Suc k = n div 16 mod 16 ^ k * 16 + n mod 16"
    using mod_mult2_eq [of n 16 "16 ^ k"] by (simp add: mult.commute)
  then show ?case using Suc [of "n div 16"] by (simp add: hex_digit_value)
qed simp

text \<open>Reading up to eight digits that no further digit follows.\<close>

lemma scan_hex_digits:
  assumes k: "0 < k" "k \<le> 8" and r: "rest = [] \<or> 16 \<le> digit_value (hd rest) \<and> hd rest \<noteq> CHR ''x'' \<and> hd rest \<noteq> CHR ''X''"
  shows "scan_hex (hex_digits k n @ rest) = Some (of_nat (n mod 16 ^ k), rest)"
proof -
  let ?s = "hex_digits k n @ rest"
  have all: "list_all hex_char (hex_digits k n)" by (rule hex_digits_chars)
  obtain c cs where c: "hex_digits k n = c # cs" using k(1) by (cases k; cases "hex_digits k n") auto
  have hc: "hex_char c" "list_all hex_char cs" using all c by simp_all
  have sp: "skip_space ?s = ?s" using hc(1) c by (simp add: skip_space_def hex_char_def)
  have sg: "take_sign ?s = (False, ?s)" using hc(1) c by (simp add: hex_char_def)
  have mk: "\<not> hex_marked ?s"
  proof (cases cs)
    case Nil
    then show ?thesis using c r by (cases rest; cases "tl rest") auto
  next
    case (Cons d ds)
    then show ?thesis using c hc(2) by (cases "ds @ rest") (auto simp: hex_char_def)
  qed
  have tw: "takeWhile (is_digit_of 16) ?s = hex_digits k n"
  proof -
    have "\<forall>d \<in> set (hex_digits k n). is_digit_of 16 d" using all by (auto simp: list_all_iff hex_char_def is_digit_of_def)
    then show ?thesis using r by (cases rest) (auto simp: takeWhile_append2 is_digit_of_def)
  qed
  have "n mod 16 ^ k < 2 ^ 64"
  proof -
    have "n mod 16 ^ k < 16 ^ k" by simp
    also have "(16 :: nat) ^ k \<le> 16 ^ 8" by (rule power_increasing [OF k(2)]) simp
    finally show ?thesis by simp
  qed
  then have "int (n mod 16 ^ k) < int (2 ^ 64)" by (simp only: of_nat_less_iff)
  then have b: "\<not> 2 ^ 64 \<le> int (n mod 16 ^ k)" by simp
  have ne: "hex_digits k n \<noteq> []" using c by simp
  show ?thesis unfolding scan_hex_def sp sg Let_def prod.case if_not_P [OF mk] tw hex_digits_value
    using ne b by simp
qed

lemma separators: "16 \<le> digit_value CHR '':''" "16 \<le> digit_value CHR ''.''"
  by (simp_all add: digit_value_def isdigit_def code_def)

lemma basename_pci: "basename (dir @ CHR ''/'' # pci_name p) = pci_name p"
proof -
  have "CHR ''/'' \<notin> set (hex_digits k n)" for k n
    using hex_digits_chars [of k n] by (auto simp: list_all_iff hex_char_def)
  then have "CHR ''/'' \<notin> set (pci_name p)" by (simp add: pci_name_def del: hex_digits.simps)
  then have "\<forall>c \<in> set (rev (pci_name p)). c \<noteq> CHR ''/''" by auto
  then show ?thesis by (simp add: basename_def takeWhile_append)
qed

lemma scan_pci_name:
  "scan_pci (pci_name p) = Some (ucast (pa_domain p), ucast (pa_bus p), ucast (pa_device p), ucast (pa_function p))"
proof -
  let ?k = "if unat (pa_function p) < 16 then 1 else 2 :: nat"
  have m: "unat (pa_domain p) mod 16 ^ 4 = unat (pa_domain p)" "unat (pa_bus p) mod 16 ^ 2 = unat (pa_bus p)"
    "unat (pa_device p) mod 16 ^ 2 = unat (pa_device p)" "unat (pa_function p) mod 16 ^ ?k = unat (pa_function p)"
    using unsigned_less [of "pa_domain p", where ?'a = nat] unsigned_less [of "pa_bus p", where ?'a = nat]
      unsigned_less [of "pa_device p", where ?'a = nat] unsigned_less [of "pa_function p", where ?'a = nat] by simp_all
  note sh = scan_hex_digits [of 4, simplified] scan_hex_digits [of 2, simplified]
  have last: "scan_hex (hex_digits ?k (unat (pa_function p))) = Some (ucast (pa_function p), [])"
    using scan_hex_digits [of ?k "[]" "unat (pa_function p)"] unfolding m(4) by (simp add: unsigned_ucast_eq del: hex_digits.simps)
  show ?thesis using separators m(1-3)
    by (simp add: scan_pci_def pci_name_def sh last unsigned_ucast_eq del: hex_digits.simps if_split One_nat_def)
qed

lemma ucast_fits:
  "\<not> 0xFFFF < (ucast (d :: 16 word) :: u32)" "\<not> 0xFF < (ucast (b :: 8 word) :: u32)"
  "ucast (ucast d :: u32) = d" "ucast (ucast b :: u32) = b"
proof -
  show "\<not> 0xFFFF < (ucast d :: u32)" "\<not> 0xFF < (ucast b :: u32)"
    using unsigned_less [of d, where ?'a = nat] unsigned_less [of b, where ?'a = nat]
    by (simp_all add: word_less_nat_alt unsigned_ucast_eq take_bit_nat_eq_self)
  show "ucast (ucast d :: u32) = d" "ucast (ucast b :: u32) = b"
    by (rule bit_word_eqI; simp add: bit_simps)+
qed

lemma char_of_digit: "isdigit c \<Longrightarrow> char_of (digit_value c + 48) = c \<and> digit_value c < 10"
proof -
  assume "isdigit c"
  then have "digit_value c + 48 = code c" "digit_value c < 10" by (auto simp: digit_value_def isdigit_def)
  then show ?thesis by (simp add: code_def)
qed

lemma num_value_zeros: "num_value b (replicate k CHR ''0'' @ ds) = num_value b ds"
  by (induction k) (simp_all add: num_value_def digit_value_def isdigit_def code_def)

lemma digits_of_value: "ds \<noteq> [] \<Longrightarrow> list_all isdigit ds \<Longrightarrow> \<exists>k. ds = replicate k CHR ''0'' @ dec_digits (num_value 10 ds)"
proof (induction ds rule: rev_induct)
  case (snoc c ds)
  let ?v = "num_value 10 ds"
  have c: "char_of (digit_value c + 48) = c" "digit_value c < 10" using snoc.prems char_of_digit by auto
  show ?case
  proof (cases "?v = 0")
    case True
    have "dec_digits 0 = ''0''" by code_simp
    then have "\<exists>k. ds = replicate k CHR ''0''"
      using snoc.IH snoc.prems(2) True by (cases "ds = []") (auto simp: replicate_append_same intro: exI [of _ "Suc _"])
    moreover have "dec_digits (digit_value c) = [c]" using c by (simp add: dec_digits.simps)
    ultimately show ?thesis using True by auto
  next
    case False
    then have "dec_digits (?v * 10 + digit_value c) = dec_digits ?v @ [c]" using c by (simp add: dec_digits.simps [of "_ + _"])
    moreover have "ds \<noteq> []" using False by auto
    ultimately show ?thesis using snoc.IH snoc.prems(2) by auto
  qed
qed simp

lemma parse_indexed_node_iff:
  "parse_indexed_node name prefix = Some m \<longleftrightarrow> (\<exists>k. name = prefix @ replicate k CHR ''0'' @ dec_digits (unat m))"
proof
  assume p: "parse_indexed_node name prefix = Some m"
  define ds where "ds = drop (length prefix) name"
  from p have ds: "take (length prefix) name = prefix" "ds \<noteq> []" "list_all isdigit ds" "num_value 10 ds < 2 ^ 32" "m = of_nat (num_value 10 ds)"
    by (auto simp: parse_indexed_node_def Let_def ds_def split: if_splits)
  then have "name = prefix @ ds" using append_take_drop_id [of "length prefix" name] by (simp add: ds_def)
  moreover have "unat m = num_value 10 ds" using ds(4,5) by (simp add: unat_of_nat)
  ultimately show "\<exists>k. name = prefix @ replicate k CHR ''0'' @ dec_digits (unat m)" using digits_of_value [OF ds(2,3)] by metis
next
  assume "\<exists>k. name = prefix @ replicate k CHR ''0'' @ dec_digits (unat m)"
  then obtain k where k: "name = prefix @ replicate k CHR ''0'' @ dec_digits (unat m)" by blast
  have "unat m < 2 ^ 32" by (rule word_bounds)
  moreover have "isdigit CHR ''0''" by (simp add: isdigit_def code_def)
  ultimately show "parse_indexed_node name prefix = Some m"
    using dec_digits_value [of "unat m"] by (auto simp: k parse_indexed_node_def Let_def num_value_zeros list_all_iff)
qed

text \<open>
  C40. Names of devices are read back as the numbers they were printed from. A device node parses to the number \<open>m\<close> exactly
  when its name is the prefix followed by the decimal digits of \<open>m\<close>, possibly after zeros; a node whose number does not
  fit 32 bits is refused. The address parsed from the last component of a path is the
  PCI address that was printed there, for every domain, bus, device and function.
\<close>

theorem device_names_round_trip:
  "(parse_indexed_node name prefix = Some m \<longleftrightarrow> (\<exists>k. name = prefix @ replicate k CHR ''0'' @ dec_digits (unat m)))
   \<and> parse_indexed_node (prefix @ dec_digits n) prefix = (if n < 2 ^ 32 then Some (of_nat n) else None)
   \<and> parse_pci_address (dir @ ''/'' @ pci_name p) = Some p"
proof (intro conjI)
  show "parse_indexed_node name prefix = Some m \<longleftrightarrow> (\<exists>k. name = prefix @ replicate k CHR ''0'' @ dec_digits (unat m))"
    by (rule parse_indexed_node_iff)
  show "parse_indexed_node (prefix @ dec_digits n) prefix = (if n < 2 ^ 32 then Some (of_nat n) else None)"
    using dec_digits_value [of n] by (auto simp: parse_indexed_node_def Let_def)
  show "parse_pci_address (dir @ ''/'' @ pci_name p) = Some p"
    by (simp add: parse_pci_address_def basename_pci scan_pci_name ucast_fits)
qed

text \<open>The render node of a card and the address of a graphics function, as the witness for C40.\<close>

theorem device_names_round_trip_witness:
  "parse_indexed_node ''renderD128'' ''renderD'' = Some 128
   \<and> parse_pci_address ''/sys/devices/0000:03:00.1'' = Some \<lparr>pa_domain = 0, pa_bus = 3, pa_device = 0, pa_function = 1\<rparr>"
proof -
  let ?p = "\<lparr>pa_domain = 0, pa_bus = 3, pa_device = 0, pa_function = 1\<rparr>"
  have "dec_digits 128 = ''128''" "pci_name ?p = ''0000:03:00.1''" by code_simp+
  then show ?thesis using device_names_round_trip [of "[]" "''renderD''" 0 128 "''/sys/devices''" ?p] by simp
qed

end
