(* ===== verification/Gpu_Descriptor.thy ===== *)
theory Gpu_Descriptor
  imports Gpu_Parse Float32
begin

unbundle bit_operations_syntax

text \<open>
  The descriptor of a GPU (\<^verbatim>\<open>include/mvgal/mvgal_gpu.h\<close>) and the defaults the GPU manager fills in for what
  the system does not tell (\<^verbatim>\<open>src/userspace/daemon/gpu_manager.c\<close>).
\<close>

section \<open>Descriptors\<close>

datatype mvgal_vendor_t =
    MVGAL_VENDOR_UNKNOWN | MVGAL_VENDOR_AMD | MVGAL_VENDOR_NVIDIA | MVGAL_VENDOR_INTEL
  | MVGAL_VENDOR_MOORE_THREADS | MVGAL_VENDOR_QUALCOMM | MVGAL_VENDOR_ARM | MVGAL_VENDOR_BROADCOM

text \<open>The value 0 that \<^verbatim>\<open>memset\<close> leaves in a type is \<open>MVGAL_GPU_TYPE_NONE\<close>; it has no name in the source.\<close>

datatype mvgal_gpu_type_t =
    MVGAL_GPU_TYPE_NONE | MVGAL_GPU_TYPE_DISCRETE | MVGAL_GPU_TYPE_INTEGRATED | MVGAL_GPU_TYPE_VIRTUAL | MVGAL_GPU_TYPE_COPROCESSOR

datatype mvgal_memory_type_t =
    MVGAL_MEMORY_TYPE_HBM | MVGAL_MEMORY_TYPE_GDDR | MVGAL_MEMORY_TYPE_DDR | MVGAL_MEMORY_TYPE_LPDDR
  | MVGAL_MEMORY_TYPE_SRAM | MVGAL_MEMORY_TYPE_SHARED | MVGAL_MEMORY_TYPE_UNIFIED | MVGAL_MEMORY_TYPE_UNKNOWN

datatype mvgal_pcie_generation_t =
    MVGAL_PCIE_UNKNOWN | MVGAL_PCIE_GEN1 | MVGAL_PCIE_GEN2 | MVGAL_PCIE_GEN3 | MVGAL_PCIE_GEN4 | MVGAL_PCIE_GEN5 | MVGAL_PCIE_GEN6

type_synonym mvgal_api_type_t = u64

abbreviation (input) "MVGAL_API_VULKAN \<equiv> 0x1 :: u64"
abbreviation (input) "MVGAL_API_OPENGL \<equiv> 0x2 :: u64"
abbreviation (input) "MVGAL_API_OPENCL \<equiv> 0x4 :: u64"
abbreviation (input) "MVGAL_API_CUDA \<equiv> 0x8 :: u64"

abbreviation (input) "MVGAL_FEATURE_DMA_BUF \<equiv> 0x1 :: u64"
abbreviation (input) "MVGAL_FEATURE_CROSS_VENDOR \<equiv> 0x2 :: u64"
abbreviation (input) "MVGAL_FEATURE_UNIFIED_MEMORY \<equiv> 0x4 :: u64"
abbreviation (input) "MVGAL_FEATURE_P2P_TRANSFER \<equiv> 0x8 :: u64"
abbreviation (input) "MVGAL_FEATURE_GRAPHICS \<equiv> 0x10 :: u64"
abbreviation (input) "MVGAL_FEATURE_COMPUTE \<equiv> 0x20 :: u64"

text \<open>The fields \<^verbatim>\<open>in_use\<close> and \<^verbatim>\<open>reserved\<close> are zeroed and never used, and left out.\<close>

record mvgal_gpu_descriptor_t =
  g_id :: u32
  g_name :: string
  g_vendor :: mvgal_vendor_t
  g_type :: mvgal_gpu_type_t
  g_pci :: pci_address
  g_vendor_id :: "16 word"
  g_device_id :: "16 word"
  g_subsystem_vendor_id :: "16 word"
  g_subsystem_id :: "16 word"
  g_pcie_gen :: mvgal_pcie_generation_t
  g_pcie_lanes :: "8 word"
  g_vram_total :: u64
  g_vram_free :: u64
  g_vram_used :: u64
  g_memory_type :: mvgal_memory_type_t
  g_drm_node :: string
  g_drm_render_node :: string
  g_nvidia_node :: string
  g_kfd_node :: string
  g_features :: u64
  g_supported_apis :: "mvgal_api_type_t list"
  g_compute_score :: f32
  g_graphics_score :: f32
  g_memory_bandwidth_gbps :: f32
  g_pcie_bandwidth_gbps :: f32
  g_thermal_design_power_w :: f32
  g_current_power_w :: f32
  g_temperature_celsius :: f32
  g_utilization_percent :: f32
  g_driver_name :: string
  g_driver_version :: string
  g_driver_loaded :: bool
  g_enabled :: bool
  g_available :: bool

definition pci_zero :: pci_address where
  "pci_zero = \<lparr>pa_domain = 0, pa_bus = 0, pa_device = 0, pa_function = 0\<rparr>"

text \<open>What \<^verbatim>\<open>memset\<close> leaves. The pair of \<^verbatim>\<open>supported_apis\<close> and \<^verbatim>\<open>api_count\<close> is the list of the counted entries.\<close>

definition gpu_zero :: mvgal_gpu_descriptor_t where
  "gpu_zero =
     \<lparr>g_id = 0, g_name = [], g_vendor = MVGAL_VENDOR_UNKNOWN, g_type = MVGAL_GPU_TYPE_NONE, g_pci = pci_zero,
      g_vendor_id = 0, g_device_id = 0, g_subsystem_vendor_id = 0, g_subsystem_id = 0, g_pcie_gen = MVGAL_PCIE_UNKNOWN,
      g_pcie_lanes = 0, g_vram_total = 0, g_vram_free = 0, g_vram_used = 0, g_memory_type = MVGAL_MEMORY_TYPE_HBM,
      g_drm_node = [], g_drm_render_node = [], g_nvidia_node = [], g_kfd_node = [], g_features = 0, g_supported_apis = [],
      g_compute_score = F32 0, g_graphics_score = F32 0, g_memory_bandwidth_gbps = F32 0, g_pcie_bandwidth_gbps = F32 0,
      g_thermal_design_power_w = F32 0, g_current_power_w = F32 0, g_temperature_celsius = F32 0,
      g_utilization_percent = F32 0, g_driver_name = [], g_driver_version = [], g_driver_loaded = False,
      g_enabled = False, g_available = False\<rparr>"

section \<open>Defaults\<close>

definition vendor_name :: "mvgal_vendor_t \<Rightarrow> string" where
  "vendor_name v =
     (case v of
        MVGAL_VENDOR_AMD \<Rightarrow> ''AMD''
      | MVGAL_VENDOR_NVIDIA \<Rightarrow> ''NVIDIA''
      | MVGAL_VENDOR_INTEL \<Rightarrow> ''Intel''
      | MVGAL_VENDOR_MOORE_THREADS \<Rightarrow> ''Moore Threads''
      | MVGAL_VENDOR_QUALCOMM \<Rightarrow> ''Qualcomm''
      | MVGAL_VENDOR_ARM \<Rightarrow> ''ARM''
      | MVGAL_VENDOR_BROADCOM \<Rightarrow> ''Broadcom''
      | MVGAL_VENDOR_UNKNOWN \<Rightarrow> ''Unknown'')"

definition default_api_mask :: "mvgal_vendor_t \<Rightarrow> mvgal_api_type_t" where
  "default_api_mask v =
     (let api_mask = MVGAL_API_VULKAN OR MVGAL_API_OPENGL
      in case v of
           MVGAL_VENDOR_NVIDIA \<Rightarrow> api_mask OR (MVGAL_API_OPENCL OR MVGAL_API_CUDA)
         | MVGAL_VENDOR_AMD \<Rightarrow> api_mask OR MVGAL_API_OPENCL
         | MVGAL_VENDOR_INTEL \<Rightarrow> api_mask OR MVGAL_API_OPENCL
         | MVGAL_VENDOR_MOORE_THREADS \<Rightarrow> api_mask OR MVGAL_API_OPENCL
         | _ \<Rightarrow> api_mask)"

definition default_feature_mask :: "mvgal_vendor_t \<Rightarrow> mvgal_gpu_type_t \<Rightarrow> u64" where
  "default_feature_mask vendor ty =
     (let f0 = MVGAL_FEATURE_GRAPHICS OR MVGAL_FEATURE_COMPUTE;
          f1 = (if ty \<noteq> MVGAL_GPU_TYPE_VIRTUAL then f0 OR MVGAL_FEATURE_DMA_BUF else f0);
          f2 = (if vendor = MVGAL_VENDOR_AMD \<or> vendor = MVGAL_VENDOR_INTEL \<or> vendor = MVGAL_VENDOR_MOORE_THREADS
                then f1 OR MVGAL_FEATURE_CROSS_VENDOR else f1);
          f3 = (if vendor = MVGAL_VENDOR_NVIDIA \<or> vendor = MVGAL_VENDOR_AMD then f2 OR MVGAL_FEATURE_P2P_TRANSFER else f2)
      in if ty = MVGAL_GPU_TYPE_INTEGRATED then f3 OR MVGAL_FEATURE_UNIFIED_MEMORY else f3)"

definition default_memory_type :: "mvgal_gpu_type_t \<Rightarrow> mvgal_memory_type_t" where
  "default_memory_type ty =
     (if ty = MVGAL_GPU_TYPE_INTEGRATED then MVGAL_MEMORY_TYPE_SHARED
      else if ty = MVGAL_GPU_TYPE_VIRTUAL then MVGAL_MEMORY_TYPE_UNIFIED
      else MVGAL_MEMORY_TYPE_GDDR)"

definition default_compute_score :: "mvgal_vendor_t \<Rightarrow> mvgal_gpu_type_t \<Rightarrow> f32" where
  "default_compute_score vendor ty =
     (if ty = MVGAL_GPU_TYPE_VIRTUAL then F32 10
      else
        (let discrete = (ty = MVGAL_GPU_TYPE_DISCRETE)
         in case vendor of
              MVGAL_VENDOR_NVIDIA \<Rightarrow> if discrete then F32 92 else F32 55
            | MVGAL_VENDOR_AMD \<Rightarrow> if discrete then F32 84 else F32 52
            | MVGAL_VENDOR_INTEL \<Rightarrow> if discrete then F32 62 else F32 38
            | MVGAL_VENDOR_MOORE_THREADS \<Rightarrow> if discrete then F32 68 else F32 44
            | _ \<Rightarrow> if discrete then F32 45 else F32 28))"

definition default_graphics_score :: "mvgal_vendor_t \<Rightarrow> mvgal_gpu_type_t \<Rightarrow> f32" where
  "default_graphics_score vendor ty =
     (if ty = MVGAL_GPU_TYPE_VIRTUAL then F32 10
      else
        (let discrete = (ty = MVGAL_GPU_TYPE_DISCRETE)
         in case vendor of
              MVGAL_VENDOR_NVIDIA \<Rightarrow> if discrete then F32 90 else F32 50
            | MVGAL_VENDOR_AMD \<Rightarrow> if discrete then F32 86 else F32 54
            | MVGAL_VENDOR_INTEL \<Rightarrow> if discrete then F32 64 else F32 42
            | MVGAL_VENDOR_MOORE_THREADS \<Rightarrow> if discrete then F32 70 else F32 40
            | _ \<Rightarrow> if discrete then F32 42 else F32 24))"

definition default_memory_bandwidth_gbps :: "mvgal_gpu_type_t \<Rightarrow> f32" where
  "default_memory_bandwidth_gbps ty =
     (if ty = MVGAL_GPU_TYPE_DISCRETE then F32 448 else if ty = MVGAL_GPU_TYPE_INTEGRATED then F32 128 else F32 32)"

definition default_tdp_watts :: "mvgal_gpu_type_t \<Rightarrow> f32" where
  "default_tdp_watts ty =
     (if ty = MVGAL_GPU_TYPE_DISCRETE then F32 250 else if ty = MVGAL_GPU_TYPE_INTEGRATED then F32 45 else F32 25)"

section \<open>The PCIe link\<close>

text \<open>\<open>speed\<close>: the number \<^verbatim>\<open>sscanf\<close> reads at the front of the link speed, if there is one.\<close>

definition parse_pcie_generation :: "f32 option \<Rightarrow> mvgal_pcie_generation_t" where
  "parse_pcie_generation speed =
     (case speed of
        None \<Rightarrow> MVGAL_PCIE_UNKNOWN
      | Some s \<Rightarrow>
          if f32_le (F32 64) s then MVGAL_PCIE_GEN6
          else if f32_le (F32 32) s then MVGAL_PCIE_GEN5
          else if f32_le (F32 16) s then MVGAL_PCIE_GEN4
          else if f32_le (F32 8) s then MVGAL_PCIE_GEN3
          else if f32_le (F32 5) s then MVGAL_PCIE_GEN2
          else if f32_le (F32 (5 / 2)) s then MVGAL_PCIE_GEN1
          else MVGAL_PCIE_UNKNOWN)"

definition pcie_bandwidth_from_link :: "mvgal_pcie_generation_t \<Rightarrow> 8 word \<Rightarrow> f32" where
  "pcie_bandwidth_from_link generation lanes =
     (let per_lane_gbps =
        (case generation of
           MVGAL_PCIE_GEN1 \<Rightarrow> f32_lit 2
         | MVGAL_PCIE_GEN2 \<Rightarrow> f32_lit 4
         | MVGAL_PCIE_GEN3 \<Rightarrow> f32_lit (7877 / 1000)
         | MVGAL_PCIE_GEN4 \<Rightarrow> f32_lit (15754 / 1000)
         | MVGAL_PCIE_GEN5 \<Rightarrow> f32_lit (31508 / 1000)
         | MVGAL_PCIE_GEN6 \<Rightarrow> f32_lit (63016 / 1000)
         | MVGAL_PCIE_UNKNOWN \<Rightarrow> F32 0)
      in f32_mul per_lane_gbps (f32_of_int (uint lanes)))"

section \<open>API masks and scores\<close>

definition known_apis :: "mvgal_api_type_t list" where
  "known_apis = [0x1, 0x2, 0x4, 0x8, 0x10, 0x20, 0x40, 0x80, 0x100]"

definition api_mask_to_list :: "mvgal_api_type_t \<Rightarrow> nat \<Rightarrow> mvgal_api_type_t list" where
  "api_mask_to_list api_mask capacity = take capacity (filter (\<lambda>a. api_mask AND a \<noteq> 0) known_apis)"

definition gpu_api_mask :: "mvgal_gpu_descriptor_t \<Rightarrow> mvgal_api_type_t" where
  "gpu_api_mask gpu = foldl (OR) 0 (take 16 (g_supported_apis gpu))"

text \<open>
  The conversion of an integer to \<^verbatim>\<open>double\<close>, which keeps 53 binary digits; dividing a \<^verbatim>\<open>double\<close> of this size
  by a power of two is exact.
\<close>

definition round_double :: "rat \<Rightarrow> rat" where
  "round_double q =
     (if q = 0 then 0
      else (let u = 2 powi (flog2 \<bar>q\<bar> - 52) in of_int (round_half_even (q / u)) * u))"

definition bytes_gb :: "u64 \<Rightarrow> rat" where
  "bytes_gb n = round_double (of_int (uint n)) / 2 ^ 30"

definition gpu_selection_score :: "mvgal_gpu_descriptor_t \<Rightarrow> f32" where
  "gpu_selection_score gpu =
     f32_add (f32_add (g_compute_score gpu) (g_graphics_score gpu)) (f32_round (bytes_gb (g_vram_total gpu)))"

section \<open>Completing a descriptor\<close>

definition upper_hex4 :: "16 word \<Rightarrow> string" where
  "upper_hex4 w = map (\<lambda>k. let d = unat w div 16 ^ k mod 16 in if d < 10 then char_of (d + 48) else char_of (d + 55)) [3, 2, 1, 0]"

definition vendor_of_id :: "16 word \<Rightarrow> mvgal_vendor_t" where
  "vendor_of_id n =
     (if n = 0x1002 then MVGAL_VENDOR_AMD else if n = 0x10DE then MVGAL_VENDOR_NVIDIA
      else if n = 0x8086 then MVGAL_VENDOR_INTEL else if n = 0x1ED5 then MVGAL_VENDOR_MOORE_THREADS
      else MVGAL_VENDOR_UNKNOWN)"

definition default_vram :: "mvgal_gpu_type_t \<Rightarrow> u64" where
  "default_vram ty =
     (if ty = MVGAL_GPU_TYPE_INTEGRATED then 0x40000000 else if ty = MVGAL_GPU_TYPE_VIRTUAL then 0x100000000
      else 0x200000000)"

text \<open>The parts of \<^verbatim>\<open>finalize_gpu_descriptor\<close> in the order of the code; \<open>exists\<close> says which paths exist.\<close>

definition complete_kind :: "mvgal_gpu_descriptor_t \<Rightarrow> mvgal_gpu_descriptor_t" where
  "complete_kind g0 =
     (let g1 = (if g_vendor g0 = MVGAL_VENDOR_UNKNOWN then g0\<lparr>g_vendor := vendor_of_id (g_vendor_id g0)\<rparr> else g0);
          g2 = (if g_type g1 = MVGAL_GPU_TYPE_NONE
                then g1\<lparr>g_type := (if g_vendor g1 = MVGAL_VENDOR_INTEL then MVGAL_GPU_TYPE_INTEGRATED else MVGAL_GPU_TYPE_DISCRETE)\<rparr>
                else g1)
      in if g_memory_type g2 = MVGAL_MEMORY_TYPE_UNKNOWN then g2\<lparr>g_memory_type := default_memory_type (g_type g2)\<rparr> else g2)"

definition complete_vram :: "mvgal_gpu_descriptor_t \<Rightarrow> mvgal_gpu_descriptor_t" where
  "complete_vram g0 =
     (let g1 = (if g_vram_total g0 = 0 then g0\<lparr>g_vram_total := default_vram (g_type g0)\<rparr> else g0);
          g2 = (if g_vram_total g1 < g_vram_used g1 then g1\<lparr>g_vram_used := g_vram_total g1\<rparr> else g1)
      in g2\<lparr>g_vram_free := g_vram_total g2 - g_vram_used g2\<rparr>)"

definition complete_capabilities :: "mvgal_gpu_descriptor_t \<Rightarrow> mvgal_gpu_descriptor_t" where
  "complete_capabilities g0 =
     (let g1 = (if g_features g0 = 0 then g0\<lparr>g_features := default_feature_mask (g_vendor g0) (g_type g0)\<rparr> else g0)
      in if g_supported_apis g1 = [] then g1\<lparr>g_supported_apis := api_mask_to_list (default_api_mask (g_vendor g1)) 16\<rparr> else g1)"

definition complete_scores :: "mvgal_gpu_descriptor_t \<Rightarrow> mvgal_gpu_descriptor_t" where
  "complete_scores g0 =
     (let g1 = (if f32_le (g_compute_score g0) (F32 0)
                then g0\<lparr>g_compute_score := default_compute_score (g_vendor g0) (g_type g0)\<rparr> else g0)
      in if f32_le (g_graphics_score g1) (F32 0)
         then g1\<lparr>g_graphics_score := default_graphics_score (g_vendor g1) (g_type g1)\<rparr> else g1)"

definition complete_links :: "mvgal_gpu_descriptor_t \<Rightarrow> mvgal_gpu_descriptor_t" where
  "complete_links g0 =
     (let g1 = (if f32_le (g_memory_bandwidth_gbps g0) (F32 0)
                then g0\<lparr>g_memory_bandwidth_gbps := default_memory_bandwidth_gbps (g_type g0)\<rparr> else g0);
          g2 = (if f32_le (g_pcie_bandwidth_gbps g1) (F32 0) \<and> g_pcie_gen g1 \<noteq> MVGAL_PCIE_UNKNOWN \<and> 0 < g_pcie_lanes g1
                then g1\<lparr>g_pcie_bandwidth_gbps := pcie_bandwidth_from_link (g_pcie_gen g1) (g_pcie_lanes g1)\<rparr> else g1)
      in if f32_le (g_thermal_design_power_w g2) (F32 0)
         then g2\<lparr>g_thermal_design_power_w := default_tdp_watts (g_type g2)\<rparr> else g2)"

definition complete_names :: "mvgal_gpu_descriptor_t \<Rightarrow> mvgal_gpu_descriptor_t" where
  "complete_names g0 =
     (let g1 = (if g_driver_name g0 = []
                then g0\<lparr>g_driver_name := (if g_nvidia_node g0 \<noteq> [] then ''nvidia''
                                         else if g_drm_node g0 \<noteq> [] then ''drm'' else ''unknown'')\<rparr>
                else g0);
          g2 = (if g_driver_version g1 = [] then g1\<lparr>g_driver_version := ''0.0''\<rparr> else g1)
      in if g_name g2 = []
         then g2\<lparr>g_name := vendor_name (g_vendor g2) @ '' GPU '' @ upper_hex4 (g_device_id g2) @ '' (''
                    @ dec_digits (nat \<lfloor>bytes_gb (g_vram_total g2)\<rfloor>) @ '' GiB)''\<rparr>
         else g2)"

definition finalize_gpu_descriptor :: "(string \<Rightarrow> bool) \<Rightarrow> mvgal_gpu_descriptor_t \<Rightarrow> mvgal_gpu_descriptor_t" where
  "finalize_gpu_descriptor exists gpu =
     (let g = complete_names (complete_links (complete_scores (complete_capabilities (complete_vram (complete_kind gpu)))))
      in g\<lparr>g_driver_loaded := g_driver_name g \<noteq> [],
           g_available := exists (g_drm_node g) \<or> exists (g_drm_render_node g) \<or> exists (g_nvidia_node g) \<or> exists (g_kfd_node g),
           g_enabled := True\<rparr>)"

section \<open>What a complete descriptor satisfies\<close>

text \<open>The fields that identify a GPU are left alone.\<close>

definition identity_of :: "mvgal_gpu_descriptor_t \<Rightarrow> u32 \<times> pci_address \<times> string \<times> string \<times> string \<times> string" where
  "identity_of g = (g_id g, g_pci g, g_drm_node g, g_drm_render_node g, g_nvidia_node g, g_kfd_node g)"

definition gpu_complete :: "mvgal_gpu_descriptor_t \<Rightarrow> bool" where
  "gpu_complete g \<longleftrightarrow> g_type g \<noteq> MVGAL_GPU_TYPE_NONE \<and> g_memory_type g \<noteq> MVGAL_MEMORY_TYPE_UNKNOWN
     \<and> g_vram_total g \<noteq> 0 \<and> g_vram_used g \<le> g_vram_total g \<and> g_vram_free g = g_vram_total g - g_vram_used g
     \<and> g_features g \<noteq> 0 \<and> g_supported_apis g \<noteq> [] \<and> \<not> f32_le (g_compute_score g) (F32 0) \<and> \<not> f32_le (g_graphics_score g) (F32 0)
     \<and> g_name g \<noteq> [] \<and> g_driver_name g \<noteq> [] \<and> g_driver_version g \<noteq> []"

lemma completion_identity [simp]:
  "identity_of (complete_kind g) = identity_of g" "identity_of (complete_vram g) = identity_of g"
  "identity_of (complete_capabilities g) = identity_of g" "identity_of (complete_scores g) = identity_of g"
  "identity_of (complete_links g) = identity_of g" "identity_of (complete_names g) = identity_of g"
  by (simp_all add: identity_of_def complete_kind_def complete_vram_def complete_capabilities_def complete_scores_def
      complete_links_def complete_names_def Let_def)

lemma finalize_identity [simp]: "identity_of (finalize_gpu_descriptor e g) = identity_of g"
proof -
  have "identity_of (x\<lparr>g_driver_loaded := l, g_available := v, g_enabled := n\<rparr>) = identity_of x" for x l v n
    by (simp add: identity_of_def)
  then show ?thesis by (simp add: finalize_gpu_descriptor_def Let_def)
qed

lemma default_masks_nonzero: "default_feature_mask v t \<noteq> 0" "api_mask_to_list (default_api_mask v) 16 \<noteq> []"
proof -
  have "bit (default_feature_mask v t) 5" by (simp add: default_feature_mask_def bit_or_iff Let_def)
  then show "default_feature_mask v t \<noteq> 0" by auto
  show "api_mask_to_list (default_api_mask v) 16 \<noteq> []" by (cases v) (simp_all add: api_mask_to_list_def default_api_mask_def known_apis_def Let_def)
qed

lemma complete_kind_set: "g_type (complete_kind g) \<noteq> MVGAL_GPU_TYPE_NONE" "g_memory_type (complete_kind g) \<noteq> MVGAL_MEMORY_TYPE_UNKNOWN"
  by (simp_all add: complete_kind_def default_memory_type_def Let_def)

lemma complete_vram_set:
  "g_vram_total (complete_vram g) \<noteq> 0" "g_vram_used (complete_vram g) \<le> g_vram_total (complete_vram g)"
  "g_vram_free (complete_vram g) = g_vram_total (complete_vram g) - g_vram_used (complete_vram g)"
  by (auto simp: complete_vram_def default_vram_def Let_def)

lemma complete_capabilities_set: "g_features (complete_capabilities g) \<noteq> 0" "g_supported_apis (complete_capabilities g) \<noteq> []"
  using default_masks_nonzero by (simp_all add: complete_capabilities_def Let_def)

lemma complete_scores_set:
  "\<not> f32_le (g_compute_score (complete_scores g)) (F32 0)" "\<not> f32_le (g_graphics_score (complete_scores g)) (F32 0)"
proof -
  have "\<not> f32_le (default_compute_score v t) (F32 0)" "\<not> f32_le (default_graphics_score v t) (F32 0)" for v t
    by (cases v; simp add: f32_le_def default_compute_score_def default_graphics_score_def Let_def)+
  then show "\<not> f32_le (g_compute_score (complete_scores g)) (F32 0)" "\<not> f32_le (g_graphics_score (complete_scores g)) (F32 0)"
    by (simp_all add: complete_scores_def Let_def)
qed

lemma complete_names_set: "g_name (complete_names g) \<noteq> []" "g_driver_name (complete_names g) \<noteq> []" "g_driver_version (complete_names g) \<noteq> []"
  by (simp_all add: complete_names_def Let_def)

text \<open>What the later parts leave alone.\<close>

lemma completion_frame [simp]:
  "g_type (complete_vram g) = g_type g" "g_memory_type (complete_vram g) = g_memory_type g"
  "g_type (complete_capabilities g) = g_type g" "g_memory_type (complete_capabilities g) = g_memory_type g"
  "g_vram_total (complete_capabilities g) = g_vram_total g" "g_vram_used (complete_capabilities g) = g_vram_used g" "g_vram_free (complete_capabilities g) = g_vram_free g"
  "g_type (complete_scores g) = g_type g" "g_memory_type (complete_scores g) = g_memory_type g"
  "g_vram_total (complete_scores g) = g_vram_total g" "g_vram_used (complete_scores g) = g_vram_used g" "g_vram_free (complete_scores g) = g_vram_free g"
  "g_features (complete_scores g) = g_features g" "g_supported_apis (complete_scores g) = g_supported_apis g"
  "g_type (complete_links g) = g_type g" "g_memory_type (complete_links g) = g_memory_type g"
  "g_vram_total (complete_links g) = g_vram_total g" "g_vram_used (complete_links g) = g_vram_used g" "g_vram_free (complete_links g) = g_vram_free g"
  "g_features (complete_links g) = g_features g" "g_supported_apis (complete_links g) = g_supported_apis g"
  "g_compute_score (complete_links g) = g_compute_score g" "g_graphics_score (complete_links g) = g_graphics_score g"
  "g_type (complete_names g) = g_type g" "g_memory_type (complete_names g) = g_memory_type g"
  "g_vram_total (complete_names g) = g_vram_total g" "g_vram_used (complete_names g) = g_vram_used g" "g_vram_free (complete_names g) = g_vram_free g"
  "g_features (complete_names g) = g_features g" "g_supported_apis (complete_names g) = g_supported_apis g"
  "g_compute_score (complete_names g) = g_compute_score g" "g_graphics_score (complete_names g) = g_graphics_score g"
  by (simp_all add: complete_vram_def complete_capabilities_def complete_scores_def complete_links_def complete_names_def Let_def)

lemma finalize_complete: "gpu_complete (finalize_gpu_descriptor e g) \<and> g_enabled (finalize_gpu_descriptor e g)"
  by (simp add: gpu_complete_def finalize_gpu_descriptor_def Let_def complete_kind_set complete_vram_set complete_capabilities_set
      complete_scores_set complete_names_set)

lemma gpu_complete_state [simp]: "gpu_complete (g\<lparr>g_enabled := b\<rparr>) = gpu_complete g" "gpu_complete (g\<lparr>g_id := i\<rparr>) = gpu_complete g"
  "gpu_complete (g\<lparr>g_available := a, g_driver_loaded := l\<rparr>) = gpu_complete g"
  by (simp_all add: gpu_complete_def)

end
