(* ===== verification/Gpu_Manager.thy ===== *)
theory Gpu_Manager
  imports Gpu_Descriptor
begin

unbundle bit_operations_syntax

text \<open>
  The table of GPUs (\<^verbatim>\<open>src/userspace/daemon/gpu_manager.c\<close>): the scan of the system that fills it and the
  operations on it. What the system shows (directories, links, the contents of files, existing paths) is an
  argument of the scan. Functions that clients register are numbers, and their calls are recorded in the
  state; they are made without the lock and are taken not to call the manager. The places of the table that
  are in use are counted by a natural number, since they are at most sixteen.
\<close>

section \<open>State\<close>

record mvgal_gpu_health_thresholds_t =
  ht_temp_warning_celsius :: f32
  ht_temp_critical_celsius :: f32
  ht_utilization_warning :: f32
  ht_utilization_critical :: f32
  ht_memory_warning :: f32
  ht_memory_critical :: f32

definition DEFAULT_HEALTH_THRESHOLDS :: mvgal_gpu_health_thresholds_t where
  "DEFAULT_HEALTH_THRESHOLDS =
     \<lparr>ht_temp_warning_celsius = F32 80, ht_temp_critical_celsius = F32 95, ht_utilization_warning = F32 80,
      ht_utilization_critical = F32 95, ht_memory_warning = F32 85, ht_memory_critical = F32 95\<rparr>"

definition thresholds_zero :: mvgal_gpu_health_thresholds_t where
  "thresholds_zero =
     \<lparr>ht_temp_warning_celsius = F32 0, ht_temp_critical_celsius = F32 0, ht_utilization_warning = F32 0,
      ht_utilization_critical = F32 0, ht_memory_warning = F32 0, ht_memory_critical = F32 0\<rparr>"

text \<open>A callback with its user data; \<open>None\<close> is the NULL of a free place.\<close>

type_synonym mvgal_gpu_callback_entry_t = "(nat \<times> nat) option"

record mvgal_custom_driver_entry_t =
  dr_name :: string
  dr_probe_func :: nat
  dr_init_func :: nat
  dr_user_data :: nat

text \<open>
  \<open>gm_calls\<close> is the record of the callbacks made, with the user data and the GPU. The drivers are the
  first \<^verbatim>\<open>driver_count\<close> entries of their array.
\<close>

record mvgal_gpu_manager_state_t =
  gm_gpus :: "mvgal_gpu_descriptor_t list"
  gm_health_thresholds :: "mvgal_gpu_health_thresholds_t list"
  gm_callbacks :: "mvgal_gpu_callback_entry_t list"
  gm_drivers :: "mvgal_custom_driver_entry_t list"
  gm_gpu_count :: nat
  gm_initialized :: bool
  gm_scanned :: bool
  gm_calls :: "(nat \<times> nat \<times> mvgal_gpu_descriptor_t) list"

abbreviation (input) MAX_GPUS :: nat where "MAX_GPUS \<equiv> 16"
abbreviation (input) MAX_GPU_CALLBACKS :: nat where "MAX_GPU_CALLBACKS \<equiv> 8"
abbreviation (input) MAX_CUSTOM_DRIVERS :: nat where "MAX_CUSTOM_DRIVERS \<equiv> 8"
abbreviation (input) PATH_MAX :: nat where "PATH_MAX \<equiv> 4096"

definition g_gpu_manager_init :: mvgal_gpu_manager_state_t where
  "g_gpu_manager_init =
     \<lparr>gm_gpus = replicate MAX_GPUS gpu_zero, gm_health_thresholds = replicate MAX_GPUS thresholds_zero,
      gm_callbacks = replicate MAX_GPU_CALLBACKS None, gm_drivers = [], gm_gpu_count = 0, gm_initialized = False,
      gm_scanned = False, gm_calls = []\<rparr>"

section \<open>The system\<close>

text \<open>
  What the manager can see: the entries of a directory in the order \<^verbatim>\<open>readdir\<close> gives them, resolved links,
  file contents and existing paths; \<open>sy_scan_float\<close> is the number \<^verbatim>\<open>sscanf\<close> reads with \<^verbatim>\<open>%f\<close>.
\<close>

record system_view =
  sy_dir :: "string \<Rightarrow> string list option"
  sy_realpath :: "string \<Rightarrow> string option"
  sy_file :: "string \<Rightarrow> string option"
  sy_exists :: "string \<Rightarrow> bool"
  sy_scan_float :: "string \<Rightarrow> f32 option"

definition normalize_node_path :: "system_view \<Rightarrow> string \<Rightarrow> string option" where
  "normalize_node_path sys path =
     (let p = (case sy_realpath sys path of Some resolved \<Rightarrow> resolved | None \<Rightarrow> path)
      in if PATH_MAX \<le> length p then None else Some p)"

definition read_link_basename :: "system_view \<Rightarrow> string \<Rightarrow> nat \<Rightarrow> string option" where
  "read_link_basename sys path buffer_size =
     (case sy_realpath sys path of
        None \<Rightarrow> None
      | Some resolved \<Rightarrow> if buffer_size \<le> length (basename resolved) then None else Some (basename resolved))"

definition build_path_suffix :: "nat \<Rightarrow> string \<Rightarrow> string \<Rightarrow> string option" where
  "build_path_suffix buffer_size base suffix =
     (if buffer_size \<le> length base + length suffix then None else Some (base @ suffix))"

definition node_matches :: "system_view \<Rightarrow> string \<Rightarrow> string \<Rightarrow> bool" where
  "node_matches sys stored_path query_path \<longleftrightarrow>
     (if stored_path = [] then False
      else if stored_path = query_path then True
      else case (normalize_node_path sys stored_path, normalize_node_path sys query_path) of
             (Some a, Some b) \<Rightarrow> a = b
           | _ \<Rightarrow> False)"

fun read_first_u64 :: "system_view \<Rightarrow> string \<Rightarrow> string list \<Rightarrow> u64" where
  "read_first_u64 sys device_root [] = 0"
| "read_first_u64 sys device_root (p # ps) =
     (case read_file_u64 (sy_file sys (device_root @ ''/'' @ p)) of
        Some value \<Rightarrow> value
      | None \<Rightarrow> read_first_u64 sys device_root ps)"

definition gpu_identity_matches :: "system_view \<Rightarrow> mvgal_gpu_descriptor_t \<Rightarrow> mvgal_gpu_descriptor_t \<Rightarrow> bool" where
  "gpu_identity_matches sys left right \<longleftrightarrow>
     (if g_pci left = g_pci right \<and> g_pci left \<noteq> pci_zero then True
      else node_matches sys (g_drm_node left) (g_drm_node right)
         \<or> node_matches sys (g_drm_render_node left) (g_drm_render_node right)
         \<or> node_matches sys (g_nvidia_node left) (g_nvidia_node right))"

section \<open>Scanning\<close>

fun find_render_node_for_device :: "system_view \<Rightarrow> string \<Rightarrow> string list \<Rightarrow> string option" where
  "find_render_node_for_device sys device_realpath [] = None"
| "find_render_node_for_device sys device_realpath (d_name # entries) =
     (if parse_indexed_node d_name ''renderD'' \<noteq> None
         \<and> sy_realpath sys (''/sys/class/drm/'' @ d_name @ ''/device'') = Some device_realpath
      then Some (''/dev/dri/'' @ take 30 d_name)
      else find_render_node_for_device sys device_realpath entries)"

text \<open>The descriptor that the card \<open>d_name\<close> gets; \<open>drm\<close> are the entries of \<^verbatim>\<open>/sys/class/drm\<close>.\<close>

definition sysfs_u16 :: "system_view \<Rightarrow> string \<Rightarrow> string \<Rightarrow> 16 word" where
  "sysfs_u16 sys device_link suffix =
     (case build_path_suffix PATH_MAX device_link suffix of
        None \<Rightarrow> 0
      | Some path \<Rightarrow> (case read_file_u16 (sy_file sys path) of None \<Rightarrow> 0 | Some v \<Rightarrow> v))"

definition sysfs_pcie_gen :: "system_view \<Rightarrow> string \<Rightarrow> mvgal_pcie_generation_t" where
  "sysfs_pcie_gen sys device_link =
     (case build_path_suffix PATH_MAX device_link ''/current_link_speed'' of
        None \<Rightarrow> MVGAL_PCIE_UNKNOWN
      | Some path \<Rightarrow>
          (case read_file_trimmed (sy_file sys path) 64 of
             None \<Rightarrow> MVGAL_PCIE_UNKNOWN
           | Some link_speed \<Rightarrow> parse_pcie_generation (sy_scan_float sys link_speed)))"

definition sysfs_lanes :: "system_view \<Rightarrow> string \<Rightarrow> 8 word" where
  "sysfs_lanes sys device_link =
     (case build_path_suffix PATH_MAX device_link ''/current_link_width'' of
        None \<Rightarrow> 0
      | Some path \<Rightarrow>
          (case read_file_u64 (sy_file sys path) of
             None \<Rightarrow> 0
           | Some lanes \<Rightarrow> if lanes \<le> 0xFF then ucast lanes else 0))"

definition drm_gpu :: "system_view \<Rightarrow> string list \<Rightarrow> string \<Rightarrow> string \<Rightarrow> nat \<Rightarrow> mvgal_gpu_descriptor_t" where
  "drm_gpu sys drm d_name device_realpath gpu_id =
     (let device_link = ''/sys/class/drm/'' @ d_name @ ''/device'';
          vendor_id = sysfs_u16 sys device_link ''/vendor''
      in finalize_gpu_descriptor (sy_exists sys)
           (gpu_zero\<lparr>g_id := of_nat gpu_id, g_memory_type := MVGAL_MEMORY_TYPE_UNKNOWN, g_pcie_gen := sysfs_pcie_gen sys device_link,
              g_drm_node := ''/dev/dri/'' @ take 30 d_name,
              g_drm_render_node := (case find_render_node_for_device sys device_realpath drm of None \<Rightarrow> [] | Some n \<Rightarrow> n),
              g_vendor_id := vendor_id, g_device_id := sysfs_u16 sys device_link ''/device'',
              g_subsystem_vendor_id := sysfs_u16 sys device_link ''/subsystem_vendor'',
              g_subsystem_id := sysfs_u16 sys device_link ''/subsystem_device'',
              g_pci := (case parse_pci_address device_realpath of None \<Rightarrow> pci_zero | Some p \<Rightarrow> p),
              g_pcie_lanes := sysfs_lanes sys device_link,
              g_type := (if vendor_id = 0x8086 then MVGAL_GPU_TYPE_INTEGRATED else MVGAL_GPU_TYPE_DISCRETE),
              g_vram_total := read_first_u64 sys device_link [''mem_info_vram_total'', ''mem_info_vis_vram_total'', ''lmem_total_bytes''],
              g_vram_used := read_first_u64 sys device_link [''mem_info_vram_used'', ''mem_info_vis_vram_used'', ''lmem_used_bytes''],
              g_driver_name :=
                (case build_path_suffix PATH_MAX device_link ''/driver'' of
                   None \<Rightarrow> []
                 | Some path \<Rightarrow> (case read_link_basename sys path 64 of None \<Rightarrow> [] | Some n \<Rightarrow> n)),
              g_kfd_node := (if vendor_id = 0x1002 \<and> sy_exists sys ''/dev/kfd'' then ''/dev/kfd'' else [])\<rparr>))"

text \<open>A new GPU goes to the end of the used part of the array, with the default thresholds.\<close>

definition add_gpu :: "mvgal_gpu_descriptor_t \<Rightarrow> mvgal_gpu_manager_state_t \<Rightarrow> mvgal_gpu_manager_state_t" where
  "add_gpu gpu s =
     s\<lparr>gm_gpus := (gm_gpus s)[gm_gpu_count s := gpu],
       gm_health_thresholds := (gm_health_thresholds s)[gm_gpu_count s := DEFAULT_HEALTH_THRESHOLDS],
       gm_gpu_count := gm_gpu_count s + 1\<rparr>"

fun drm_loop :: "system_view \<Rightarrow> string list \<Rightarrow> string list \<Rightarrow> mvgal_gpu_manager_state_t \<Rightarrow> mvgal_gpu_manager_state_t" where
  "drm_loop sys drm [] s = s"
| "drm_loop sys drm (d_name # entries) s =
     (if MAX_GPUS \<le> gm_gpu_count s then s
      else if parse_indexed_node d_name ''card'' = None then drm_loop sys drm entries s
      else case sy_realpath sys (''/sys/class/drm/'' @ d_name @ ''/device'') of
             None \<Rightarrow> drm_loop sys drm entries s
           | Some device_realpath \<Rightarrow>
               drm_loop sys drm entries (add_gpu (drm_gpu sys drm d_name device_realpath (gm_gpu_count s)) s))"

definition scan_drm_devices_locked :: "system_view \<Rightarrow> mvgal_gpu_manager_state_t \<Rightarrow> mvgal_gpu_manager_state_t" where
  "scan_drm_devices_locked sys s =
     (case sy_dir sys ''/sys/class/drm'' of None \<Rightarrow> s | Some entries \<Rightarrow> drm_loop sys entries entries s)"

definition nvidia_gpu :: "system_view \<Rightarrow> string \<Rightarrow> nat \<Rightarrow> mvgal_gpu_descriptor_t" where
  "nvidia_gpu sys node_path gpu_id =
     finalize_gpu_descriptor (sy_exists sys)
       (gpu_zero\<lparr>g_id := of_nat gpu_id, g_memory_type := MVGAL_MEMORY_TYPE_UNKNOWN, g_pcie_gen := MVGAL_PCIE_UNKNOWN,
          g_vendor := MVGAL_VENDOR_NVIDIA, g_vendor_id := 0x10DE, g_type := MVGAL_GPU_TYPE_DISCRETE,
          g_nvidia_node := node_path, g_driver_name := ''nvidia'', g_vram_total := 0x200000000\<rparr>)"

text \<open>A node is attached to the first NVIDIA GPU without one, or makes a new GPU.\<close>

definition unattached :: "mvgal_gpu_manager_state_t \<Rightarrow> nat option" where
  "unattached s = find (\<lambda>i. g_vendor (gm_gpus s ! i) = MVGAL_VENDOR_NVIDIA \<and> g_nvidia_node (gm_gpus s ! i) = []) [0..<gm_gpu_count s]"

fun nvidia_loop :: "system_view \<Rightarrow> string list \<Rightarrow> mvgal_gpu_manager_state_t \<Rightarrow> mvgal_gpu_manager_state_t" where
  "nvidia_loop sys [] s = s"
| "nvidia_loop sys (d_name # entries) s =
     (if MAX_GPUS \<le> gm_gpu_count s then s
      else if parse_indexed_node d_name ''nvidia'' = None then nvidia_loop sys entries s
      else
        (let node_path = ''/dev/'' @ take 30 d_name
         in case unattached s of
              Some i \<Rightarrow>
                nvidia_loop sys entries
                  (s\<lparr>gm_gpus := (gm_gpus s)[i := finalize_gpu_descriptor (sy_exists sys) ((gm_gpus s ! i)\<lparr>g_nvidia_node := node_path\<rparr>)]\<rparr>)
            | None \<Rightarrow> nvidia_loop sys entries (add_gpu (nvidia_gpu sys node_path (gm_gpu_count s)) s)))"

definition scan_nvidia_devices_locked :: "system_view \<Rightarrow> mvgal_gpu_manager_state_t \<Rightarrow> mvgal_gpu_manager_state_t" where
  "scan_nvidia_devices_locked sys s = (case sy_dir sys ''/dev'' of None \<Rightarrow> s | Some entries \<Rightarrow> nvidia_loop sys entries s)"

definition placeholder_gpu :: "system_view \<Rightarrow> nat \<Rightarrow> mvgal_gpu_descriptor_t" where
  "placeholder_gpu sys gpu_id =
     (finalize_gpu_descriptor (sy_exists sys)
        (gpu_zero\<lparr>g_id := of_nat gpu_id, g_vendor := MVGAL_VENDOR_UNKNOWN, g_type := MVGAL_GPU_TYPE_VIRTUAL,
           g_memory_type := MVGAL_MEMORY_TYPE_UNIFIED, g_pcie_gen := MVGAL_PCIE_UNKNOWN, g_vram_total := 0x100000000,
           g_name := ''MVGAL Placeholder GPU'', g_driver_name := ''mvgal'',
           g_features := MVGAL_FEATURE_GRAPHICS OR MVGAL_FEATURE_COMPUTE,
           g_supported_apis := api_mask_to_list (MVGAL_API_VULKAN OR MVGAL_API_OPENGL OR MVGAL_API_OPENCL) 16,
           g_compute_score := F32 10, g_graphics_score := F32 10\<rparr>))\<lparr>g_available := False, g_driver_loaded := False\<rparr>"

definition add_placeholder_gpu_locked :: "system_view \<Rightarrow> mvgal_gpu_manager_state_t \<Rightarrow> mvgal_gpu_manager_state_t" where
  "add_placeholder_gpu_locked sys s =
     (if MAX_GPUS \<le> gm_gpu_count s then s else add_gpu (placeholder_gpu sys (gm_gpu_count s)) s)"

text \<open>A GPU that was in the table before keeps its switch and its thresholds.\<close>

definition restore_one ::
    "system_view \<Rightarrow> mvgal_gpu_descriptor_t list \<Rightarrow> mvgal_gpu_health_thresholds_t list \<Rightarrow> nat \<Rightarrow> nat \<Rightarrow>
       mvgal_gpu_manager_state_t \<Rightarrow> mvgal_gpu_manager_state_t" where
  "restore_one sys old_gpus old_thresholds old_gpu_count i s =
     (let s1 = (case find (\<lambda>j. gpu_identity_matches sys (gm_gpus s ! i) (old_gpus ! j)) [0..<old_gpu_count] of
                  Some j \<Rightarrow> s\<lparr>gm_gpus := (gm_gpus s)[i := (gm_gpus s ! i)\<lparr>g_enabled := g_enabled (old_gpus ! j)\<rparr>],
                              gm_health_thresholds := (gm_health_thresholds s)[i := old_thresholds ! j]\<rparr>
                | None \<Rightarrow> s\<lparr>gm_health_thresholds := (gm_health_thresholds s)[i := DEFAULT_HEALTH_THRESHOLDS]\<rparr>)
      in s1\<lparr>gm_gpus := (gm_gpus s1)[i := (gm_gpus s1 ! i)\<lparr>g_id := of_nat i\<rparr>]\<rparr>)"

definition restore_persisted_state_locked ::
    "system_view \<Rightarrow> mvgal_gpu_descriptor_t list \<Rightarrow> mvgal_gpu_health_thresholds_t list \<Rightarrow> nat \<Rightarrow>
       mvgal_gpu_manager_state_t \<Rightarrow> mvgal_gpu_manager_state_t" where
  "restore_persisted_state_locked sys old_gpus old_thresholds old_gpu_count s =
     fold (restore_one sys old_gpus old_thresholds old_gpu_count) [0..<gm_gpu_count s] s"

definition scanned_table :: "system_view \<Rightarrow> mvgal_gpu_manager_state_t \<Rightarrow> mvgal_gpu_manager_state_t" where
  "scanned_table sys s =
     (let s1 = scan_nvidia_devices_locked sys (scan_drm_devices_locked sys
                 (s\<lparr>gm_gpus := replicate MAX_GPUS gpu_zero, gm_health_thresholds := replicate MAX_GPUS thresholds_zero,
                    gm_gpu_count := 0\<rparr>))
      in if gm_gpu_count s1 = 0 then add_placeholder_gpu_locked sys s1 else s1)"

definition rescan_gpus_locked :: "system_view \<Rightarrow> mvgal_gpu_manager_state_t \<Rightarrow> mvgal_gpu_manager_state_t" where
  "rescan_gpus_locked sys s =
     (restore_persisted_state_locked sys (gm_gpus s) (gm_health_thresholds s) (gm_gpu_count s) (scanned_table sys s))
       \<lparr>gm_scanned := True\<rparr>"

definition notify_gpu_callbacks :: "mvgal_gpu_descriptor_t list \<Rightarrow> mvgal_gpu_manager_state_t \<Rightarrow> mvgal_gpu_manager_state_t" where
  "notify_gpu_callbacks snapshot s =
     s\<lparr>gm_calls := gm_calls s @
         [(callback, user_data, g). (callback, user_data) \<leftarrow> List.map_filter id (gm_callbacks s), g \<leftarrow> snapshot]\<rparr>"

section \<open>Start and stop\<close>

definition mvgal_gpu_manager_init :: "system_view \<Rightarrow> mvgal_gpu_manager_state_t \<Rightarrow> mvgal_error_t \<times> mvgal_gpu_manager_state_t" where
  "mvgal_gpu_manager_init sys s =
     (if gm_initialized s then (MVGAL_SUCCESS, s)
      else
        (let s1 = rescan_gpus_locked sys (s\<lparr>gm_initialized := True\<rparr>)
         in (MVGAL_SUCCESS, notify_gpu_callbacks (take (gm_gpu_count s1) (gm_gpus s1)) s1)))"

definition ensure_gpu_manager_initialized :: "system_view \<Rightarrow> mvgal_gpu_manager_state_t \<Rightarrow> mvgal_error_t \<times> mvgal_gpu_manager_state_t" where
  "ensure_gpu_manager_initialized sys s = (if gm_initialized s then (MVGAL_SUCCESS, s) else mvgal_gpu_manager_init sys s)"

text \<open>The monitor thread is stopped before, if it runs; that is in \<open>Gpu_Health\<close>.\<close>

definition mvgal_gpu_manager_shutdown :: "mvgal_gpu_manager_state_t \<Rightarrow> mvgal_gpu_manager_state_t" where
  "mvgal_gpu_manager_shutdown s =
     (if \<not> gm_initialized s then s
      else s\<lparr>gm_gpus := replicate MAX_GPUS gpu_zero, gm_health_thresholds := replicate MAX_GPUS thresholds_zero,
             gm_gpu_count := 0, gm_scanned := False, gm_initialized := False\<rparr>)"

section \<open>Operations\<close>

text \<open>Every operation starts the manager if need be, and then works under the lock.\<close>

definition with_manager ::
    "system_view \<Rightarrow> 'a \<Rightarrow> (mvgal_gpu_manager_state_t \<Rightarrow> 'a \<times> mvgal_gpu_manager_state_t) \<Rightarrow>
       mvgal_gpu_manager_state_t \<Rightarrow> 'a \<times> mvgal_gpu_manager_state_t" where
  "with_manager sys failed body s =
     (let (err, s1) = ensure_gpu_manager_initialized sys s in if err \<noteq> MVGAL_SUCCESS then (failed, s1) else body s1)"

text \<open>A failed start is reported as the number of its error code, 16, where a count is returned.\<close>

definition mvgal_gpu_get_count :: "system_view \<Rightarrow> mvgal_gpu_manager_state_t \<Rightarrow> int \<times> mvgal_gpu_manager_state_t" where
  "mvgal_gpu_get_count sys = with_manager sys 16 (\<lambda>s. (int (gm_gpu_count s), s))"

text \<open>\<open>count\<close> is the size of the caller's array, \<open>None\<close> when it passes NULL.\<close>

definition mvgal_gpu_enumerate ::
    "system_view \<Rightarrow> u32 option \<Rightarrow> mvgal_gpu_manager_state_t \<Rightarrow> (int \<times> mvgal_gpu_descriptor_t list) \<times> mvgal_gpu_manager_state_t" where
  "mvgal_gpu_enumerate sys count =
     with_manager sys (16, []) (\<lambda>s.
       (case count of
          None \<Rightarrow> (int (gm_gpu_count s), [])
        | Some c \<Rightarrow>
            if c = 0 then (int (gm_gpu_count s), [])
            else (let to_copy = min (unat c) (gm_gpu_count s) in (int to_copy, take to_copy (gm_gpus s))), s))"

definition gpu_at ::
    "(mvgal_gpu_descriptor_t \<Rightarrow> 'a) \<Rightarrow> system_view \<Rightarrow> u32 \<Rightarrow> bool \<Rightarrow> mvgal_gpu_manager_state_t \<Rightarrow>
       (mvgal_error_t \<times> 'a option) \<times> mvgal_gpu_manager_state_t" where
  "gpu_at f sys index out s =
     (if \<not> out then ((MVGAL_ERROR_INVALID_ARGUMENT, None), s)
      else with_manager sys (MVGAL_ERROR_INITIALIZATION, None) (\<lambda>s.
             (if gm_gpu_count s \<le> unat index then (MVGAL_ERROR_GPU_NOT_FOUND, None)
              else (MVGAL_SUCCESS, Some (f (gm_gpus s ! unat index))), s)) s)"

definition mvgal_gpu_get_descriptor ::
    "system_view \<Rightarrow> u32 \<Rightarrow> bool \<Rightarrow> mvgal_gpu_manager_state_t \<Rightarrow> (mvgal_error_t \<times> mvgal_gpu_descriptor_t option) \<times> mvgal_gpu_manager_state_t" where
  "mvgal_gpu_get_descriptor = gpu_at (\<lambda>g. g)"

definition mvgal_gpu_get_utilization ::
    "system_view \<Rightarrow> u32 \<Rightarrow> bool \<Rightarrow> mvgal_gpu_manager_state_t \<Rightarrow> (mvgal_error_t \<times> f32 option) \<times> mvgal_gpu_manager_state_t" where
  "mvgal_gpu_get_utilization = gpu_at g_utilization_percent"

definition mvgal_gpu_get_temperature ::
    "system_view \<Rightarrow> u32 \<Rightarrow> bool \<Rightarrow> mvgal_gpu_manager_state_t \<Rightarrow> (mvgal_error_t \<times> f32 option) \<times> mvgal_gpu_manager_state_t" where
  "mvgal_gpu_get_temperature = gpu_at g_temperature_celsius"

definition mvgal_gpu_get_power ::
    "system_view \<Rightarrow> u32 \<Rightarrow> bool \<Rightarrow> mvgal_gpu_manager_state_t \<Rightarrow> (mvgal_error_t \<times> f32 option) \<times> mvgal_gpu_manager_state_t" where
  "mvgal_gpu_get_power = gpu_at g_current_power_w"

text \<open>What is written through the second, third and fourth argument.\<close>

definition mvgal_gpu_get_memory_stats ::
    "system_view \<Rightarrow> u32 \<Rightarrow> mvgal_gpu_manager_state_t \<Rightarrow> (mvgal_error_t \<times> (u64 \<times> u64 \<times> u64) option) \<times> mvgal_gpu_manager_state_t" where
  "mvgal_gpu_get_memory_stats sys index = gpu_at (\<lambda>g. (g_vram_total g, g_vram_used g, g_vram_free g)) sys index True"

definition mvgal_gpu_get_memory_info ::
    "system_view \<Rightarrow> u32 \<Rightarrow> mvgal_gpu_manager_state_t \<Rightarrow> (mvgal_error_t \<times> (u64 \<times> u64 \<times> u64) option) \<times> mvgal_gpu_manager_state_t" where
  "mvgal_gpu_get_memory_info = mvgal_gpu_get_memory_stats"

text \<open>The first GPU in the table with a property.\<close>

definition first_gpu :: "(mvgal_gpu_descriptor_t \<Rightarrow> bool) \<Rightarrow> mvgal_gpu_manager_state_t \<Rightarrow> mvgal_error_t \<times> mvgal_gpu_descriptor_t option" where
  "first_gpu P s =
     (case find P (take (gm_gpu_count s) (gm_gpus s)) of
        None \<Rightarrow> (MVGAL_ERROR_GPU_NOT_FOUND, None)
      | Some g \<Rightarrow> (MVGAL_SUCCESS, Some g))"

definition mvgal_gpu_find_by_pci ::
    "system_view \<Rightarrow> pci_address \<Rightarrow> bool \<Rightarrow> mvgal_gpu_manager_state_t \<Rightarrow>
       (mvgal_error_t \<times> mvgal_gpu_descriptor_t option) \<times> mvgal_gpu_manager_state_t" where
  "mvgal_gpu_find_by_pci sys address out s =
     (if \<not> out then ((MVGAL_ERROR_INVALID_ARGUMENT, None), s)
      else with_manager sys (MVGAL_ERROR_INITIALIZATION, None) (\<lambda>s. (first_gpu (\<lambda>g. g_pci g = address) s, s)) s)"

definition has_node :: "system_view \<Rightarrow> string \<Rightarrow> mvgal_gpu_descriptor_t \<Rightarrow> bool" where
  "has_node sys node_path g \<longleftrightarrow>
     node_matches sys (g_drm_node g) node_path \<or> node_matches sys (g_drm_render_node g) node_path
     \<or> node_matches sys (g_nvidia_node g) node_path \<or> node_matches sys (g_kfd_node g) node_path"

definition mvgal_gpu_find_by_node ::
    "system_view \<Rightarrow> string option \<Rightarrow> bool \<Rightarrow> mvgal_gpu_manager_state_t \<Rightarrow>
       (mvgal_error_t \<times> mvgal_gpu_descriptor_t option) \<times> mvgal_gpu_manager_state_t" where
  "mvgal_gpu_find_by_node sys node_path out s =
     (case node_path of
        None \<Rightarrow> ((MVGAL_ERROR_INVALID_ARGUMENT, None), s)
      | Some path \<Rightarrow>
          if \<not> out then ((MVGAL_ERROR_INVALID_ARGUMENT, None), s)
          else with_manager sys (MVGAL_ERROR_INITIALIZATION, None) (\<lambda>s. (first_gpu (has_node sys path) s, s)) s)"

text \<open>All GPUs of the vendor are counted; at most \<open>count\<close> are copied.\<close>

definition mvgal_gpu_find_by_vendor ::
    "system_view \<Rightarrow> mvgal_vendor_t \<Rightarrow> u32 option \<Rightarrow> mvgal_gpu_manager_state_t \<Rightarrow>
       (int \<times> mvgal_gpu_descriptor_t list) \<times> mvgal_gpu_manager_state_t" where
  "mvgal_gpu_find_by_vendor sys vendor count =
     with_manager sys (16, []) (\<lambda>s.
       (let matching = filter (\<lambda>g. g_vendor g = vendor) (take (gm_gpu_count s) (gm_gpus s))
        in (int (length matching), case count of None \<Rightarrow> [] | Some c \<Rightarrow> take (unat c) matching), s))"

definition mvgal_gpu_enable :: "system_view \<Rightarrow> u32 \<Rightarrow> bool \<Rightarrow> mvgal_gpu_manager_state_t \<Rightarrow> mvgal_error_t \<times> mvgal_gpu_manager_state_t" where
  "mvgal_gpu_enable sys index enable =
     with_manager sys MVGAL_ERROR_INITIALIZATION (\<lambda>s.
       if gm_gpu_count s \<le> unat index then (MVGAL_ERROR_GPU_NOT_FOUND, s)
       else (MVGAL_SUCCESS, s\<lparr>gm_gpus := (gm_gpus s)[unat index := (gm_gpus s ! unat index)\<lparr>g_enabled := enable\<rparr>]\<rparr>))"

definition mvgal_gpu_is_enabled :: "system_view \<Rightarrow> u32 \<Rightarrow> mvgal_gpu_manager_state_t \<Rightarrow> bool \<times> mvgal_gpu_manager_state_t" where
  "mvgal_gpu_is_enabled sys index =
     with_manager sys False (\<lambda>s. (unat index < gm_gpu_count s \<and> g_enabled (gm_gpus s ! unat index), s))"

definition set_all_enabled :: "bool \<Rightarrow> mvgal_gpu_manager_state_t \<Rightarrow> mvgal_gpu_manager_state_t" where
  "set_all_enabled b s =
     s\<lparr>gm_gpus := map (\<lambda>g. g\<lparr>g_enabled := b\<rparr>) (take (gm_gpu_count s) (gm_gpus s)) @ drop (gm_gpu_count s) (gm_gpus s)\<rparr>"

definition mvgal_gpu_enable_all :: "system_view \<Rightarrow> mvgal_gpu_manager_state_t \<Rightarrow> mvgal_error_t \<times> mvgal_gpu_manager_state_t" where
  "mvgal_gpu_enable_all sys = with_manager sys MVGAL_ERROR_INITIALIZATION (\<lambda>s. (MVGAL_SUCCESS, set_all_enabled True s))"

definition mvgal_gpu_disable_all :: "system_view \<Rightarrow> mvgal_gpu_manager_state_t \<Rightarrow> mvgal_error_t \<times> mvgal_gpu_manager_state_t" where
  "mvgal_gpu_disable_all sys = with_manager sys MVGAL_ERROR_INITIALIZATION (\<lambda>s. (MVGAL_SUCCESS, set_all_enabled False s))"

definition mvgal_gpu_has_feature :: "system_view \<Rightarrow> u32 \<Rightarrow> u64 \<Rightarrow> mvgal_gpu_manager_state_t \<Rightarrow> bool \<times> mvgal_gpu_manager_state_t" where
  "mvgal_gpu_has_feature sys index feature =
     with_manager sys False (\<lambda>s. (unat index < gm_gpu_count s \<and> g_features (gm_gpus s ! unat index) AND feature = feature, s))"

definition mvgal_gpu_has_api :: "system_view \<Rightarrow> u32 \<Rightarrow> u64 \<Rightarrow> mvgal_gpu_manager_state_t \<Rightarrow> bool \<times> mvgal_gpu_manager_state_t" where
  "mvgal_gpu_has_api sys index api =
     with_manager sys False (\<lambda>s. (unat index < gm_gpu_count s \<and> gpu_api_mask (gm_gpus s ! unat index) AND api = api, s))"

text \<open>The search stops at the first place that is free or holds this callback.\<close>

definition mvgal_gpu_register_callback :: "nat option \<Rightarrow> nat \<Rightarrow> mvgal_gpu_manager_state_t \<Rightarrow> mvgal_error_t \<times> mvgal_gpu_manager_state_t" where
  "mvgal_gpu_register_callback callback user_data s =
     (case callback of
        None \<Rightarrow> (MVGAL_ERROR_INVALID_ARGUMENT, s)
      | Some f \<Rightarrow>
          (case find (\<lambda>i. gm_callbacks s ! i = None \<or> fst (the (gm_callbacks s ! i)) = f) [0..<MAX_GPU_CALLBACKS] of
             None \<Rightarrow> (MVGAL_ERROR_BUSY, s)
           | Some i \<Rightarrow>
               if gm_callbacks s ! i \<noteq> None then (MVGAL_ERROR_ALREADY_INITIALIZED, s)
               else (MVGAL_SUCCESS, s\<lparr>gm_callbacks := (gm_callbacks s)[i := Some (f, user_data)]\<rparr>)))"

definition mvgal_gpu_unregister_callback :: "nat option \<Rightarrow> mvgal_gpu_manager_state_t \<Rightarrow> mvgal_error_t \<times> mvgal_gpu_manager_state_t" where
  "mvgal_gpu_unregister_callback callback s =
     (case callback of
        None \<Rightarrow> (MVGAL_ERROR_INVALID_ARGUMENT, s)
      | Some f \<Rightarrow>
          (case find (\<lambda>i. gm_callbacks s ! i \<noteq> None \<and> fst (the (gm_callbacks s ! i)) = f) [0..<MAX_GPU_CALLBACKS] of
             None \<Rightarrow> (MVGAL_ERROR_NOT_FOUND, s)
           | Some i \<Rightarrow> (MVGAL_SUCCESS, s\<lparr>gm_callbacks := (gm_callbacks s)[i := None]\<rparr>)))"

definition mvgal_gpu_rescan :: "system_view \<Rightarrow> mvgal_gpu_manager_state_t \<Rightarrow> mvgal_error_t \<times> mvgal_gpu_manager_state_t" where
  "mvgal_gpu_rescan sys =
     with_manager sys MVGAL_ERROR_INITIALIZATION (\<lambda>s.
       (let s1 = rescan_gpus_locked sys s
        in (MVGAL_SUCCESS, notify_gpu_callbacks (take (gm_gpu_count s1) (gm_gpus s1)) s1)))"

text \<open>A handle points into the table; it is the index of its place.\<close>

definition mvgal_gpu_get_handle :: "system_view \<Rightarrow> u32 \<Rightarrow> mvgal_gpu_manager_state_t \<Rightarrow> nat option \<times> mvgal_gpu_manager_state_t" where
  "mvgal_gpu_get_handle sys index =
     with_manager sys None (\<lambda>s. (if unat index < gm_gpu_count s then Some (unat index) else None, s))"

definition mvgal_gpu_get_handle_by_node :: "system_view \<Rightarrow> string option \<Rightarrow> mvgal_gpu_manager_state_t \<Rightarrow> nat option \<times> mvgal_gpu_manager_state_t" where
  "mvgal_gpu_get_handle_by_node sys node_path s =
     (case mvgal_gpu_find_by_node sys node_path True s of
        ((err, Some g), s1) \<Rightarrow> if err \<noteq> MVGAL_SUCCESS then (None, s1) else mvgal_gpu_get_handle sys (g_id g) s1
      | ((err, None), s1) \<Rightarrow> (None, s1))"

definition mvgal_gpu_register_driver ::
    "string option \<Rightarrow> nat \<Rightarrow> nat \<Rightarrow> nat \<Rightarrow> mvgal_gpu_manager_state_t \<Rightarrow> mvgal_error_t \<times> mvgal_gpu_manager_state_t" where
  "mvgal_gpu_register_driver name probe_func init_func user_data s =
     (case name of
        None \<Rightarrow> (MVGAL_ERROR_INVALID_ARGUMENT, s)
      | Some n \<Rightarrow>
          if n = [] then (MVGAL_ERROR_INVALID_ARGUMENT, s)
          else if MAX_CUSTOM_DRIVERS \<le> length (gm_drivers s) then (MVGAL_ERROR_BUSY, s)
          else (MVGAL_SUCCESS, s\<lparr>gm_drivers := gm_drivers s @
                 [\<lparr>dr_name = take 63 n, dr_probe_func = probe_func, dr_init_func = init_func, dr_user_data = user_data\<rparr>]\<rparr>))"

text \<open>The thresholds of a GPU.\<close>

definition mvgal_gpu_get_health_thresholds ::
    "system_view \<Rightarrow> u32 \<Rightarrow> bool \<Rightarrow> mvgal_gpu_manager_state_t \<Rightarrow>
       (mvgal_error_t \<times> mvgal_gpu_health_thresholds_t option) \<times> mvgal_gpu_manager_state_t" where
  "mvgal_gpu_get_health_thresholds sys index out s =
     (if \<not> out then ((MVGAL_ERROR_INVALID_ARGUMENT, None), s)
      else with_manager sys (MVGAL_ERROR_INITIALIZATION, None) (\<lambda>s.
             (if gm_gpu_count s \<le> unat index then (MVGAL_ERROR_GPU_NOT_FOUND, None)
              else (MVGAL_SUCCESS, Some (gm_health_thresholds s ! unat index)), s)) s)"

definition mvgal_gpu_set_health_thresholds ::
    "system_view \<Rightarrow> u32 \<Rightarrow> mvgal_gpu_health_thresholds_t option \<Rightarrow> mvgal_gpu_manager_state_t \<Rightarrow> mvgal_error_t \<times> mvgal_gpu_manager_state_t" where
  "mvgal_gpu_set_health_thresholds sys index thresholds s =
     (case thresholds of
        None \<Rightarrow> (MVGAL_ERROR_INVALID_ARGUMENT, s)
      | Some t \<Rightarrow>
          with_manager sys MVGAL_ERROR_INITIALIZATION (\<lambda>s.
            if gm_gpu_count s \<le> unat index then (MVGAL_ERROR_GPU_NOT_FOUND, s)
            else (MVGAL_SUCCESS, s\<lparr>gm_health_thresholds := (gm_health_thresholds s)[unat index := t]\<rparr>)) s)"

section \<open>The table\<close>

text \<open>The used part of the table holds complete descriptors that carry their own index.\<close>

definition table_ok :: "mvgal_gpu_manager_state_t \<Rightarrow> bool" where
  "table_ok s \<longleftrightarrow> length (gm_gpus s) = MAX_GPUS \<and> length (gm_health_thresholds s) = MAX_GPUS \<and> gm_gpu_count s \<le> MAX_GPUS
     \<and> (\<forall>i < gm_gpu_count s. gpu_complete (gm_gpus s ! i) \<and> g_id (gm_gpus s ! i) = of_nat i)"

text \<open>The rest of the state, which a scan leaves alone.\<close>

definition rest_of :: "mvgal_gpu_manager_state_t \<Rightarrow> mvgal_gpu_callback_entry_t list \<times> mvgal_custom_driver_entry_t list \<times> bool
     \<times> (nat \<times> nat \<times> mvgal_gpu_descriptor_t) list" where
  "rest_of s = (gm_callbacks s, gm_drivers s, gm_initialized s, gm_calls s)"

lemma finalize_fields [simp]:
  "g_id (finalize_gpu_descriptor e g) = g_id g" "g_pci (finalize_gpu_descriptor e g) = g_pci g"
  "g_drm_node (finalize_gpu_descriptor e g) = g_drm_node g" "g_drm_render_node (finalize_gpu_descriptor e g) = g_drm_render_node g"
  "g_nvidia_node (finalize_gpu_descriptor e g) = g_nvidia_node g" "g_kfd_node (finalize_gpu_descriptor e g) = g_kfd_node g"
  using finalize_identity [of e g] by (simp_all add: identity_of_def)

text \<open>During a scan every GPU is switched on.\<close>

definition scan_ok :: "mvgal_gpu_manager_state_t \<Rightarrow> bool" where
  "scan_ok s \<longleftrightarrow> table_ok s \<and> (\<forall>i < gm_gpu_count s. g_enabled (gm_gpus s ! i))"

lemma add_gpu_ok:
  assumes "scan_ok s" and "gm_gpu_count s < MAX_GPUS" and "gpu_complete g" and "g_enabled g" and "g_id g = of_nat (gm_gpu_count s)"
  shows "scan_ok (add_gpu g s)"
  using assms by (auto simp: scan_ok_def table_ok_def add_gpu_def nth_list_update less_Suc_eq)

lemma add_gpu_rest [simp]: "rest_of (add_gpu g s) = rest_of s" "gm_gpu_count (add_gpu g s) = Suc (gm_gpu_count s)"
  by (simp_all add: rest_of_def add_gpu_def)

lemma scanned_gpus [simp]:
  "g_enabled (drm_gpu sys drm n p i)" "g_enabled (nvidia_gpu sys n i)" "g_enabled (placeholder_gpu sys i)"
  "gpu_complete (drm_gpu sys drm n p i)" "g_id (drm_gpu sys drm n p i) = of_nat i"
  "gpu_complete (nvidia_gpu sys n i)" "g_id (nvidia_gpu sys n i) = of_nat i"
  "gpu_complete (placeholder_gpu sys i)" "g_id (placeholder_gpu sys i) = of_nat i"
  using finalize_complete by (simp_all add: drm_gpu_def nvidia_gpu_def placeholder_gpu_def Let_def)

lemma drm_loop_ok: "scan_ok s \<Longrightarrow> scan_ok (drm_loop sys drm es s) \<and> rest_of (drm_loop sys drm es s) = rest_of s"
proof (induction sys drm es s rule: drm_loop.induct)
  case (2 sys drm d es s)
  show ?case
  proof (cases "16 \<le> gm_gpu_count s \<or> parse_indexed_node d ''card'' = None")
    case False
    show ?thesis
    proof (cases "sy_realpath sys (''/sys/class/drm/'' @ d @ ''/device'')")
      case None
      then show ?thesis using 2 False by simp
    next
      case (Some p)
      have "scan_ok (add_gpu (drm_gpu sys drm d p (gm_gpu_count s)) s)" using 2(4) False by (intro add_gpu_ok) simp_all
      then show ?thesis using 2(3) [OF _ _ Some] False Some by auto
    qed
  qed (use 2 in auto)
qed simp

lemma nvidia_loop_ok: "scan_ok s \<Longrightarrow> scan_ok (nvidia_loop sys es s) \<and> rest_of (nvidia_loop sys es s) = rest_of s"
proof (induction sys es s rule: nvidia_loop.induct)
  case (2 sys d es s)
  show ?case
  proof (cases "16 \<le> gm_gpu_count s \<or> parse_indexed_node d ''nvidia'' = None")
    case False
    let ?n = "''/dev/'' @ take 30 d"
    show ?thesis
    proof (cases "unattached s")
      case None
      have "scan_ok (add_gpu (nvidia_gpu sys ?n (gm_gpu_count s)) s)" using 2(4) False by (intro add_gpu_ok) simp_all
      then show ?thesis using 2(2) [OF _ _ refl None] False None by (auto simp: Let_def)
    next
      case (Some i)
      let ?s = "s\<lparr>gm_gpus := (gm_gpus s)[i := finalize_gpu_descriptor (sy_exists sys) ((gm_gpus s ! i)\<lparr>g_nvidia_node := ?n\<rparr>)]\<rparr>"
      have "i < gm_gpu_count s" using Some by (auto simp: unattached_def find_Some_iff)
      then have "scan_ok ?s" using 2(4) finalize_complete by (auto simp: scan_ok_def table_ok_def nth_list_update)
      moreover have "rest_of ?s = rest_of s" by (simp add: rest_of_def)
      ultimately show ?thesis using 2(3) [OF _ _ refl Some] False Some by (auto simp: Let_def)
    qed
  qed (use 2 in auto)
qed simp

lemma scanned_table_ok:
  shows "scan_ok (scanned_table sys s)" "rest_of (scanned_table sys s) = rest_of s" "0 < gm_gpu_count (scanned_table sys s)"
proof -
  let ?z = "s\<lparr>gm_gpus := replicate 16 gpu_zero, gm_health_thresholds := replicate 16 thresholds_zero, gm_gpu_count := 0\<rparr>"
  let ?d = "scan_drm_devices_locked sys ?z" and ?n = "scan_nvidia_devices_locked sys (scan_drm_devices_locked sys ?z)"
  have z: "scan_ok ?z" "rest_of ?z = rest_of s" by (simp_all add: scan_ok_def table_ok_def rest_of_def)
  have d: "scan_ok ?d" "rest_of ?d = rest_of s"
    using z drm_loop_ok [OF z(1)] by (simp_all add: scan_drm_devices_locked_def split: option.split)
  have n: "scan_ok ?n" "rest_of ?n = rest_of s"
    using d nvidia_loop_ok [OF d(1)] by (simp_all add: scan_nvidia_devices_locked_def split: option.split)
  have t: "scanned_table sys s = (if gm_gpu_count ?n = 0 then add_gpu (placeholder_gpu sys 0) ?n else ?n)"
    by (simp add: scanned_table_def add_placeholder_gpu_locked_def)
  have p: "scan_ok (add_gpu (placeholder_gpu sys 0) ?n)" if "gm_gpu_count ?n = 0"
    using that by (intro add_gpu_ok [OF n(1)]) simp_all
  show "scan_ok (scanned_table sys s)" unfolding t using p n(1) by (simp split: if_split)
  show "rest_of (scanned_table sys s) = rest_of s" unfolding t using n(2) by simp
  show "0 < gm_gpu_count (scanned_table sys s)" unfolding t by simp
qed

text \<open>What restoring gives for the GPU at a place: its switch and its thresholds.\<close>

definition restored_gpu ::
    "system_view \<Rightarrow> mvgal_gpu_descriptor_t list \<Rightarrow> nat \<Rightarrow> nat \<Rightarrow> mvgal_gpu_descriptor_t \<Rightarrow> mvgal_gpu_descriptor_t" where
  "restored_gpu sys old_gpus n i g =
     (case find (\<lambda>j. gpu_identity_matches sys g (old_gpus ! j)) [0..<n] of
        Some j \<Rightarrow> g\<lparr>g_enabled := g_enabled (old_gpus ! j), g_id := of_nat i\<rparr>
      | None \<Rightarrow> g\<lparr>g_id := of_nat i\<rparr>)"

definition restored_thresholds ::
    "system_view \<Rightarrow> mvgal_gpu_descriptor_t list \<Rightarrow> mvgal_gpu_health_thresholds_t list \<Rightarrow> nat \<Rightarrow> mvgal_gpu_descriptor_t \<Rightarrow>
       mvgal_gpu_health_thresholds_t" where
  "restored_thresholds sys old_gpus old_thresholds n g =
     (case find (\<lambda>j. gpu_identity_matches sys g (old_gpus ! j)) [0..<n] of
        Some j \<Rightarrow> old_thresholds ! j
      | None \<Rightarrow> DEFAULT_HEALTH_THRESHOLDS)"

lemma restore_one_eq:
  assumes "i < length (gm_gpus s)"
  shows "restore_one sys og ot n i s =
    s\<lparr>gm_gpus := (gm_gpus s)[i := restored_gpu sys og n i (gm_gpus s ! i)],
      gm_health_thresholds := (gm_health_thresholds s)[i := restored_thresholds sys og ot n (gm_gpus s ! i)]\<rparr>"
  using assms
  by (cases "find (\<lambda>j. gpu_identity_matches sys (gm_gpus s ! i) (og ! j)) [0..<n]")
     (simp_all add: restore_one_def restored_gpu_def restored_thresholds_def Let_def)

lemma restore_fold:
  assumes "k \<le> length (gm_gpus s)" and "length (gm_health_thresholds s) = length (gm_gpus s)"
  shows "\<exists>gs ts. fold (restore_one sys og ot n) [0..<k] s = s\<lparr>gm_gpus := gs, gm_health_thresholds := ts\<rparr>
    \<and> length gs = length (gm_gpus s) \<and> length ts = length (gm_gpus s)
    \<and> (\<forall>i < length (gm_gpus s). gs ! i = (if i < k then restored_gpu sys og n i (gm_gpus s ! i) else gm_gpus s ! i))
    \<and> (\<forall>i < k. ts ! i = restored_thresholds sys og ot n (gm_gpus s ! i))"
  using assms(1)
proof (induction k)
  case 0
  show ?case using assms(2) by (intro exI [of _ "gm_gpus s"] exI [of _ "gm_health_thresholds s"]) simp
next
  case (Suc k)
  then obtain gs ts where t: "fold (restore_one sys og ot n) [0..<k] s = s\<lparr>gm_gpus := gs, gm_health_thresholds := ts\<rparr>"
    "length gs = length (gm_gpus s)" "length ts = length (gm_gpus s)"
    "\<And>i. i < length (gm_gpus s) \<Longrightarrow> gs ! i = (if i < k then restored_gpu sys og n i (gm_gpus s ! i) else gm_gpus s ! i)"
    "\<And>i. i < k \<Longrightarrow> ts ! i = restored_thresholds sys og ot n (gm_gpus s ! i)" by auto
  have k: "k < length (gm_gpus s)" "gs ! k = gm_gpus s ! k" using Suc.prems t(4) [of k] by simp_all
  let ?gs = "gs[k := restored_gpu sys og n k (gm_gpus s ! k)]"
    and ?ts = "ts[k := restored_thresholds sys og ot n (gm_gpus s ! k)]"
  have "restore_one sys og ot n k (s\<lparr>gm_gpus := gs, gm_health_thresholds := ts\<rparr>) = s\<lparr>gm_gpus := ?gs, gm_health_thresholds := ?ts\<rparr>"
    using restore_one_eq [of k "s\<lparr>gm_gpus := gs, gm_health_thresholds := ts\<rparr>" sys og ot n] k t(2) by simp
  then have "fold (restore_one sys og ot n) [0..<Suc k] s = s\<lparr>gm_gpus := ?gs, gm_health_thresholds := ?ts\<rparr>" by (simp add: t(1))
  moreover have "\<forall>i < length (gm_gpus s). ?gs ! i = (if i < Suc k then restored_gpu sys og n i (gm_gpus s ! i) else gm_gpus s ! i)"
    using t(2,4) k by (auto simp: nth_list_update less_Suc_eq)
  moreover have "\<forall>i < Suc k. ?ts ! i = restored_thresholds sys og ot n (gm_gpus s ! i)"
    using t(3,5) k by (auto simp: nth_list_update less_Suc_eq)
  ultimately show ?case using t(2,3) by (intro exI [of _ ?gs] exI [of _ ?ts]) simp
qed

text \<open>The table after a scan, place by place.\<close>

lemma rescan_table:
  fixes s sys
  defines "t \<equiv> scanned_table sys s" and "u \<equiv> rescan_gpus_locked sys s"
  shows "gm_gpu_count u = gm_gpu_count t" "length (gm_gpus u) = 16" "length (gm_health_thresholds u) = 16"
    "rest_of u = rest_of s"
    "i < gm_gpu_count t \<Longrightarrow> gm_gpus u ! i = restored_gpu sys (gm_gpus s) (gm_gpu_count s) i (gm_gpus t ! i)"
    "i < gm_gpu_count t \<Longrightarrow> gm_health_thresholds u ! i
       = restored_thresholds sys (gm_gpus s) (gm_health_thresholds s) (gm_gpu_count s) (gm_gpus t ! i)"
proof -
  have t: "table_ok t" "rest_of t = rest_of s" unfolding t_def using scanned_table_ok by (simp_all add: scan_ok_def)
  have len: "length (gm_gpus t) = 16" "length (gm_health_thresholds t) = 16" "gm_gpu_count t \<le> 16"
    using t(1) by (simp_all add: table_ok_def)
  have u: "u = (fold (restore_one sys (gm_gpus s) (gm_health_thresholds s) (gm_gpu_count s)) [0..<gm_gpu_count t] t)\<lparr>gm_scanned := True\<rparr>"
    by (simp add: u_def t_def rescan_gpus_locked_def restore_persisted_state_locked_def)
  have "length (gm_health_thresholds t) = length (gm_gpus t)" "gm_gpu_count t \<le> length (gm_gpus t)" using len by simp_all
  from restore_fold [OF this(2,1), of sys "gm_gpus s" "gm_health_thresholds s" "gm_gpu_count s"] obtain gs ts where
    f: "fold (restore_one sys (gm_gpus s) (gm_health_thresholds s) (gm_gpu_count s)) [0..<gm_gpu_count t] t
        = t\<lparr>gm_gpus := gs, gm_health_thresholds := ts\<rparr>"
      "length gs = 16" "length ts = 16"
      "\<forall>i < 16. gs ! i = (if i < gm_gpu_count t then restored_gpu sys (gm_gpus s) (gm_gpu_count s) i (gm_gpus t ! i) else gm_gpus t ! i)"
      "\<forall>i < gm_gpu_count t. ts ! i = restored_thresholds sys (gm_gpus s) (gm_health_thresholds s) (gm_gpu_count s) (gm_gpus t ! i)"
    unfolding len by blast
  show "gm_gpu_count u = gm_gpu_count t" "length (gm_gpus u) = 16" "length (gm_health_thresholds u) = 16" "rest_of u = rest_of s"
    using f(1-3) t(2) by (simp_all add: u rest_of_def)
  show "i < gm_gpu_count t \<Longrightarrow> gm_gpus u ! i = restored_gpu sys (gm_gpus s) (gm_gpu_count s) i (gm_gpus t ! i)"
    "i < gm_gpu_count t \<Longrightarrow> gm_health_thresholds u ! i
       = restored_thresholds sys (gm_gpus s) (gm_health_thresholds s) (gm_gpu_count s) (gm_gpus t ! i)"
    using f len(3) by (simp_all add: u)
qed

section \<open>The invariant\<close>

definition gm_ok :: "mvgal_gpu_manager_state_t \<Rightarrow> bool" where
  "gm_ok s \<longleftrightarrow> table_ok s \<and> length (gm_callbacks s) = MAX_GPU_CALLBACKS \<and> length (gm_drivers s) \<le> MAX_CUSTOM_DRIVERS
     \<and> (gm_initialized s \<longleftrightarrow> 0 < gm_gpu_count s)"

lemma g_gpu_manager_init_ok: "gm_ok g_gpu_manager_init"
  by (simp add: gm_ok_def table_ok_def g_gpu_manager_init_def)

lemma restored_gpu_complete: "gpu_complete g \<Longrightarrow> gpu_complete (restored_gpu sys og n i g) \<and> g_id (restored_gpu sys og n i g) = of_nat i"
  by (simp add: restored_gpu_def gpu_complete_def split: option.split)

lemma rescan_ok:
  assumes "gm_ok s" and "gm_initialized s'" and "s' = s\<lparr>gm_initialized := i\<rparr>"
  shows "gm_ok (rescan_gpus_locked sys s')" "gm_initialized (rescan_gpus_locked sys s')"
proof -
  let ?t = "scanned_table sys s'" and ?u = "rescan_gpus_locked sys s'"
  note r = rescan_table [where s = s' and sys = sys]
  have t: "table_ok ?t" "0 < gm_gpu_count ?t" using scanned_table_ok [of sys s'] by (simp_all add: scan_ok_def)
  have c: "gpu_complete (gm_gpus ?u ! i) \<and> g_id (gm_gpus ?u ! i) = of_nat i" if "i < gm_gpu_count ?t" for i
    using r(5) [OF that] restored_gpu_complete t(1) that by (simp add: table_ok_def)
  have "table_ok ?u" using r(1-3) c t(1) by (simp add: table_ok_def)
  then show "gm_ok ?u" "gm_initialized ?u" using r(1,4) t(2) assms by (auto simp: gm_ok_def rest_of_def)
qed

lemma notify_ok [simp]: "gm_ok (notify_gpu_callbacks gs s) = gm_ok s" "gm_initialized (notify_gpu_callbacks gs s) = gm_initialized s"
  "gm_gpus (notify_gpu_callbacks gs s) = gm_gpus s" "gm_gpu_count (notify_gpu_callbacks gs s) = gm_gpu_count s"
  "gm_health_thresholds (notify_gpu_callbacks gs s) = gm_health_thresholds s"
  by (simp_all add: notify_gpu_callbacks_def gm_ok_def table_ok_def)

lemma ensure_ok:
  assumes "gm_ok s"
  shows "fst (ensure_gpu_manager_initialized sys s) = MVGAL_SUCCESS" "gm_ok (snd (ensure_gpu_manager_initialized sys s))"
    "gm_initialized (snd (ensure_gpu_manager_initialized sys s))"
proof -
  have "gm_initialized (s\<lparr>gm_initialized := True\<rparr>)" by simp
  note r = rescan_ok [OF assms this refl, of sys]
  show "fst (ensure_gpu_manager_initialized sys s) = MVGAL_SUCCESS" "gm_ok (snd (ensure_gpu_manager_initialized sys s))"
    "gm_initialized (snd (ensure_gpu_manager_initialized sys s))"
    using r assms by (simp_all add: ensure_gpu_manager_initialized_def mvgal_gpu_manager_init_def Let_def)
qed

lemma with_manager_ok:
  assumes "gm_ok s" and "\<And>s. gm_ok s \<Longrightarrow> gm_initialized s \<Longrightarrow> gm_ok (snd (body s)) \<and> gm_initialized (snd (body s))"
  shows "gm_ok (snd (with_manager sys e body s)) \<and> gm_initialized (snd (with_manager sys e body s))"
  using ensure_ok [OF assms(1), of sys] assms(2) by (cases "ensure_gpu_manager_initialized sys s") (simp add: with_manager_def)

text \<open>In a started manager the body runs at once.\<close>

lemma with_manager_started [simp]: "gm_initialized s \<Longrightarrow> with_manager sys e body s = body s"
  by (simp add: with_manager_def ensure_gpu_manager_initialized_def)

text \<open>Every operation of the manager as a call; \<open>gpu_call_run\<close> is its effect on the state.\<close>

datatype gpu_call =
    Init | Shutdown | Get_Count | Enumerate "u32 option" | Get_Descriptor u32 bool | Get_Utilization u32 bool
  | Get_Temperature u32 bool | Get_Power u32 bool | Get_Memory_Stats u32 | Find_By_Pci pci_address bool
  | Find_By_Node "string option" bool | Find_By_Vendor mvgal_vendor_t "u32 option" | Enable u32 bool | Is_Enabled u32
  | Enable_All | Disable_All | Has_Feature u32 u64 | Has_Api u32 u64 | Register_Callback "nat option" nat
  | Unregister_Callback "nat option" | Rescan | Get_Handle u32 | Get_Handle_By_Node "string option"
  | Register_Driver "string option" nat nat nat | Get_Thresholds u32 bool | Set_Thresholds u32 "mvgal_gpu_health_thresholds_t option"

fun gpu_call_run :: "system_view \<Rightarrow> gpu_call \<Rightarrow> mvgal_gpu_manager_state_t \<Rightarrow> mvgal_gpu_manager_state_t" where
  "gpu_call_run sys Init s = snd (mvgal_gpu_manager_init sys s)"
| "gpu_call_run sys Shutdown s = mvgal_gpu_manager_shutdown s"
| "gpu_call_run sys Get_Count s = snd (mvgal_gpu_get_count sys s)"
| "gpu_call_run sys (Enumerate c) s = snd (mvgal_gpu_enumerate sys c s)"
| "gpu_call_run sys (Get_Descriptor i out) s = snd (mvgal_gpu_get_descriptor sys i out s)"
| "gpu_call_run sys (Get_Utilization i out) s = snd (mvgal_gpu_get_utilization sys i out s)"
| "gpu_call_run sys (Get_Temperature i out) s = snd (mvgal_gpu_get_temperature sys i out s)"
| "gpu_call_run sys (Get_Power i out) s = snd (mvgal_gpu_get_power sys i out s)"
| "gpu_call_run sys (Get_Memory_Stats i) s = snd (mvgal_gpu_get_memory_stats sys i s)"
| "gpu_call_run sys (Find_By_Pci a out) s = snd (mvgal_gpu_find_by_pci sys a out s)"
| "gpu_call_run sys (Find_By_Node p out) s = snd (mvgal_gpu_find_by_node sys p out s)"
| "gpu_call_run sys (Find_By_Vendor v c) s = snd (mvgal_gpu_find_by_vendor sys v c s)"
| "gpu_call_run sys (Enable i b) s = snd (mvgal_gpu_enable sys i b s)"
| "gpu_call_run sys (Is_Enabled i) s = snd (mvgal_gpu_is_enabled sys i s)"
| "gpu_call_run sys Enable_All s = snd (mvgal_gpu_enable_all sys s)"
| "gpu_call_run sys Disable_All s = snd (mvgal_gpu_disable_all sys s)"
| "gpu_call_run sys (Has_Feature i f) s = snd (mvgal_gpu_has_feature sys i f s)"
| "gpu_call_run sys (Has_Api i f) s = snd (mvgal_gpu_has_api sys i f s)"
| "gpu_call_run sys (Register_Callback f d) s = snd (mvgal_gpu_register_callback f d s)"
| "gpu_call_run sys (Unregister_Callback f) s = snd (mvgal_gpu_unregister_callback f s)"
| "gpu_call_run sys Rescan s = snd (mvgal_gpu_rescan sys s)"
| "gpu_call_run sys (Get_Handle i) s = snd (mvgal_gpu_get_handle sys i s)"
| "gpu_call_run sys (Get_Handle_By_Node p) s = snd (mvgal_gpu_get_handle_by_node sys p s)"
| "gpu_call_run sys (Register_Driver n p i d) s = snd (mvgal_gpu_register_driver n p i d s)"
| "gpu_call_run sys (Get_Thresholds i out) s = snd (mvgal_gpu_get_health_thresholds sys i out s)"
| "gpu_call_run sys (Set_Thresholds i t) s = snd (mvgal_gpu_set_health_thresholds sys i t s)"

lemma set_gpu_ok: "gm_ok s \<Longrightarrow> i < gm_gpu_count s \<Longrightarrow> gm_ok (s\<lparr>gm_gpus := (gm_gpus s)[i := (gm_gpus s ! i)\<lparr>g_enabled := b\<rparr>]\<rparr>)"
  by (auto simp: gm_ok_def table_ok_def nth_list_update)

lemma set_all_ok: "gm_ok s \<Longrightarrow> gm_ok (set_all_enabled b s)"
  by (auto simp: gm_ok_def table_ok_def set_all_enabled_def nth_append)

text \<open>Where an operation only looks, its effect is that of starting the manager.\<close>

lemmas query_defs = mvgal_gpu_get_count_def mvgal_gpu_enumerate_def mvgal_gpu_get_descriptor_def mvgal_gpu_get_utilization_def
  mvgal_gpu_get_temperature_def mvgal_gpu_get_power_def mvgal_gpu_get_memory_stats_def gpu_at_def mvgal_gpu_find_by_pci_def
  mvgal_gpu_find_by_node_def mvgal_gpu_find_by_vendor_def mvgal_gpu_is_enabled_def mvgal_gpu_has_feature_def mvgal_gpu_has_api_def
  mvgal_gpu_get_handle_def mvgal_gpu_get_health_thresholds_def

lemma ensured_again [simp]:
  "snd (ensure_gpu_manager_initialized sys (snd (ensure_gpu_manager_initialized sys s))) = snd (ensure_gpu_manager_initialized sys s)"
proof (cases "gm_initialized s")
  case False
  have "rest_of (rescan_gpus_locked sys (s\<lparr>gm_initialized := True\<rparr>)) = rest_of (s\<lparr>gm_initialized := True\<rparr>)" by (rule rescan_table)
  then have "gm_initialized (rescan_gpus_locked sys (s\<lparr>gm_initialized := True\<rparr>))" by (simp add: rest_of_def)
  then show ?thesis using False by (simp add: ensure_gpu_manager_initialized_def mvgal_gpu_manager_init_def Let_def)
qed (simp add: ensure_gpu_manager_initialized_def)

lemma ensure_success [simp]: "fst (ensure_gpu_manager_initialized sys s) = MVGAL_SUCCESS"
  by (simp add: ensure_gpu_manager_initialized_def mvgal_gpu_manager_init_def Let_def)

lemma with_manager_looks: "snd (with_manager sys e (\<lambda>s. (f s, s)) s) = snd (ensure_gpu_manager_initialized sys s)"
  using ensure_success [of sys s] by (cases "ensure_gpu_manager_initialized sys s") (simp add: with_manager_def)

lemma gpu_call_ok: "gm_ok s \<Longrightarrow> gm_ok (gpu_call_run sys c s)"
proof (cases c)
  case Init
  assume "gm_ok s"
  then show ?thesis using Init ensure_ok [of s sys]
    by (cases "gm_initialized s") (simp_all add: ensure_gpu_manager_initialized_def mvgal_gpu_manager_init_def Let_def)
next
  case (Find_By_Node p out)
  assume "gm_ok s"
  then show ?thesis using Find_By_Node ensure_ok(2) by (simp add: mvgal_gpu_find_by_node_def with_manager_looks split: option.split)
next
  case (Get_Handle_By_Node p)
  assume "gm_ok s"
  then have f: "gm_ok (snd (mvgal_gpu_find_by_node sys p True s))"
    using ensure_ok(2) by (simp add: mvgal_gpu_find_by_node_def with_manager_looks split: option.split)
  have h: "gm_ok (snd (mvgal_gpu_get_handle sys i u))" if "gm_ok u" for i u
    using ensure_ok(2) [OF that] by (simp add: mvgal_gpu_get_handle_def with_manager_looks)
  show ?thesis using Get_Handle_By_Node f h by (auto simp: mvgal_gpu_get_handle_by_node_def split: prod.split option.split)
next
  case (Enable i b)
  assume "gm_ok s"
  then show ?thesis unfolding Enable gpu_call_run.simps mvgal_gpu_enable_def
    by (intro conjunct1 [OF with_manager_ok]) (simp_all add: set_gpu_ok)
next
  case Enable_All
  assume "gm_ok s"
  then show ?thesis unfolding Enable_All gpu_call_run.simps mvgal_gpu_enable_all_def
    by (intro conjunct1 [OF with_manager_ok]) (simp_all add: set_all_ok, simp add: set_all_enabled_def)
next
  case Disable_All
  assume "gm_ok s"
  then show ?thesis unfolding Disable_All gpu_call_run.simps mvgal_gpu_disable_all_def
    by (intro conjunct1 [OF with_manager_ok]) (simp_all add: set_all_ok, simp add: set_all_enabled_def)
next
  case Rescan
  assume "gm_ok s"
  then show ?thesis unfolding Rescan gpu_call_run.simps mvgal_gpu_rescan_def
  proof (intro conjunct1 [OF with_manager_ok])
    fix u assume u: "gm_ok u" "gm_initialized u"
    have "u = u\<lparr>gm_initialized := True\<rparr>" using u(2) by simp
    from rescan_ok [OF u this, of sys]
    show "gm_ok (snd (let s1 = rescan_gpus_locked sys u in (MVGAL_SUCCESS, notify_gpu_callbacks (take (gm_gpu_count s1) (gm_gpus s1)) s1)))
      \<and> gm_initialized (snd (let s1 = rescan_gpus_locked sys u in (MVGAL_SUCCESS, notify_gpu_callbacks (take (gm_gpu_count s1) (gm_gpus s1)) s1)))"
      by (simp add: Let_def)
  qed
next
  case (Set_Thresholds i t)
  assume s: "gm_ok s"
  show ?thesis
  proof (cases t)
    case (Some h)
    show ?thesis unfolding Set_Thresholds gpu_call_run.simps mvgal_gpu_set_health_thresholds_def Some option.case
      by (intro conjunct1 [OF with_manager_ok [OF s]]) (simp add: gm_ok_def table_ok_def)
  qed (use s Set_Thresholds in \<open>simp add: mvgal_gpu_set_health_thresholds_def\<close>)
next
  case (Register_Callback f d)
  assume "gm_ok s"
  then show ?thesis using Register_Callback
    by (simp add: mvgal_gpu_register_callback_def gm_ok_def table_ok_def split: option.split)
next
  case (Unregister_Callback f)
  assume "gm_ok s"
  then show ?thesis using Unregister_Callback
    by (simp add: mvgal_gpu_unregister_callback_def gm_ok_def table_ok_def split: option.split)
qed (use ensure_ok(2) [of s sys] in \<open>simp_all add: query_defs with_manager_looks mvgal_gpu_manager_shutdown_def mvgal_gpu_register_driver_def
      gm_ok_def table_ok_def split: option.split\<close>)

lemma gpu_calls_ok: "gm_ok s \<Longrightarrow> gm_ok (fold (\<lambda>(sys, c). gpu_call_run sys c) cs s)"
  by (induction cs arbitrary: s) (auto simp: gpu_call_ok)

section \<open>Scanning the same system again\<close>

text \<open>The table a scan finds depends on the system only.\<close>

definition with_rest ::
    "mvgal_gpu_callback_entry_t list \<Rightarrow> mvgal_custom_driver_entry_t list \<Rightarrow> bool \<Rightarrow> bool \<Rightarrow>
       (nat \<times> nat \<times> mvgal_gpu_descriptor_t) list \<Rightarrow> mvgal_gpu_manager_state_t \<Rightarrow> mvgal_gpu_manager_state_t" where
  "with_rest c d i x l s = s\<lparr>gm_callbacks := c, gm_drivers := d, gm_initialized := i, gm_scanned := x, gm_calls := l\<rparr>"

definition system_table :: "system_view \<Rightarrow> mvgal_gpu_manager_state_t" where
  "system_table sys = scanned_table sys g_gpu_manager_init"

lemma with_rest_fields [simp]:
  "gm_gpus (with_rest c d i x l s) = gm_gpus s" "gm_gpu_count (with_rest c d i x l s) = gm_gpu_count s"
  "gm_health_thresholds (with_rest c d i x l s) = gm_health_thresholds s"
  "add_gpu g (with_rest c d i x l s) = with_rest c d i x l (add_gpu g s)" "unattached (with_rest c d i x l s) = unattached s"
  "(with_rest c d i x l s)\<lparr>gm_gpus := gs\<rparr> = with_rest c d i x l (s\<lparr>gm_gpus := gs\<rparr>)"
  by (simp_all add: with_rest_def add_gpu_def unattached_def)

lemma drm_loop_rest: "drm_loop sys drm es (with_rest c d i x l s) = with_rest c d i x l (drm_loop sys drm es s)"
  by (induction sys drm es s rule: drm_loop.induct) (simp_all split: option.split)

lemma nvidia_loop_rest: "nvidia_loop sys es (with_rest c d i x l s) = with_rest c d i x l (nvidia_loop sys es s)"
  by (induction sys es s rule: nvidia_loop.induct) (simp_all add: Let_def split: option.split)

lemma scanned_table_system:
  "scanned_table sys s = with_rest (gm_callbacks s) (gm_drivers s) (gm_initialized s) (gm_scanned s) (gm_calls s) (system_table sys)"
proof -
  let ?z = "\<lambda>s. s\<lparr>gm_gpus := replicate 16 gpu_zero, gm_health_thresholds := replicate 16 thresholds_zero, gm_gpu_count := 0\<rparr>"
  have "?z s = with_rest (gm_callbacks s) (gm_drivers s) (gm_initialized s) (gm_scanned s) (gm_calls s) (?z g_gpu_manager_init)"
    by (simp add: with_rest_def)
  then show ?thesis unfolding scanned_table_def system_table_def Let_def
    by (simp add: scan_drm_devices_locked_def scan_nvidia_devices_locked_def add_placeholder_gpu_locked_def
        drm_loop_rest nvidia_loop_rest split: option.split)
qed

lemma scanned_table_fields [simp]:
  "gm_gpus (scanned_table sys s) = gm_gpus (system_table sys)" "gm_gpu_count (scanned_table sys s) = gm_gpu_count (system_table sys)"
  by (simp_all add: scanned_table_system)

text \<open>As long as the system stays the same, the table differs from what a scan finds in the switches only.\<close>

definition shows_system :: "system_view \<Rightarrow> mvgal_gpu_manager_state_t \<Rightarrow> bool" where
  "shows_system sys s \<longleftrightarrow> (gm_initialized s \<longrightarrow> gm_gpu_count s = gm_gpu_count (system_table sys)
     \<and> (\<forall>i < gm_gpu_count s. (gm_gpus s ! i)\<lparr>g_enabled := True\<rparr> = gm_gpus (system_table sys) ! i))"

lemma system_table_ok: "scan_ok (system_table sys)" "0 < gm_gpu_count (system_table sys)"
  unfolding system_table_def by (rule scanned_table_ok)+

lemma same_enabled: "g_enabled g = b \<Longrightarrow> g\<lparr>g_enabled := b\<rparr> = g"
  by (cases g) simp

lemma same_id: "g_id g = i \<Longrightarrow> g\<lparr>g_id := i\<rparr> = g"
  by (cases g) simp

lemma restored_gpu_switch:
  assumes "g_enabled g" and "g_id g = of_nat i"
  shows "(restored_gpu sys og n i g)\<lparr>g_enabled := True\<rparr> = g"
proof -
  have "(g\<lparr>g_enabled := b, g_id := of_nat i\<rparr>)\<lparr>g_enabled := True\<rparr> = (g\<lparr>g_id := of_nat i\<rparr>)\<lparr>g_enabled := True\<rparr>" for b by (cases g) simp
  also have "(g\<lparr>g_id := of_nat i\<rparr>)\<lparr>g_enabled := True\<rparr> = g" unfolding same_id [OF assms(2)] using assms(1) by (intro same_enabled) simp
  finally have "(g\<lparr>g_enabled := b, g_id := of_nat i\<rparr>)\<lparr>g_enabled := True\<rparr> = g" for b .
  moreover have "(g\<lparr>g_id := of_nat i\<rparr>)\<lparr>g_enabled := True\<rparr> = g" unfolding same_id [OF assms(2)] using assms(1) by (intro same_enabled) simp
  ultimately show ?thesis unfolding restored_gpu_def by (cases "find (\<lambda>j. gpu_identity_matches sys g (og ! j)) [0..<n]") (simp_all only: option.case)
qed

lemma rescan_shows: "shows_system sys (rescan_gpus_locked sys s)"
proof -
  note r = rescan_table [where s = s and sys = sys, simplified]
  have "g_enabled (gm_gpus (system_table sys) ! i) \<and> g_id (gm_gpus (system_table sys) ! i) = of_nat i"
    if "i < gm_gpu_count (system_table sys)" for i
    using system_table_ok(1) [of sys] that by (simp add: scan_ok_def table_ok_def)
  then show ?thesis using r(1,5) restored_gpu_switch by (simp add: shows_system_def)
qed

lemma notify_shows [simp]: "shows_system sys (notify_gpu_callbacks gs s) = shows_system sys s"
  by (simp add: shows_system_def)

lemma ensure_shows: "shows_system sys s \<Longrightarrow> shows_system sys (snd (ensure_gpu_manager_initialized sys s))"
  using rescan_shows by (simp add: ensure_gpu_manager_initialized_def mvgal_gpu_manager_init_def Let_def)

lemma with_manager_shows:
  assumes "shows_system sys s" and "\<And>s. shows_system sys s \<Longrightarrow> shows_system sys (snd (body s))"
  shows "shows_system sys (snd (with_manager sys e body s))"
  using ensure_shows [OF assms(1)] assms(2) ensure_success [of sys s]
  by (cases "ensure_gpu_manager_initialized sys s") (simp add: with_manager_def)

lemma set_gpu_shows: "shows_system sys s \<Longrightarrow> shows_system sys (s\<lparr>gm_gpus := (gm_gpus s)[i := (gm_gpus s ! i)\<lparr>g_enabled := b\<rparr>]\<rparr>)"
  unfolding shows_system_def by (cases "i < length (gm_gpus s)") (auto simp: nth_list_update list_update_beyond)

lemma set_all_shows: "gm_ok s \<Longrightarrow> shows_system sys s \<Longrightarrow> shows_system sys (set_all_enabled b s)"
  by (auto simp: shows_system_def set_all_enabled_def gm_ok_def table_ok_def nth_append)

definition same_table :: "mvgal_gpu_manager_state_t \<Rightarrow> mvgal_gpu_manager_state_t \<Rightarrow> bool" where
  "same_table s t \<longleftrightarrow> gm_gpus t = gm_gpus s \<and> gm_gpu_count t = gm_gpu_count s \<and> gm_initialized t = gm_initialized s"

lemma same_table_shows: "same_table s t \<Longrightarrow> shows_system sys s \<Longrightarrow> shows_system sys t"
  by (simp add: same_table_def shows_system_def)

lemma table_free_calls:
  "same_table s (snd (mvgal_gpu_register_callback f d s))" "same_table s (snd (mvgal_gpu_unregister_callback f s))"
  "same_table s (snd (mvgal_gpu_register_driver n p i u s))"
  by (simp_all add: same_table_def mvgal_gpu_register_callback_def mvgal_gpu_unregister_callback_def mvgal_gpu_register_driver_def split: option.split)

lemma gpu_call_shows: "gm_ok s \<Longrightarrow> shows_system sys s \<Longrightarrow> shows_system sys (gpu_call_run sys c s)"
proof (cases c)
  case Init
  assume "shows_system sys s"
  then show ?thesis using Init rescan_shows by (simp add: mvgal_gpu_manager_init_def Let_def)
next
  case Shutdown
  assume "shows_system sys s"
  then show ?thesis using Shutdown by (simp add: mvgal_gpu_manager_shutdown_def shows_system_def)
next
  case (Get_Handle_By_Node p)
  assume "shows_system sys s"
  then have f: "shows_system sys (snd (mvgal_gpu_find_by_node sys p True s))"
    using ensure_shows by (simp add: mvgal_gpu_find_by_node_def with_manager_looks split: option.split)
  have h: "shows_system sys (snd (mvgal_gpu_get_handle sys i u))" if "shows_system sys u" for i u
    using ensure_shows [OF that] by (simp add: mvgal_gpu_get_handle_def with_manager_looks)
  show ?thesis using Get_Handle_By_Node f h by (auto simp: mvgal_gpu_get_handle_by_node_def split: prod.split option.split)
next
  case (Enable i b)
  assume "shows_system sys s"
  then show ?thesis unfolding Enable gpu_call_run.simps mvgal_gpu_enable_def
    by (rule with_manager_shows) (simp add: set_gpu_shows)
next
  case Enable_All
  assume "gm_ok s" "shows_system sys s"
  then show ?thesis using set_all_shows [OF ensure_ok(2) ensure_shows] ensure_success [of sys s] unfolding Enable_All
    by (cases "ensure_gpu_manager_initialized sys s") (fastforce simp: mvgal_gpu_enable_all_def with_manager_def)
next
  case Disable_All
  assume "gm_ok s" "shows_system sys s"
  then show ?thesis using set_all_shows [OF ensure_ok(2) ensure_shows] ensure_success [of sys s] unfolding Disable_All
    by (cases "ensure_gpu_manager_initialized sys s") (fastforce simp: mvgal_gpu_disable_all_def with_manager_def)
next
  case Rescan
  assume "shows_system sys s"
  then show ?thesis unfolding Rescan gpu_call_run.simps mvgal_gpu_rescan_def
    by (rule with_manager_shows) (simp add: rescan_shows Let_def)
next
  case (Set_Thresholds i t)
  assume s: "shows_system sys s"
  show ?thesis
  proof (cases t)
    case (Some h)
    show ?thesis unfolding Set_Thresholds gpu_call_run.simps mvgal_gpu_set_health_thresholds_def Some option.case
      by (rule with_manager_shows [OF s]) (simp add: shows_system_def)
  qed (use s Set_Thresholds in \<open>simp add: mvgal_gpu_set_health_thresholds_def\<close>)
qed (use ensure_shows [of sys s] same_table_shows [OF table_free_calls(1)] same_table_shows [OF table_free_calls(2)]
      same_table_shows [OF table_free_calls(3)] in \<open>simp_all add: query_defs with_manager_looks split: option.split\<close>)

lemma gpu_calls_show:
  assumes "gm_ok s" and "shows_system sys s"
  shows "gm_ok (fold (gpu_call_run sys) cs s) \<and> shows_system sys (fold (gpu_call_run sys) cs s)"
  using assms by (induction cs arbitrary: s) (simp_all add: gpu_call_ok gpu_call_shows)

text \<open>Matching looks only at the address and the nodes of a GPU.\<close>

lemma identity_switch: "gpu_identity_matches sys (g\<lparr>g_enabled := b\<rparr>) h = gpu_identity_matches sys g h"
  by (simp add: gpu_identity_matches_def)

lemma find_own_index:
  assumes "i < n" and "\<And>j. j < n \<Longrightarrow> P j \<longleftrightarrow> j = i"
  shows "find P [0..<n] = Some i"
  using assms by (auto simp: find_Some_iff intro!: exI [of _ i])

text \<open>
  C36. The table of GPUs. After any calls of the GPU manager, whatever the system shows at each of them, there are at
  most sixteen GPUs, and none exactly when the manager is not started. Each of them has a complete descriptor
  (a type, memory that adds up, features, APIs, a name and a driver) under its own index. Switching one on or
  off is what asking for it then answers, and leaves the others as they were.
\<close>

theorem gpu_table_ok:
  assumes "s = fold (\<lambda>(sys, c). gpu_call_run sys c) cs g_gpu_manager_init" and "i < gm_gpu_count s"
  shows "gm_initialized s \<and> gm_gpu_count s \<le> 16 \<and> gpu_complete (gm_gpus s ! i) \<and> g_id (gm_gpus s ! i) = of_nat i
    \<and> mvgal_gpu_get_descriptor sys (of_nat i) True s = ((MVGAL_SUCCESS, Some (gm_gpus s ! i)), s)
    \<and> (\<exists>t. mvgal_gpu_enable sys (of_nat i) b s = (MVGAL_SUCCESS, t)
        \<and> (\<forall>j < gm_gpu_count s. mvgal_gpu_is_enabled sys (of_nat j) t
             = (if j = i then b else fst (mvgal_gpu_is_enabled sys (of_nat j) s), t)))"
proof -
  have ok: "gm_ok s" unfolding assms(1) by (rule gpu_calls_ok [OF g_gpu_manager_init_ok])
  have st: "gm_initialized s" "gm_gpu_count s \<le> 16" "length (gm_gpus s) = 16" using ok assms(2) by (auto simp: gm_ok_def table_ok_def)
  have u: "unat (of_nat j :: u32) = j" if "j < gm_gpu_count s" for j using that st(2) by (simp add: unsigned_of_nat take_bit_nat_eq_self)
  let ?t = "s\<lparr>gm_gpus := (gm_gpus s)[i := (gm_gpus s ! i)\<lparr>g_enabled := b\<rparr>]\<rparr>"
  have "mvgal_gpu_enable sys (of_nat i) b s = (MVGAL_SUCCESS, ?t)" using st(1) assms(2) u by (simp add: mvgal_gpu_enable_def)
  moreover have "mvgal_gpu_is_enabled sys (of_nat j) ?t = (if j = i then b else fst (mvgal_gpu_is_enabled sys (of_nat j) s), ?t)"
    if "j < gm_gpu_count s" for j
    using that st u by (simp add: mvgal_gpu_is_enabled_def nth_list_update)
  ultimately show ?thesis using ok st(1,2) assms(2) u
    by (auto simp: gm_ok_def table_ok_def mvgal_gpu_get_descriptor_def gpu_at_def)
qed

text \<open>
  C37. A rescan keeps what the user set. On a system that did not change and whose GPUs can be told apart, rescanning a
  started manager leaves every descriptor, switch and threshold as it was, after any calls before, and tells
  every registered callback about every GPU.
\<close>

theorem rescan_keeps_settings:
  assumes "s = fold (gpu_call_run sys) cs g_gpu_manager_init" and "gm_initialized s"
    and "\<And>i j. \<lbrakk>i < gm_gpu_count s; j < gm_gpu_count s\<rbrakk> \<Longrightarrow> gpu_identity_matches sys (gm_gpus s ! i) (gm_gpus s ! j) \<longleftrightarrow> i = j"
  shows "\<exists>t. mvgal_gpu_rescan sys s = (MVGAL_SUCCESS, t) \<and> gm_gpu_count t = gm_gpu_count s
    \<and> take (gm_gpu_count s) (gm_gpus t) = take (gm_gpu_count s) (gm_gpus s)
    \<and> take (gm_gpu_count s) (gm_health_thresholds t) = take (gm_gpu_count s) (gm_health_thresholds s)
    \<and> gm_calls t = gm_calls s @ [(f, d, g). (f, d) \<leftarrow> List.map_filter id (gm_callbacks s), g \<leftarrow> take (gm_gpu_count s) (gm_gpus s)]"
proof -
  have ok: "gm_ok s" and sh: "shows_system sys s"
    using gpu_calls_show [OF g_gpu_manager_init_ok, of sys cs] assms(1) by (simp_all add: shows_system_def g_gpu_manager_init_def)
  define n where "n = gm_gpu_count s"
  have n: "n = gm_gpu_count (system_table sys)" "n \<le> 16" "length (gm_gpus s) = 16" "length (gm_health_thresholds s) = 16"
    using ok sh assms(2) by (simp_all add: n_def gm_ok_def table_ok_def shows_system_def)
  have T: "gm_gpus (system_table sys) ! i = (gm_gpus s ! i)\<lparr>g_enabled := True\<rparr>" if "i < n" for i
    using sh assms(2) that by (simp add: shows_system_def n_def)
  have own: "find (\<lambda>j. gpu_identity_matches sys (gm_gpus (system_table sys) ! i) (gm_gpus s ! j)) [0..<n] = Some i" if "i < n" for i
    using assms(3) that by (intro find_own_index) (auto simp: T n_def identity_switch)
  have id: "g_id (gm_gpus s ! i) = of_nat i" if "i < n" for i using ok that by (simp add: gm_ok_def table_ok_def n_def)
  note r = rescan_table [where s = s and sys = sys, simplified, folded n(1) n_def]
  let ?u = "rescan_gpus_locked sys s"
  have undone: "(g\<lparr>g_enabled := True\<rparr>)\<lparr>g_enabled := g_enabled g, g_id := i\<rparr> = g" if "g_id g = i" for g i using that by (cases g) simp
  have g: "gm_gpus ?u ! i = gm_gpus s ! i" if "i < n" for i
    unfolding r(5) [OF that] restored_gpu_def own [OF that] option.case unfolding T [OF that] by (rule undone [OF id [OF that]])
  have h: "gm_health_thresholds ?u ! i = gm_health_thresholds s ! i" if "i < n" for i
    using r(6) [OF that] own [OF that] by (simp add: restored_thresholds_def)
  have tg: "take n (gm_gpus ?u) = take n (gm_gpus s)" and th: "take n (gm_health_thresholds ?u) = take n (gm_health_thresholds s)"
    using g h r(2,3) n by (simp_all add: list_eq_iff_nth_eq)
  have rest: "gm_callbacks ?u = gm_callbacks s" "gm_calls ?u = gm_calls s" using r(4) by (simp_all add: rest_of_def)
  show ?thesis using assms(2) r(1) tg th rest unfolding n_def [symmetric]
    by (simp add: mvgal_gpu_rescan_def Let_def notify_gpu_callbacks_def n_def [symmetric])
qed

section \<open>A system with two cards\<close>

definition two_cards :: system_view where
  "two_cards =
     \<lparr>sy_dir = (\<lambda>p. if p = ''/sys/class/drm'' then Some [''card0'', ''renderD128'', ''card1''] else None),
      sy_realpath = (\<lambda>p. if p = ''/sys/class/drm/card0/device'' then Some ''/sys/devices/0000:03:00.0''
                          else if p = ''/sys/class/drm/card1/device'' then Some ''/sys/devices/0000:04:00.0'' else None),
      sy_file = (\<lambda>p. if p = ''/sys/class/drm/card0/device/vendor'' then Some ''0x1002''
                      else if p = ''/sys/class/drm/card1/device/vendor'' then Some ''0x10de'' else None),
      sy_exists = (\<lambda>p. p = ''/dev/dri/card0''), sy_scan_float = (\<lambda>_. None)\<rparr>"

definition two_cards_off :: mvgal_gpu_manager_state_t where
  "two_cards_off = fold (gpu_call_run two_cards) [Init, Enable 1 False] g_gpu_manager_init"

lemma drm_gpu_identity [simp]:
  "g_pci (drm_gpu sys drm n p i) = (case parse_pci_address p of None \<Rightarrow> pci_zero | Some a \<Rightarrow> a)"
  "g_drm_node (drm_gpu sys drm n p i) = ''/dev/dri/'' @ take 30 n"
  "g_drm_render_node (drm_gpu sys drm n p i) = (case find_render_node_for_device sys p drm of None \<Rightarrow> [] | Some n \<Rightarrow> n)"
  "g_nvidia_node (drm_gpu sys drm n p i) = []"
  by (simp_all add: drm_gpu_def gpu_zero_def Let_def)

text \<open>How the code tells GPUs apart: address, card node, render node and NVIDIA node.\<close>

definition told_by :: "mvgal_gpu_descriptor_t \<Rightarrow> pci_address \<times> string \<times> string \<times> string" where
  "told_by g = (g_pci g, g_drm_node g, g_drm_render_node g, g_nvidia_node g)"

lemma two_cards_names:
  "parse_indexed_node ''card0'' ''card'' = Some 0" "parse_indexed_node ''renderD128'' ''card'' = None"
  "parse_indexed_node ''card1'' ''card'' = Some 1"
  "parse_pci_address ''/sys/devices/0000:03:00.0'' = Some \<lparr>pa_domain = 0, pa_bus = 3, pa_device = 0, pa_function = 0\<rparr>"
  "parse_pci_address ''/sys/devices/0000:04:00.0'' = Some \<lparr>pa_domain = 0, pa_bus = 4, pa_device = 0, pa_function = 0\<rparr>"
  by code_simp+

definition two_cards_told :: "(pci_address \<times> string \<times> string \<times> string) list" where
  "two_cards_told =
     [(\<lparr>pa_domain = 0, pa_bus = 3, pa_device = 0, pa_function = 0\<rparr>, ''/dev/dri/card0'', [], []),
      (\<lparr>pa_domain = 0, pa_bus = 4, pa_device = 0, pa_function = 0\<rparr>, ''/dev/dri/card1'', [], [])]"

lemma two_cards_table:
  "gm_gpu_count (system_table two_cards) = 2" "map told_by (take 2 (gm_gpus (system_table two_cards))) = two_cards_told"
proof -
  let ?d = "\<lambda>n p i. drm_gpu two_cards [''card0'', ''renderD128'', ''card1''] n p i"
  have dir: "sy_dir two_cards ''/sys/class/drm'' = Some [''card0'', ''renderD128'', ''card1'']" "sy_dir two_cards ''/dev'' = None"
    by (simp_all add: two_cards_def)
  have link: "sy_realpath two_cards ''/sys/class/drm/card0/device'' = Some ''/sys/devices/0000:03:00.0''"
    "sy_realpath two_cards ''/sys/class/drm/card1/device'' = Some ''/sys/devices/0000:04:00.0''"
    "sy_realpath two_cards ''/sys/class/drm/renderD128/device'' = None" by (simp_all add: two_cards_def)
  have render: "find_render_node_for_device two_cards p [''card0'', ''renderD128'', ''card1''] = None" for p
  proof -
    have "parse_indexed_node ''card0'' ''renderD'' = None" "parse_indexed_node ''card1'' ''renderD'' = None" by code_simp+
    then show ?thesis using link(3) by simp
  qed
  let ?z = "g_gpu_manager_init\<lparr>gm_gpus := replicate 16 gpu_zero, gm_health_thresholds := replicate 16 thresholds_zero, gm_gpu_count := 0\<rparr>"
  have t: "system_table two_cards = add_gpu (?d ''card1'' ''/sys/devices/0000:04:00.0'' 1) (add_gpu (?d ''card0'' ''/sys/devices/0000:03:00.0'' 0) ?z)"
    unfolding system_table_def scanned_table_def scan_drm_devices_locked_def scan_nvidia_devices_locked_def Let_def dir option.case
    by (simp add: two_cards_names link)
  show "gm_gpu_count (system_table two_cards) = 2" unfolding t by simp
  have "take 2 (gm_gpus (system_table two_cards)) = [?d ''card0'' ''/sys/devices/0000:03:00.0'' 0, ?d ''card1'' ''/sys/devices/0000:04:00.0'' 1]"
    unfolding t by (simp add: add_gpu_def numeral_eq_Suc)
  then show "map told_by (take 2 (gm_gpus (system_table two_cards))) = two_cards_told"
    by (simp add: told_by_def two_cards_told_def two_cards_names render del: find_render_node_for_device.simps)
qed

text \<open>The two cards after a start, the second one switched off.\<close>

lemma two_cards_off_table:
  "gm_initialized two_cards_off" "gm_gpu_count two_cards_off = 2" "map told_by (take 2 (gm_gpus two_cards_off)) = two_cards_told"
proof -
  let ?s = "gpu_call_run two_cards Init g_gpu_manager_init"
  have i: "gm_initialized ?s"
    using ensure_ok(3) [OF g_gpu_manager_init_ok, of two_cards] by (simp add: ensure_gpu_manager_initialized_def g_gpu_manager_init_def)
  then show init: "gm_initialized two_cards_off"
    using with_manager_started by (simp add: two_cards_off_def mvgal_gpu_enable_def split: if_split)
  have gs: "gm_ok two_cards_off" "shows_system two_cards two_cards_off"
    using gpu_calls_show [OF g_gpu_manager_init_ok, of two_cards "[Init, Enable 1 False]"]
    by (simp_all add: two_cards_off_def shows_system_def g_gpu_manager_init_def)
  then show n: "gm_gpu_count two_cards_off = 2" using init two_cards_table(1) by (simp add: shows_system_def)
  have len: "length (gm_gpus two_cards_off) = 16" "length (gm_gpus (system_table two_cards)) = 16"
    using gs(1) system_table_ok(1) [of two_cards] by (simp_all add: gm_ok_def scan_ok_def table_ok_def)
  have told: "told_by (gm_gpus two_cards_off ! k) = told_by (gm_gpus (system_table two_cards) ! k)" if "k < 2" for k
  proof -
    have "(gm_gpus two_cards_off ! k)\<lparr>g_enabled := True\<rparr> = gm_gpus (system_table two_cards) ! k"
      using gs(2) init n that by (simp add: shows_system_def)
    from arg_cong [OF this, of told_by] show ?thesis by (simp add: told_by_def)
  qed
  have "map told_by (take 2 (gm_gpus two_cards_off)) = map told_by (take 2 (gm_gpus (system_table two_cards)))"
    using told len by (simp add: list_eq_iff_nth_eq)
  then show "map told_by (take 2 (gm_gpus two_cards_off)) = two_cards_told" using two_cards_table(2) by simp
qed

text \<open>Two cards, one of them off: the witness for C36.\<close>

theorem gpu_table_ok_witness:
  "gm_gpu_count two_cards_off = 2 \<and> gpu_complete (gm_gpus two_cards_off ! 1)
   \<and> mvgal_gpu_get_descriptor two_cards 1 True two_cards_off = ((MVGAL_SUCCESS, Some (gm_gpus two_cards_off ! 1)), two_cards_off)"
proof -
  have "two_cards_off = fold (\<lambda>(sys, c). gpu_call_run sys c) [(two_cards, Init), (two_cards, Enable 1 False)] g_gpu_manager_init"
    by (simp add: two_cards_off_def)
  from gpu_table_ok [OF this, of 1 two_cards True] two_cards_off_table(2) show ?thesis by simp
qed

text \<open>Rescanning that system keeps the second card off: the witness for C1.\<close>

lemma two_cards_identity:
  assumes "i < 2" and "j < 2"
  shows "gpu_identity_matches two_cards (gm_gpus two_cards_off ! i) (gm_gpus two_cards_off ! j) \<longleftrightarrow> i = j"
proof -
  have len: "length (take 2 (gm_gpus two_cards_off)) = 2" using arg_cong [OF two_cards_off_table(3), of length] by (simp add: two_cards_told_def)
  have t: "told_by (gm_gpus two_cards_off ! k) = two_cards_told ! k" if "k < 2" for k
    using arg_cong [OF two_cards_off_table(3), of "\<lambda>xs. xs ! k"] that len by simp
  have "normalize_node_path two_cards ''/dev/dri/card0'' = Some ''/dev/dri/card0''"
    "normalize_node_path two_cards ''/dev/dri/card1'' = Some ''/dev/dri/card1''" by (simp_all add: normalize_node_path_def two_cards_def)
  moreover have "i = 0 \<or> i = 1" "j = 0 \<or> j = 1" using assms by auto
  ultimately show ?thesis using t [of 0] t [of 1]
    by (auto simp: gpu_identity_matches_def told_by_def two_cards_told_def node_matches_def pci_zero_def)
qed

theorem rescan_keeps_settings_witness:
  "\<exists>t. mvgal_gpu_rescan two_cards two_cards_off = (MVGAL_SUCCESS, t) \<and> gm_gpu_count t = 2
     \<and> take 2 (gm_gpus t) = take 2 (gm_gpus two_cards_off)"
proof -
  have "gpu_identity_matches two_cards (gm_gpus two_cards_off ! i) (gm_gpus two_cards_off ! j) \<longleftrightarrow> i = j"
    if "i < gm_gpu_count two_cards_off" "j < gm_gpu_count two_cards_off" for i j
    using that two_cards_identity two_cards_off_table(2) by simp
  from rescan_keeps_settings [OF two_cards_off_def two_cards_off_table(1) this] two_cards_off_table(2) show ?thesis by auto
qed

section \<open>Two flaws\<close>

text \<open>The placeholder has no address and no node, so it never matches itself, and a rescan switches it on again.\<close>

theorem placeholder_switch_lost:
  assumes "sy_dir sys = (\<lambda>_. None)" and "s = fold (gpu_call_run sys) cs g_gpu_manager_init" and "gm_initialized s"
  shows "gm_gpu_count s = 1 \<and> g_enabled (gm_gpus (snd (mvgal_gpu_rescan sys s)) ! 0)"
proof -
  have t: "system_table sys = add_gpu (placeholder_gpu sys 0)
      (g_gpu_manager_init\<lparr>gm_gpus := replicate 16 gpu_zero, gm_health_thresholds := replicate 16 thresholds_zero, gm_gpu_count := 0\<rparr>)"
    using assms(1) by (simp add: system_table_def scanned_table_def scan_drm_devices_locked_def scan_nvidia_devices_locked_def
        add_placeholder_gpu_locked_def Let_def)
  then have T: "gm_gpu_count (system_table sys) = 1" "gm_gpus (system_table sys) ! 0 = placeholder_gpu sys 0"
    by (simp_all add: add_gpu_def)
  have "shows_system sys s" using gpu_calls_show [OF g_gpu_manager_init_ok, of sys cs] assms(2)
    by (simp add: shows_system_def g_gpu_manager_init_def)
  then have c: "gm_gpu_count s = 1" using assms(3) T(1) by (simp add: shows_system_def)
  have no: "\<not> gpu_identity_matches sys (placeholder_gpu sys 0) h" for h
    by (simp add: gpu_identity_matches_def placeholder_gpu_def node_matches_def gpu_zero_def)
  have "gm_gpus (rescan_gpus_locked sys s) ! 0 = restored_gpu sys (gm_gpus s) (gm_gpu_count s) 0 (placeholder_gpu sys 0)"
    using rescan_table(5) [where s = s and sys = sys and i = 0] T by simp
  then have "g_enabled (gm_gpus (rescan_gpus_locked sys s) ! 0)" using no by (auto simp: restored_gpu_def find_Some_iff split: option.split)
  then show ?thesis using c assms(3) by (simp add: mvgal_gpu_rescan_def Let_def)
qed

text \<open>
  The registration stops at the first free place, before it has seen the places after it: a callback that is
  registered further on is accepted a second time.
\<close>

theorem callback_registered_twice:
  "let s = fold (gpu_call_run two_cards) [Register_Callback (Some 1) 0, Register_Callback (Some 2) 0, Unregister_Callback (Some 1)] g_gpu_manager_init
   in fst (mvgal_gpu_register_callback (Some 2) 0 s) = MVGAL_SUCCESS
      \<and> take 2 (gm_callbacks (snd (mvgal_gpu_register_callback (Some 2) 0 s))) = [Some (2, 0), Some (2, 0)]"
  by code_simp

end
