(* ===== verification/Gpu_Device.thy ===== *)
theory Gpu_Device
  imports Gpu_Manager
begin

unbundle bit_operations_syntax

text \<open>
  Choosing a GPU by criteria, and logical devices: several GPUs presented as one, of
  \<^verbatim>\<open>src/src/userspace/daemon/gpu_manager.c\<close>. A logical device is a block on a heap of its own; its
  descriptor is built by a loop over the members.
\<close>

section \<open>Choosing a GPU\<close>

record mvgal_gpu_selection_criteria_t =
  cr_use_compute_score :: bool
  cr_use_graphics_score :: bool
  cr_use_memory :: bool
  cr_use_features :: bool
  cr_required_features :: u64
  cr_preferred_features :: u64
  cr_min_vram :: u64
  cr_preferred_vendor :: mvgal_vendor_t
  cr_required_api :: mvgal_api_type_t

definition popcount64 :: "u64 \<Rightarrow> nat" where
  "popcount64 w = length (filter (bit w) [0..<64])"

text \<open>Which GPUs are looked at.\<close>

definition meets_criteria :: "mvgal_gpu_selection_criteria_t option \<Rightarrow> mvgal_gpu_descriptor_t \<Rightarrow> bool" where
  "meets_criteria criteria g \<longleftrightarrow>
     g_enabled g
     \<and> (case criteria of
          None \<Rightarrow> True
        | Some c \<Rightarrow>
            (cr_required_features c = 0 \<or> g_features g AND cr_required_features c = cr_required_features c)
            \<and> (cr_required_api c = 0 \<or> gpu_api_mask g AND cr_required_api c = cr_required_api c)
            \<and> (cr_min_vram c = 0 \<or> cr_min_vram c \<le> g_vram_total g))"

definition criteria_score :: "mvgal_gpu_selection_criteria_t option \<Rightarrow> mvgal_gpu_descriptor_t \<Rightarrow> f32" where
  "criteria_score criteria g =
     (let base =
        (case criteria of
           None \<Rightarrow> gpu_selection_score g
         | Some c \<Rightarrow>
             (let s0 = F32 0;
                  s1 = (if cr_use_compute_score c then f32_add s0 (g_compute_score g) else s0);
                  s2 = (if cr_use_graphics_score c then f32_add s1 (g_graphics_score g) else s1);
                  s3 = (if cr_use_memory c then f32_add s2 (f32_round (bytes_gb (g_vram_free g))) else s2);
                  s4 = (if cr_use_features c \<and> cr_preferred_features c \<noteq> 0
                        then f32_add s3 (f32_mul (F32 5) (f32_of_int (int (popcount64 (g_features g AND cr_preferred_features c))))) else s3)
              in if cr_preferred_vendor c \<noteq> MVGAL_VENDOR_UNKNOWN \<and> g_vendor g = cr_preferred_vendor c
                 then f32_add s4 (F32 10) else s4))
      in f32_add base (if g_available g then F32 5 else F32 0))"

text \<open>The first GPU is taken, and later ones when their score is higher.\<close>

fun select_loop ::
    "mvgal_gpu_selection_criteria_t option \<Rightarrow> mvgal_gpu_descriptor_t list \<Rightarrow> (f32 \<times> mvgal_gpu_descriptor_t) option \<Rightarrow>
       (f32 \<times> mvgal_gpu_descriptor_t) option" where
  "select_loop criteria [] best = best"
| "select_loop criteria (g # gs) best =
     select_loop criteria gs
       (if meets_criteria criteria g
           \<and> (case best of None \<Rightarrow> True | Some (score, _) \<Rightarrow> f32_less score (criteria_score criteria g))
        then Some (criteria_score criteria g, g) else best)"

definition mvgal_gpu_select_best ::
    "system_view \<Rightarrow> mvgal_gpu_selection_criteria_t option \<Rightarrow> bool \<Rightarrow> mvgal_gpu_manager_state_t \<Rightarrow>
       (mvgal_error_t \<times> mvgal_gpu_descriptor_t option) \<times> mvgal_gpu_manager_state_t" where
  "mvgal_gpu_select_best sys criteria out s =
     (if \<not> out then ((MVGAL_ERROR_INVALID_ARGUMENT, None), s)
      else with_manager sys (MVGAL_ERROR_INITIALIZATION, None) (\<lambda>s.
             (case select_loop criteria (take (gm_gpu_count s) (gm_gpus s)) None of
                None \<Rightarrow> (MVGAL_ERROR_GPU_NOT_FOUND, None)
              | Some (_, g) \<Rightarrow> (MVGAL_SUCCESS, Some g), s)) s)"

definition mvgal_gpu_get_primary ::
    "system_view \<Rightarrow> bool \<Rightarrow> mvgal_gpu_manager_state_t \<Rightarrow> (mvgal_error_t \<times> mvgal_gpu_descriptor_t option) \<times> mvgal_gpu_manager_state_t" where
  "mvgal_gpu_get_primary sys = mvgal_gpu_select_best sys None"

lemma select_loop_best:
  assumes "select_loop c gs best = r"
    and "\<And>s g. best = Some (s, g) \<Longrightarrow> s = criteria_score c g \<and> meets_criteria c g"
  shows "(r = None \<longrightarrow> best = None \<and> (\<forall>g \<in> set gs. \<not> meets_criteria c g))
    \<and> (\<forall>s g. r = Some (s, g) \<longrightarrow> s = criteria_score c g \<and> meets_criteria c g \<and> (g \<in> set gs \<or> best = Some (s, g)))"
  using assms
proof (induction gs arbitrary: best)
  case (Cons g gs)
  let ?b = "if meets_criteria c g \<and> (case best of None \<Rightarrow> True | Some (score, _) \<Rightarrow> f32_less score (criteria_score c g))
        then Some (criteria_score c g, g) else best"
  have b: "s = criteria_score c x \<and> meets_criteria c x" if "?b = Some (s, x)" for s x
    using that Cons.prems(2) by (auto split: if_splits)
  have "select_loop c gs ?b = r" using Cons.prems(1) by simp
  note ih = Cons.IH [OF this b]
  have "best = None \<and> \<not> meets_criteria c g" if "?b = None" using that by (auto split: if_splits)
  moreover have "x = g \<or> best = Some (s, x)" if "?b = Some (s, x)" for s x using that by (simp split: if_splits)
  ultimately show ?case using ih by (metis list.set_intros(1,2) set_ConsD)
qed simp

text \<open>No candidate beats the chosen GPU, unless the score of the first candidate is not a number.\<close>

lemma select_loop_max:
  assumes "select_loop c gs best = Some (s, g)" and "\<forall>h \<in> set gs. meets_criteria c h \<longrightarrow> criteria_score c h \<noteq> F32_nan"
    and "\<And>b h. best = Some (b, h) \<Longrightarrow> b \<noteq> F32_nan"
  shows "(\<forall>h \<in> set gs. meets_criteria c h \<longrightarrow> \<not> f32_less s (criteria_score c h)) \<and> s \<noteq> F32_nan
    \<and> (\<forall>b h. best = Some (b, h) \<longrightarrow> \<not> f32_less s b)"
  using assms
proof (induction gs arbitrary: best)
  case (Cons h gs)
  let ?b = "if meets_criteria c h \<and> (case best of None \<Rightarrow> True | Some (score, _) \<Rightarrow> f32_less score (criteria_score c h))
        then Some (criteria_score c h, h) else best"
  have ih: "(\<forall>h \<in> set gs. meets_criteria c h \<longrightarrow> \<not> f32_less s (criteria_score c h)) \<and> s \<noteq> F32_nan
      \<and> (\<forall>b h. ?b = Some (b, h) \<longrightarrow> \<not> f32_less s b)"
    using Cons.prems by (intro Cons.IH) (auto split: if_splits)
  show ?case
  proof (cases "meets_criteria c h \<and> (case best of None \<Rightarrow> True | Some (score, _) \<Rightarrow> f32_less score (criteria_score c h))")
    case True
    then have t: "?b = Some (criteria_score c h, h)" by simp
    then have h: "\<not> f32_less s (criteria_score c h)" using ih by auto
    have "\<not> f32_less s b" if "best = Some (b, x)" for b x
      using that True h f32_less_trans [of s b "criteria_score c h"] by auto
    then show ?thesis using ih h by auto
  next
    case False
    then have b: "?b = best" by auto
    show ?thesis
    proof (cases best)
      case None
      then show ?thesis using False ih b by auto
    next
      case (Some p)
      obtain b x where p: "p = (b, x)" by (cases p)
      have "\<not> f32_less s b" "b \<noteq> F32_nan" using ih b Some p Cons.prems(3) by auto
      then have "\<not> f32_less s (criteria_score c h)" if "meets_criteria c h"
        using that False Some p by (intro f32_not_less_trans [of b "criteria_score c h" s]) auto
      then show ?thesis using ih b by auto
    qed
  qed
qed simp

section \<open>Logical devices\<close>

record mvgal_logical_device_descriptor_t =
  ld_descriptor :: mvgal_gpu_descriptor_t
  ld_gpu_count :: u32
  ld_gpu_indices :: "u32 list"
  ld_gpu_mask :: u64
  ld_common_features :: u64
  ld_aggregate_features :: u64
  ld_common_api_mask :: mvgal_api_type_t
  ld_aggregate_api_mask :: mvgal_api_type_t
  ld_heterogeneous :: bool
  ld_primary_gpu_index :: u32

text \<open>A device is a block of memory with a magic number; the devices are the blocks that are allocated.\<close>

record mvgal_logical_device_t =
  lg_magic :: u32
  lg_descriptor :: mvgal_logical_device_descriptor_t

type_synonym device_heap = "nat \<rightharpoonup> mvgal_logical_device_t"

abbreviation (input) MVGAL_LOGICAL_DEVICE_MAGIC :: u32 where "MVGAL_LOGICAL_DEVICE_MAGIC \<equiv> 0x4D564C47"

definition new_device :: "nat \<Rightarrow> mvgal_logical_device_descriptor_t" where
  "new_device gpu_count =
     \<lparr>ld_descriptor = gpu_zero\<lparr>g_id := UINT32_MAX, g_type := MVGAL_GPU_TYPE_VIRTUAL, g_memory_type := MVGAL_MEMORY_TYPE_UNIFIED,
        g_enabled := True, g_available := True, g_driver_name := ''mvgal'', g_driver_version := ''0.1''\<rparr>,
      ld_gpu_count = of_nat gpu_count, ld_gpu_indices = [], ld_gpu_mask = 0, ld_common_features = 0, ld_aggregate_features = 0,
      ld_common_api_mask = 0, ld_aggregate_api_mask = 0, ld_heterogeneous = False, ld_primary_gpu_index = 0\<rparr>"

text \<open>What one member adds, in the order of the code; the indices of the members so far are \<open>ld_gpu_indices\<close>.\<close>

definition add_sums :: "mvgal_gpu_descriptor_t \<Rightarrow> mvgal_gpu_descriptor_t \<Rightarrow> mvgal_gpu_descriptor_t" where
  "add_sums m d =
     d\<lparr>g_vram_total := g_vram_total d + g_vram_total m, g_vram_free := g_vram_free d + g_vram_free m,
       g_vram_used := g_vram_used d + g_vram_used m, g_compute_score := f32_add (g_compute_score d) (g_compute_score m),
       g_graphics_score := f32_add (g_graphics_score d) (g_graphics_score m),
       g_memory_bandwidth_gbps := f32_add (g_memory_bandwidth_gbps d) (g_memory_bandwidth_gbps m),
       g_pcie_bandwidth_gbps := f32_add (g_pcie_bandwidth_gbps d) (g_pcie_bandwidth_gbps m),
       g_current_power_w := f32_add (g_current_power_w d) (g_current_power_w m),
       g_temperature_celsius := (if f32_less (g_temperature_celsius d) (g_temperature_celsius m) then g_temperature_celsius m
                                 else g_temperature_celsius d)\<rparr>"

definition join_member :: "u32 \<Rightarrow> mvgal_gpu_descriptor_t \<Rightarrow> mvgal_logical_device_descriptor_t \<Rightarrow> mvgal_logical_device_descriptor_t" where
  "join_member index m ld =
     (let first_member = (ld_gpu_indices ld = []);
          d = add_sums m (ld_descriptor ld)
      in ld\<lparr>ld_gpu_indices := ld_gpu_indices ld @ [index],
            ld_gpu_mask := ld_gpu_mask ld OR push_bit (unat index) 1,
            ld_aggregate_features := ld_aggregate_features ld OR g_features m,
            ld_aggregate_api_mask := ld_aggregate_api_mask ld OR gpu_api_mask m,
            ld_common_features := (if first_member then g_features m else ld_common_features ld AND g_features m),
            ld_common_api_mask := (if first_member then gpu_api_mask m else ld_common_api_mask ld AND gpu_api_mask m),
            ld_descriptor := (if first_member then d\<lparr>g_vendor := g_vendor m, g_memory_type := g_memory_type m\<rparr> else d),
            ld_heterogeneous := ld_heterogeneous ld \<or>
              (\<not> first_member \<and> (g_vendor d \<noteq> g_vendor m \<or> g_memory_type d \<noteq> g_memory_type m))\<rparr>)"

fun member_loop ::
    "mvgal_gpu_manager_state_t \<Rightarrow> u32 list \<Rightarrow> f32 \<Rightarrow> mvgal_logical_device_descriptor_t \<Rightarrow>
       mvgal_error_t + mvgal_logical_device_descriptor_t" where
  "member_loop s [] best_member_score ld = Inr ld"
| "member_loop s (index # is) best_member_score ld =
     (if gm_gpu_count s \<le> unat index then Inl MVGAL_ERROR_GPU_NOT_FOUND
      else if index \<in> set (ld_gpu_indices ld) then Inl MVGAL_ERROR_INVALID_ARGUMENT
      else
        (let m = gm_gpus s ! unat index
         in if \<not> g_enabled m then Inl MVGAL_ERROR_INCOMPATIBLE
            else
              (let ld1 = join_member index m ld; score = gpu_selection_score m
               in if f32_less best_member_score score
                  then member_loop s is score (ld1\<lparr>ld_primary_gpu_index := index\<rparr>)
                  else member_loop s is best_member_score ld1)))"

definition finish_device :: "nat \<Rightarrow> mvgal_logical_device_descriptor_t \<Rightarrow> mvgal_logical_device_descriptor_t" where
  "finish_device gpu_count ld =
     (let d1 = (ld_descriptor ld)\<lparr>g_features := ld_common_features ld, g_supported_apis := api_mask_to_list (ld_common_api_mask ld) 16\<rparr>;
          d2 = (if ld_heterogeneous ld then d1\<lparr>g_vendor := MVGAL_VENDOR_UNKNOWN, g_memory_type := MVGAL_MEMORY_TYPE_UNIFIED\<rparr> else d1)
      in ld\<lparr>ld_descriptor := d2\<lparr>g_name := ''MVGAL Logical GPU ('' @ dec_digits gpu_count @ '' member''
              @ (if gpu_count = 1 then [] else ''s'') @ '')''\<rparr>\<rparr>)"

text \<open>\<open>alloc\<close> is the address \<^verbatim>\<open>calloc\<close> returns, if it succeeds; \<open>gpu_indices\<close> is \<open>None\<close> for NULL.\<close>

definition mvgal_device_create ::
    "system_view \<Rightarrow> nat option \<Rightarrow> u32 list option \<Rightarrow> bool \<Rightarrow> device_heap \<Rightarrow> mvgal_gpu_manager_state_t \<Rightarrow>
       (mvgal_error_t \<times> nat option \<times> device_heap) \<times> mvgal_gpu_manager_state_t" where
  "mvgal_device_create sys alloc gpu_indices out h s =
     (case gpu_indices of
        None \<Rightarrow> ((MVGAL_ERROR_INVALID_ARGUMENT, None, h), s)
      | Some is \<Rightarrow>
          if \<not> out \<or> is = [] \<or> MAX_GPUS < length is then ((MVGAL_ERROR_INVALID_ARGUMENT, None, h), s)
          else with_manager sys (MVGAL_ERROR_INITIALIZATION, None, h) (\<lambda>s.
                 (case alloc of
                    None \<Rightarrow> (MVGAL_ERROR_OUT_OF_MEMORY, None, h)
                  | Some a \<Rightarrow>
                      (case member_loop s is (F32 (- 1)) (new_device (length is)) of
                         Inl err \<Rightarrow> (err, None, h)
                       | Inr ld \<Rightarrow>
                           (MVGAL_SUCCESS, Some a,
                            h(a \<mapsto> \<lparr>lg_magic = MVGAL_LOGICAL_DEVICE_MAGIC, lg_descriptor = finish_device (length is) ld\<rparr>))), s)) s)"

definition mvgal_device_destroy :: "nat option \<Rightarrow> device_heap \<Rightarrow> device_heap run" where
  "mvgal_device_destroy device h =
     (case device of
        None \<Rightarrow> Inr h
      | Some a \<Rightarrow>
          (case h a of
             None \<Rightarrow> Inl (Dangling a)
           | Some d \<Rightarrow> if lg_magic d \<noteq> MVGAL_LOGICAL_DEVICE_MAGIC then Inr h else Inr (h(a := None))))"

definition mvgal_device_get_descriptor ::
    "nat option \<Rightarrow> bool \<Rightarrow> device_heap \<Rightarrow> (mvgal_error_t \<times> mvgal_logical_device_descriptor_t option) run" where
  "mvgal_device_get_descriptor device out h =
     (case device of
        None \<Rightarrow> Inr (MVGAL_ERROR_INVALID_ARGUMENT, None)
      | Some a \<Rightarrow>
          if \<not> out then Inr (MVGAL_ERROR_INVALID_ARGUMENT, None)
          else
            (case h a of
               None \<Rightarrow> Inl (Dangling a)
             | Some d \<Rightarrow> if lg_magic d \<noteq> MVGAL_LOGICAL_DEVICE_MAGIC then Inr (MVGAL_ERROR_INVALID_ARGUMENT, None)
                         else Inr (MVGAL_SUCCESS, Some (lg_descriptor d))))"

section \<open>What a logical device promises\<close>

text \<open>The GPUs with these indices, and when they can be joined.\<close>

abbreviation members :: "mvgal_gpu_manager_state_t \<Rightarrow> u32 list \<Rightarrow> mvgal_gpu_descriptor_t list" where
  "members s is \<equiv> map (\<lambda>i. gm_gpus s ! unat i) is"

definition joinable :: "mvgal_gpu_manager_state_t \<Rightarrow> u32 list \<Rightarrow> bool" where
  "joinable s is \<longleftrightarrow> distinct is \<and> (\<forall>i \<in> set is. unat i < gm_gpu_count s \<and> g_enabled (gm_gpus s ! unat i))"

text \<open>The profile of the members joined so far.\<close>

definition profile_of :: "mvgal_gpu_descriptor_t list \<Rightarrow> u32 list \<Rightarrow> mvgal_logical_device_descriptor_t \<Rightarrow> bool" where
  "profile_of ms is ld \<longleftrightarrow>
     ld_gpu_indices ld = is
     \<and> (\<forall>k. bit (ld_gpu_mask ld) k \<longleftrightarrow> k < 64 \<and> k \<in> unat ` set is)
     \<and> (\<forall>k. bit (ld_aggregate_features ld) k \<longleftrightarrow> (\<exists>m \<in> set ms. bit (g_features m) k))
     \<and> (\<forall>k. bit (ld_aggregate_api_mask ld) k \<longleftrightarrow> (\<exists>m \<in> set ms. bit (gpu_api_mask m) k))
     \<and> (ms \<noteq> [] \<longrightarrow> (\<forall>k. bit (ld_common_features ld) k \<longleftrightarrow> (\<forall>m \<in> set ms. bit (g_features m) k))
          \<and> (\<forall>k. bit (ld_common_api_mask ld) k \<longleftrightarrow> (\<forall>m \<in> set ms. bit (gpu_api_mask m) k))
          \<and> g_vendor (ld_descriptor ld) = g_vendor (hd ms) \<and> g_memory_type (ld_descriptor ld) = g_memory_type (hd ms))
     \<and> (ld_heterogeneous ld \<longleftrightarrow> (\<exists>m \<in> set ms. g_vendor m \<noteq> g_vendor (hd ms) \<or> g_memory_type m \<noteq> g_memory_type (hd ms)))
     \<and> g_vram_total (ld_descriptor ld) = sum_list (map g_vram_total ms)
     \<and> g_vram_used (ld_descriptor ld) = sum_list (map g_vram_used ms)
     \<and> g_vram_free (ld_descriptor ld) = sum_list (map g_vram_free ms)"

lemma profile_new: "profile_of [] [] (new_device n)"
  by (simp add: profile_of_def new_device_def gpu_zero_def)

lemma profile_primary [simp]: "profile_of ms is (ld\<lparr>ld_primary_gpu_index := p\<rparr>) = profile_of ms is ld"
  by (simp add: profile_of_def)

lemma bit_single: "bit (2 ^ n :: u64) k \<longleftrightarrow> k = n \<and> k < 64"
  by (auto simp: bit_exp_iff)

lemma profile_join:
  assumes "profile_of ms is ld" and "ms = [] \<longleftrightarrow> is = []"
  shows "profile_of (ms @ [m]) (is @ [i]) (join_member i m ld)"
proof -
  have p: "ld_gpu_indices ld = is" "\<And>k. bit (ld_gpu_mask ld) k \<longleftrightarrow> k < 64 \<and> k \<in> unat ` set is"
    "\<And>k. bit (ld_aggregate_features ld) k \<longleftrightarrow> (\<exists>m \<in> set ms. bit (g_features m) k)"
    "\<And>k. bit (ld_aggregate_api_mask ld) k \<longleftrightarrow> (\<exists>m \<in> set ms. bit (gpu_api_mask m) k)"
    "\<And>k. ms \<noteq> [] \<Longrightarrow> bit (ld_common_features ld) k \<longleftrightarrow> (\<forall>m \<in> set ms. bit (g_features m) k)"
    "\<And>k. ms \<noteq> [] \<Longrightarrow> bit (ld_common_api_mask ld) k \<longleftrightarrow> (\<forall>m \<in> set ms. bit (gpu_api_mask m) k)"
    "ms \<noteq> [] \<Longrightarrow> g_vendor (ld_descriptor ld) = g_vendor (hd ms)" "ms \<noteq> [] \<Longrightarrow> g_memory_type (ld_descriptor ld) = g_memory_type (hd ms)"
    "ld_heterogeneous ld \<longleftrightarrow> (\<exists>m \<in> set ms. g_vendor m \<noteq> g_vendor (hd ms) \<or> g_memory_type m \<noteq> g_memory_type (hd ms))"
    "g_vram_total (ld_descriptor ld) = sum_list (map g_vram_total ms)" "g_vram_used (ld_descriptor ld) = sum_list (map g_vram_used ms)"
    "g_vram_free (ld_descriptor ld) = sum_list (map g_vram_free ms)"
    using assms(1) by (simp_all add: profile_of_def)
  have f: "ld_gpu_indices ld = [] \<longleftrightarrow> ms = []" using p(1) assms(2) by simp
  let ?j = "join_member i m ld"
  note d = join_member_def Let_def
  have q1: "ld_gpu_indices ?j = is @ [i]" by (simp add: d p(1))
  have q2: "bit (ld_gpu_mask ?j) k \<longleftrightarrow> k < 64 \<and> k \<in> unat ` set (is @ [i])" for k
    using p(2) [of k] by (auto simp: d bit_or_iff bit_single)
  have q3: "bit (ld_aggregate_features ?j) k \<longleftrightarrow> (\<exists>x \<in> set (ms @ [m]). bit (g_features x) k)" for k
    using p(3) [of k] by (auto simp: d bit_or_iff)
  have q4: "bit (ld_aggregate_api_mask ?j) k \<longleftrightarrow> (\<exists>x \<in> set (ms @ [m]). bit (gpu_api_mask x) k)" for k
    using p(4) [of k] by (auto simp: d bit_or_iff)
  have q5: "bit (ld_common_features ?j) k \<longleftrightarrow> (\<forall>x \<in> set (ms @ [m]). bit (g_features x) k)" for k
    using p(5) [of k] f by (cases "ms = []") (auto simp: d bit_and_iff)
  have q6: "bit (ld_common_api_mask ?j) k \<longleftrightarrow> (\<forall>x \<in> set (ms @ [m]). bit (gpu_api_mask x) k)" for k
    using p(6) [of k] f by (cases "ms = []") (auto simp: d bit_and_iff)
  have sums: "g_vendor (add_sums m x) = g_vendor x" "g_memory_type (add_sums m x) = g_memory_type x" for x by (simp_all add: add_sums_def)
  have q7: "g_vendor (ld_descriptor ?j) = g_vendor (hd (ms @ [m]))"
    using p(7) f by (cases "ms = []") (simp_all add: d sums)
  have q8: "g_memory_type (ld_descriptor ?j) = g_memory_type (hd (ms @ [m]))"
    using p(8) f by (cases "ms = []") (simp_all add: d sums)
  have h: "ld_heterogeneous ?j \<longleftrightarrow> ld_heterogeneous ld \<or>
      ms \<noteq> [] \<and> (g_vendor (ld_descriptor ld) \<noteq> g_vendor m \<or> g_memory_type (ld_descriptor ld) \<noteq> g_memory_type m)"
    by (simp add: d sums f)
  have q9: "ld_heterogeneous ?j \<longleftrightarrow> (\<exists>x \<in> set (ms @ [m]). g_vendor x \<noteq> g_vendor (hd (ms @ [m])) \<or> g_memory_type x \<noteq> g_memory_type (hd (ms @ [m])))"
  proof (cases "ms = []")
    case True
    then show ?thesis by (simp add: h p(9))
  next
    case False
    then show ?thesis unfolding h p(9) p(7) [OF False] p(8) [OF False] by (simp add: eq_commute disj_commute)
  qed
  have q10: "g_vram_total (ld_descriptor ?j) = sum_list (map g_vram_total (ms @ [m]))"
    "g_vram_used (ld_descriptor ?j) = sum_list (map g_vram_used (ms @ [m]))"
    "g_vram_free (ld_descriptor ?j) = sum_list (map g_vram_free (ms @ [m]))"
    using p(10-12) by (simp_all add: d add_sums_def)
  show ?thesis unfolding profile_of_def
    by (intro conjI allI impI; rule q1 q2 q3 q4 q5 q6 q7 q8 q9 q10)
qed

lemma member_loop_profile:
  assumes "profile_of (members s js) js ld"
  shows "(\<forall>ld'. member_loop s is b ld = Inr ld' \<longrightarrow> profile_of (members s (js @ is)) (js @ is) ld')
    \<and> ((\<exists>ld'. member_loop s is b ld = Inr ld') \<longleftrightarrow>
        distinct is \<and> set is \<inter> set js = {} \<and> (\<forall>i \<in> set is. unat i < gm_gpu_count s \<and> g_enabled (gm_gpus s ! unat i)))"
  using assms
proof (induction "is" arbitrary: js b ld)
  case (Cons i "is")
  let ?m = "gm_gpus s ! unat i"
  have js: "ld_gpu_indices ld = js" using Cons.prems by (simp add: profile_of_def)
  have j: "profile_of (members s (js @ [i])) (js @ [i]) (join_member i ?m ld)"
    using profile_join [OF Cons.prems, of ?m i] by simp
  show ?case
  proof (cases "unat i < gm_gpu_count s \<and> i \<notin> set js \<and> g_enabled ?m")
    case True
    define b' ld' where "b' = (if f32_less b (gpu_selection_score ?m) then gpu_selection_score ?m else b)"
      and "ld' = (if f32_less b (gpu_selection_score ?m) then (join_member i ?m ld)\<lparr>ld_primary_gpu_index := i\<rparr> else join_member i ?m ld)"
    have p: "profile_of (members s (js @ [i])) (js @ [i]) ld'" using j by (simp add: ld'_def)
    have l: "member_loop s (i # is) b ld = member_loop s is b' ld'" using True js by (simp add: b'_def ld'_def Let_def)
    show ?thesis unfolding l using Cons.IH [OF p, of b'] True by auto
  next
    case False
    then have "\<exists>e. member_loop s (i # is) b ld = Inl e" using js by (auto simp: Let_def not_less)
    then show ?thesis using False by auto
  qed
qed simp

text \<open>The primary GPU is the first one of the best, when a score is above the value the search starts from.\<close>

lemma member_loop_primary:
  assumes "member_loop s is b ld = Inr ld'"
  shows "(ld_primary_gpu_index ld' \<in> set is
      \<and> (\<forall>i \<in> set is. b \<noteq> F32_nan \<longrightarrow> \<not> f32_less (gpu_selection_score (gm_gpus s ! unat (ld_primary_gpu_index ld'))) (gpu_selection_score (gm_gpus s ! unat i)))
      \<and> f32_less b (gpu_selection_score (gm_gpus s ! unat (ld_primary_gpu_index ld'))))
    \<or> (ld_primary_gpu_index ld' = ld_primary_gpu_index ld \<and> (\<forall>i \<in> set is. \<not> f32_less b (gpu_selection_score (gm_gpus s ! unat i))))"
  using assms
proof (induction "is" arbitrary: b ld)
  case (Cons i "is")
  let ?m = "gm_gpus s ! unat i" and ?sc = "\<lambda>i. gpu_selection_score (gm_gpus s ! unat i)"
  have pr: "ld_primary_gpu_index (join_member i ?m ld) = ld_primary_gpu_index ld" by (simp add: join_member_def Let_def)
  show ?case
  proof (cases "f32_less b (?sc i)")
    case True
    then have l: "member_loop s is (?sc i) ((join_member i ?m ld)\<lparr>ld_primary_gpu_index := i\<rparr>) = Inr ld'"
      using Cons.prems by (auto simp: Let_def split: if_splits)
    have n: "?sc i \<noteq> F32_nan" using True by auto
    from Cons.IH [OF l] show ?thesis
    proof
      assume "ld_primary_gpu_index ld' = ld_primary_gpu_index ((join_member i ?m ld)\<lparr>ld_primary_gpu_index := i\<rparr>) \<and> (\<forall>j \<in> set is. \<not> f32_less (?sc i) (?sc j))"
      then show ?thesis using True by auto
    next
      assume a: "ld_primary_gpu_index ld' \<in> set is
        \<and> (\<forall>j \<in> set is. ?sc i \<noteq> F32_nan \<longrightarrow> \<not> f32_less (?sc (ld_primary_gpu_index ld')) (?sc j)) \<and> f32_less (?sc i) (?sc (ld_primary_gpu_index ld'))"
      then have "\<not> f32_less (?sc (ld_primary_gpu_index ld')) (?sc i)" using f32_less_trans f32_less_irrefl by blast
      then show ?thesis using a n True f32_less_trans by auto
    qed
  next
    case False
    then have l: "member_loop s is b (join_member i ?m ld) = Inr ld'" using Cons.prems by (auto simp: Let_def split: if_splits)
    from Cons.IH [OF l] show ?thesis
    proof
      assume "ld_primary_gpu_index ld' = ld_primary_gpu_index (join_member i ?m ld) \<and> (\<forall>i \<in> set is. \<not> f32_less b (?sc i))"
      then show ?thesis using False pr by auto
    next
      assume a: "ld_primary_gpu_index ld' \<in> set is
        \<and> (\<forall>j \<in> set is. b \<noteq> F32_nan \<longrightarrow> \<not> f32_less (?sc (ld_primary_gpu_index ld')) (?sc j)) \<and> f32_less b (?sc (ld_primary_gpu_index ld'))"
      then have "b \<noteq> F32_nan \<Longrightarrow> \<not> f32_less (?sc (ld_primary_gpu_index ld')) (?sc i)"
        using False f32_not_less_less [of b "?sc i"] f32_less_trans by blast
      then show ?thesis using a by auto
    qed
  qed
qed simp

lemma and_single_bit: "(x AND 2 ^ n \<noteq> 0) \<longleftrightarrow> bit x n" for x :: u64
proof (cases "bit x n")
  case True
  then have "n < 64" by (auto dest: bit_imp_le_length)
  with True have b: "bit (x AND 2 ^ n) n" by (simp add: bit_and_iff bit_exp_iff)
  have "x AND 2 ^ n \<noteq> 0"
  proof
    assume "x AND 2 ^ n = 0"
    with b have "bit (0 :: u64) n" by (simp only:)
    then show False by simp
  qed
  with True show ?thesis by simp
next
  case False
  have "x AND 2 ^ n = 0" by (rule bit_eqI) (use False in \<open>auto simp: bit_and_iff bit_exp_iff\<close>)
  with False show ?thesis by simp
qed

lemma known_apis_bits: "known_apis = map (\<lambda>n. 2 ^ n) [0, 1, 2, 3, 4, 5, 6, 7, 8]"
  by (simp add: known_apis_def)

lemma api_list_set:
  assumes "\<And>k. bit c k \<longleftrightarrow> (\<forall>m \<in> set ms. bit (gpu_api_mask m) k)"
  shows "set (api_mask_to_list c 16) = {a \<in> set known_apis. \<forall>m \<in> set ms. gpu_api_mask m AND a \<noteq> 0}"
proof -
  have "length (filter (\<lambda>a. c AND a \<noteq> 0) known_apis) \<le> length known_apis" by (rule length_filter_le)
  then have t: "take 16 (filter (\<lambda>a. c AND a \<noteq> 0) known_apis) = filter (\<lambda>a. c AND a \<noteq> 0) known_apis" by (simp add: known_apis_def)
  have "c AND a \<noteq> 0 \<longleftrightarrow> (\<forall>m \<in> set ms. gpu_api_mask m AND a \<noteq> 0)" if k: "a \<in> set known_apis" for a
  proof -
    obtain n where "a = 2 ^ n" using k unfolding known_apis_bits set_map by blast
    then show ?thesis using assms [of n] by (simp only: and_single_bit)
  qed
  then show ?thesis unfolding api_mask_to_list_def t by auto
qed

text \<open>What the finished device says of its members.\<close>

definition device_profile :: "mvgal_gpu_descriptor_t list \<Rightarrow> u32 list \<Rightarrow> mvgal_logical_device_descriptor_t \<Rightarrow> bool" where
  "device_profile ms is ld \<longleftrightarrow>
     ld_gpu_indices ld = is \<and> (\<forall>k. bit (ld_gpu_mask ld) k \<longleftrightarrow> k < 64 \<and> k \<in> unat ` set is)
     \<and> (\<forall>k. bit (g_features (ld_descriptor ld)) k \<longleftrightarrow> (\<forall>m \<in> set ms. bit (g_features m) k))
     \<and> (\<forall>k. bit (ld_aggregate_features ld) k \<longleftrightarrow> (\<exists>m \<in> set ms. bit (g_features m) k))
     \<and> set (g_supported_apis (ld_descriptor ld)) = {a \<in> set known_apis. \<forall>m \<in> set ms. gpu_api_mask m AND a \<noteq> 0}
     \<and> g_vram_total (ld_descriptor ld) = sum_list (map g_vram_total ms)
     \<and> g_vram_free (ld_descriptor ld) = sum_list (map g_vram_free ms)
     \<and> (if \<exists>m \<in> set ms. g_vendor m \<noteq> g_vendor (hd ms) \<or> g_memory_type m \<noteq> g_memory_type (hd ms)
        then g_vendor (ld_descriptor ld) = MVGAL_VENDOR_UNKNOWN \<and> g_memory_type (ld_descriptor ld) = MVGAL_MEMORY_TYPE_UNIFIED
        else g_vendor (ld_descriptor ld) = g_vendor (hd ms) \<and> g_memory_type (ld_descriptor ld) = g_memory_type (hd ms))"

lemma finish_device_fields [simp]:
  "ld_gpu_indices (finish_device n ld) = ld_gpu_indices ld" "ld_gpu_mask (finish_device n ld) = ld_gpu_mask ld"
  "ld_aggregate_features (finish_device n ld) = ld_aggregate_features ld" "ld_primary_gpu_index (finish_device n ld) = ld_primary_gpu_index ld"
  "g_features (ld_descriptor (finish_device n ld)) = ld_common_features ld"
  "g_supported_apis (ld_descriptor (finish_device n ld)) = api_mask_to_list (ld_common_api_mask ld) 16"
  "g_vram_total (ld_descriptor (finish_device n ld)) = g_vram_total (ld_descriptor ld)"
  "g_vram_free (ld_descriptor (finish_device n ld)) = g_vram_free (ld_descriptor ld)"
  "g_vendor (ld_descriptor (finish_device n ld)) = (if ld_heterogeneous ld then MVGAL_VENDOR_UNKNOWN else g_vendor (ld_descriptor ld))"
  "g_memory_type (ld_descriptor (finish_device n ld)) = (if ld_heterogeneous ld then MVGAL_MEMORY_TYPE_UNIFIED else g_memory_type (ld_descriptor ld))"
  by (simp_all add: finish_device_def Let_def)

lemma profile_parts:
  assumes "profile_of ms is ld" and "ms \<noteq> []"
  shows "ld_gpu_indices ld = is" "\<forall>k. bit (ld_gpu_mask ld) k \<longleftrightarrow> k < 64 \<and> k \<in> unat ` set is"
    "\<forall>k. bit (ld_common_features ld) k \<longleftrightarrow> (\<forall>m \<in> set ms. bit (g_features m) k)"
    "\<forall>k. bit (ld_common_api_mask ld) k \<longleftrightarrow> (\<forall>m \<in> set ms. bit (gpu_api_mask m) k)"
    "\<forall>k. bit (ld_aggregate_features ld) k \<longleftrightarrow> (\<exists>m \<in> set ms. bit (g_features m) k)"
    "g_vram_total (ld_descriptor ld) = sum_list (map g_vram_total ms)" "g_vram_free (ld_descriptor ld) = sum_list (map g_vram_free ms)"
    "ld_heterogeneous ld \<longleftrightarrow> (\<exists>m \<in> set ms. g_vendor m \<noteq> g_vendor (hd ms) \<or> g_memory_type m \<noteq> g_memory_type (hd ms))"
    "g_vendor (ld_descriptor ld) = g_vendor (hd ms)" "g_memory_type (ld_descriptor ld) = g_memory_type (hd ms)"
  using assms unfolding profile_of_def by blast+

lemma finish_device_profile:
  assumes "profile_of ms is ld" and "ms \<noteq> []"
  shows "device_profile ms is (finish_device n ld)"
proof -
  note p = profile_parts [OF assms]
  have apis: "set (api_mask_to_list (ld_common_api_mask ld) 16) = {a \<in> set known_apis. \<forall>m \<in> set ms. gpu_api_mask m AND a \<noteq> 0}"
    by (rule api_list_set) (rule p(4) [rule_format])
  show ?thesis unfolding device_profile_def finish_device_fields p(8) [symmetric] p(9,10)
    by (intro conjI; (rule p apis)?) simp
qed

lemma joinable_member_loop:
  "(\<forall>ld. member_loop s is b (new_device n) = Inr ld \<longrightarrow> profile_of (members s is) is ld)
   \<and> ((\<exists>ld. member_loop s is b (new_device n) = Inr ld) \<longleftrightarrow> joinable s is)"
proof -
  have "profile_of (members s []) [] (new_device n)" using profile_new by simp
  from member_loop_profile [OF this, of "is" b] show ?thesis by (simp add: joinable_def)
qed

text \<open>
  C38. Several GPUs as one device. Creating a logical device from one to sixteen GPUs of a started manager succeeds
  exactly when they exist, are switched on and are named once each; otherwise nothing is allocated. The
  device's descriptor then has the features and APIs that all members have, the sum of their memory, the union of
  the features beside it, the set of the members as mask, a vendor and memory type only if all members
  agree, and as primary a member that no other member scores higher than. Destroying it frees what was allocated.
\<close>

theorem logical_device_profile:
  assumes "gm_initialized s" and "is \<noteq> []" and "length is \<le> 16"
  shows "if joinable s is
    then \<exists>ld h'. mvgal_device_create sys (Some a) (Some is) True h s = ((MVGAL_SUCCESS, Some a, h'), s)
      \<and> mvgal_device_get_descriptor (Some a) True h' = Inr (MVGAL_SUCCESS, Some ld)
      \<and> mvgal_device_destroy (Some a) h' = Inr (h(a := None))
      \<and> device_profile (members s is) is ld
      \<and> (\<forall>i \<in> set is. f32_less (F32 (- 1)) (gpu_selection_score (gm_gpus s ! unat i)) \<longrightarrow>
           ld_primary_gpu_index ld \<in> set is
           \<and> \<not> f32_less (gpu_selection_score (gm_gpus s ! unat (ld_primary_gpu_index ld))) (gpu_selection_score (gm_gpus s ! unat i)))
    else \<exists>e. e \<noteq> MVGAL_SUCCESS \<and> mvgal_device_create sys (Some a) (Some is) True h s = ((e, None, h), s)"
proof (cases "joinable s is")
  case True
  then obtain ld where ld: "member_loop s is (F32 (- 1)) (new_device (length is)) = Inr ld"
    using joinable_member_loop [of s "is" "F32 (- 1)" "length is"] by blast
  have p: "profile_of (members s is) is ld" using joinable_member_loop [of s "is" "F32 (- 1)" "length is"] ld by blast
  have "members s is \<noteq> []" using assms(2) by simp
  note f = finish_device_profile [OF p this, of "length is"]
  show ?thesis using True assms ld f member_loop_primary [OF ld]
    by (auto simp: mvgal_device_create_def mvgal_device_get_descriptor_def mvgal_device_destroy_def)
next
  case False
  then have "\<nexists>ld. member_loop s is (F32 (- 1)) (new_device (length is)) = Inr ld"
    using joinable_member_loop [of s "is" "F32 (- 1)" "length is"] by blast
  then obtain e where e: "member_loop s is (F32 (- 1)) (new_device (length is)) = Inl e"
    by (cases "member_loop s is (F32 (- 1)) (new_device (length is))") auto
  have "member_loop s is b l = Inl e \<Longrightarrow> e \<noteq> MVGAL_SUCCESS" for b l
    by (induction "is" arbitrary: b l) (auto simp: Let_def split: if_splits)
  with e have "e \<noteq> MVGAL_SUCCESS" by blast
  then show ?thesis using False assms e by (simp add: mvgal_device_create_def)
qed

text \<open>Both cards of the example, switched on again and joined: the witness for C38.\<close>

theorem logical_device_profile_witness:
  "let s = set_all_enabled True two_cards_off
   in \<exists>ld h'. mvgal_device_create two_cards (Some 7) (Some [0, 1]) True (\<lambda>_. None) s = ((MVGAL_SUCCESS, Some 7, h'), s)
      \<and> mvgal_device_destroy (Some 7) h' = Inr (\<lambda>_. None) \<and> device_profile (members s [0, 1]) [0, 1] ld"
proof -
  let ?s = "set_all_enabled True two_cards_off"
  have i: "gm_initialized ?s" "gm_gpu_count ?s = 2" using two_cards_off_table by (simp_all add: set_all_enabled_def)
  have "length (gm_gpus two_cards_off) = 16"
    using gpu_calls_show [OF g_gpu_manager_init_ok, of two_cards "[Init, Enable 1 False]"]
    by (simp add: two_cards_off_def shows_system_def g_gpu_manager_init_def gm_ok_def table_ok_def)
  then have "g_enabled (gm_gpus ?s ! k)" if "k < 2" for k
    using that two_cards_off_table(2) by (simp add: set_all_enabled_def nth_append)
  then have "joinable ?s [0, 1]" using i(2) by (simp add: joinable_def)
  moreover have "(\<lambda>_. None)(7 := None) = (\<lambda>_. None :: mvgal_logical_device_t option)" by auto
  ultimately show ?thesis
    using logical_device_profile [of ?s "[0, 1]" two_cards 7 "\<lambda>_. None"] i(1) unfolding Let_def by auto
qed

text \<open>The best GPU is one that meets the criteria, and none that does scores higher.\<close>

theorem select_best_optimal:
  assumes "gm_initialized s" and "gs = take (gm_gpu_count s) (gm_gpus s)"
    and "\<forall>g \<in> set gs. meets_criteria c g \<longrightarrow> criteria_score c g \<noteq> F32_nan"
  shows "if \<exists>g \<in> set gs. meets_criteria c g
    then \<exists>g \<in> set gs. mvgal_gpu_select_best sys c True s = ((MVGAL_SUCCESS, Some g), s) \<and> meets_criteria c g
      \<and> (\<forall>h \<in> set gs. meets_criteria c h \<longrightarrow> \<not> f32_less (criteria_score c g) (criteria_score c h))
    else mvgal_gpu_select_best sys c True s = ((MVGAL_ERROR_GPU_NOT_FOUND, None), s)"
proof -
  have b: "(select_loop c gs None = None \<longrightarrow> (\<forall>g \<in> set gs. \<not> meets_criteria c g))
    \<and> (\<forall>v g. select_loop c gs None = Some (v, g) \<longrightarrow> v = criteria_score c g \<and> meets_criteria c g \<and> g \<in> set gs)"
    using select_loop_best [of c gs None] by simp
  show ?thesis
  proof (cases "select_loop c gs None")
    case None
    then show ?thesis using b assms(1,2) by (auto simp: mvgal_gpu_select_best_def)
  next
    case (Some p)
    obtain v g where p: "p = (v, g)" by (cases p)
    have "\<forall>h \<in> set gs. meets_criteria c h \<longrightarrow> \<not> f32_less v (criteria_score c h)"
      using select_loop_max [of c gs None v g] Some p assms(3) by simp
    then show ?thesis using b Some p assms(1,2) by (auto simp: mvgal_gpu_select_best_def)
  qed
qed

end
