(* ===== verification/Gpu_Health.thy ===== *)
theory Gpu_Health
  imports Gpu_Manager
begin

text \<open>
  The health of the GPUs, and the thread that reports it, of \<^verbatim>\<open>src/src/userspace/daemon/gpu_manager.c\<close>: levels from
  readings and thresholds, the status of a GPU, the monitor's switches and one round of its loop.
\<close>

section \<open>Levels\<close>

datatype mvgal_gpu_health_level_t = MVGAL_HEALTH_OK | MVGAL_HEALTH_WARNING | MVGAL_HEALTH_CRITICAL | MVGAL_HEALTH_UNKNOWN

record mvgal_gpu_health_status_t =
  hs_gpu_index :: u32
  hs_temperature_celsius :: f32
  hs_temperature_max_celsius :: f32
  hs_utilization_percent :: f32
  hs_memory_used_mb :: f32
  hs_memory_total_mb :: f32
  hs_is_healthy :: bool
  hs_timestamp_ns :: u64

definition memory_usage_percent :: "mvgal_gpu_health_status_t \<Rightarrow> f32" where
  "memory_usage_percent st =
     (if f32_less (F32 0) (hs_memory_total_mb st)
      then f32_mul (f32_div (hs_memory_used_mb st) (hs_memory_total_mb st)) (F32 100) else F32 0)"

fun evaluate_health_level ::
    "mvgal_gpu_health_status_t option \<Rightarrow> mvgal_gpu_health_thresholds_t option \<Rightarrow> mvgal_gpu_health_level_t" where
  "evaluate_health_level (Some st) (Some t) =
     (if f32_le (ht_temp_critical_celsius t) (hs_temperature_celsius st)
         \<or> f32_le (ht_utilization_critical t) (hs_utilization_percent st)
         \<or> f32_le (ht_memory_critical t) (memory_usage_percent st) then MVGAL_HEALTH_CRITICAL
      else if f32_le (ht_temp_warning_celsius t) (hs_temperature_celsius st)
         \<or> f32_le (ht_utilization_warning t) (hs_utilization_percent st)
         \<or> f32_le (ht_memory_warning t) (memory_usage_percent st) then MVGAL_HEALTH_WARNING
      else MVGAL_HEALTH_OK)"
| "evaluate_health_level _ _ = MVGAL_HEALTH_UNKNOWN"

section \<open>Status\<close>

definition bytes_mb :: "u64 \<Rightarrow> f32" where
  "bytes_mb n = f32_round (round_double (of_int (uint n)) / 2 ^ 20)"

text \<open>The readings, before the level is known; \<open>now\<close> is the clock.\<close>

definition gpu_readings :: "u64 \<Rightarrow> u32 \<Rightarrow> mvgal_gpu_descriptor_t \<Rightarrow> mvgal_gpu_health_status_t" where
  "gpu_readings now index gpu =
     \<lparr>hs_gpu_index = index, hs_temperature_celsius = g_temperature_celsius gpu, hs_temperature_max_celsius = F32 100,
      hs_utilization_percent = g_utilization_percent gpu, hs_memory_used_mb = bytes_mb (g_vram_used gpu),
      hs_memory_total_mb = bytes_mb (g_vram_total gpu), hs_is_healthy = False, hs_timestamp_ns = now\<rparr>"

definition build_health_status_locked ::
    "u64 \<Rightarrow> u32 \<Rightarrow> bool \<Rightarrow> mvgal_gpu_manager_state_t \<Rightarrow> mvgal_error_t \<times> mvgal_gpu_health_status_t option" where
  "build_health_status_locked now index out s =
     (if \<not> out then (MVGAL_ERROR_INVALID_ARGUMENT, None)
      else if gm_gpu_count s \<le> unat index then (MVGAL_ERROR_GPU_NOT_FOUND, None)
      else
        (let st = gpu_readings now index (gm_gpus s ! unat index);
             level = evaluate_health_level (Some st) (Some (gm_health_thresholds s ! unat index))
         in (MVGAL_SUCCESS, Some (st\<lparr>hs_is_healthy := level = MVGAL_HEALTH_OK\<rparr>))))"

definition mvgal_gpu_get_health_status ::
    "system_view \<Rightarrow> u64 \<Rightarrow> u32 \<Rightarrow> bool \<Rightarrow> mvgal_gpu_manager_state_t \<Rightarrow>
       (mvgal_error_t \<times> mvgal_gpu_health_status_t option) \<times> mvgal_gpu_manager_state_t" where
  "mvgal_gpu_get_health_status sys now index out =
     with_manager sys (MVGAL_ERROR_INITIALIZATION, None) (\<lambda>s. (build_health_status_locked now index out s, s))"

definition mvgal_gpu_get_health_level ::
    "system_view \<Rightarrow> u64 \<Rightarrow> u32 \<Rightarrow> bool \<Rightarrow> mvgal_gpu_manager_state_t \<Rightarrow>
       (mvgal_error_t \<times> mvgal_gpu_health_level_t option) \<times> mvgal_gpu_manager_state_t" where
  "mvgal_gpu_get_health_level sys now index out s =
     (if \<not> out then ((MVGAL_ERROR_INVALID_ARGUMENT, None), s)
      else with_manager sys (MVGAL_ERROR_INITIALIZATION, None) (\<lambda>s.
             (case build_health_status_locked now index True s of
                (e, None) \<Rightarrow> (e, None)
              | (e, Some st) \<Rightarrow> (e, Some (evaluate_health_level (Some st) (Some (gm_health_thresholds s ! unat index)))), s)) s)"

definition all_healthy_locked :: "(nat \<Rightarrow> u64) \<Rightarrow> mvgal_gpu_manager_state_t \<Rightarrow> bool" where
  "all_healthy_locked now s \<longleftrightarrow>
     gm_gpu_count s \<noteq> 0
     \<and> list_all (\<lambda>i. case build_health_status_locked (now i) (of_nat i) True s of
                       (MVGAL_SUCCESS, Some st) \<Rightarrow> hs_is_healthy st | _ \<Rightarrow> False) [0..<gm_gpu_count s]"

definition mvgal_gpu_all_healthy :: "system_view \<Rightarrow> (nat \<Rightarrow> u64) \<Rightarrow> mvgal_gpu_manager_state_t \<Rightarrow> bool \<times> mvgal_gpu_manager_state_t" where
  "mvgal_gpu_all_healthy sys now = with_manager sys False (\<lambda>s. (all_healthy_locked now s, s))"

section \<open>The monitor\<close>

text \<open>\<open>hm_thread\<close> says whether the thread of the last start is still there to be joined.\<close>

record mvgal_health_monitor_state_t =
  hm_enabled :: bool
  hm_poll_interval_ms :: u32
  hm_running :: bool
  hm_thread :: bool
  hm_callback :: "nat option"
  hm_callback_user_data :: nat

definition g_health_monitor_init :: mvgal_health_monitor_state_t where
  "g_health_monitor_init =
     \<lparr>hm_enabled = False, hm_poll_interval_ms = 0, hm_running = False, hm_thread = False, hm_callback = None, hm_callback_user_data = 0\<rparr>"

definition mvgal_gpu_register_health_callback ::
    "nat option \<Rightarrow> nat \<Rightarrow> mvgal_health_monitor_state_t \<Rightarrow> mvgal_error_t \<times> mvgal_health_monitor_state_t" where
  "mvgal_gpu_register_health_callback callback user_data m =
     (if callback = None then (MVGAL_ERROR_INVALID_ARGUMENT, m)
      else if hm_callback m \<noteq> None then (MVGAL_ERROR_ALREADY_INITIALIZED, m)
      else (MVGAL_SUCCESS, m\<lparr>hm_callback := callback, hm_callback_user_data := user_data\<rparr>))"

definition mvgal_gpu_unregister_health_callback ::
    "nat option \<Rightarrow> mvgal_health_monitor_state_t \<Rightarrow> mvgal_error_t \<times> mvgal_health_monitor_state_t" where
  "mvgal_gpu_unregister_health_callback callback m =
     (if callback = None \<or> hm_callback m \<noteq> callback then (MVGAL_ERROR_INVALID_ARGUMENT, m)
      else (MVGAL_SUCCESS, m\<lparr>hm_callback := None, hm_callback_user_data := 0\<rparr>))"

text \<open>\<open>created\<close> says whether \<^verbatim>\<open>pthread_create\<close> succeeds; the join ends when the thread has seen the flag.\<close>

definition mvgal_gpu_enable_health_monitoring ::
    "bool \<Rightarrow> bool \<Rightarrow> u32 \<Rightarrow> mvgal_health_monitor_state_t \<Rightarrow> mvgal_error_t \<times> mvgal_health_monitor_state_t" where
  "mvgal_gpu_enable_health_monitoring created enabled poll_interval_ms m =
     (if enabled \<and> \<not> hm_running m then
        (let m1 = m\<lparr>hm_enabled := True, hm_poll_interval_ms := if 0 < poll_interval_ms then poll_interval_ms else 1000, hm_running := True\<rparr>
         in if created then (MVGAL_SUCCESS, m1\<lparr>hm_thread := True\<rparr>) else (MVGAL_ERROR_DRIVER, m1\<lparr>hm_running := False\<rparr>))
      else if enabled then
        (MVGAL_SUCCESS, m\<lparr>hm_enabled := True,
           hm_poll_interval_ms := if 0 < poll_interval_ms then poll_interval_ms else hm_poll_interval_ms m\<rparr>)
      else if hm_running m then (MVGAL_SUCCESS, m\<lparr>hm_running := False, hm_thread := False, hm_enabled := False\<rparr>)
      else (MVGAL_SUCCESS, m\<lparr>hm_enabled := False\<rparr>))"

text \<open>One report: the callback's function, the index, what is passed by reference and the user data.\<close>

type_synonym health_report = "nat \<times> u32 \<times> mvgal_gpu_health_status_t \<times> mvgal_gpu_health_thresholds_t \<times> nat"

fun report_loop ::
    "system_view \<Rightarrow> (nat \<Rightarrow> u64) \<Rightarrow> nat \<Rightarrow> nat \<Rightarrow> nat list \<Rightarrow> mvgal_gpu_manager_state_t \<Rightarrow> health_report list \<times> mvgal_gpu_manager_state_t" where
  "report_loop sys now f d [] s = ([], s)"
| "report_loop sys now f d (i # is) s =
     (let ((e, st), s1) = mvgal_gpu_get_health_status sys (now i) (of_nat i) True s;
          ((e', t), s2) = (if e = MVGAL_SUCCESS then mvgal_gpu_get_health_thresholds sys (of_nat i) True s1 else ((e, None), s1));
          (rs, s3) = report_loop sys now f d is s2
      in (case (st, t) of (Some st, Some t) \<Rightarrow> ((f, of_nat i, st, t, d) # rs, s3) | _ \<Rightarrow> (rs, s3)))"

text \<open>One round of the thread's loop, with no call of another thread in between, and how long it then sleeps.\<close>

definition health_monitor_round ::
    "system_view \<Rightarrow> (nat \<Rightarrow> u64) \<Rightarrow> mvgal_health_monitor_state_t \<Rightarrow> mvgal_gpu_manager_state_t \<Rightarrow>
       health_report list \<times> mvgal_gpu_manager_state_t" where
  "health_monitor_round sys now m s =
     (case hm_callback m of
        None \<Rightarrow> ([], s)
      | Some f \<Rightarrow>
          if \<not> hm_enabled m then ([], s)
          else
            (let (n, s1) = mvgal_gpu_get_count sys s;
                 (k, s2) = (if 0 < n then mvgal_gpu_get_count sys s1 else (0, s1))
             in report_loop sys now f (hm_callback_user_data m) [0..<nat k] s2))"

definition health_monitor_sleep :: "mvgal_health_monitor_state_t \<Rightarrow> (u32 \<times> u32) option" where
  "health_monitor_sleep m =
     (if 0 < hm_poll_interval_ms m then Some (hm_poll_interval_ms m div 1000, (hm_poll_interval_ms m mod 1000) * 1000000) else None)"

text \<open>The manager's shutdown first stops the monitor.\<close>

definition gpu_shutdown ::
    "mvgal_health_monitor_state_t \<Rightarrow> mvgal_gpu_manager_state_t \<Rightarrow> mvgal_health_monitor_state_t \<times> mvgal_gpu_manager_state_t" where
  "gpu_shutdown m s =
     (if hm_running m then snd (mvgal_gpu_enable_health_monitoring True False 0 m) else m, mvgal_gpu_manager_shutdown s)"

section \<open>What the monitor promises\<close>

lemma health_of_status:
  "unat i < gm_gpu_count s \<Longrightarrow>
   \<exists>st. build_health_status_locked now i True s = (MVGAL_SUCCESS, Some st) \<and> hs_gpu_index st = i
     \<and> (hs_is_healthy st \<longleftrightarrow> evaluate_health_level (Some st) (Some (gm_health_thresholds s ! unat i)) = MVGAL_HEALTH_OK)"
  by (simp add: build_health_status_locked_def gpu_readings_def memory_usage_percent_def Let_def)

lemma health_level_gpu:
  assumes "gm_initialized s" and "unat i < gm_gpu_count s"
  shows "mvgal_gpu_get_health_level sys now i True s =
    ((MVGAL_SUCCESS, Some (evaluate_health_level (Some (gpu_readings now i (gm_gpus s ! unat i))) (Some (gm_health_thresholds s ! unat i)))), s)"
  using assms by (simp add: mvgal_gpu_get_health_level_def build_health_status_locked_def gpu_readings_def memory_usage_percent_def Let_def)

text \<open>The time of the reading does not matter for the level.\<close>

lemma health_level_clock:
  "evaluate_health_level (Some (gpu_readings now i g)) t = evaluate_health_level (Some (gpu_readings now' i' g)) t"
  by (cases t) (simp_all add: gpu_readings_def memory_usage_percent_def)

definition gpu_level :: "mvgal_gpu_manager_state_t \<Rightarrow> nat \<Rightarrow> mvgal_gpu_health_level_t" where
  "gpu_level s i = evaluate_health_level (Some (gpu_readings 0 (of_nat i) (gm_gpus s ! i))) (Some (gm_health_thresholds s ! i))"

lemma small_index: "i < 16 \<Longrightarrow> unat (of_nat i :: u32) = i"
  by (simp add: unsigned_of_nat take_bit_nat_eq_self)

definition report_key :: "health_report \<Rightarrow> nat \<times> u32 \<times> mvgal_gpu_health_thresholds_t \<times> nat" where
  "report_key = (\<lambda>(f, i, st, t, d). (f, i, t, d))"

definition report_healthy :: "health_report \<Rightarrow> bool" where
  "report_healthy = (\<lambda>(f, i, st, t, d). hs_is_healthy st)"

lemma report_loop_all:
  assumes "gm_initialized s" and "gm_ok s" and "set is \<subseteq> {..<gm_gpu_count s}"
  shows "\<exists>rs. report_loop sys now f d is s = (rs, s) \<and> map report_key rs = map (\<lambda>i. (f, of_nat i, gm_health_thresholds s ! i, d)) is
     \<and> map report_healthy rs = map (\<lambda>i. gpu_level s i = MVGAL_HEALTH_OK) is"
  using assms(3)
proof (induction "is")
  case (Cons i "is")
  obtain rs where rs: "report_loop sys now f d is s = (rs, s)"
      "map report_key rs = map (\<lambda>i. (f, of_nat i, gm_health_thresholds s ! i, d)) is"
      "map report_healthy rs = map (\<lambda>i. gpu_level s i = MVGAL_HEALTH_OK) is"
    using Cons by auto
  have "i < gm_gpu_count s" "gm_gpu_count s \<le> 16" using Cons.prems assms(2) by (auto simp: gm_ok_def table_ok_def)
  then have i: "unat (of_nat i :: u32) = i" "i < gm_gpu_count s" by (simp_all add: small_index)
  let ?r = "gpu_readings (now i) (of_nat i) (gm_gpus s ! i)"
  let ?st = "?r\<lparr>hs_is_healthy := evaluate_health_level (Some ?r) (Some (gm_health_thresholds s ! i)) = MVGAL_HEALTH_OK\<rparr>"
  have st: "mvgal_gpu_get_health_status sys (now i) (of_nat i) True s = ((MVGAL_SUCCESS, Some ?st), s)"
    using assms(1) i by (simp add: mvgal_gpu_get_health_status_def build_health_status_locked_def Let_def)
  have t: "mvgal_gpu_get_health_thresholds sys (of_nat i) True s = ((MVGAL_SUCCESS, Some (gm_health_thresholds s ! i)), s)"
    using assms(1) i by (simp add: mvgal_gpu_get_health_thresholds_def)
  have "report_loop sys now f d (i # is) s = ((f, of_nat i, ?st, gm_health_thresholds s ! i, d) # rs, s)"
    unfolding report_loop.simps Let_def st t by (simp add: rs(1) t del: of_nat_Suc)
  moreover have "hs_is_healthy ?st \<longleftrightarrow> gpu_level s i = MVGAL_HEALTH_OK"
    using health_level_clock [of "now i" "of_nat i" "gm_gpus s ! i" "Some (gm_health_thresholds s ! i)" 0 "of_nat i"]
    by (simp add: gpu_level_def)
  ultimately show ?case using rs(2,3) by (auto simp: report_key_def report_healthy_def)
qed simp

lemma all_healthy_levels:
  assumes "gm_ok s"
  shows "all_healthy_locked now s \<longleftrightarrow> gm_gpu_count s \<noteq> 0 \<and> (\<forall>i < gm_gpu_count s. gpu_level s i = MVGAL_HEALTH_OK)"
proof -
  have h: "(case build_health_status_locked (now i) (of_nat i) True s of (MVGAL_SUCCESS, Some st) \<Rightarrow> hs_is_healthy st | _ \<Rightarrow> False)
      \<longleftrightarrow> gpu_level s i = MVGAL_HEALTH_OK" if i: "i < gm_gpu_count s" for i
  proof -
    have "unat (of_nat i :: u32) = i" using i assms by (intro small_index) (simp add: gm_ok_def table_ok_def)
    then show ?thesis
      using i health_level_clock [of "now i" "of_nat i" "gm_gpus s ! i" "Some (gm_health_thresholds s ! i)" 0 "of_nat i"]
      by (simp add: build_health_status_locked_def gpu_level_def Let_def)
  qed
  show ?thesis unfolding all_healthy_locked_def list_all_iff using h by auto
qed

text \<open>
  C39. One verdict everywhere. For the table of a started manager, the monitor's round calls the registered callback
  for every GPU in order of the index, with that GPU's thresholds and the registered user data; the health flag
  it passes is the one of \<open>mvgal_gpu_get_health_level\<close>, whatever the clock says; and
  \<open>mvgal_gpu_all_healthy\<close> holds exactly when every GPU passed is flagged healthy. None of them changes the table.
\<close>

theorem health_reports_agree:
  assumes "gm_ok s" and "gm_initialized s" and "hm_enabled m" and "hm_callback m = Some f"
  shows "\<exists>rs. health_monitor_round sys now m s = (rs, s)
    \<and> map (\<lambda>(f, i, st, t, d). (f, i, t, d)) rs
        = map (\<lambda>i. (f, of_nat i, gm_health_thresholds s ! i, hm_callback_user_data m)) [0..<gm_gpu_count s]
    \<and> (\<forall>i < gm_gpu_count s. \<exists>st. rs ! i = (f, of_nat i, st, gm_health_thresholds s ! i, hm_callback_user_data m)
         \<and> (hs_is_healthy st \<longleftrightarrow> mvgal_gpu_get_health_level sys now' (of_nat i) True s = ((MVGAL_SUCCESS, Some MVGAL_HEALTH_OK), s)))
    \<and> mvgal_gpu_all_healthy sys now'' s = ((\<forall>(f, i, st, t, d) \<in> set rs. hs_is_healthy st), s)"
proof -
  let ?n = "gm_gpu_count s" and ?d = "hm_callback_user_data m"
  have n: "0 < ?n" "?n \<le> 16" using assms(1,2) by (simp_all add: gm_ok_def table_ok_def)
  have "set [0..<?n] \<subseteq> {..<?n}" by auto
  from report_loop_all [OF assms(2,1) this, of sys now f ?d] obtain rs where rs:
      "report_loop sys now f ?d [0..<?n] s = (rs, s)"
      "map report_key rs = map (\<lambda>i. (f, of_nat i, gm_health_thresholds s ! i, ?d)) [0..<?n]"
      "map report_healthy rs = map (\<lambda>i. gpu_level s i = MVGAL_HEALTH_OK) [0..<?n]" by blast
  have len: "length rs = ?n" using arg_cong [OF rs(2), of length] by simp
  have round: "health_monitor_round sys now m s = (rs, s)"
    using assms n rs(1) by (simp add: health_monitor_round_def mvgal_gpu_get_count_def)
  have level: "mvgal_gpu_get_health_level sys now' (of_nat i) True s = ((MVGAL_SUCCESS, Some (gpu_level s i)), s)" if "i < ?n" for i
  proof -
    have "unat (of_nat i :: u32) = i" using that n(2) by (intro small_index) simp
    then show ?thesis using that assms(2) health_level_gpu [of s "of_nat i" sys now']
        health_level_clock [of now' "of_nat i" "gm_gpus s ! i" "Some (gm_health_thresholds s ! i)" 0 "of_nat i"]
      by (simp add: gpu_level_def)
  qed
  have each: "report_key (rs ! i) = (f, of_nat i, gm_health_thresholds s ! i, ?d)
      \<and> (report_healthy (rs ! i) \<longleftrightarrow> gpu_level s i = MVGAL_HEALTH_OK)" if "i < ?n" for i
    using that len arg_cong [OF rs(2), of "\<lambda>l. l ! i"] arg_cong [OF rs(3), of "\<lambda>l. l ! i"] by simp
  have "mvgal_gpu_all_healthy sys now'' s = ((\<forall>r \<in> set rs. report_healthy r), s)"
  proof -
    have "(\<forall>r \<in> set rs. report_healthy r) \<longleftrightarrow> (\<forall>i < ?n. gpu_level s i = MVGAL_HEALTH_OK)"
      using each len by (metis in_set_conv_nth)
    then show ?thesis using assms(1,2) n(1) by (simp add: mvgal_gpu_all_healthy_def all_healthy_levels)
  qed
  moreover have "\<exists>st. rs ! i = (f, of_nat i, st, gm_health_thresholds s ! i, ?d)
         \<and> (hs_is_healthy st \<longleftrightarrow> mvgal_gpu_get_health_level sys now' (of_nat i) True s = ((MVGAL_SUCCESS, Some MVGAL_HEALTH_OK), s))"
    if "i < ?n" for i
    using each [OF that] level [OF that] by (cases "rs ! i") (simp add: report_key_def report_healthy_def)
  ultimately show ?thesis using round rs(2)
    by (intro exI [of _ rs]) (simp add: report_key_def [abs_def] report_healthy_def [abs_def])
qed

text \<open>The monitor has a thread exactly while its flag says so, and a shutdown leaves none.\<close>

definition monitor_ok :: "mvgal_health_monitor_state_t \<Rightarrow> bool" where
  "monitor_ok m \<longleftrightarrow> hm_thread m = hm_running m \<and> (hm_running m \<longrightarrow> hm_enabled m \<and> 0 < hm_poll_interval_ms m)"

lemma monitor_calls_ok:
  "monitor_ok g_health_monitor_init"
  "monitor_ok m \<Longrightarrow> monitor_ok (snd (mvgal_gpu_enable_health_monitoring created b p m))"
  "monitor_ok m \<Longrightarrow> monitor_ok (snd (mvgal_gpu_register_health_callback f d m))"
  "monitor_ok m \<Longrightarrow> monitor_ok (snd (mvgal_gpu_unregister_health_callback f m))"
  by (auto simp: monitor_ok_def g_health_monitor_init_def mvgal_gpu_enable_health_monitoring_def mvgal_gpu_register_health_callback_def
      mvgal_gpu_unregister_health_callback_def Let_def)

theorem shutdown_stops_monitor:
  assumes "monitor_ok m"
  shows "\<not> hm_thread (fst (gpu_shutdown m s)) \<and> monitor_ok (fst (gpu_shutdown m s)) \<and> \<not> gm_initialized (snd (gpu_shutdown m s))"
  using assms by (auto simp: gpu_shutdown_def monitor_ok_def mvgal_gpu_enable_health_monitoring_def mvgal_gpu_manager_shutdown_def)

text \<open>The two cards with a callback: the witness for C39.\<close>

theorem health_reports_agree_witness:
  "\<exists>rs. health_monitor_round two_cards (\<lambda>_. 5) (g_health_monitor_init\<lparr>hm_enabled := True, hm_callback := Some 9\<rparr>) two_cards_off = (rs, two_cards_off)
     \<and> map (\<lambda>(f, i, st, t, d). (f, i)) rs = [(9, 0), (9, 1)]"
proof -
  let ?m = "g_health_monitor_init\<lparr>hm_enabled := True, hm_callback := Some 9\<rparr>"
  have ok: "gm_ok two_cards_off"
    using gpu_calls_show [OF g_gpu_manager_init_ok, of two_cards "[Init, Enable 1 False]"]
    by (simp add: two_cards_off_def shows_system_def g_gpu_manager_init_def)
  have m: "hm_enabled ?m" "hm_callback ?m = Some 9" and d: "hm_callback_user_data ?m = 0" by (simp_all add: g_health_monitor_init_def)
  obtain rs where
    rs: "health_monitor_round two_cards (\<lambda>_. 5) ?m two_cards_off = (rs, two_cards_off)"
      "map (\<lambda>(f, i, st, t, d). (f, i, t, d)) rs = map (\<lambda>i. (9, of_nat i, gm_health_thresholds two_cards_off ! i, 0)) [0..<2]"
    using health_reports_agree [OF ok two_cards_off_table(1) m, of two_cards "\<lambda>_. 5" 0 "\<lambda>_. 0"]
    unfolding two_cards_off_table(2) d by (elim exE conjE) (rule that)
  have "map (\<lambda>(f, i, st, t, d). (f, i)) rs = map (\<lambda>(f, i, t, d). (f, i)) (map (\<lambda>(f, i, st, t, d). (f, i, t, d)) rs)" by auto
  moreover have "map (\<lambda>(f, i, t, d). (f, i)) (map (\<lambda>i. (9 :: nat, of_nat i :: u32, h i, 0 :: nat)) [0..<2]) = [(9, 0), (9, 1)]"
    for h :: "nat \<Rightarrow> mvgal_gpu_health_thresholds_t" by (simp add: upt_conv_Cons)
  ultimately have "map (\<lambda>(f, i, st, t, d). (f, i)) rs = [(9, 0), (9, 1)]" unfolding rs(2) by (rule trans)
  with rs(1) show ?thesis by (intro exI conjI)
qed

end
