(* ===== verification/Rust_Ffi.thy ===== *)
theory Rust_Ffi
  imports Mvgal_Prelude
begin

text \<open>
  What the Rust crates under \<^verbatim>\<open>src/safe\<close> and \<^verbatim>\<open>src/runtime/safe\<close> share: the error
  enumeration, the arithmetic, and the way a registry behind a \<^verbatim>\<open>static Mutex\<close> is reached from C. The locale
  \<open>registry\<close> is the contract of a registry with an invariant; the crates interpret it.
\<close>

section \<open>Errors\<close>

datatype MvgalError =
    Success
  | InvalidArgument
  | OutOfMemory
  | NotFound
  | NotSupported
  | DeviceBusy
  | Timeout
  | FenceAlreadySignaled
  | FenceNotSignaled
  | MappingFailed
  | AccessDenied
  | Unknown

section \<open>Arithmetic\<close>

text \<open>
  The sum of two words panics on overflow in a build that checks for it (\<open>checked\<close>) and wraps around in
  others; \<^verbatim>\<open>saturating_add\<close> and \<^verbatim>\<open>saturating_sub\<close> stop at the ends of the range.
\<close>

definition add_assign :: "bool \<Rightarrow> u64 \<Rightarrow> u64 \<Rightarrow> u64 option" where
  "add_assign checked a b = (if checked \<and> a + b < a then None else Some (a + b))"

definition saturating_add :: "'a::len word \<Rightarrow> 'a word \<Rightarrow> 'a word" where
  "saturating_add a b = (if a + b < a then - 1 else a + b)"

definition saturating_sub :: "'a::len word \<Rightarrow> 'a word \<Rightarrow> 'a word" where
  "saturating_sub a b = (if a < b then 0 else a - b)"

lemma add_overflow: "a + b < a \<longleftrightarrow> 2 ^ LENGTH('a) \<le> unat a + unat b" for a b :: "'a::len word"
  using no_olen_add_nat [of a b] by (simp add: not_le [symmetric])

lemma add_assign_unat:
  assumes "add_assign checked a b = Some t" and "checked \<or> unat a + unat b < 2 ^ 64"
  shows "unat t = unat a + unat b"
  using assms by (auto simp: add_assign_def add_overflow unat_word_ariths split: if_splits)

lemma saturating_sub_unat:
  assumes "unat b \<le> unat a"
  shows "unat (saturating_sub a b) = unat a - unat b"
  using assms by (auto simp: saturating_sub_def word_less_nat_alt unat_sub word_le_nat_alt)

lemma saturating_add_pos [simp]: "saturating_add a (1 :: 'a::len word) \<noteq> 0"
proof (cases "a + 1 < a")
  case False
  then have "unat (a + 1) = unat a + 1" by (simp add: add_overflow unat_word_ariths)
  then have "a + 1 \<noteq> 0" by (metis Suc_eq_plus1 nat.distinct(1) unat_0)
  then show ?thesis using False by (simp add: saturating_add_def)
qed (simp add: saturating_add_def)

section \<open>A registry behind a lock and a foreign-function boundary\<close>

text \<open>
  Each crate keeps its registry in a \<^verbatim>\<open>static Mutex<Option<_>>\<close>. A panic in a call unwinds while the
  guard is held, which poisons the mutex; \<^verbatim>\<open>ffi_catch\<close> turns the panic into the default value, and every
  later call finds the mutex poisoned and returns the default value too. A call is a function from the
  registry to its result and the registry; \<open>None\<close> is a panic.
\<close>

datatype 'r registry_mutex = Poisoned | Guarded "'r option"

definition with_registry ::
    "'r \<Rightarrow> 'a \<Rightarrow> ('r \<Rightarrow> ('a \<times> 'r) option) \<Rightarrow> 'r registry_mutex \<Rightarrow> 'a \<times> 'r registry_mutex" where
  "with_registry new dflt f m =
     (case m of
        Poisoned \<Rightarrow> (dflt, Poisoned)
      | Guarded ro \<Rightarrow>
          (case f (case ro of None \<Rightarrow> new | Some r \<Rightarrow> r) of
             None \<Rightarrow> (dflt, Poisoned)
           | Some (v, r) \<Rightarrow> (v, Guarded (Some r))))"

definition registry_of :: "'r \<Rightarrow> 'r registry_mutex \<Rightarrow> 'r" where
  "registry_of new m = (case m of Guarded (Some r) \<Rightarrow> r | _ \<Rightarrow> new)"

lemma registry_of_Guarded [simp]: "registry_of new (Guarded (Some r)) = r" "registry_of new (Guarded None) = new"
  by (simp_all add: registry_of_def)

lemma with_registry_Poisoned [simp]: "with_registry new d f Poisoned = (d, Poisoned)"
  by (simp add: with_registry_def)

lemma with_registry_panic:
  assumes "m \<noteq> Poisoned" and "f (registry_of new m) = None"
  shows "with_registry new d f m = (d, Poisoned)"
  using assms by (cases m) (auto simp: with_registry_def registry_of_def split: option.splits)

lemma with_registry_call:
  assumes "m \<noteq> Poisoned" and "f (registry_of new m) = Some (v, r)"
  shows "with_registry new d f m = (v, Guarded (Some r))"
  using assms by (cases m) (auto simp: with_registry_def registry_of_def split: option.splits)

lemma with_registry_total:
  assumes "m \<noteq> Poisoned"
  shows "with_registry new d (\<lambda>r. Some (g r)) m =
    (fst (g (registry_of new m)), Guarded (Some (snd (g (registry_of new m)))))"
  using assms by (simp add: with_registry_call)

section \<open>The contract of a registry\<close>

text \<open>
  \<open>run\<close> makes one exported call, \<open>call\<close> is what the call does to the registry (\<open>None\<close> for a panic), and
  \<open>inv\<close> holds of a registry after the calls of a history that is \<open>ok\<close>.
\<close>

locale registry =
  fixes new :: 'r
    and run :: "'c \<Rightarrow> 'r registry_mutex \<Rightarrow> 'r registry_mutex"
    and call :: "'c \<Rightarrow> 'r \<Rightarrow> 'r option"
    and ok :: "'c list \<Rightarrow> bool"
    and inv :: "'c list \<Rightarrow> 'r \<Rightarrow> bool"
  assumes run_poisoned: "run c Poisoned = Poisoned"
    and run_panic: "m \<noteq> Poisoned \<Longrightarrow> call c (registry_of new m) = None \<Longrightarrow> run c m = Poisoned"
    and run_call: "m \<noteq> Poisoned \<Longrightarrow> call c (registry_of new m) = Some r \<Longrightarrow>
      run c m \<noteq> Poisoned \<and> registry_of new (run c m) = r"
    and ok_prefix: "ok (cs @ [c]) \<Longrightarrow> ok cs"
    and inv_new: "inv [] new"
    and inv_call: "ok (cs @ [c]) \<Longrightarrow> inv cs r \<Longrightarrow> call c r = Some r' \<Longrightarrow> inv (cs @ [c]) r'"
begin

lemma runs_inv:
  assumes "ok cs" and "fold run cs (Guarded None) \<noteq> Poisoned"
  shows "inv cs (registry_of new (fold run cs (Guarded None)))"
  using assms
proof (induction cs rule: rev_induct)
  case Nil
  then show ?case by (simp add: inv_new)
next
  case (snoc c cs)
  let ?m = "fold run cs (Guarded None)"
  have m: "?m \<noteq> Poisoned" using snoc.prems(2) run_poisoned by auto
  then have "inv cs (registry_of new ?m)" using snoc ok_prefix by blast
  moreover obtain r where "call c (registry_of new ?m) = Some r"
    using run_panic [OF m, of c] snoc.prems(2) by (cases "call c (registry_of new ?m)") auto
  ultimately show ?case using run_call [OF m] inv_call snoc.prems(1) by simp
qed

lemma runs_panic:
  assumes "ok cs" and "fold run cs (Guarded None) = Poisoned"
  shows "\<exists>ds c es r. cs = ds @ c # es \<and> inv ds r \<and> call c r = None"
  using assms
proof (induction cs rule: rev_induct)
  case Nil
  then show ?case by simp
next
  case (snoc c cs)
  let ?m = "fold run cs (Guarded None)"
  have ok: "ok cs" using snoc.prems(1) by (rule ok_prefix)
  show ?case
  proof (cases "?m = Poisoned")
    case True
    then obtain ds d es r where "cs = ds @ d # es" "inv ds r" "call d r = None" using snoc.IH ok by blast
    then have "cs @ [c] = ds @ d # (es @ [c]) \<and> inv ds r \<and> call d r = None" by simp
    then show ?thesis by blast
  next
    case False
    then have "inv cs (registry_of new ?m)" by (rule runs_inv [OF ok])
    moreover have "call c (registry_of new ?m) = None"
      using run_call [OF False] snoc.prems(2) by (cases "call c (registry_of new ?m)") auto
    ultimately show ?thesis by blast
  qed
qed

end

text \<open>A registry none of whose calls panics stays usable.\<close>

locale total_registry = registry +
  assumes total: "call c r \<noteq> None"
begin

lemma runs_total: "ok cs \<Longrightarrow> fold run cs (Guarded None) \<noteq> Poisoned"
  using runs_panic total by blast

end

end
