(* ===== verification/Rust_Fence.thy ===== *)
theory Rust_Fence
  imports Rust_Ffi
begin

text \<open>
  The crate \<^verbatim>\<open>src/safe/fence_manager/src/lib.rs\<close>: fences with a life cycle, in one registry that C code
  reaches through six exported functions. The theory has the registry, its operations, the exported
  functions, and the type that every sequence of calls keeps.
\<close>

section \<open>The fence registry\<close>

datatype FenceState = Pending | Submitted | Signalled | TimedOut | Reset

fun fence_code :: "FenceState \<Rightarrow> int" where
  "fence_code Pending = 0"
| "fence_code Submitted = 1"
| "fence_code Signalled = 2"
| "fence_code TimedOut = 3"
| "fence_code Reset = 4"

record Fence =
  fe_id :: u64
  fe_state :: FenceState
  fe_gpu_index :: u32
  fe_created_ns :: u64
  fe_signalled_ns :: u64

record FenceRegistry =
  fr_fences :: "u64 \<rightharpoonup> Fence"
  fr_next_id :: u64

definition fence_registry_new :: FenceRegistry where
  "fence_registry_new = \<lparr>fr_fences = Map.empty, fr_next_id = 1\<rparr>"

text \<open>\<open>now\<close> is what \<^verbatim>\<open>monotonic_ns\<close> returns.\<close>

definition fence_allocate :: "u64 \<Rightarrow> u32 \<Rightarrow> FenceRegistry \<Rightarrow> u64 \<times> FenceRegistry" where
  "fence_allocate now gpu_index r =
     (let id = fr_next_id r
      in (id, r\<lparr>fr_next_id := id + 1,
               fr_fences := (fr_fences r)(id \<mapsto> \<lparr>fe_id = id, fe_state = Pending, fe_gpu_index = gpu_index,
                 fe_created_ns = now, fe_signalled_ns = 0\<rparr>)\<rparr>))"

definition fence_submit :: "u64 \<Rightarrow> FenceRegistry \<Rightarrow> bool \<times> FenceRegistry" where
  "fence_submit handle r =
     (case fr_fences r handle of
        None \<Rightarrow> (False, r)
      | Some f \<Rightarrow>
          if fe_state f = Pending then (True, r\<lparr>fr_fences := (fr_fences r)(handle \<mapsto> f\<lparr>fe_state := Submitted\<rparr>)\<rparr>)
          else (False, r))"

definition fence_signal :: "u64 \<Rightarrow> u64 \<Rightarrow> FenceRegistry \<Rightarrow> bool \<times> FenceRegistry" where
  "fence_signal now handle r =
     (case fr_fences r handle of
        None \<Rightarrow> (False, r)
      | Some f \<Rightarrow>
          if fe_state f = Submitted \<or> fe_state f = Pending
          then (True, r\<lparr>fr_fences := (fr_fences r)(handle \<mapsto> f\<lparr>fe_state := Signalled, fe_signalled_ns := now\<rparr>)\<rparr>)
          else (False, r))"

definition fence_state :: "u64 \<Rightarrow> FenceRegistry \<Rightarrow> FenceState option" where
  "fence_state handle r = map_option fe_state (fr_fences r handle)"

definition fence_reset :: "u64 \<Rightarrow> FenceRegistry \<Rightarrow> bool \<times> FenceRegistry" where
  "fence_reset handle r =
     (case fr_fences r handle of
        None \<Rightarrow> (False, r)
      | Some f \<Rightarrow>
          if fe_state f = Signalled
          then (True, r\<lparr>fr_fences := (fr_fences r)(handle \<mapsto> f\<lparr>fe_state := Reset, fe_signalled_ns := 0\<rparr>)\<rparr>)
          else (False, r))"

definition fence_destroy :: "u64 \<Rightarrow> FenceRegistry \<Rightarrow> bool \<times> FenceRegistry" where
  "fence_destroy handle r = (fr_fences r handle \<noteq> None, r\<lparr>fr_fences := (fr_fences r)(handle := None)\<rparr>)"

text \<open>The exported functions. A boolean crosses the boundary as 0 or 1.\<close>

type_synonym fence_mutex = "FenceRegistry registry_mutex"

definition mvgal_fence_create_rs :: "u64 \<Rightarrow> u32 \<Rightarrow> fence_mutex \<Rightarrow> u64 \<times> fence_mutex" where
  "mvgal_fence_create_rs now gpu_index = with_registry fence_registry_new 0 (\<lambda>r. Some (fence_allocate now gpu_index r))"

definition mvgal_fence_submit_rs :: "u64 \<Rightarrow> fence_mutex \<Rightarrow> int \<times> fence_mutex" where
  "mvgal_fence_submit_rs handle =
     with_registry fence_registry_new 0 (\<lambda>r. Some (apfst of_bool (fence_submit handle r)))"

definition mvgal_fence_signal_rs :: "u64 \<Rightarrow> u64 \<Rightarrow> fence_mutex \<Rightarrow> int \<times> fence_mutex" where
  "mvgal_fence_signal_rs now handle =
     with_registry fence_registry_new 0 (\<lambda>r. Some (apfst of_bool (fence_signal now handle r)))"

definition mvgal_fence_state_rs :: "u64 \<Rightarrow> fence_mutex \<Rightarrow> int \<times> fence_mutex" where
  "mvgal_fence_state_rs handle =
     with_registry fence_registry_new 0
       (\<lambda>r. Some (case fence_state handle r of None \<Rightarrow> - 1 | Some s \<Rightarrow> fence_code s, r))"

definition mvgal_fence_reset_rs :: "u64 \<Rightarrow> fence_mutex \<Rightarrow> int \<times> fence_mutex" where
  "mvgal_fence_reset_rs handle =
     with_registry fence_registry_new 0 (\<lambda>r. Some (apfst of_bool (fence_reset handle r)))"

definition mvgal_fence_destroy_rs :: "u64 \<Rightarrow> fence_mutex \<Rightarrow> int \<times> fence_mutex" where
  "mvgal_fence_destroy_rs handle =
     with_registry fence_registry_new 0 (\<lambda>r. Some (apfst of_bool (fence_destroy handle r)))"

section \<open>Runs of the interface\<close>

datatype fence_call = Create u64 u32 | Submit u64 | Signal u64 u64 | Query u64 | Rearm u64 | Destroy u64

fun fence_call_run :: "fence_call \<Rightarrow> fence_mutex \<Rightarrow> fence_mutex" where
  "fence_call_run (Create now g) m = snd (mvgal_fence_create_rs now g m)"
| "fence_call_run (Submit h) m = snd (mvgal_fence_submit_rs h m)"
| "fence_call_run (Signal now h) m = snd (mvgal_fence_signal_rs now h m)"
| "fence_call_run (Query h) m = snd (mvgal_fence_state_rs h m)"
| "fence_call_run (Rearm h) m = snd (mvgal_fence_reset_rs h m)"
| "fence_call_run (Destroy h) m = snd (mvgal_fence_destroy_rs h m)"

abbreviation fence_registry_of :: "fence_mutex \<Rightarrow> FenceRegistry" where
  "fence_registry_of \<equiv> registry_of fence_registry_new"

definition creates :: "fence_call list \<Rightarrow> nat" where
  "creates cs = length (filter (\<lambda>c. case c of Create _ _ \<Rightarrow> True | _ \<Rightarrow> False) cs)"

text \<open>
  The type of a registry after \<open>n\<close> creations: the key of a fence is its id, ids run from 1 to \<open>n\<close>, and a
  fence has a time of signalling only while it is signalled.
\<close>

definition fence_typed :: "nat \<Rightarrow> FenceRegistry \<Rightarrow> bool" where
  "fence_typed n r \<longleftrightarrow> fr_next_id r = of_nat n + 1
     \<and> (\<forall>h f. fr_fences r h = Some f \<longrightarrow>
          fe_id f = h \<and> h \<noteq> 0 \<and> unat h \<le> n \<and> fe_state f \<noteq> TimedOut
          \<and> (fe_state f \<noteq> Signalled \<longrightarrow> fe_signalled_ns f = 0))"

text \<open>The transitions of one fence: \<open>None\<close> while it does not exist.\<close>

inductive fence_moves :: "FenceState option \<Rightarrow> FenceState option \<Rightarrow> bool" where
  stays: "fence_moves s s"
| created: "fence_moves None (Some Pending)"
| submitted: "fence_moves (Some Pending) (Some Submitted)"
| signalled: "s \<in> {Pending, Submitted} \<Longrightarrow> fence_moves (Some s) (Some Signalled)"
| rearmed: "fence_moves (Some Signalled) (Some Reset)"
| destroyed: "fence_moves (Some s) None"

inductive_cases fence_moves_from: "fence_moves (Some s) t"

text \<open>What one call does to the registry.\<close>

fun fence_effect :: "fence_call \<Rightarrow> FenceRegistry \<Rightarrow> FenceRegistry" where
  "fence_effect (Create now g) r = snd (fence_allocate now g r)"
| "fence_effect (Submit h) r = snd (fence_submit h r)"
| "fence_effect (Signal now h) r = snd (fence_signal now h r)"
| "fence_effect (Query h) r = r"
| "fence_effect (Rearm h) r = snd (fence_reset h r)"
| "fence_effect (Destroy h) r = snd (fence_destroy h r)"

lemmas fence_ffi_defs = mvgal_fence_create_rs_def mvgal_fence_submit_rs_def mvgal_fence_signal_rs_def
  mvgal_fence_state_rs_def mvgal_fence_reset_rs_def mvgal_fence_destroy_rs_def

lemmas fence_op_defs = fence_allocate_def fence_submit_def fence_signal_def fence_state_def fence_reset_def fence_destroy_def

lemma fence_call_effect:
  assumes "m \<noteq> Poisoned"
  shows "fence_call_run c m = Guarded (Some (fence_effect c (fence_registry_of m)))"
  by (cases c) (simp_all add: fence_ffi_defs with_registry_total [OF assms])

lemma fence_next_id:
  assumes "fence_typed n r" and "Suc n < 2 ^ 64"
  shows "unat (fr_next_id r) = Suc n" and "fr_next_id r \<noteq> 0" and "fr_fences r (fr_next_id r) = None"
proof -
  show u: "unat (fr_next_id r) = Suc n" using assms by (simp add: fence_typed_def unat_word_ariths unat_of_nat)
  then show "fr_next_id r \<noteq> 0" by (metis nat.distinct(1) unat_0)
  show "fr_fences r (fr_next_id r) = None"
    using assms(1) u by (cases "fr_fences r (fr_next_id r)") (fastforce simp: fence_typed_def)+
qed

lemma fence_typed_effect:
  assumes t: "fence_typed (creates cs) r" and n: "Suc (creates (cs @ [c])) < 2 ^ 64"
  shows "fence_typed (creates (cs @ [c])) (fence_effect c r)"
proof (cases c)
  case (Create now g)
  then have c: "creates (cs @ [c]) = Suc (creates cs)" by (simp add: creates_def)
  note id = fence_next_id [OF t]
  have "fr_next_id r = of_nat (creates cs) + 1" using t by (simp add: fence_typed_def)
  then show ?thesis
    using t id n c Create by (auto simp: fence_typed_def fence_allocate_def Let_def le_Suc_eq split: if_splits)
qed (use t in \<open>auto simp: creates_def fence_typed_def fence_op_defs split: option.splits if_splits\<close>)


interpretation fences: total_registry fence_registry_new fence_call_run "\<lambda>c r. Some (fence_effect c r)"
  "\<lambda>cs. Suc (creates cs) < 2 ^ 64" "\<lambda>cs. fence_typed (creates cs)"
proof unfold_locales
  fix c :: fence_call and m r
  show "fence_call_run c Poisoned = Poisoned" by (cases c) (simp_all add: fence_ffi_defs)
  assume "m \<noteq> Poisoned" and "Some (fence_effect c (fence_registry_of m)) = Some r"
  then show "fence_call_run c m \<noteq> Poisoned \<and> fence_registry_of (fence_call_run c m) = r"
    by (simp add: fence_call_effect)
next
  fix cs c assume "Suc (creates (cs @ [c])) < 2 ^ 64"
  then show "Suc (creates cs) < 2 ^ 64" by (simp add: creates_def)
next
  show "fence_typed (creates []) fence_registry_new" by (simp add: fence_typed_def creates_def fence_registry_new_def)
qed (auto simp: fence_typed_effect)

lemma fence_effect_moves:
  assumes "fence_typed n r" and "Suc n < 2 ^ 64"
  shows "fence_moves (fence_state h r) (fence_state h (fence_effect c r))"
  using fence_next_id(3) [OF assms] by (cases c; cases "fr_fences r h")
    (auto simp: fence_op_defs Let_def split: option.split if_split intro: fence_moves.intros)

text \<open>
  C25. The registry of fences is well typed after any sequence of exported calls with fewer than \<open>2\<^sup>6\<^sup>4 - 1\<close>
  creations: no call panics, every fence is found under its own id, ids are not 0 and not reused, so a new
  fence gets a handle that no fence ever had; and every further call moves every fence along the documented
  transitions or not at all, so that a reset fence only waits for its destruction and no fence times out.
\<close>
theorem fence_registry_typed:
  assumes "Suc (creates cs) < 2 ^ 64" and "m = fold fence_call_run cs (Guarded None)"
  shows "m \<noteq> Poisoned \<and> fence_typed (creates cs) (fence_registry_of m)
    \<and> unat (fst (mvgal_fence_create_rs now g m)) = Suc (creates cs)
    \<and> fr_fences (fence_registry_of m) (fst (mvgal_fence_create_rs now g m)) = None
    \<and> fence_moves (fence_state h (fence_registry_of m)) (fence_state h (fence_registry_of (fence_call_run c m)))
    \<and> (fence_state h (fence_registry_of m) = Some Reset \<longrightarrow>
         fence_state h (fence_registry_of (fence_call_run c m)) \<in> {Some Reset, None})"
proof -
  have m: "m \<noteq> Poisoned" using fences.runs_total [OF assms(1)] assms(2) by simp
  then have t: "fence_typed (creates cs) (fence_registry_of m)" using fences.runs_inv [OF assms(1)] assms(2) by simp
  have id: "fst (mvgal_fence_create_rs now g m) = fr_next_id (fence_registry_of m)"
    by (simp add: mvgal_fence_create_rs_def with_registry_total [OF m] fence_allocate_def Let_def)
  show ?thesis
    using m t id fence_next_id [OF t assms(1)] fence_effect_moves [OF t assms(1), of h c]
    by (auto simp: fence_call_effect [OF m] elim: fence_moves_from)
qed

text \<open>A fence goes through its whole life, as the witness for C25.\<close>

theorem fence_registry_typed_witness:
  "fence_state 1 (fence_registry_of (fold fence_call_run [Create 5 0, Submit 1, Signal 9 1, Rearm 1] (Guarded None))) = Some Reset
   \<and> unat (fst (mvgal_fence_create_rs 11 1 (fold fence_call_run [Create 5 0, Submit 1, Signal 9 1, Rearm 1] (Guarded None)))) = 2"
proof -
  have "creates [Create 5 0, Submit 1, Signal 9 1, Rearm 1] = 1" by (simp add: creates_def)
  moreover have "fence_state 1 (fence_registry_of (fold fence_call_run [Create 5 0, Submit 1, Signal 9 1, Rearm 1] (Guarded None))) = Some Reset"
    by code_simp
  ultimately show ?thesis
    using fence_registry_typed [of "[Create 5 0, Submit 1, Signal 9 1, Rearm 1]", OF _ refl] by simp
qed

end
