(* ===== verification/Rust_Fence_Manager.thy ===== *)
theory Rust_Fence_Manager
  imports Rust_Ffi Cond_Wait
begin

text \<open>
  The module \<^verbatim>\<open>src/runtime/safe/fence_manager.rs\<close>: cross-device fences, a timeline for each GPU and the
  manager that finds fences by id. A fence has a \<^verbatim>\<open>Cell\<close> and is used by one thread, so the manager is a
  state that calls update one after the other; what a wait finds after a sleep is an argument.
\<close>

section \<open>Cross-device fences\<close>

datatype XFenceState = Unsignaled | Signaled

record CrossDeviceFence =
  xf_id :: u64
  xf_state :: XFenceState
  xf_timeline_value :: u64
  xf_external_handle :: "nat option"
  xf_signal_time :: "u64 option"
  xf_is_timeline :: bool

definition xfence_new :: CrossDeviceFence where
  "xfence_new = \<lparr>xf_id = 0, xf_state = Unsignaled, xf_timeline_value = 0, xf_external_handle = None,
     xf_signal_time = None, xf_is_timeline = False\<rparr>"

definition xfence_with_id :: "u64 \<Rightarrow> CrossDeviceFence" where
  "xfence_with_id i = xfence_new\<lparr>xf_id := i\<rparr>"

definition xfence_signal :: "u64 \<Rightarrow> CrossDeviceFence \<Rightarrow> CrossDeviceFence" where
  "xfence_signal now f =
     (if xf_state f = Unsignaled then f\<lparr>xf_state := Signaled, xf_signal_time := Some now\<rparr> else f)"

text \<open>
  A wait with a timeout sleeps once; it reports no signal when it was woken without one. A wait without a
  timeout sleeps until it finds the signal. The result is \<open>None\<close> while the thread still sleeps.
\<close>

definition xfence_wait :: "bool \<Rightarrow> CrossDeviceFence \<Rightarrow> CrossDeviceFence wake list \<Rightarrow> XFenceState option" where
  "xfence_wait timed f wakes =
     (if xf_state f = Signaled then Some Signaled
      else if timed then
        (case wakes of
           [] \<Rightarrow> None
         | w # _ \<Rightarrow> Some (if wake_ret w = ETIMEDOUT then Unsignaled else xf_state (wake_state w)))
      else map_option (\<lambda>_. Signaled) (cond_wait_loop (\<lambda>g. xf_state g = Signaled) f wakes))"

definition xfence_is_signaled :: "CrossDeviceFence \<Rightarrow> bool" where
  "xfence_is_signaled f \<longleftrightarrow> xf_state f = Signaled"

definition xfence_reset :: "CrossDeviceFence \<Rightarrow> CrossDeviceFence" where
  "xfence_reset f = f\<lparr>xf_state := Unsignaled, xf_signal_time := None\<rparr>"

definition xfence_set_timeline_value :: "u64 \<Rightarrow> CrossDeviceFence \<Rightarrow> CrossDeviceFence" where
  "xfence_set_timeline_value v f = f\<lparr>xf_timeline_value := v, xf_is_timeline := True\<rparr>"

section \<open>Timelines and the manager\<close>

text \<open>
  An \<^verbatim>\<open>Arc\<close> is the address of a fence in the heap; \<^verbatim>\<open>clone\<close> of a fence is a second object with the same
  fields, \<^verbatim>\<open>clone\<close> of an \<^verbatim>\<open>Arc\<close> the same address.
\<close>

type_synonym xheap = "nat \<rightharpoonup> CrossDeviceFence"

record GpuTimeline =
  tl_gpu_index :: u32
  tl_current_value :: u64
  tl_next_value :: u64
  tl_fences :: "nat list"
  tl_max_fences :: nat

definition timeline_new :: "u32 \<Rightarrow> GpuTimeline" where
  "timeline_new i =
     \<lparr>tl_gpu_index = i, tl_current_value = 0, tl_next_value = 1, tl_fences = [], tl_max_fences = 1024\<rparr>"

definition timeline_signal :: "u64 \<Rightarrow> GpuTimeline \<Rightarrow> GpuTimeline" where
  "timeline_signal v t = t\<lparr>tl_current_value := v, tl_next_value := tl_next_value t + 1\<rparr>"

definition timeline_next_value :: "GpuTimeline \<Rightarrow> u64 \<times> GpuTimeline" where
  "timeline_next_value t = (tl_next_value t, t\<lparr>tl_next_value := tl_next_value t + 1\<rparr>)"

text \<open>The manager; \<open>fm_next_arc\<close> is the next address that \<^verbatim>\<open>Arc::new\<close> returns.\<close>

record FenceManager =
  fm_timelines :: "GpuTimeline list"
  fm_fence_map :: "u64 \<rightharpoonup> nat"
  fm_next_fence_id :: u64
  fm_heap :: xheap
  fm_next_arc :: nat

definition fence_manager_new :: "nat \<Rightarrow> FenceManager" where
  "fence_manager_new num_gpus =
     \<lparr>fm_timelines = map (\<lambda>i. timeline_new (of_nat i)) [0..<num_gpus], fm_fence_map = Map.empty,
      fm_next_fence_id = 1, fm_heap = Map.empty, fm_next_arc = 0\<rparr>"

definition arc_new :: "CrossDeviceFence \<Rightarrow> FenceManager \<Rightarrow> nat \<times> FenceManager" where
  "arc_new f m = (fm_next_arc m, m\<lparr>fm_heap := (fm_heap m)(fm_next_arc m \<mapsto> f), fm_next_arc := Suc (fm_next_arc m)\<rparr>)"

definition get_timeline :: "u32 \<Rightarrow> FenceManager \<Rightarrow> GpuTimeline option" where
  "get_timeline gpu_index m =
     (if length (fm_timelines m) \<le> unat gpu_index then None else Some (fm_timelines m ! unat gpu_index))"

definition timeline_create_fence :: "GpuTimeline \<Rightarrow> FenceManager \<Rightarrow> nat \<times> GpuTimeline \<times> FenceManager" where
  "timeline_create_fence t m =
     (let (v, t1) = timeline_next_value t;
          f = xfence_with_id v;
          kept = (if tl_max_fences t1 \<le> length (tl_fences t1) then tl (tl_fences t1) else tl_fences t1);
          (a, m1) = arc_new f m;
          (b, m2) = arc_new f m1
      in (b, t1\<lparr>tl_fences := kept @ [a]\<rparr>, m2))"

definition manager_create_fence :: "FenceManager \<Rightarrow> nat \<times> FenceManager" where
  "manager_create_fence m =
     (let i = fm_next_fence_id m;
          f = xfence_with_id i;
          (a, m1) = arc_new f (m\<lparr>fm_next_fence_id := i + 1\<rparr>)
      in arc_new f (m1\<lparr>fm_fence_map := (fm_fence_map m1)(i \<mapsto> a)\<rparr>))"

definition manager_create_timeline_fence :: "u32 \<Rightarrow> FenceManager \<Rightarrow> nat option \<times> FenceManager" where
  "manager_create_timeline_fence gpu_index m =
     (case get_timeline gpu_index m of
        None \<Rightarrow> (None, m)
      | Some t \<Rightarrow>
          (let (b, t1, m1) = timeline_create_fence t m
           in (Some b, m1\<lparr>fm_timelines := (fm_timelines m1)[unat gpu_index := t1]\<rparr>)))"

definition on_arc :: "(CrossDeviceFence \<Rightarrow> CrossDeviceFence) \<Rightarrow> nat \<Rightarrow> FenceManager \<Rightarrow> FenceManager" where
  "on_arc g p m = m\<lparr>fm_heap := (fm_heap m)(p := map_option g (fm_heap m p))\<rparr>"

definition manager_signal_fence :: "u64 \<Rightarrow> u64 \<Rightarrow> FenceManager \<Rightarrow> bool \<times> FenceManager" where
  "manager_signal_fence now fence_id m =
     (case fm_fence_map m fence_id of None \<Rightarrow> (False, m) | Some p \<Rightarrow> (True, on_arc (xfence_signal now) p m))"

definition manager_fence :: "u64 \<Rightarrow> FenceManager \<Rightarrow> CrossDeviceFence option" where
  "manager_fence fence_id m = (case fm_fence_map m fence_id of None \<Rightarrow> None | Some p \<Rightarrow> fm_heap m p)"

definition manager_wait_fence ::
    "u64 \<Rightarrow> u32 \<Rightarrow> FenceManager \<Rightarrow> CrossDeviceFence wake list \<Rightarrow> (MvgalError + bool) option" where
  "manager_wait_fence fence_id timeout_ms m wakes =
     (case manager_fence fence_id m of
        None \<Rightarrow> Some (Inl NotFound)
      | Some f \<Rightarrow> map_option (\<lambda>s. Inr (s = Signaled)) (xfence_wait (0 < timeout_ms) f wakes))"

definition manager_test_fence :: "u64 \<Rightarrow> FenceManager \<Rightarrow> bool" where
  "manager_test_fence fence_id m = (case manager_fence fence_id m of None \<Rightarrow> False | Some f \<Rightarrow> xfence_is_signaled f)"

definition manager_get_fence :: "u64 \<Rightarrow> FenceManager \<Rightarrow> nat option" where
  "manager_get_fence fence_id m = fm_fence_map m fence_id"

definition manager_destroy_fence :: "u64 \<Rightarrow> FenceManager \<Rightarrow> bool \<times> FenceManager" where
  "manager_destroy_fence fence_id m =
     (fm_fence_map m fence_id \<noteq> None, m\<lparr>fm_fence_map := (fm_fence_map m)(fence_id := None)\<rparr>)"

section \<open>The returned fence and the registered one\<close>

datatype fm_call = New_Fence | New_Timeline_Fence u32 | Signal_Id u64 u64 | Destroy_Id u64
  | Signal_Arc u64 nat | Reset_Arc nat

fun fm_run :: "fm_call \<Rightarrow> FenceManager \<Rightarrow> FenceManager" where
  "fm_run New_Fence m = snd (manager_create_fence m)"
| "fm_run (New_Timeline_Fence g) m = snd (manager_create_timeline_fence g m)"
| "fm_run (Signal_Id now i) m = snd (manager_signal_fence now i m)"
| "fm_run (Destroy_Id i) m = snd (manager_destroy_fence i m)"
| "fm_run (Signal_Arc now p) m = on_arc (xfence_signal now) p m"
| "fm_run (Reset_Arc p) m = on_arc xfence_reset p m"

text \<open>The fence a call is made on directly, through an \<^verbatim>\<open>Arc\<close>.\<close>

fun call_arc :: "fm_call \<Rightarrow> nat option" where
  "call_arc (Signal_Arc _ p) = Some p"
| "call_arc (Reset_Arc p) = Some p"
| "call_arc _ = None"

text \<open>The fence at address \<open>b\<close> is allocated and the map does not hold it.\<close>

definition unregistered :: "nat \<Rightarrow> FenceManager \<Rightarrow> bool" where
  "unregistered b m \<longleftrightarrow> b < fm_next_arc m \<and> b \<notin> ran (fm_fence_map m)"

lemmas fm_op_defs = manager_create_fence_def manager_create_timeline_fence_def timeline_create_fence_def
  manager_signal_fence_def manager_destroy_fence_def on_arc_def arc_new_def timeline_next_value_def Let_def

lemma unregistered_run:
  assumes "unregistered b m"
  shows "unregistered b (fm_run c m)"
  using assms by (cases c) (auto simp: unregistered_def fm_op_defs ran_def split: option.split)

lemma unregistered_kept:
  assumes "unregistered b m" and "call_arc c \<noteq> Some b"
  shows "fm_heap (fm_run c m) b = fm_heap m b"
  using assms by (cases c) (auto simp: unregistered_def fm_op_defs ran_def split: option.split)

lemma unregistered_runs:
  assumes "unregistered b m" and "\<forall>c \<in> set cs. call_arc c \<noteq> Some b"
  shows "fm_heap (fold fm_run cs m) b = fm_heap m b"
  using assms by (induction cs arbitrary: m) (auto simp: unregistered_run unregistered_kept)

lemma other_arc_run:
  assumes "call_arc c = Some b" and "a \<noteq> b"
  shows "fm_heap (fm_run c m) a = fm_heap m a \<and> fm_fence_map (fm_run c m) = fm_fence_map m"
  using assms by (cases c) (auto simp: on_arc_def)

lemma other_arc_runs:
  assumes "\<forall>c \<in> set cs. call_arc c = Some b" and "a \<noteq> b"
  shows "fm_heap (fold fm_run cs m) a = fm_heap m a \<and> fm_fence_map (fold fm_run cs m) = fm_fence_map m"
  using assms by (induction cs arbitrary: m) (auto simp: other_arc_run)

definition arcs_below :: "FenceManager \<Rightarrow> bool" where
  "arcs_below m \<longleftrightarrow> ran (fm_fence_map m) \<subseteq> {..<fm_next_arc m}"

lemma arcs_below_run:
  assumes "arcs_below m"
  shows "arcs_below (fm_run c m)"
  using assms by (cases c) (fastforce simp: arcs_below_def fm_op_defs ran_def split: option.split if_splits)+

lemma arcs_below_runs:
  assumes "arcs_below m"
  shows "arcs_below (fold fm_run cs m)"
  using assms by (induction cs arbitrary: m) (auto simp: arcs_below_run)

lemma wait_forever:
  assumes "\<forall>w \<in> set wakes. xf_state (wake_state w) = Unsignaled" and "xf_state f = Unsignaled"
  shows "xfence_wait False f wakes = None"
proof -
  have "cond_wait_loop (\<lambda>g. xf_state g = Signaled) f wakes = None"
    using assms by (induction wakes arbitrary: f) auto
  then show ?thesis using assms(2) by (simp add: xfence_wait_def)
qed

text \<open>
  C33. The manager and its client do not share a fence. \<^verbatim>\<open>create_fence\<close> registers a copy of the fence it
  returns. In any state that calls reach, the client may signal and reset the fence it got as it likes: the
  manager finds the fence of that id unsignaled, and a wait for the id without a timeout does not return
  while nobody else signals it. And no call on the manager, a signal by that id included, changes the fence
  the client has.
\<close>
theorem create_fence_returns_a_copy:
  assumes "m = fold fm_run ds (fence_manager_new n)" and "manager_create_fence m = (b, m1)"
    and direct: "\<forall>c \<in> set cs. call_arc c = Some b"
    and others: "\<forall>c \<in> set es. call_arc c \<noteq> Some b"
    and idle: "\<forall>w \<in> set wakes. xf_state (wake_state w) = Unsignaled"
  shows "\<not> manager_test_fence (fm_next_fence_id m) (fold fm_run cs m1)
    \<and> manager_wait_fence (fm_next_fence_id m) 0 (fold fm_run cs m1) wakes = None
    \<and> fm_heap (fold fm_run es m1) b = Some (xfence_with_id (fm_next_fence_id m))"
proof -
  let ?i = "fm_next_fence_id m" and ?a = "fm_next_arc m"
  have below: "arcs_below m"
    unfolding assms(1) by (rule arcs_below_runs) (simp add: arcs_below_def fence_manager_new_def)
  have b: "b = Suc ?a" and new: "fm_fence_map m1 = (fm_fence_map m)(?i \<mapsto> ?a)"
    "fm_heap m1 = (fm_heap m)(?a \<mapsto> xfence_with_id ?i, b \<mapsto> xfence_with_id ?i)" "fm_next_arc m1 = Suc b"
    using assms(2) by (auto simp: fm_op_defs)
  have "manager_fence ?i (fold fm_run cs m1) = Some (xfence_with_id ?i)"
    using other_arc_runs [OF direct, of ?a m1] new b by (simp add: manager_fence_def)
  moreover have "xf_state (xfence_with_id ?i) = Unsignaled" by (simp add: xfence_with_id_def xfence_new_def)
  moreover have "unregistered b m1"
    using below new b by (auto simp: unregistered_def arcs_below_def ran_def split: if_splits)
  ultimately show ?thesis
    using unregistered_runs [OF _ others] wait_forever [OF idle] new
    by (simp add: manager_test_fence_def manager_wait_fence_def xfence_is_signaled_def)
qed

text \<open>A client signals its fence, the manager does not see it: a witness for C33.\<close>

theorem create_fence_returns_a_copy_witness:
  "\<not> manager_test_fence 1 (fold fm_run [Signal_Arc 7 1] (snd (manager_create_fence (fence_manager_new 2))))
   \<and> fm_heap (fold fm_run [Signal_Id 7 1] (snd (manager_create_fence (fence_manager_new 2)))) 1 = Some (xfence_with_id 1)"
proof -
  have "manager_create_fence (fence_manager_new 2) = (1, snd (manager_create_fence (fence_manager_new 2)))"
    by (simp add: fm_op_defs fence_manager_new_def)
  moreover have "fm_next_fence_id (fence_manager_new 2) = 1" by (simp add: fence_manager_new_def)
  ultimately show ?thesis
    using create_fence_returns_a_copy [of "fence_manager_new 2" "[]" 2 1 "snd (manager_create_fence (fence_manager_new 2))"
      "[Signal_Arc 7 1]" "[Signal_Id 7 1]" "[]"] by simp
qed

end
