(* ===== verification/Rust_Memory.thy ===== *)
theory Rust_Memory
  imports Rust_Ffi
begin

text \<open>
  The crate \<^verbatim>\<open>src/safe/memory_safety/src/lib.rs\<close>: the registry of tracked allocations, with a reference
  count for each and the bytes in use in system memory and on GPUs. The sums are computed with
  \<^verbatim>\<open>+=\<close>, which panics on overflow or wraps around, as the crate is built: \<open>checked\<close> is that choice.
  The theory shows that the two sums are the sizes of the live allocations.
\<close>

section \<open>The registry\<close>

datatype MemoryPlacement = SystemRam | GpuVram | Mirrored

fun placement_code :: "MemoryPlacement \<Rightarrow> int" where
  "placement_code SystemRam = 0"
| "placement_code GpuVram = 1"
| "placement_code Mirrored = 2"

record Allocation =
  al_size_bytes :: u64
  al_placement :: MemoryPlacement
  al_gpu_index :: u32
  al_ref_count :: u32
  al_has_dmabuf :: bool
  al_dmabuf_fd :: int

record AllocationRegistry =
  ar_allocs :: "u64 \<rightharpoonup> Allocation"
  ar_next_id :: u64
  ar_total_bytes_system :: u64
  ar_total_bytes_gpu :: u64

definition allocation_registry_new :: AllocationRegistry where
  "allocation_registry_new =
     \<lparr>ar_allocs = Map.empty, ar_next_id = 1, ar_total_bytes_system = 0, ar_total_bytes_gpu = 0\<rparr>"

definition mem_allocate :: "bool \<Rightarrow> u64 \<Rightarrow> MemoryPlacement \<Rightarrow> u32 \<Rightarrow> AllocationRegistry \<Rightarrow> (u64 \<times> AllocationRegistry) option" where
  "mem_allocate checked size_bytes placement gpu_index r =
     (let id = ar_next_id r;
          r1 = r\<lparr>ar_next_id := id + 1\<rparr>;
          counted =
            (case placement of
               SystemRam \<Rightarrow> map_option (\<lambda>t. r1\<lparr>ar_total_bytes_system := t\<rparr>) (add_assign checked (ar_total_bytes_system r1) size_bytes)
             | _ \<Rightarrow> map_option (\<lambda>t. r1\<lparr>ar_total_bytes_gpu := t\<rparr>) (add_assign checked (ar_total_bytes_gpu r1) size_bytes))
      in map_option
           (\<lambda>r2. (id, r2\<lparr>ar_allocs := (ar_allocs r2)(id \<mapsto>
              \<lparr>al_size_bytes = size_bytes, al_placement = placement, al_gpu_index = gpu_index, al_ref_count = 1,
               al_has_dmabuf = False, al_dmabuf_fd = - 1\<rparr>)\<rparr>)) counted)"

definition mem_retain :: "u64 \<Rightarrow> AllocationRegistry \<Rightarrow> bool \<times> AllocationRegistry" where
  "mem_retain handle r =
     (case ar_allocs r handle of
        None \<Rightarrow> (False, r)
      | Some a \<Rightarrow>
          (True, r\<lparr>ar_allocs := (ar_allocs r)(handle \<mapsto> a\<lparr>al_ref_count := saturating_add (al_ref_count a) 1\<rparr>)\<rparr>))"

definition mem_release :: "u64 \<Rightarrow> AllocationRegistry \<Rightarrow> bool \<times> AllocationRegistry" where
  "mem_release handle r =
     (case ar_allocs r handle of
        None \<Rightarrow> (False, r)
      | Some a \<Rightarrow>
          if al_ref_count a = 0 then (False, r)
          else
            let c = al_ref_count a - 1
            in if c = 0 then
                 (let r1 = r\<lparr>ar_allocs := (ar_allocs r)(handle := None)\<rparr>
                  in (True,
                      case al_placement a of
                        SystemRam \<Rightarrow> r1\<lparr>ar_total_bytes_system := saturating_sub (ar_total_bytes_system r1) (al_size_bytes a)\<rparr>
                      | _ \<Rightarrow> r1\<lparr>ar_total_bytes_gpu := saturating_sub (ar_total_bytes_gpu r1) (al_size_bytes a)\<rparr>))
               else (True, r\<lparr>ar_allocs := (ar_allocs r)(handle \<mapsto> a\<lparr>al_ref_count := c\<rparr>)\<rparr>))"

definition mem_set_dmabuf :: "u64 \<Rightarrow> int \<Rightarrow> AllocationRegistry \<Rightarrow> bool \<times> AllocationRegistry" where
  "mem_set_dmabuf handle fd r =
     (case ar_allocs r handle of
        None \<Rightarrow> (False, r)
      | Some a \<Rightarrow>
          (True, r\<lparr>ar_allocs := (ar_allocs r)(handle \<mapsto> a\<lparr>al_has_dmabuf := 0 \<le> fd, al_dmabuf_fd := fd\<rparr>)\<rparr>))"

definition mem_get_size :: "u64 \<Rightarrow> AllocationRegistry \<Rightarrow> u64" where
  "mem_get_size handle r = (case ar_allocs r handle of None \<Rightarrow> 0 | Some a \<Rightarrow> al_size_bytes a)"

definition mem_get_placement :: "u64 \<Rightarrow> AllocationRegistry \<Rightarrow> int" where
  "mem_get_placement handle r = (case ar_allocs r handle of None \<Rightarrow> - 1 | Some a \<Rightarrow> placement_code (al_placement a))"

section \<open>The exported functions\<close>

definition placement_of :: "u32 \<Rightarrow> MemoryPlacement option" where
  "placement_of p = (if p = 0 then Some SystemRam else if p = 1 then Some GpuVram
     else if p = 2 then Some Mirrored else None)"

type_synonym mem_mutex = "AllocationRegistry registry_mutex"

definition mvgal_mem_track :: "bool \<Rightarrow> u64 \<Rightarrow> u32 \<Rightarrow> u32 \<Rightarrow> mem_mutex \<Rightarrow> u64 \<times> mem_mutex" where
  "mvgal_mem_track checked size_bytes placement gpu_index m =
     (case placement_of placement of
        None \<Rightarrow> (0, m)
      | Some p \<Rightarrow> with_registry allocation_registry_new 0 (mem_allocate checked size_bytes p gpu_index) m)"

definition mvgal_mem_retain :: "u64 \<Rightarrow> mem_mutex \<Rightarrow> int \<times> mem_mutex" where
  "mvgal_mem_retain handle =
     with_registry allocation_registry_new 0 (\<lambda>r. Some (apfst of_bool (mem_retain handle r)))"

definition mvgal_mem_release :: "u64 \<Rightarrow> mem_mutex \<Rightarrow> int \<times> mem_mutex" where
  "mvgal_mem_release handle =
     with_registry allocation_registry_new 0 (\<lambda>r. Some (apfst of_bool (mem_release handle r)))"

definition mvgal_mem_set_dmabuf :: "u64 \<Rightarrow> int \<Rightarrow> mem_mutex \<Rightarrow> int \<times> mem_mutex" where
  "mvgal_mem_set_dmabuf handle fd =
     with_registry allocation_registry_new 0 (\<lambda>r. Some (apfst of_bool (mem_set_dmabuf handle fd r)))"

definition mvgal_mem_size :: "u64 \<Rightarrow> mem_mutex \<Rightarrow> u64 \<times> mem_mutex" where
  "mvgal_mem_size handle = with_registry allocation_registry_new 0 (\<lambda>r. Some (mem_get_size handle r, r))"

definition mvgal_mem_placement :: "u64 \<Rightarrow> mem_mutex \<Rightarrow> int \<times> mem_mutex" where
  "mvgal_mem_placement handle = with_registry allocation_registry_new 0 (\<lambda>r. Some (mem_get_placement handle r, r))"

definition mvgal_mem_total_system_bytes :: "mem_mutex \<Rightarrow> u64 \<times> mem_mutex" where
  "mvgal_mem_total_system_bytes = with_registry allocation_registry_new 0 (\<lambda>r. Some (ar_total_bytes_system r, r))"

definition mvgal_mem_total_gpu_bytes :: "mem_mutex \<Rightarrow> u64 \<times> mem_mutex" where
  "mvgal_mem_total_gpu_bytes = with_registry allocation_registry_new 0 (\<lambda>r. Some (ar_total_bytes_gpu r, r))"

section \<open>Runs of the interface\<close>

datatype mem_call = Track u64 u32 u32 | Retain u64 | Release u64 | Set_Dmabuf u64 int | Ask

fun mem_call_run :: "bool \<Rightarrow> mem_call \<Rightarrow> mem_mutex \<Rightarrow> mem_mutex" where
  "mem_call_run checked (Track n p g) m = snd (mvgal_mem_track checked n p g m)"
| "mem_call_run checked (Retain h) m = snd (mvgal_mem_retain h m)"
| "mem_call_run checked (Release h) m = snd (mvgal_mem_release h m)"
| "mem_call_run checked (Set_Dmabuf h fd) m = snd (mvgal_mem_set_dmabuf h fd m)"
| "mem_call_run checked Ask m = snd (mvgal_mem_total_system_bytes m)"

abbreviation mem_registry_of :: "mem_mutex \<Rightarrow> AllocationRegistry" where
  "mem_registry_of \<equiv> registry_of allocation_registry_new"

text \<open>The allocations a history asks for, and the bytes it asks for.\<close>

fun tracks :: "mem_call \<Rightarrow> nat list" where
  "tracks (Track n p g) = (if placement_of p \<noteq> None then [unat n] else [])"
| "tracks _ = []"

definition tracked :: "mem_call list \<Rightarrow> nat" where
  "tracked cs = length (concat (map tracks cs))"

definition tracked_bytes :: "mem_call list \<Rightarrow> nat" where
  "tracked_bytes cs = sum_list (concat (map tracks cs))"

text \<open>The bytes of the allocations that satisfy \<open>p\<close>.\<close>

definition bytes_of :: "(MemoryPlacement \<Rightarrow> bool) \<Rightarrow> (u64 \<rightharpoonup> Allocation) \<Rightarrow> nat" where
  "bytes_of p A = (\<Sum>h \<in> {h \<in> dom A. p (al_placement (the (A h)))}. unat (al_size_bytes (the (A h))))"

abbreviation system_bytes :: "(u64 \<rightharpoonup> Allocation) \<Rightarrow> nat" where
  "system_bytes \<equiv> bytes_of (\<lambda>p. p = SystemRam)"

abbreviation gpu_bytes :: "(u64 \<rightharpoonup> Allocation) \<Rightarrow> nat" where
  "gpu_bytes \<equiv> bytes_of (\<lambda>p. p \<noteq> SystemRam)"

text \<open>Live handles run from 1 to \<open>n\<close>, and every live allocation is referenced.\<close>

definition handles_upto :: "nat \<Rightarrow> (u64 \<rightharpoonup> Allocation) \<Rightarrow> bool" where
  "handles_upto n A \<longleftrightarrow> (\<forall>h a. A h = Some a \<longrightarrow> h \<noteq> 0 \<and> unat h \<le> n \<and> al_ref_count a \<noteq> 0)"

text \<open>The registry keeps the books after the calls \<open>cs\<close>.\<close>

definition books :: "mem_call list \<Rightarrow> AllocationRegistry \<Rightarrow> bool" where
  "books cs r \<longleftrightarrow> finite (dom (ar_allocs r))
     \<and> ar_next_id r = of_nat (tracked cs) + 1
     \<and> handles_upto (tracked cs) (ar_allocs r)
     \<and> unat (ar_total_bytes_system r) = system_bytes (ar_allocs r)
     \<and> unat (ar_total_bytes_gpu r) = gpu_bytes (ar_allocs r)
     \<and> system_bytes (ar_allocs r) + gpu_bytes (ar_allocs r) \<le> tracked_bytes cs"

lemma bytes_of_new:
  assumes "finite (dom A)" and "A h = None"
  shows "bytes_of p (A(h \<mapsto> a)) = bytes_of p A + (if p (al_placement a) then unat (al_size_bytes a) else 0)"
proof -
  let ?S = "{k \<in> dom A. p (al_placement (the (A k)))}"
  have "{k \<in> dom (A(h \<mapsto> a)). p (al_placement (the ((A(h \<mapsto> a)) k)))} = (if p (al_placement a) then insert h ?S else ?S)"
    using assms(2) by (auto split: if_splits)
  moreover have "h \<notin> ?S" "finite ?S" using assms by auto
  moreover have "(\<Sum>k \<in> ?S. unat (al_size_bytes (the ((A(h \<mapsto> a)) k)))) = (\<Sum>k \<in> ?S. unat (al_size_bytes (the (A k))))"
    using \<open>h \<notin> ?S\<close> by (intro sum.cong) auto
  ultimately show ?thesis by (simp add: bytes_of_def)
qed

lemma bytes_of_remove:
  assumes "finite (dom A)" and "A h = Some a"
  shows "bytes_of p A = bytes_of p (A(h := None)) + (if p (al_placement a) then unat (al_size_bytes a) else 0)"
proof -
  have "A = (A(h := None))(h \<mapsto> a)" using assms(2) by auto
  moreover have "finite (dom (A(h := None)))" using assms(1) by simp
  ultimately show ?thesis using bytes_of_new [of "A(h := None)" h p a] by simp
qed

lemma bytes_of_update:
  assumes "finite (dom A)" and "A h = Some a" and "al_placement b = al_placement a" and "al_size_bytes b = al_size_bytes a"
  shows "bytes_of p (A(h \<mapsto> b)) = bytes_of p A"
proof -
  have "A(h \<mapsto> b) = (A(h := None))(h \<mapsto> b)" by simp
  moreover have "finite (dom (A(h := None)))" using assms(1) by simp
  ultimately show ?thesis
    using bytes_of_new [of "A(h := None)" h p b] bytes_of_remove [OF assms(1,2), of p] assms(3,4) by simp
qed


section \<open>The books are kept\<close>

text \<open>What one call does to the registry.\<close>

fun mem_effect :: "bool \<Rightarrow> mem_call \<Rightarrow> AllocationRegistry \<Rightarrow> AllocationRegistry option" where
  "mem_effect checked (Track n p g) r =
     (case placement_of p of None \<Rightarrow> Some r | Some pl \<Rightarrow> map_option snd (mem_allocate checked n pl g r))"
| "mem_effect checked (Retain h) r = Some (snd (mem_retain h r))"
| "mem_effect checked (Release h) r = Some (snd (mem_release h r))"
| "mem_effect checked (Set_Dmabuf h fd) r = Some (snd (mem_set_dmabuf h fd r))"
| "mem_effect checked Ask r = Some r"

lemmas mem_ffi_defs = mvgal_mem_track_def mvgal_mem_retain_def mvgal_mem_release_def mvgal_mem_set_dmabuf_def
  mvgal_mem_total_system_bytes_def

lemma mem_call_panic:
  assumes "m \<noteq> Poisoned" and "mem_effect checked c (mem_registry_of m) = None"
  shows "mem_call_run checked c m = Poisoned"
  using assms(2) by (cases c)
    (auto simp: mvgal_mem_track_def with_registry_panic [OF assms(1)] split: option.splits if_splits)

lemma mem_call_effect:
  assumes "m \<noteq> Poisoned" and "mem_effect checked c (mem_registry_of m) = Some r"
  shows "mem_call_run checked c m \<noteq> Poisoned \<and> mem_registry_of (mem_call_run checked c m) = r"
proof (cases c)
  case (Track n p g)
  then show ?thesis
    using assms by (auto simp: mvgal_mem_track_def with_registry_call [OF assms(1)] split: option.splits if_splits)
qed (use assms in \<open>auto simp: mem_ffi_defs with_registry_total [OF assms(1)]\<close>)

lemma tracked_snoc:
  "tracked (cs @ [c]) = tracked cs + length (tracks c)" "tracked_bytes (cs @ [c]) = tracked_bytes cs + sum_list (tracks c)"
  by (simp_all add: tracked_def tracked_bytes_def)

text \<open>An update of an allocation that keeps its size and placement and a positive count keeps the books.\<close>

lemma handles_upto_intros:
  "handles_upto n A \<Longrightarrow> unat h = Suc n \<Longrightarrow> al_ref_count a \<noteq> 0 \<Longrightarrow> handles_upto (Suc n) (A(h \<mapsto> a))"
  "handles_upto n A \<Longrightarrow> A h = Some a \<Longrightarrow> al_ref_count b \<noteq> 0 \<Longrightarrow> handles_upto n (A(h \<mapsto> b))"
  "handles_upto n A \<Longrightarrow> handles_upto n (A(h := None))"
  by (fastforce simp: handles_upto_def)+

lemma handles_upto_free: "handles_upto n A \<Longrightarrow> unat h = Suc n \<Longrightarrow> A h = None"
  by (cases "A h") (fastforce simp: handles_upto_def)+

lemma books_update:
  assumes "books cs r" and "ar_allocs r h = Some a"
    and "al_placement b = al_placement a" and "al_size_bytes b = al_size_bytes a" and "al_ref_count b \<noteq> 0"
  shows "books cs (r\<lparr>ar_allocs := (ar_allocs r)(h \<mapsto> b)\<rparr>)"
  using assms by (auto simp: books_def bytes_of_update intro: handles_upto_intros)

lemma books_more:
  assumes "books cs r" and "tracks c = []"
  shows "books (cs @ [c]) r"
  using assms by (simp add: books_def tracked_snoc)

lemma books_remove:
  assumes b: "books cs r" and a: "ar_allocs r h = Some a"
  shows "books cs (snd (mem_release h r))"
proof -
  have c: "al_ref_count a \<noteq> 0" and fin: "finite (dom (ar_allocs r))" using a b by (auto simp: books_def handles_upto_def)
  show ?thesis
  proof (cases "al_ref_count a = 1")
    case True
    have "unat (al_size_bytes a) \<le> bytes_of p (ar_allocs r)" if "p (al_placement a)" for p
      using bytes_of_remove [OF fin a, of p] that by simp
    then show ?thesis
      using True a b bytes_of_remove [OF fin a, of "\<lambda>p. p = SystemRam"] bytes_of_remove [OF fin a, of "\<lambda>p. p \<noteq> SystemRam"]
      by (cases "al_placement a") (auto simp: mem_release_def books_def saturating_sub_unat intro: handles_upto_intros)
  next
    case False
    then have "al_ref_count a - 1 \<noteq> 0" by simp
    then show ?thesis using a c books_update [OF b a] by (simp add: mem_release_def Let_def)
  qed
qed

lemma books_allocate:
  assumes b: "books cs r" and al: "mem_allocate checked n pl g r = Some (h, r')" and pl: "placement_of p = Some pl"
    and ok: "Suc (tracked (cs @ [Track n p g])) < 2 ^ 64" "checked \<or> tracked_bytes (cs @ [Track n p g]) < 2 ^ 64"
  shows "books (cs @ [Track n p g]) r' \<and> h = ar_next_id r \<and> ar_allocs r h = None"
proof -
  let ?t = "tracked cs"
  have fin: "finite (dom (ar_allocs r))" using b by (simp add: books_def)
  have t: "tracked (cs @ [Track n p g]) = Suc ?t" "tracked_bytes (cs @ [Track n p g]) = tracked_bytes cs + unat n"
    using pl by (simp_all add: tracked_snoc)
  have u: "unat (of_nat ?t + 1 :: u64) = Suc ?t" using ok(1) t by (simp add: unat_word_ariths unat_of_nat)
  then have id: "unat (ar_next_id r) = Suc ?t" using b by (simp add: books_def)
  have up: "handles_upto ?t (ar_allocs r)" using b by (simp add: books_def)
  then have free: "ar_allocs r (ar_next_id r) = None" using id by (rule handles_upto_free)
  have le: "checked \<or> unat (ar_total_bytes_system r) + unat n < 2 ^ 64" "checked \<or> unat (ar_total_bytes_gpu r) + unat n < 2 ^ 64"
    using b ok(2) t(2) by (auto simp: books_def)
  show ?thesis
    using al b t fin id free handles_upto_intros(1) [OF up id] add_assign_unat [OF _ le(1)] add_assign_unat [OF _ le(2)]
    by (cases pl) (auto simp: mem_allocate_def Let_def books_def bytes_of_new split: if_splits)
qed

lemma books_effect:
  assumes b: "books cs r" and c: "mem_effect checked c r = Some r'"
    and ok: "Suc (tracked (cs @ [c])) < 2 ^ 64" "checked \<or> tracked_bytes (cs @ [c]) < 2 ^ 64"
  shows "books (cs @ [c]) r'"
proof -
  have al_live: "al_ref_count a \<noteq> 0" if "ar_allocs r h = Some a" for h a
    using b that by (auto simp: books_def handles_upto_def)
  show ?thesis
  proof (cases c)
    case (Track n p g)
    then show ?thesis
      using b c ok books_allocate books_more [OF b, of c] by (cases "placement_of p") auto
  next
    case (Retain h)
    then show ?thesis
      using b c
      by (cases "ar_allocs r h") (auto simp: mem_retain_def intro!: books_more books_update)
  next
    case (Release h)
    then show ?thesis
      using c books_more [OF b] books_more [OF books_remove [OF b]] by (cases "ar_allocs r h") (auto simp: mem_release_def)
  next
    case (Set_Dmabuf h fd)
    then show ?thesis
      using b c al_live by (cases "ar_allocs r h") (auto simp: mem_set_dmabuf_def intro!: books_more books_update)
  next
    case Ask
    then show ?thesis using c books_more [OF b, of c] by simp
  qed
qed

lemma effect_panic:
  assumes b: "books cs r" and c: "mem_effect checked c r = None"
  shows "2 ^ 64 \<le> tracked_bytes (cs @ [c])"
proof (cases c)
  case (Track n p g)
  then obtain pl where pl: "placement_of p = Some pl" and al: "mem_allocate checked n pl g r = None"
    using c by (auto split: option.splits)
  have "2 ^ 64 \<le> unat (ar_total_bytes_system r) + unat n \<or> 2 ^ 64 \<le> unat (ar_total_bytes_gpu r) + unat n"
    using al by (cases pl) (auto simp: mem_allocate_def Let_def add_assign_def add_overflow split: if_splits)
  then show ?thesis using b Track pl by (auto simp: books_def tracked_snoc)
qed (use c in auto)

interpretation memory: registry allocation_registry_new "mem_call_run checked" "mem_effect checked"
  "\<lambda>cs. Suc (tracked cs) < 2 ^ 64 \<and> (checked \<or> tracked_bytes cs < 2 ^ 64)" books
  for checked
proof unfold_locales
  fix c show "mem_call_run checked c Poisoned = Poisoned" by (cases c) (auto simp: mem_ffi_defs split: option.split)
next
  fix cs c
  assume "Suc (tracked (cs @ [c])) < 2 ^ 64 \<and> (checked \<or> tracked_bytes (cs @ [c]) < 2 ^ 64)"
  then show "Suc (tracked cs) < 2 ^ 64 \<and> (checked \<or> tracked_bytes cs < 2 ^ 64)" by (auto simp: tracked_snoc)
next
  show "books [] allocation_registry_new"
    by (simp add: books_def allocation_registry_new_def handles_upto_def bytes_of_def tracked_def)
qed (use mem_call_panic mem_call_effect books_effect in blast)+

text \<open>
  C23. The registry of allocations keeps the books. After any sequence of exported calls that track fewer
  than \<open>2\<^sup>6\<^sup>4 - 1\<close> allocations, and fewer than \<open>2\<^sup>6\<^sup>4\<close> bytes in all where the build does not check overflow,
  either an overflow of the sums has panicked, and then the history has asked for \<open>2\<^sup>6\<^sup>4\<close> bytes or more; or
  the two totals that the crate reports are the sizes of the live allocations in system memory and on
  GPUs, so that no release clips a total at 0, every live allocation has a positive count, and
  a new allocation gets a handle that is not 0 and that no live allocation has.
\<close>
theorem memory_books:
  assumes "Suc (tracked cs) < 2 ^ 64" and "checked \<or> tracked_bytes cs < 2 ^ 64"
    and "m = fold (mem_call_run checked) cs (Guarded None)"
  shows "if m = Poisoned then 2 ^ 64 \<le> tracked_bytes cs
    else unat (fst (mvgal_mem_total_system_bytes m)) = system_bytes (ar_allocs (mem_registry_of m))
      \<and> unat (fst (mvgal_mem_total_gpu_bytes m)) = gpu_bytes (ar_allocs (mem_registry_of m))
      \<and> handles_upto (tracked cs) (ar_allocs (mem_registry_of m))
      \<and> unat (ar_next_id (mem_registry_of m)) = Suc (tracked cs)"
proof (cases "m = Poisoned")
  case True
  then have "fold (mem_call_run checked) cs (Guarded None) = Poisoned" using assms(3) by simp
  then obtain ds c es r where cs: "cs = ds @ c # es" and "books ds r" "mem_effect checked c r = None"
    using memory.runs_panic [OF conjI [OF assms(1,2)]] by blast
  then have "2 ^ 64 \<le> tracked_bytes (ds @ [c])" using effect_panic by blast
  then show ?thesis using True by (simp add: cs tracked_bytes_def)
next
  case False
  then have "books cs (mem_registry_of m)" using memory.runs_inv [OF conjI [OF assms(1,2)]] assms(3) by simp
  then show ?thesis
    using False assms(1) by (simp add: mvgal_mem_total_system_bytes_def mvgal_mem_total_gpu_bytes_def
      with_registry_total [OF False] books_def unat_word_ariths unat_of_nat)
qed

text \<open>Two allocations, one released: a witness for C23.\<close>

theorem memory_books_witness:
  "unat (fst (mvgal_mem_total_gpu_bytes (fold (mem_call_run True) [Track 4096 1 0, Track 100 0 0, Retain 1, Release 2, Release 1] (Guarded None))))
     = gpu_bytes (ar_allocs (mem_registry_of (fold (mem_call_run True) [Track 4096 1 0, Track 100 0 0, Retain 1, Release 2, Release 1] (Guarded None))))
   \<and> fst (mvgal_mem_total_gpu_bytes (fold (mem_call_run True) [Track 4096 1 0, Track 100 0 0, Retain 1, Release 2, Release 1] (Guarded None))) = 4096
   \<and> fst (mvgal_mem_total_system_bytes (fold (mem_call_run True) [Track 4096 1 0, Track 100 0 0, Retain 1, Release 2, Release 1] (Guarded None))) = 0"
proof -
  let ?cs = "[Track 4096 1 0, Track 100 0 0, Retain 1, Release 2, Release 1]"
  have "tracked ?cs = 2" by (simp add: tracked_def placement_of_def)
  moreover have e: "fst (mvgal_mem_total_gpu_bytes (fold (mem_call_run True) ?cs (Guarded None))) = 4096"
    "fst (mvgal_mem_total_system_bytes (fold (mem_call_run True) ?cs (Guarded None))) = 0" by code_simp+
  moreover have "fold (mem_call_run True) ?cs (Guarded None) \<noteq> Poisoned" using e(1) by (auto simp: mvgal_mem_total_gpu_bytes_def)
  ultimately show ?thesis using memory_books [of ?cs True, OF _ _ refl] by simp
qed

end
