(* ===== verification/Rust_Tracker.thy ===== *)
theory Rust_Tracker
  imports Rust_Ffi "HOL-Library.Monad_Syntax"
begin

text \<open>
  The module \<^verbatim>\<open>src/runtime/safe/memory_safety.rs\<close>: addresses that are checked when they are made, the
  tracker that hands out regions of a GPU's memory, and the check of an access. A call that panics has the
  value \<open>None\<close>; \<open>checked\<close> says whether the build checks overflow.
\<close>

section \<open>Addresses and regions\<close>

definition GPU_MEMORY_ALIGNMENT :: u64 where
  "GPU_MEMORY_ALIGNMENT = 256"

datatype MemoryType = GpuDeviceLocal | GpuHostVisible | SystemRam | UnifiedMemory | DmaBuf

record GpuMemoryRegion =
  rg_base :: u64
  rg_size :: u64
  rg_memory_type :: MemoryType
  rg_gpuaffinity :: "bool list"
  rg_refcount :: nat
  rg_mappable :: bool

definition region_new :: "u64 \<Rightarrow> u64 \<Rightarrow> MemoryType \<Rightarrow> nat \<Rightarrow> GpuMemoryRegion" where
  "region_new base n memory_type num_gpus =
     \<lparr>rg_base = base, rg_size = n, rg_memory_type = memory_type, rg_gpuaffinity = replicate num_gpus True,
      rg_refcount = 1, rg_mappable = False\<rparr>"

definition is_accessible_by :: "GpuMemoryRegion \<Rightarrow> nat \<Rightarrow> bool" where
  "is_accessible_by r gpu_index \<longleftrightarrow> gpu_index < length (rg_gpuaffinity r) \<and> rg_gpuaffinity r ! gpu_index"

definition is_aligned :: "u64 \<Rightarrow> u64 \<Rightarrow> bool" where
  "is_aligned address alignment \<longleftrightarrow> address mod alignment = 0"

text \<open>\<^verbatim>\<open>((value + alignment - 1) / alignment) * alignment\<close>, for an alignment that is not 0.\<close>

definition align_up :: "bool \<Rightarrow> u64 \<Rightarrow> u64 \<Rightarrow> u64 option" where
  "align_up checked v alignment =
     do { s \<leftarrow> add_assign checked v alignment; Some (((s - 1) div alignment) * alignment) }"

definition address_new :: "u64 \<Rightarrow> MvgalError + u64" where
  "address_new address =
     (if address = 0 then Inl InvalidArgument
      else if \<not> is_aligned address GPU_MEMORY_ALIGNMENT then Inl InvalidArgument
      else Inr address)"

section \<open>The tracker\<close>

record GpuMemoryTracker =
  gt_allocations :: "u64 \<rightharpoonup> GpuMemoryRegion"
  gt_next_address :: u64
  gt_total_committed :: u64
  gt_peak_usage :: u64
  gt_gpu_index :: u32

definition tracker_new :: "u32 \<Rightarrow> GpuMemoryTracker" where
  "tracker_new gpu_index =
     \<lparr>gt_allocations = Map.empty, gt_next_address = 0, gt_total_committed = 0, gt_peak_usage = 0, gt_gpu_index = gpu_index\<rparr>"

definition tracker_allocate ::
    "bool \<Rightarrow> u64 \<Rightarrow> MemoryType \<Rightarrow> nat \<Rightarrow> GpuMemoryTracker \<Rightarrow> ((MvgalError + GpuMemoryRegion) \<times> GpuMemoryTracker) option" where
  "tracker_allocate checked n memory_type num_gpus t =
     do {
       aligned_size \<leftarrow> align_up checked n GPU_MEMORY_ALIGNMENT;
       let base = gt_next_address t;
       next_addr \<leftarrow> add_assign checked base aligned_size;
       total \<leftarrow> add_assign checked (gt_total_committed t) aligned_size;
       high \<leftarrow> add_assign checked aligned_size base;
       let peak = (if gt_peak_usage t < high then high else gt_peak_usage t);
       let region = region_new base aligned_size memory_type num_gpus;
       let t1 = t\<lparr>gt_next_address := next_addr, gt_total_committed := total, gt_peak_usage := peak\<rparr>;
       Some (case address_new base of
               Inl e \<Rightarrow> (Inl e, t1)
             | Inr a \<Rightarrow> (Inr region, t1\<lparr>gt_allocations := (gt_allocations t1)(a \<mapsto> region)\<rparr>))
     }"

definition tracker_free :: "bool \<Rightarrow> u64 \<Rightarrow> GpuMemoryTracker \<Rightarrow> ((MvgalError + unit) \<times> GpuMemoryTracker) option" where
  "tracker_free checked address t =
     (case gt_allocations t address of
        None \<Rightarrow> Some (Inl NotFound, t)
      | Some region \<Rightarrow>
          if checked \<and> gt_total_committed t < rg_size region then None
          else Some (Inr (), t\<lparr>gt_allocations := (gt_allocations t)(address := None),
                       gt_total_committed := gt_total_committed t - rg_size region\<rparr>))"

definition get_region :: "u64 \<Rightarrow> GpuMemoryTracker \<Rightarrow> GpuMemoryRegion option" where
  "get_region address t = gt_allocations t address"

definition is_valid_address :: "u64 \<Rightarrow> GpuMemoryTracker \<Rightarrow> bool" where
  "is_valid_address address t \<longleftrightarrow> get_region address t \<noteq> None"

definition tracker_get_stats :: "GpuMemoryTracker \<Rightarrow> u64 \<times> u64 \<times> nat" where
  "tracker_get_stats t = (gt_total_committed t, gt_peak_usage t, card (dom (gt_allocations t)))"

definition validate_memory_access ::
    "bool \<Rightarrow> u32 \<Rightarrow> u64 \<Rightarrow> u64 \<Rightarrow> GpuMemoryTracker \<Rightarrow> (MvgalError + unit) option" where
  "validate_memory_access checked gpu_index address n t =
     (if \<not> is_valid_address address t then Some (Inl InvalidArgument)
      else case get_region address t of
        None \<Rightarrow> Some (Inl NotFound)
      | Some region \<Rightarrow>
          if \<not> is_accessible_by region (unat gpu_index) then Some (Inl AccessDenied)
          else do {
            access_end \<leftarrow> add_assign checked address n;
            region_end \<leftarrow> add_assign checked (rg_base region) (rg_size region);
            Some (if region_end < access_end then Inl InvalidArgument else Inr ())
          })"

section \<open>Copies and descriptors\<close>

datatype MemoryCopyMethod = Auto | P2PDma | HostStaging | DirectGpuCopy | Uva

record CrossGpuMemoryCopy =
  cp_src_gpu :: u32
  cp_src_address :: u64
  cp_dst_gpu :: u32
  cp_dst_address :: u64
  cp_size :: u64
  cp_method :: MemoryCopyMethod

definition cross_copy_new :: "u32 \<Rightarrow> u64 \<Rightarrow> u32 \<Rightarrow> u64 \<Rightarrow> u64 \<Rightarrow> MvgalError + CrossGpuMemoryCopy" where
  "cross_copy_new src_gpu src_addr dst_gpu dst_addr n =
     (case address_new src_addr of
        Inl e \<Rightarrow> Inl e
      | Inr s \<Rightarrow>
          (case address_new dst_addr of
             Inl e \<Rightarrow> Inl e
           | Inr d \<Rightarrow>
               Inr \<lparr>cp_src_gpu = src_gpu, cp_src_address = s, cp_dst_gpu = dst_gpu, cp_dst_address = d, cp_size = n,
                    cp_method = Auto\<rparr>))"

definition determine_method :: "bool \<Rightarrow> bool \<Rightarrow> MemoryCopyMethod" where
  "determine_method can_p2p use_host_staging =
     (if can_p2p then P2PDma else if use_host_staging then HostStaging else DirectGpuCopy)"

definition safe_dmabuf_fd_new :: "int \<Rightarrow> int option" where
  "safe_dmabuf_fd_new fd = (if 0 \<le> fd then Some fd else None)"

section \<open>Runs of the tracker\<close>

datatype tracker_call = Allocate u64 MemoryType nat | Free u64

fun tracker_run :: "bool \<Rightarrow> tracker_call \<Rightarrow> GpuMemoryTracker \<Rightarrow> GpuMemoryTracker option" where
  "tracker_run checked (Allocate n mt g) t = map_option snd (tracker_allocate checked n mt g t)"
| "tracker_run checked (Free a) t = map_option snd (tracker_free checked a t)"

fun tracker_runs :: "bool \<Rightarrow> tracker_call list \<Rightarrow> GpuMemoryTracker \<Rightarrow> GpuMemoryTracker option" where
  "tracker_runs checked [] t = Some t"
| "tracker_runs checked (c # cs) t = do { t' \<leftarrow> tracker_run checked c t; tracker_runs checked cs t' }"

text \<open>The bytes a history of calls may take, rounded up.\<close>

fun asks :: "tracker_call \<Rightarrow> nat" where
  "asks (Allocate n _ _) = unat n + 256"
| "asks (Free _) = 0"

definition asked :: "tracker_call list \<Rightarrow> nat" where
  "asked cs = sum_list (map asks cs)"

text \<open>The bytes a region holds, and the sum over all live regions.\<close>

abbreviation span :: "GpuMemoryRegion \<Rightarrow> nat set" where
  "span r \<equiv> {unat (rg_base r)..<unat (rg_base r) + unat (rg_size r)}"

definition apart :: "GpuMemoryRegion \<Rightarrow> GpuMemoryRegion \<Rightarrow> bool" where
  "apart r s \<longleftrightarrow> span r \<inter> span s = {}"

definition live_bytes :: "GpuMemoryTracker \<Rightarrow> nat" where
  "live_bytes t = (\<Sum>a \<in> dom (gt_allocations t). unat (rg_size (the (gt_allocations t a))))"

text \<open>
  Every live region is found under its base, an aligned address that is not 0, ends below \<open>n\<close>, and
  overlaps with no other.
\<close>

definition regions_ok :: "nat \<Rightarrow> (u64 \<rightharpoonup> GpuMemoryRegion) \<Rightarrow> bool" where
  "regions_ok n A \<longleftrightarrow> finite (dom A)
     \<and> (\<forall>a r. A a = Some r \<longrightarrow> rg_base r = a \<and> a \<noteq> 0 \<and> is_aligned a 256 \<and> unat a + unat (rg_size r) \<le> n)
     \<and> (\<forall>a r b s. A a = Some r \<longrightarrow> A b = Some s \<longrightarrow> a \<noteq> b \<longrightarrow> apart r s)"

text \<open>The peak is the next address, and once an address was used the total is too large by an alignment or more.\<close>

definition tracker_ok :: "GpuMemoryTracker \<Rightarrow> bool" where
  "tracker_ok t \<longleftrightarrow> regions_ok (unat (gt_next_address t)) (gt_allocations t)
     \<and> is_aligned (gt_next_address t) 256
     \<and> gt_peak_usage t = gt_next_address t
     \<and> gt_total_committed t \<le> gt_next_address t
     \<and> (if gt_next_address t = 0 then live_bytes t = 0 else live_bytes t + 256 \<le> unat (gt_total_committed t))"

section \<open>The regions handed out\<close>

lemma is_aligned_unat: "is_aligned a 256 \<longleftrightarrow> unat a mod 256 = 0"
proof -
  have "is_aligned a 256 \<longleftrightarrow> unat (a mod 256) = 0" by (simp add: is_aligned_def unat_eq_0)
  then show ?thesis by (simp add: unat_mod)
qed

lemma align_up_256:
  assumes "align_up checked v 256 = Some s" and "checked \<or> unat v + 256 < 2 ^ 64"
  shows "unat s mod 256 = 0" and "unat v \<le> unat s" and "unat s < unat v + 256"
proof -
  obtain x where x: "add_assign checked v 256 = Some x" and s: "s = ((x - 1) div 256) * 256"
    using assms(1) by (auto simp: align_up_def Option.bind_eq_Some_conv)
  have ux: "unat x = unat v + 256" using add_assign_unat [OF x] assms(2) by simp
  have "unat (x - 1) = unat x - unat (1 :: u64)" by (rule unat_sub) (simp add: word_le_nat_alt ux)
  then have d: "unat ((x - 1) div 256) = (unat v + 255) div 256" by (simp add: unat_div ux)
  have k: "(unat v + 255) div 256 * 256 + (unat v + 255) mod 256 = unat v + 255" by (rule div_mult_mod_eq)
  have m: "(unat v + 255) mod 256 < 256" by simp
  have "unat x < 2 ^ LENGTH(64)" by (rule unsigned_less)
  then have "(unat v + 255) div 256 * 256 < 2 ^ LENGTH(64)" using k ux by linarith
  moreover have "unat s = unat ((x - 1) div 256) * unat (256 :: u64) mod 2 ^ LENGTH(64)"
    unfolding s by (rule unat_word_ariths)
  ultimately have u: "unat s = (unat v + 255) div 256 * 256" by (simp add: d)
  show "unat s mod 256 = 0" unfolding u by simp
  show "unat v \<le> unat s" "unat s < unat v + 256" using u k m by linarith+
qed

lemma live_bytes_new:
  assumes "finite (dom (gt_allocations t))" and "gt_allocations t' = (gt_allocations t)(a \<mapsto> r)"
    and "\<forall>s. gt_allocations t a = Some s \<longrightarrow> rg_size s = 0"
  shows "live_bytes t' = live_bytes t + unat (rg_size r)"
proof -
  let ?A = "gt_allocations t" and ?f = "\<lambda>A a. unat (rg_size (the (A a)))"
  have "live_bytes t' = ?f (?A(a \<mapsto> r)) a + (\<Sum>b \<in> dom ?A - {a}. ?f (?A(a \<mapsto> r)) b)"
    using assms(1,2) by (simp add: live_bytes_def sum.insert_remove)
  also have "(\<Sum>b \<in> dom ?A - {a}. ?f (?A(a \<mapsto> r)) b) = (\<Sum>b \<in> dom ?A - {a}. ?f ?A b)" by (intro sum.cong) auto
  also have "\<dots> = live_bytes t"
    unfolding live_bytes_def using assms(1,3) by (intro sum.mono_neutral_left) auto
  finally show ?thesis by simp
qed

lemma live_bytes_remove:
  assumes "finite (dom (gt_allocations t))" and "gt_allocations t a = Some r"
    and "gt_allocations t' = (gt_allocations t)(a := None)"
  shows "live_bytes t = live_bytes t' + unat (rg_size r)"
proof -
  let ?A = "gt_allocations t" and ?f = "\<lambda>A a. unat (rg_size (the (A a)))"
  have "live_bytes t = ?f ?A a + (\<Sum>b \<in> dom ?A - {a}. ?f ?A b)"
    unfolding live_bytes_def using assms(1,2) by (intro sum.remove) auto
  also have "(\<Sum>b \<in> dom ?A - {a}. ?f ?A b) = live_bytes t'"
    unfolding live_bytes_def using assms(3) by (intro sum.cong) auto
  finally show ?thesis using assms(2) by simp
qed

text \<open>The numbers of an allocation: it takes the addresses from the old to the new next address.\<close>

lemma tracker_allocate_numbers:
  assumes al: "tracker_allocate checked n mt g t = Some (res, t')"
    and ok: "gt_total_committed t \<le> gt_next_address t" "gt_peak_usage t = gt_next_address t"
    and small: "checked \<or> unat (gt_next_address t) + unat n + 256 < 2 ^ 64"
  obtains s where "unat s mod 256 = 0" "unat n \<le> unat s" "unat s < unat n + 256"
    "unat (gt_next_address t') = unat (gt_next_address t) + unat s"
    "unat (gt_total_committed t') = unat (gt_total_committed t) + unat s"
    "gt_peak_usage t' = gt_next_address t'"
    "case address_new (gt_next_address t) of
       Inl e \<Rightarrow> res = Inl e \<and> gt_allocations t' = gt_allocations t
     | Inr a \<Rightarrow> res = Inr (region_new a s mt g) \<and> gt_allocations t' = (gt_allocations t)(a \<mapsto> region_new a s mt g)"
proof -
  obtain s x y z where s: "align_up checked n 256 = Some s" and x: "add_assign checked (gt_next_address t) s = Some x"
    and y: "add_assign checked (gt_total_committed t) s = Some y" and z: "add_assign checked s (gt_next_address t) = Some z"
    using al by (auto simp: tracker_allocate_def GPU_MEMORY_ALIGNMENT_def Let_def split: bind_splits)
  have "checked \<or> unat n + 256 < 2 ^ 64" using small by auto
  note a = align_up_256 [OF s this]
  have small': "checked \<or> unat (gt_next_address t) + unat s < 2 ^ 64" using small a(3) by auto
  moreover have "unat (gt_total_committed t) \<le> unat (gt_next_address t)" using ok(1) by (simp add: word_le_nat_alt)
  ultimately have "checked \<or> unat (gt_total_committed t) + unat s < 2 ^ 64" by auto
  note u = add_assign_unat [OF x small'] add_assign_unat [OF y this]
  have "z = x" using x z by (auto simp: add_assign_def add.commute split: if_splits)
  moreover have "gt_next_address t \<le> x" using u(1) by (simp add: word_le_nat_alt)
  ultimately show ?thesis
    using al s x y z ok(2) a u
    by (intro that [of s]) (auto simp: tracker_allocate_def GPU_MEMORY_ALIGNMENT_def Let_def address_new_def word_gt_0 split: sum.splits if_splits)
qed

lemma regions_ok_mono: "regions_ok n A \<Longrightarrow> n \<le> k \<Longrightarrow> regions_ok k A"
  unfolding regions_ok_def using order_trans by blast

lemma regions_ok_remove: "regions_ok n A \<Longrightarrow> regions_ok n (A(a := None))"
  by (auto simp: regions_ok_def split: if_splits)

lemma regions_ok_at_end: "regions_ok (unat a) A \<Longrightarrow> A a = Some s \<Longrightarrow> rg_size s = 0"
  by (fastforce simp: regions_ok_def unat_eq_0)

lemma regions_ok_zero: "regions_ok 0 A \<Longrightarrow> A = Map.empty"
  by (rule ext, rule ccontr) (fastforce simp: regions_ok_def unat_eq_0)

lemma regions_ok_new:
  assumes ok: "regions_ok (unat a) A" and "a \<noteq> 0" "is_aligned a 256" "rg_base r = a"
  shows "regions_ok (unat a + unat (rg_size r)) (A(a \<mapsto> r))"
proof -
  have "apart r s" "apart s r" if "A b = Some s" for b s
    using ok that assms(4) by (fastforce simp: regions_ok_def apart_def)+
  moreover have "unat b + unat (rg_size s) \<le> unat a + unat (rg_size r)" if "A b = Some s" for b s
    using ok that by (fastforce simp: regions_ok_def)
  ultimately show ?thesis using assms unfolding regions_ok_def by auto
qed

lemma tracker_ok_allocate:
  assumes ok: "tracker_ok t" and al: "tracker_allocate checked n mt g t = Some (res, t')"
    and small: "checked \<or> unat (gt_next_address t) + unat n + 256 < 2 ^ 64"
  shows "tracker_ok t' \<and> gt_next_address t \<le> gt_next_address t'
    \<and> unat (gt_next_address t') \<le> unat (gt_next_address t) + unat n + 256"
proof -
  let ?a = "gt_next_address t"
  have total: "gt_total_committed t \<le> ?a" and peak: "gt_peak_usage t = ?a" using ok by (simp_all add: tracker_ok_def)
  have old: "regions_ok (unat ?a) (gt_allocations t)" "unat (gt_total_committed t) \<le> unat ?a" "unat ?a mod 256 = 0"
    "if ?a = 0 then live_bytes t = 0 else live_bytes t + 256 \<le> unat (gt_total_committed t)"
    using ok by (simp_all add: tracker_ok_def word_le_nat_alt is_aligned_unat)
  obtain s where s: "unat s mod 256 = 0" "unat s < unat n + 256"
    and nums: "unat (gt_next_address t') = unat ?a + unat s" "unat (gt_total_committed t') = unat (gt_total_committed t) + unat s"
      "gt_peak_usage t' = gt_next_address t'"
    and res: "case address_new ?a of
       Inl e \<Rightarrow> res = Inl e \<and> gt_allocations t' = gt_allocations t
     | Inr a \<Rightarrow> res = Inr (region_new a s mt g) \<and> gt_allocations t' = (gt_allocations t)(a \<mapsto> region_new a s mt g)"
    by (rule tracker_allocate_numbers [OF al total peak small])
  have "(unat ?a + unat s) mod 256 = 0" using old(3) s(1) dvd_add [of 256 "unat ?a" "unat s"] by (simp add: mod_eq_0_iff_dvd)
  then have frame: "is_aligned (gt_next_address t') 256" "gt_total_committed t' \<le> gt_next_address t'"
    "gt_next_address t \<le> gt_next_address t'" "unat (gt_next_address t') \<le> unat ?a + unat n + 256"
    using nums s old(2) by (simp_all add: is_aligned_unat word_le_nat_alt)
  show ?thesis
  proof (cases "?a = 0")
    case True
    then have same: "gt_allocations t' = gt_allocations t" using res by (simp add: address_new_def)
    moreover have "live_bytes t' = 0" using same old(4) True by (simp add: live_bytes_def)
    moreover have "256 \<le> unat s" if "gt_next_address t' \<noteq> 0"
    proof -
      have "unat (gt_next_address t') \<noteq> 0" using that by (simp add: unat_eq_0)
      then show ?thesis using s(1) nums(1) True dvd_imp_le [of 256 "unat s"] by (simp add: mod_eq_0_iff_dvd)
    qed
    ultimately show ?thesis
      using frame nums regions_ok_mono [OF old(1)] by (auto simp: tracker_ok_def intro: trans_le_add2)
  next
    case False
    have r: "gt_allocations t' = (gt_allocations t)(?a \<mapsto> region_new ?a s mt g)"
      using False res old(3) by (simp add: address_new_def is_aligned_unat GPU_MEMORY_ALIGNMENT_def)
    have "live_bytes t' = live_bytes t + unat s"
      using live_bytes_new [OF _ r] old(1) regions_ok_at_end [OF old(1)] by (simp add: regions_ok_def region_new_def)
    moreover have "regions_ok (unat ?a + unat s) (gt_allocations t')"
      using regions_ok_new [OF old(1) False, of "region_new ?a s mt g"] r old(3) by (simp add: is_aligned_unat region_new_def)
    moreover have "gt_next_address t' \<noteq> 0" using nums(1) False by (auto simp: unat_eq_0)
    ultimately show ?thesis using frame nums old(4) False by (simp add: tracker_ok_def)
  qed
qed

lemma tracker_ok_free:
  assumes ok: "tracker_ok t" and fr: "tracker_free checked a t = Some (res, t')"
  shows "tracker_ok t' \<and> gt_next_address t' = gt_next_address t"
proof (cases "gt_allocations t a")
  case None
  then show ?thesis using ok fr by (simp add: tracker_free_def)
next
  case (Some r)
  have reg: "regions_ok (unat (gt_next_address t)) (gt_allocations t)" using ok by (simp add: tracker_ok_def)
  then have nz: "gt_next_address t \<noteq> 0" using Some regions_ok_zero by (metis option.distinct(1) unat_0)
  have t': "gt_allocations t' = (gt_allocations t)(a := None)" "gt_next_address t' = gt_next_address t"
    "gt_peak_usage t' = gt_peak_usage t" "gt_total_committed t' = gt_total_committed t - rg_size r"
    using fr Some by (auto simp: tracker_free_def split: if_splits)
  have live: "live_bytes t = live_bytes t' + unat (rg_size r)"
    using live_bytes_remove [OF _ Some t'(1)] reg by (simp add: regions_ok_def)
  have b: "live_bytes t + 256 \<le> unat (gt_total_committed t)" "gt_total_committed t \<le> gt_next_address t"
    using ok nz by (simp_all add: tracker_ok_def)
  then have "unat (gt_total_committed t') = unat (gt_total_committed t) - unat (rg_size r)"
    using t'(4) live by (simp add: unat_sub word_le_nat_alt)
  then show ?thesis
    using ok t' live b nz regions_ok_remove [OF reg] by (auto simp: tracker_ok_def word_le_nat_alt)
qed

lemma tracker_free_total:
  assumes "tracker_ok t"
  shows "tracker_free checked a t \<noteq> None"
proof (cases "gt_allocations t a")
  case (Some r)
  have reg: "regions_ok (unat (gt_next_address t)) (gt_allocations t)" using assms by (simp add: tracker_ok_def)
  then have "gt_next_address t \<noteq> 0" using Some regions_ok_zero by (metis option.distinct(1) unat_0)
  moreover have "unat (rg_size r) \<le> live_bytes t"
    using live_bytes_remove [OF _ Some, of "t\<lparr>gt_allocations := (gt_allocations t)(a := None)\<rparr>"] reg
    by (simp add: regions_ok_def)
  ultimately have "\<not> gt_total_committed t < rg_size r" using assms by (auto simp: tracker_ok_def word_less_nat_alt)
  then show ?thesis using Some by (simp add: tracker_free_def)
qed (simp add: tracker_free_def)

lemma tracker_runs_ok:
  assumes "tracker_ok t" and "tracker_runs checked cs t = Some t'"
    and "checked \<or> unat (gt_next_address t) + asked cs < 2 ^ 64"
  shows "tracker_ok t' \<and> gt_next_address t \<le> gt_next_address t'"
  using assms
proof (induction cs arbitrary: t)
  case Nil
  then show ?case by simp
next
  case (Cons c cs)
  then obtain u where u: "tracker_run checked c t = Some u" and run: "tracker_runs checked cs u = Some t'"
    by (auto simp: Option.bind_eq_Some_conv)
  have u_ok: "tracker_ok u \<and> gt_next_address t \<le> gt_next_address u \<and> unat (gt_next_address u) \<le> unat (gt_next_address t) + asks c"
  proof (cases c)
    case (Allocate n mt g)
    then obtain res where al: "tracker_allocate checked n mt g t = Some (res, u)" using u by auto
    have "checked \<or> unat (gt_next_address t) + unat n + 256 < 2 ^ 64" using Cons.prems(3) Allocate by (auto simp: asked_def)
    then show ?thesis using tracker_ok_allocate [OF Cons.prems(1) al] Allocate by simp
  next
    case (Free a)
    then obtain res where "tracker_free checked a t = Some (res, u)" using u by auto
    then show ?thesis using tracker_ok_free [OF Cons.prems(1)] Free by simp
  qed
  then have "tracker_ok t' \<and> gt_next_address u \<le> gt_next_address t'"
    using Cons.IH [OF _ run] Cons.prems(3) by (auto simp: asked_def)
  then show ?case using u_ok order_trans by blast
qed

lemma tracker_ok_new: "tracker_ok (tracker_new i)"
  by (simp add: tracker_ok_def regions_ok_def tracker_new_def is_aligned_def live_bytes_def)

text \<open>
  When a check accepts: the access starts at a live region that the GPU may use, and ends inside it or, in a build
  that does not check overflow, wraps round.
\<close>

lemma validate_iff:
  assumes "regions_ok (unat (m :: u64)) (gt_allocations t)"
  shows "validate_memory_access checked g a n t = Some (Inr ()) \<longleftrightarrow>
    (\<exists>r. gt_allocations t a = Some r \<and> is_accessible_by r (unat g)
       \<and> (unat n \<le> unat (rg_size r) \<or> \<not> checked \<and> 2 ^ 64 \<le> unat a + unat n))"
proof (cases "gt_allocations t a")
  case None
  then show ?thesis by (simp add: validate_memory_access_def is_valid_address_def get_region_def)
next
  case (Some r)
  with assms have r: "rg_base r = a" "unat a + unat (rg_size r) \<le> unat m" by (simp_all add: regions_ok_def)
  have l: "unat m < 2 ^ 64" "unat n < 2 ^ 64" by (rule word_bounds)+
  with r(2) have nw: "unat a + unat (rg_size r) < 2 ^ 64" by linarith
  then have e: "unat (a + rg_size r) = unat a + unat (rg_size r)" "\<not> a + rg_size r < a"
    by (simp_all add: unat_add_no_wrap add_overflow)
  have "unat (a + n) = (if unat a + unat n < 2 ^ 64 then unat a + unat n else unat a + unat n - 2 ^ 64)"
    using unat_lt_u64 [of a] l(2) by (simp add: unat_word_ariths mod_if)
  then have "a + n \<le> a + rg_size r \<longleftrightarrow> unat n \<le> unat (rg_size r) \<or> 2 ^ 64 \<le> unat a + unat n"
      "unat n \<le> unat (rg_size r) \<Longrightarrow> \<not> 2 ^ 64 \<le> unat a + unat n"
    using l(2) nw by (auto simp: word_le_nat_alt e(1))
  moreover have "a + n < a \<longleftrightarrow> 2 ^ 64 \<le> unat a + unat n" by (simp add: add_overflow)
  ultimately show ?thesis using e(2) Some r(1)
    by (auto simp: validate_memory_access_def is_valid_address_def get_region_def add_assign_def not_less)
qed

text \<open>
  C24. The tracker never hands out overlapping memory, and the check of an access lets none leave its region.
  After any history of allocations and frees, in a build that checks overflow or when the sizes asked for
  stay below \<open>2\<^sup>6\<^sup>4\<close> with their rounding, the live regions are aligned and pairwise disjoint, and freeing
  does not panic. \<^verbatim>\<open>validate_memory_access\<close> accepts exactly the accesses from the base of a live region
  that the GPU may use that are no longer than the region and, in a build that does not check overflow, also those
  whose end wraps round. An accepted access that does not wrap lies in its region and meets no other; in a build
  that checks overflow that is every accepted access.
\<close>
theorem tracker_regions_disjoint:
  assumes run: "tracker_runs checked cs (tracker_new i) = Some t" and small: "checked \<or> asked cs < 2 ^ 64"
  shows "regions_ok (unat (gt_next_address t)) (gt_allocations t) \<and> tracker_free checked a t \<noteq> None
    \<and> (validate_memory_access checked g a n t = Some (Inr ()) \<longleftrightarrow>
         (\<exists>r. gt_allocations t a = Some r \<and> is_accessible_by r (unat g)
            \<and> (unat n \<le> unat (rg_size r) \<or> \<not> checked \<and> 2 ^ 64 \<le> unat a + unat n)))
    \<and> (validate_memory_access checked g a n t = Some (Inr ()) \<and> (checked \<or> unat a + unat n < 2 ^ 64) \<longrightarrow>
         (\<exists>r. gt_allocations t a = Some r \<and> is_accessible_by r (unat g)
            \<and> {unat a..<unat a + unat n} \<subseteq> span r
            \<and> (\<forall>b s. gt_allocations t b = Some s \<longrightarrow> b \<noteq> a \<longrightarrow> {unat a..<unat a + unat n} \<inter> span s = {})))"
proof -
  have ok: "tracker_ok t"
    using tracker_runs_ok [OF tracker_ok_new run] small by (simp add: tracker_new_def)
  then have reg: "regions_ok (unat (gt_next_address t)) (gt_allocations t)" by (simp add: tracker_ok_def)
  note acc = validate_iff [OF reg, of checked g a n]
  have "\<exists>r. gt_allocations t a = Some r \<and> is_accessible_by r (unat g) \<and> {unat a..<unat a + unat n} \<subseteq> span r
      \<and> (\<forall>b s. gt_allocations t b = Some s \<longrightarrow> b \<noteq> a \<longrightarrow> {unat a..<unat a + unat n} \<inter> span s = {})"
    if v: "validate_memory_access checked g a n t = Some (Inr ())" and w: "checked \<or> unat a + unat n < 2 ^ 64"
  proof -
    from v w acc obtain r where r: "gt_allocations t a = Some r" "is_accessible_by r (unat g)" "unat n \<le> unat (rg_size r)"
      by auto
    with reg have sub: "{unat a..<unat a + unat n} \<subseteq> span r" by (auto simp: regions_ok_def)
    moreover have "apart r s" if "gt_allocations t b = Some s" "b \<noteq> a" for b s
      using reg r(1) that unfolding regions_ok_def by blast
    ultimately show ?thesis using r(1,2) unfolding apart_def by blast
  qed
  then show ?thesis using reg acc tracker_free_total [OF ok] by blast
qed

text \<open>Three allocations, one of them freed: a witness for C24.\<close>

theorem tracker_regions_disjoint_witness:
  "\<exists>t r. tracker_runs True [Allocate 1 DmaBuf 2, Allocate 300 DmaBuf 2, Allocate 5 DmaBuf 2, Free 256] (tracker_new 0) = Some t
     \<and> gt_allocations t 768 = Some r \<and> {unat (768 :: u64)..<unat (768 :: u64) + unat (100 :: u64)} \<subseteq> span r"
proof -
  let ?cs = "[Allocate 1 DmaBuf 2, Allocate 300 DmaBuf 2, Allocate 5 DmaBuf 2, Free 256]"
  obtain t where t: "tracker_runs True ?cs (tracker_new 0) = Some t"
    and "map_option (validate_memory_access True 1 768 100) (tracker_runs True ?cs (tracker_new 0)) = Some (Some (Inr ()))"
  proof -
    have "map_option (validate_memory_access True 1 768 100) (tracker_runs True ?cs (tracker_new 0)) = Some (Some (Inr ()))"
      by code_simp
    then show ?thesis using that by blast
  qed
  then have "validate_memory_access True 1 768 100 t = Some (Inr ())" by simp
  then show ?thesis using tracker_regions_disjoint [OF t, of 768 1 100] t by blast
qed

text \<open>
  The first allocation of a tracker is lost. A new tracker starts at address 0, which is not a valid
  address: the first allocation that takes any memory fails with an invalid argument, for every size and
  kind of memory, but its size stays counted as committed and as peak. It is never given back: after any
  further calls the committed total is larger than the live regions by an alignment or more, and the
  reported peak is the next address, whatever was freed.
\<close>
theorem first_allocation_lost:
  assumes "tracker_allocate checked n mt g (tracker_new i) = Some (res, t)" and "0 < n"
    and small: "checked \<or> unat n + 256 + asked cs < 2 ^ 64" and run: "tracker_runs checked cs t = Some u"
  shows "res = Inl InvalidArgument \<and> gt_allocations t = Map.empty \<and> unat n \<le> unat (gt_total_committed t)
    \<and> live_bytes u + 256 \<le> unat (gt_total_committed u) \<and> gt_peak_usage u = gt_next_address u"
proof -
  have zero: "gt_next_address (tracker_new i) = 0" "gt_total_committed (tracker_new i) = 0" "gt_peak_usage (tracker_new i) = 0"
    "gt_allocations (tracker_new i) = Map.empty" by (simp_all add: tracker_new_def)
  have small': "checked \<or> unat (gt_next_address (tracker_new i)) + unat n + 256 < 2 ^ 64" using small zero(1) by auto
  have ok: "tracker_ok t" "unat (gt_next_address t) \<le> unat n + 256"
    using tracker_ok_allocate [OF tracker_ok_new assms(1) small'] zero(1) by simp_all
  have first: "unat n \<le> unat (gt_next_address t) \<and> unat n \<le> unat (gt_total_committed t)
    \<and> res = Inl InvalidArgument \<and> gt_allocations t = Map.empty"
    by (rule tracker_allocate_numbers [OF assms(1) _ _ small']) (simp_all add: zero address_new_def)
  have "checked \<or> unat (gt_next_address t) + asked cs < 2 ^ 64" using small ok(2) by linarith
  then have u: "tracker_ok u" "gt_next_address t \<le> gt_next_address u" using tracker_runs_ok [OF ok(1) run] by simp_all
  have "gt_next_address u \<noteq> 0"
    using u(2) first assms(2) by (auto simp: word_le_nat_alt word_less_nat_alt unat_eq_0)
  then show ?thesis using first u(1) by (simp add: tracker_ok_def)
qed

text \<open>The first allocation fails and counts, the second succeeds.\<close>

theorem first_allocation_lost_witness:
  "\<exists>t u. tracker_allocate True 10 DmaBuf 1 (tracker_new 0) = Some (Inl InvalidArgument, t)
     \<and> tracker_runs True [Allocate 10 DmaBuf 1, Free 256] t = Some u
     \<and> live_bytes u + 256 \<le> unat (gt_total_committed u)"
proof -
  have "(case tracker_allocate True 10 DmaBuf 1 (tracker_new 0) of None \<Rightarrow> False
      | Some (res, t) \<Rightarrow> (case tracker_runs True [Allocate 10 DmaBuf 1, Free 256] t of None \<Rightarrow> False | Some u \<Rightarrow> True))"
    by code_simp
  then obtain res t u where w: "tracker_allocate True 10 DmaBuf 1 (tracker_new 0) = Some (res, t)"
      "tracker_runs True [Allocate 10 DmaBuf 1, Free 256] t = Some u" by (auto split: option.splits)
  have "(0 :: u64) < 10" by simp
  then show ?thesis using first_allocation_lost [OF w(1) _ _ w(2)] w by blast
qed

text \<open>A build that does not check overflow accepts an access past the end of a region.\<close>

lemma unchecked_access_accepted:
  "(case tracker_runs False [Allocate 1 DmaBuf 1, Allocate 16 DmaBuf 1] (tracker_new 0) of
      None \<Rightarrow> None
    | Some t \<Rightarrow> validate_memory_access False 0 256 (2 ^ 64 - 256) t) = Some (Inr ())"
  by code_simp

end
