(* ===== verification/Rust_Capability.thy ===== *)
theory Rust_Capability
  imports Rust_Ffi Float32
begin

text \<open>
  The crate \<^verbatim>\<open>src/safe/capability_model/src/lib.rs\<close>: the profile of a set of GPUs as one device, and the
  exported functions that compute, read, print and free it. The text that \<^verbatim>\<open>serde_json\<close> prints is an
  argument.
\<close>

section \<open>The profile\<close>

datatype GpuVendor = Vendor_Unknown | Amd | Nvidia | Intel | MooreThreads

datatype CapabilityTier = Full | ComputeOnly | Mixed

fun tier_code :: "CapabilityTier \<Rightarrow> int" where
  "tier_code Full = 0"
| "tier_code ComputeOnly = 1"
| "tier_code Mixed = 2"

record GpuCapability =
  gc_vendor :: GpuVendor
  gc_device_id :: u32
  gc_vram_bytes :: u64
  gc_vram_bandwidth_gbps :: f32
  gc_compute_units :: u32
  gc_api_flags :: u32
  gc_vulkan_major :: u32
  gc_vulkan_minor :: u32
  gc_pcie_gen :: u32
  gc_pcie_lanes :: u32
  gc_supports_graphics :: bool
  gc_supports_compute :: bool
  gc_supports_display :: bool

record AggregateCapability =
  ac_gpu_count :: u32
  ac_total_vram_bytes :: u64
  ac_total_compute_units :: u32
  ac_total_vram_bandwidth_gbps :: f32
  ac_min_vulkan_major :: u32
  ac_min_vulkan_minor :: u32
  ac_api_union :: u32
  ac_api_intersection :: u32
  ac_tier :: CapabilityTier

text \<open>The variables of the loop of \<^verbatim>\<open>from_gpus\<close>, and its body.\<close>

record cap_loop =
  cl_vram :: u64
  cl_cu :: u32
  cl_bw :: f32
  cl_vk_major :: u32
  cl_vk_minor :: u32
  cl_union :: u32
  cl_inter :: u32
  cl_graphics :: bool
  cl_compute :: bool

definition cap_loop_init :: cap_loop where
  "cap_loop_init = \<lparr>cl_vram = 0, cl_cu = 0, cl_bw = F32 0, cl_vk_major = UINT32_MAX, cl_vk_minor = UINT32_MAX,
     cl_union = 0, cl_inter = UINT32_MAX, cl_graphics = True, cl_compute = True\<rparr>"

definition cap_loop_step :: "GpuCapability \<Rightarrow> cap_loop \<Rightarrow> cap_loop" where
  "cap_loop_step gpu l =
     (let lower = gc_vulkan_major gpu < cl_vk_major l
            \<or> gc_vulkan_major gpu = cl_vk_major l \<and> gc_vulkan_minor gpu < cl_vk_minor l
      in \<lparr>cl_vram = saturating_add (cl_vram l) (gc_vram_bytes gpu),
          cl_cu = saturating_add (cl_cu l) (gc_compute_units gpu),
          cl_bw = f32_add (cl_bw l) (gc_vram_bandwidth_gbps gpu),
          cl_vk_major = (if lower then gc_vulkan_major gpu else cl_vk_major l),
          cl_vk_minor = (if lower then gc_vulkan_minor gpu else cl_vk_minor l),
          cl_union = cl_union l OR gc_api_flags gpu,
          cl_inter = cl_inter l AND gc_api_flags gpu,
          cl_graphics = (cl_graphics l \<and> gc_supports_graphics gpu),
          cl_compute = (cl_compute l \<and> gc_supports_compute gpu)\<rparr>)"

definition from_gpus :: "GpuCapability list \<Rightarrow> AggregateCapability" where
  "from_gpus gpus =
     (if gpus = [] then
        \<lparr>ac_gpu_count = 0, ac_total_vram_bytes = 0, ac_total_compute_units = 0, ac_total_vram_bandwidth_gbps = F32 0,
         ac_min_vulkan_major = 0, ac_min_vulkan_minor = 0, ac_api_union = 0, ac_api_intersection = 0, ac_tier = Mixed\<rparr>
      else
        (let l = fold cap_loop_step gpus cap_loop_init
         in \<lparr>ac_gpu_count = of_nat (length gpus), ac_total_vram_bytes = cl_vram l, ac_total_compute_units = cl_cu l,
             ac_total_vram_bandwidth_gbps = cl_bw l,
             ac_min_vulkan_major = (if cl_vk_major l = UINT32_MAX then 0 else cl_vk_major l),
             ac_min_vulkan_minor = (if cl_vk_minor l = UINT32_MAX then 0 else cl_vk_minor l),
             ac_api_union = cl_union l, ac_api_intersection = cl_inter l,
             ac_tier = (if cl_graphics l \<and> cl_compute l then Full
                        else if cl_compute l \<and> \<not> cl_graphics l then ComputeOnly else Mixed)\<rparr>))"

section \<open>The exported functions\<close>

text \<open>
  Handles are addresses of boxed profiles; 0 is the null pointer and \<open>a\<close> the address a new box gets. A
  pointer to no box is undefined behaviour and has the value \<open>None\<close>.
\<close>

type_synonym cap_boxes = "nat \<rightharpoonup> AggregateCapability"

definition mvgal_cap_compute :: "nat \<Rightarrow> GpuCapability list option \<Rightarrow> u32 \<Rightarrow> cap_boxes \<Rightarrow> nat \<times> cap_boxes" where
  "mvgal_cap_compute a gpus count boxes =
     (let slice = (case gpus of None \<Rightarrow> [] | Some gs \<Rightarrow> if count = 0 then [] else take (unat count) gs)
      in (a, boxes(a \<mapsto> from_gpus slice)))"

definition mvgal_cap_free :: "nat \<Rightarrow> cap_boxes \<Rightarrow> cap_boxes option" where
  "mvgal_cap_free handle boxes =
     (if handle = 0 then Some boxes
      else map_option (\<lambda>_. boxes(handle := None)) (boxes handle))"

definition mvgal_cap_total_vram :: "nat \<Rightarrow> cap_boxes \<Rightarrow> u64 option" where
  "mvgal_cap_total_vram handle boxes =
     (if handle = 0 then Some 0 else map_option ac_total_vram_bytes (boxes handle))"

definition mvgal_cap_tier :: "nat \<Rightarrow> cap_boxes \<Rightarrow> int option" where
  "mvgal_cap_tier handle boxes =
     (if handle = 0 then Some (- 1) else map_option (\<lambda>c. tier_code (ac_tier c)) (boxes handle))"

text \<open>
  The buffer is the list of its bytes, \<open>None\<close> for a null pointer; \<open>buf_len\<close> is the length the caller
  states. The write of a byte outside of the list has the value \<open>None\<close>.
\<close>

definition write_byte :: "nat \<Rightarrow> char \<Rightarrow> string \<Rightarrow> string option" where
  "write_byte i c buf = (if i < length buf then Some (buf[i := c]) else None)"

definition copy_bytes :: "string \<Rightarrow> nat \<Rightarrow> string \<Rightarrow> string option" where
  "copy_bytes src n buf = (if n \<le> length src \<and> n \<le> length buf then Some (take n src @ drop n buf) else None)"

definition mvgal_cap_to_json ::
    "(AggregateCapability \<Rightarrow> string) \<Rightarrow> nat \<Rightarrow> string option \<Rightarrow> nat \<Rightarrow> cap_boxes \<Rightarrow> (int \<times> string option) option" where
  "mvgal_cap_to_json to_json handle buf buf_len boxes =
     (case buf of
        None \<Rightarrow> Some (- 1, None)
      | Some bytes \<Rightarrow>
          if handle = 0 \<or> buf_len = 0 then Some (- 1, buf)
          else case boxes handle of
            None \<Rightarrow> None
          | Some c \<Rightarrow>
              (let json = to_json c; copy_len = min (length json) (buf_len - 1)
               in case copy_bytes json copy_len bytes of
                    None \<Rightarrow> None
                  | Some copied \<Rightarrow>
                      (case write_byte copy_len (CHR 0x00) copied of
                         None \<Rightarrow> None
                       | Some written \<Rightarrow> Some (sint (of_nat copy_len :: 32 word), Some written))))"

section \<open>What the profile says\<close>

text \<open>A sum that stops at the end of the range.\<close>

lemma saturating_add_unat:
  "unat (saturating_add a b) = min (unat a + unat b) (2 ^ LENGTH('a) - 1)" for a b :: "'a::len word"
proof (cases "a + b < a")
  case True
  then have "2 ^ LENGTH('a) \<le> unat a + unat b" by (simp add: add_overflow)
  then show ?thesis using True by (simp add: saturating_add_def unsigned_minus_1_eq_mask mask_eq_exp_minus_1)
next
  case False
  then have "unat a + unat b < 2 ^ LENGTH('a)" by (simp add: add_overflow not_le)
  then show ?thesis using False by (simp add: saturating_add_def unat_word_ariths)
qed

lemma cap_loop_sums:
  "unat (cl_vram (fold cap_loop_step gs l)) = min (unat (cl_vram l) + (\<Sum>g \<leftarrow> gs. unat (gc_vram_bytes g))) (2 ^ 64 - 1)"
  "unat (cl_cu (fold cap_loop_step gs l)) = min (unat (cl_cu l) + (\<Sum>g \<leftarrow> gs. unat (gc_compute_units g))) (2 ^ 32 - 1)"
proof -
  have le: "unat (cl_vram l) \<le> 2 ^ 64 - 1" "unat (cl_cu l) \<le> 2 ^ 32 - 1" for l :: cap_loop
    using unsigned_less [where w = "cl_vram l" and 'a = nat] unsigned_less [where w = "cl_cu l" and 'a = nat] by simp_all
  show "unat (cl_vram (fold cap_loop_step gs l)) = min (unat (cl_vram l) + (\<Sum>g \<leftarrow> gs. unat (gc_vram_bytes g))) (2 ^ 64 - 1)"
  proof (induction gs arbitrary: l)
    case Nil
    then show ?case using le(1) [of l] by simp
  next
    case (Cons g gs)
    then show ?case by (simp add: cap_loop_step_def Let_def saturating_add_unat min_def)
  qed
  show "unat (cl_cu (fold cap_loop_step gs l)) = min (unat (cl_cu l) + (\<Sum>g \<leftarrow> gs. unat (gc_compute_units g))) (2 ^ 32 - 1)"
  proof (induction gs arbitrary: l)
    case Nil
    then show ?case using le(2) [of l] by simp
  next
    case (Cons g gs)
    then show ?case by (simp add: cap_loop_step_def Let_def saturating_add_unat min_def)
  qed
qed

lemma cap_loop_flags:
  "bit (cl_union (fold cap_loop_step gs l)) i \<longleftrightarrow> bit (cl_union l) i \<or> (\<exists>g \<in> set gs. bit (gc_api_flags g) i)"
  "bit (cl_inter (fold cap_loop_step gs l)) i \<longleftrightarrow> bit (cl_inter l) i \<and> (\<forall>g \<in> set gs. bit (gc_api_flags g) i)"
  "cl_graphics (fold cap_loop_step gs l) \<longleftrightarrow> cl_graphics l \<and> (\<forall>g \<in> set gs. gc_supports_graphics g)"
  "cl_compute (fold cap_loop_step gs l) \<longleftrightarrow> cl_compute l \<and> (\<forall>g \<in> set gs. gc_supports_compute g)"
  by (induction gs arbitrary: l) (auto simp: cap_loop_step_def Let_def bit_or_iff bit_and_iff)

text \<open>Versions in order.\<close>

definition vk_le :: "u32 \<times> u32 \<Rightarrow> u32 \<times> u32 \<Rightarrow> bool" where
  "vk_le v w \<longleftrightarrow> fst v < fst w \<or> fst v = fst w \<and> snd v \<le> snd w"

abbreviation gpu_vk :: "GpuCapability \<Rightarrow> u32 \<times> u32" where
  "gpu_vk g \<equiv> (gc_vulkan_major g, gc_vulkan_minor g)"

abbreviation loop_vk :: "cap_loop \<Rightarrow> u32 \<times> u32" where
  "loop_vk l \<equiv> (cl_vk_major l, cl_vk_minor l)"

lemma vk_le_trans: "vk_le u v \<Longrightarrow> vk_le v w \<Longrightarrow> vk_le u w"
  by (auto simp: vk_le_def)

lemma cap_loop_step_vk:
  "vk_le (loop_vk (cap_loop_step g l)) (gpu_vk g)" "vk_le (loop_vk (cap_loop_step g l)) (loop_vk l)"
  "loop_vk (cap_loop_step g l) \<in> {gpu_vk g, loop_vk l}"
  by (auto simp: cap_loop_step_def Let_def vk_le_def)

lemma cap_loop_vk:
  "loop_vk (fold cap_loop_step gs l) \<in> insert (loop_vk l) (gpu_vk ` set gs)
   \<and> vk_le (loop_vk (fold cap_loop_step gs l)) (loop_vk l)
   \<and> (\<forall>g \<in> set gs. vk_le (loop_vk (fold cap_loop_step gs l)) (gpu_vk g))"
proof (induction gs arbitrary: l)
  case Nil
  then show ?case by (simp add: vk_le_def)
next
  case (Cons g gs)
  let ?r = "loop_vk (fold cap_loop_step gs (cap_loop_step g l))"
  have ih: "?r \<in> insert (loop_vk (cap_loop_step g l)) (gpu_vk ` set gs)" "vk_le ?r (loop_vk (cap_loop_step g l))"
    "\<forall>h \<in> set gs. vk_le ?r (gpu_vk h)" using Cons by blast+
  have "?r \<in> insert (loop_vk l) (gpu_vk ` set (g # gs))" using ih(1) cap_loop_step_vk(3) [of g l] by auto
  moreover have "vk_le ?r (loop_vk l)" "vk_le ?r (gpu_vk g)"
    using vk_le_trans [OF ih(2)] cap_loop_step_vk(1,2) [of g l] by blast+
  ultimately show ?case using ih(3) by simp
qed

text \<open>
  C29. The profile of a set of GPUs is what its fields say. For a set that is not empty and whose Vulkan
  versions are not the largest words: the memory and the compute units are the sums of those of the GPUs,
  cut off at the largest value; the Vulkan version is that of one of the GPUs and not above that of any;
  an interface is in the union if one GPU has it and in the intersection if all have; and the tier is
  full if all GPUs do graphics and compute, and compute-only if all compute and one has no graphics.
\<close>
theorem from_gpus_summary:
  assumes "gpus \<noteq> []" and "\<forall>g \<in> set gpus. gc_vulkan_major g \<noteq> UINT32_MAX \<and> gc_vulkan_minor g \<noteq> UINT32_MAX"
    and "a = from_gpus gpus"
  shows "unat (ac_total_vram_bytes a) = min (\<Sum>g \<leftarrow> gpus. unat (gc_vram_bytes g)) (2 ^ 64 - 1)
    \<and> unat (ac_total_compute_units a) = min (\<Sum>g \<leftarrow> gpus. unat (gc_compute_units g)) (2 ^ 32 - 1)
    \<and> (ac_min_vulkan_major a, ac_min_vulkan_minor a) \<in> gpu_vk ` set gpus
    \<and> (\<forall>g \<in> set gpus. vk_le (ac_min_vulkan_major a, ac_min_vulkan_minor a) (gpu_vk g))
    \<and> (\<forall>i. bit (ac_api_union a) i \<longleftrightarrow> (\<exists>g \<in> set gpus. bit (gc_api_flags g) i))
    \<and> (\<forall>i < 32. bit (ac_api_intersection a) i \<longleftrightarrow> (\<forall>g \<in> set gpus. bit (gc_api_flags g) i))
    \<and> (ac_tier a = Full \<longleftrightarrow> (\<forall>g \<in> set gpus. gc_supports_graphics g \<and> gc_supports_compute g))
    \<and> (ac_tier a = ComputeOnly \<longleftrightarrow>
         (\<forall>g \<in> set gpus. gc_supports_compute g) \<and> (\<exists>g \<in> set gpus. \<not> gc_supports_graphics g))"
proof -
  let ?l = "fold cap_loop_step gpus cap_loop_init"
  obtain g0 where g0: "g0 \<in> set gpus" using assms(1) by (cases gpus) auto
  have vk: "loop_vk ?l \<in> insert (UINT32_MAX, UINT32_MAX) (gpu_vk ` set gpus)" "\<forall>g \<in> set gpus. vk_le (loop_vk ?l) (gpu_vk g)"
    using cap_loop_vk [of gpus cap_loop_init] by (simp_all add: cap_loop_init_def)
  have "loop_vk ?l \<noteq> (UINT32_MAX, UINT32_MAX)"
  proof
    assume "loop_vk ?l = (UINT32_MAX, UINT32_MAX)"
    then have "vk_le (UINT32_MAX, UINT32_MAX) (gpu_vk g0)" using vk(2) g0 by metis
    moreover have "v \<le> - 1" for v :: u32 by (rule word_n1_ge)
    moreover have "UINT32_MAX = - 1" by simp
    ultimately show False using assms(2) g0 by (force simp: vk_le_def not_less [symmetric])
  qed
  then have in_set: "loop_vk ?l \<in> gpu_vk ` set gpus" using vk(1) by blast
  then have "cl_vk_major ?l \<noteq> UINT32_MAX" "cl_vk_minor ?l \<noteq> UINT32_MAX" using assms(2) by auto
  then have "(ac_min_vulkan_major a, ac_min_vulkan_minor a) = loop_vk ?l"
    using assms by (simp add: from_gpus_def Let_def)
  moreover have "bit (UINT32_MAX :: u32) i \<longleftrightarrow> i < 32" for i
  proof -
    have "(UINT32_MAX :: u32) = - 1" by simp
    then show ?thesis by (simp only: bit_minus_1_iff possible_bit_word) simp
  qed
  ultimately show ?thesis
    using assms(1,3) vk(2) in_set cap_loop_sums [of gpus cap_loop_init] cap_loop_flags [of gpus cap_loop_init]
    by (auto simp: from_gpus_def Let_def cap_loop_init_def)
qed


text \<open>Two GPUs: a witness for C29.\<close>

definition radeon :: GpuCapability where
  "radeon = \<lparr>gc_vendor = Amd, gc_device_id = 1, gc_vram_bytes = 100, gc_vram_bandwidth_gbps = F32 1, gc_compute_units = 8,
     gc_api_flags = 3, gc_vulkan_major = 1, gc_vulkan_minor = 3, gc_pcie_gen = 4, gc_pcie_lanes = 16,
     gc_supports_graphics = True, gc_supports_compute = True, gc_supports_display = True\<rparr>"

theorem from_gpus_summary_witness:
  "ac_tier (from_gpus [radeon, radeon\<lparr>gc_supports_graphics := False, gc_vulkan_minor := 1\<rparr>]) = ComputeOnly
   \<and> unat (ac_total_vram_bytes (from_gpus [radeon, radeon\<lparr>gc_supports_graphics := False, gc_vulkan_minor := 1\<rparr>])) = 200
   \<and> vk_le (ac_min_vulkan_major (from_gpus [radeon, radeon\<lparr>gc_supports_graphics := False, gc_vulkan_minor := 1\<rparr>]),
        ac_min_vulkan_minor (from_gpus [radeon, radeon\<lparr>gc_supports_graphics := False, gc_vulkan_minor := 1\<rparr>])) (1, 1)"
  using from_gpus_summary [of "[radeon, radeon\<lparr>gc_supports_graphics := False, gc_vulkan_minor := 1\<rparr>]", OF _ _ refl]
  by (simp add: radeon_def)

text \<open>
  C31. Printing a profile stays inside of the caller's buffer. For every printed text and every buffer of at
  least the length the caller states, the call on a live profile writes no byte outside of it: it keeps the bytes
  behind the stated length, stores as much of the text as fits with the terminator, and returns that
  length when it is below \<open>2\<^sup>3\<^sup>1\<close>.
\<close>
theorem cap_to_json_in_bounds:
  assumes "boxes handle = Some c" and "handle \<noteq> 0" and "0 < buf_len" and "buf_len \<le> length buf"
  shows "\<exists>ret out. mvgal_cap_to_json to_json handle (Some buf) buf_len boxes = Some (ret, Some out)
    \<and> length out = length buf \<and> drop buf_len out = drop buf_len buf
    \<and> take (min (length (to_json c)) (buf_len - 1)) out = take (buf_len - 1) (to_json c)
    \<and> out ! min (length (to_json c)) (buf_len - 1) = CHR 0x00
    \<and> (buf_len \<le> 2 ^ 31 \<longrightarrow> ret = int (min (length (to_json c)) (buf_len - 1)))"
proof -
  let ?n = "min (length (to_json c)) (buf_len - 1)"
  let ?out = "(take ?n (to_json c) @ drop ?n buf)[?n := CHR 0x00]"
  have n: "?n < buf_len" "?n < length buf" using assms(3,4) by auto
  have "mvgal_cap_to_json to_json handle (Some buf) buf_len boxes = Some (sint (of_nat ?n :: 32 word), Some ?out)"
    using assms n by (simp add: mvgal_cap_to_json_def copy_bytes_def write_byte_def Let_def)
  moreover have "length ?out = length buf" using n by simp
  moreover have "drop buf_len ?out = drop buf_len buf" using n by (simp add: drop_update_cancel)
  moreover have "take ?n ?out = take (buf_len - 1) (to_json c)" by (simp add: take_update_cancel min_def)
  moreover have "?out ! ?n = CHR 0x00" using n by simp
  moreover have "sint (of_nat ?n :: 32 word) = int ?n" if "buf_len \<le> 2 ^ 31"
  proof -
    have "uint (of_nat ?n :: 32 word) = int ?n" using n(1) that by (simp add: uint_nat unat_of_nat)
    then show ?thesis using n(1) that by (simp add: sint_uint signed_take_bit_int_eq_self)
  qed
  ultimately show ?thesis by blast
qed

text \<open>A text of four bytes in a buffer of three: a witness for C31.\<close>

theorem cap_to_json_in_bounds_witness:
  "\<exists>ret out. mvgal_cap_to_json (\<lambda>_. ''json'') 5 (Some ''wwwww'') 3 [5 \<mapsto> from_gpus []] = Some (ret, Some out)
     \<and> length out = 5 \<and> drop 3 out = ''ww'' \<and> ret = 2"
  using cap_to_json_in_bounds [of "[5 \<mapsto> from_gpus []]" 5 "from_gpus []" 3 "''wwwww''" "\<lambda>_. ''json''"] by auto

end
