(* ===== verification/Rust_Api_Caps.thy ===== *)
theory Rust_Api_Caps
  imports Rust_Ffi "HOL-Library.Monad_Syntax"
begin

text \<open>
  The module \<^verbatim>\<open>src/runtime/safe/capability_model.rs\<close>: packed API versions, the capabilities of each GPU,
  and the unified capabilities that every change of a GPU recomputes. The versions a hash map holds are
  read key by key, so that the order of its iteration does not matter. A panic has the value \<open>None\<close>;
  \<open>checked\<close> says whether the build checks overflow.
\<close>

section \<open>Versions\<close>

record ApiVersion =
  av_major :: u32
  av_minor :: u32
  av_patch :: u32

definition from_hex :: "u32 \<Rightarrow> ApiVersion" where
  "from_hex version =
     \<lparr>av_major = drop_bit 22 version AND 0x3FF, av_minor = drop_bit 12 version AND 0x3FF, av_patch = version AND 0xFFF\<rparr>"

definition to_hex :: "ApiVersion \<Rightarrow> u32" where
  "to_hex v = push_bit 22 (av_major v AND 0x3FF) OR push_bit 12 (av_minor v AND 0x3FF) OR (av_patch v AND 0xFFF)"

section \<open>Capabilities\<close>

datatype ApiType = Vulkan | OpenGL | OpenCL | Cuda | Sycl | Direct3D | Metal | WebGPU

instantiation ApiType :: enum
begin

definition enum_ApiType :: "ApiType list" where
  "enum_ApiType = [Vulkan, OpenGL, OpenCL, Cuda, Sycl, Direct3D, Metal, WebGPU]"

definition enum_all_ApiType :: "(ApiType \<Rightarrow> bool) \<Rightarrow> bool" where
  "enum_all_ApiType P \<longleftrightarrow> list_all P [Vulkan, OpenGL, OpenCL, Cuda, Sycl, Direct3D, Metal, WebGPU]"

definition enum_ex_ApiType :: "(ApiType \<Rightarrow> bool) \<Rightarrow> bool" where
  "enum_ex_ApiType P \<longleftrightarrow> list_ex P [Vulkan, OpenGL, OpenCL, Cuda, Sycl, Direct3D, Metal, WebGPU]"

instance
proof
  show U: "UNIV = set (enum_class.enum :: ApiType list)"
    unfolding enum_ApiType_def using ApiType.exhaust by auto
  show "distinct (enum_class.enum :: ApiType list)" by (simp add: enum_ApiType_def)
  show "enum_class.enum_all P \<longleftrightarrow> Ball UNIV P" for P :: "ApiType \<Rightarrow> bool"
    unfolding U enum_ApiType_def enum_all_ApiType_def by simp
  show "enum_class.enum_ex P \<longleftrightarrow> Bex UNIV P" for P :: "ApiType \<Rightarrow> bool"
    unfolding U enum_ApiType_def enum_ex_ApiType_def by simp
qed

end

datatype GpuVendor = Vendor_Unknown | Amd | Nvidia | Intel | MooreThreads

datatype GpuFeature = Graphics | Compute | RayTracing | Ai | Display | VideoEncode | VideoDecode | P2PDma | Uva
  | TimelineSemaphores | DmaBuf | NumaAware | MultiQueue | EccMemory

datatype GpuPowerState = Power_Unknown | Active | Sustained | Idle | Park

datatype GpuThermalState = Thermal_Unknown | Normal | Warm | Hot | Throttling | Critical

record GpuCapabilities =
  ca_vendor :: GpuVendor
  ca_pci_vendor_id :: "16 word"
  ca_pci_device_id :: "16 word"
  ca_name :: string
  ca_vram_total :: u64
  ca_vram_free :: u64
  ca_vram_bandwidth_mbps :: u32
  ca_system_memory_total :: u64
  ca_system_memory_free :: u64
  ca_compute_units :: u32
  ca_execution_units :: u32
  ca_stream_processors :: u32
  ca_cuda_cores :: u32
  ca_max_clock_mhz :: u32
  ca_current_clock_mhz :: u32
  ca_pcie_generation :: "8 word"
  ca_pcie_lanes :: "8 word"
  ca_numa_node :: int
  ca_api_versions :: "ApiType \<rightharpoonup> ApiVersion"
  ca_features :: "GpuFeature set"
  ca_is_display_connected :: bool
  ca_power_state :: GpuPowerState
  ca_thermal_state :: GpuThermalState

definition capabilities_new :: "GpuVendor \<Rightarrow> GpuCapabilities" where
  "capabilities_new vendor =
     \<lparr>ca_vendor = vendor, ca_pci_vendor_id = 0, ca_pci_device_id = 0, ca_name = [], ca_vram_total = 0, ca_vram_free = 0,
      ca_vram_bandwidth_mbps = 0, ca_system_memory_total = 0, ca_system_memory_free = 0, ca_compute_units = 0,
      ca_execution_units = 0, ca_stream_processors = 0, ca_cuda_cores = 0, ca_max_clock_mhz = 0,
      ca_current_clock_mhz = 0, ca_pcie_generation = 0, ca_pcie_lanes = 0, ca_numa_node = - 1,
      ca_api_versions = Map.empty, ca_features = {}, ca_is_display_connected = False,
      ca_power_state = Power_Unknown, ca_thermal_state = Thermal_Unknown\<rparr>"

definition supports_api :: "GpuCapabilities \<Rightarrow> ApiType \<Rightarrow> bool" where
  "supports_api c api \<longleftrightarrow> ca_api_versions c api \<noteq> None"

definition supports_feature :: "GpuCapabilities \<Rightarrow> GpuFeature \<Rightarrow> bool" where
  "supports_feature c f \<longleftrightarrow> f \<in> ca_features c"

datatype CapabilityTier = Full | ComputeOnly | Mixed

record UnifiedCapabilities =
  un_total_vram :: u64
  un_free_vram :: u64
  un_total_bandwidth_mbps :: u64
  un_total_compute_units :: u32
  un_common_api_versions :: "ApiType \<rightharpoonup> ApiVersion"
  un_union_api_versions :: "ApiType \<rightharpoonup> ApiVersion"
  un_common_features :: "GpuFeature set"
  un_union_features :: "GpuFeature set"
  un_tier :: CapabilityTier
  un_gpu_count :: nat
  un_p2p_supported :: bool
  un_numa_aware :: bool
  un_has_display_gpu :: bool

definition unified_init :: "nat \<Rightarrow> UnifiedCapabilities" where
  "unified_init n =
     \<lparr>un_total_vram = 0, un_free_vram = 0, un_total_bandwidth_mbps = 0, un_total_compute_units = 0,
      un_common_api_versions = Map.empty, un_union_api_versions = Map.empty, un_common_features = {},
      un_union_features = {}, un_tier = Full, un_gpu_count = n, un_p2p_supported = False, un_numa_aware = False,
      un_has_display_gpu = False\<rparr>"

text \<open>A sum of two words in a build that checks overflow, or one that does not.\<close>

definition add_words :: "bool \<Rightarrow> 'a::len word \<Rightarrow> 'a word \<Rightarrow> 'a word option" where
  "add_words checked a b = (if checked \<and> a + b < a then None else Some (a + b))"

definition unify_numbers :: "bool \<Rightarrow> GpuCapabilities \<Rightarrow> UnifiedCapabilities \<Rightarrow> UnifiedCapabilities option" where
  "unify_numbers checked gpu u =
     do {
       vram \<leftarrow> add_words checked (un_total_vram u) (ca_vram_total gpu);
       free \<leftarrow> add_words checked (un_free_vram u) (ca_vram_free gpu);
       bw \<leftarrow> add_words checked (un_total_bandwidth_mbps u) (ucast (ca_vram_bandwidth_mbps gpu));
       cu \<leftarrow> add_words checked (un_total_compute_units u) (ca_compute_units gpu);
       Some (u\<lparr>un_total_vram := vram, un_free_vram := free, un_total_bandwidth_mbps := bw, un_total_compute_units := cu,
               un_has_display_gpu := (ca_is_display_connected gpu \<or> un_has_display_gpu u),
               un_numa_aware := (0 \<le> ca_numa_node gpu \<or> un_numa_aware u)\<rparr>)
     }"

fun unify_all_numbers :: "bool \<Rightarrow> GpuCapabilities list \<Rightarrow> UnifiedCapabilities \<Rightarrow> UnifiedCapabilities option" where
  "unify_all_numbers checked [] u = Some u"
| "unify_all_numbers checked (g # gs) u = do { u' \<leftarrow> unify_numbers checked g u; unify_all_numbers checked gs u' }"

definition lower_version :: "ApiVersion \<Rightarrow> ApiVersion \<Rightarrow> ApiVersion" where
  "lower_version version existing = (if to_hex version < to_hex existing then version else existing)"

definition unify_apis :: "bool \<Rightarrow> GpuCapabilities \<Rightarrow> UnifiedCapabilities \<Rightarrow> UnifiedCapabilities" where
  "unify_apis first_gpu gpu u =
     u\<lparr>un_union_api_versions := un_union_api_versions u ++ ca_api_versions gpu,
       un_common_api_versions :=
         (if first_gpu then un_common_api_versions u ++ ca_api_versions gpu
          else (\<lambda>api. case un_common_api_versions u api of
                  None \<Rightarrow> None
                | Some existing \<Rightarrow>
                    (case ca_api_versions gpu api of
                       None \<Rightarrow> Some existing
                     | Some version \<Rightarrow> Some (lower_version version existing)))),
       un_union_features := un_union_features u \<union> ca_features gpu,
       un_common_features :=
         (if first_gpu then un_common_features u \<union> ca_features gpu
          else {f \<in> un_common_features u. f \<in> ca_features gpu})\<rparr>"

fun unify_all_apis :: "bool \<Rightarrow> GpuCapabilities list \<Rightarrow> UnifiedCapabilities \<Rightarrow> UnifiedCapabilities" where
  "unify_all_apis first_gpu [] u = u"
| "unify_all_apis first_gpu (g # gs) u = unify_all_apis False gs (unify_apis first_gpu g u)"

definition unified_tier :: "UnifiedCapabilities \<Rightarrow> CapabilityTier" where
  "unified_tier u =
     (if un_common_api_versions u = Map.empty then (if un_has_display_gpu u then Mixed else ComputeOnly)
      else if card (dom (un_common_api_versions u)) < card (dom (un_union_api_versions u)) then
        (if un_common_api_versions u Vulkan \<noteq> None then Full else ComputeOnly)
      else Full)"

definition recompute_unified :: "bool \<Rightarrow> GpuCapabilities list \<Rightarrow> UnifiedCapabilities option option" where
  "recompute_unified checked gpus =
     (if gpus = [] then Some None
      else do {
        u1 \<leftarrow> unify_all_numbers checked gpus (unified_init (length gpus));
        let u2 = unify_all_apis True gpus u1;
        let u3 = u2\<lparr>un_tier := unified_tier u2\<rparr>;
        Some (Some (u3\<lparr>un_p2p_supported := list_ex (\<lambda>g. P2PDma \<in> ca_features g) gpus\<rparr>))
      })"

section \<open>The model\<close>

record CapabilityModel =
  cm_gpus :: "GpuCapabilities list"
  cm_unified :: "UnifiedCapabilities option"

definition capability_model_new :: CapabilityModel where
  "capability_model_new = \<lparr>cm_gpus = [], cm_unified = None\<rparr>"

definition with_unified :: "bool \<Rightarrow> CapabilityModel \<Rightarrow> CapabilityModel option" where
  "with_unified checked m = map_option (\<lambda>u. m\<lparr>cm_unified := u\<rparr>) (recompute_unified checked (cm_gpus m))"

definition update_gpu :: "bool \<Rightarrow> nat \<Rightarrow> GpuCapabilities \<Rightarrow> CapabilityModel \<Rightarrow> CapabilityModel option" where
  "update_gpu checked index capabilities m =
     (let gpus = (if length (cm_gpus m) \<le> index
                  then cm_gpus m @ replicate (Suc index - length (cm_gpus m)) (capabilities_new Vendor_Unknown)
                  else cm_gpus m)
      in with_unified checked (m\<lparr>cm_gpus := gpus[index := capabilities]\<rparr>))"

definition remove_gpu :: "bool \<Rightarrow> nat \<Rightarrow> CapabilityModel \<Rightarrow> CapabilityModel option" where
  "remove_gpu checked index m =
     with_unified checked
       (if index < length (cm_gpus m) then m\<lparr>cm_gpus := take index (cm_gpus m) @ drop (Suc index) (cm_gpus m)\<rparr> else m)"

definition get_gpu :: "nat \<Rightarrow> CapabilityModel \<Rightarrow> GpuCapabilities option" where
  "get_gpu index m = (if index < length (cm_gpus m) then Some (cm_gpus m ! index) else None)"

definition model_tier :: "CapabilityModel \<Rightarrow> CapabilityTier" where
  "model_tier m = (case cm_unified m of None \<Rightarrow> Full | Some u \<Rightarrow> un_tier u)"

datatype GpuCompatibility = P2PSupported | Compatible | Limited | Incompatible

definition check_compatibility :: "nat \<Rightarrow> nat \<Rightarrow> CapabilityModel \<Rightarrow> GpuCompatibility" where
  "check_compatibility gpu1 gpu2 m =
     (if length (cm_gpus m) \<le> gpu1 \<or> length (cm_gpus m) \<le> gpu2 then Incompatible
      else
        let cap1 = cm_gpus m ! gpu1; cap2 = cm_gpus m ! gpu2
        in if P2PDma \<in> ca_features cap1 \<and> P2PDma \<in> ca_features cap2 then P2PSupported
           else case (ca_api_versions cap1 Vulkan, ca_api_versions cap2 Vulkan) of
             (Some v1, Some v2) \<Rightarrow> if av_major v1 = av_major v2 then Compatible else Limited
           | _ \<Rightarrow> if dom (ca_api_versions cap1) \<inter> dom (ca_api_versions cap2) \<noteq> {} then Limited else Incompatible)"


section \<open>Packing\<close>

definition version_in_range :: "ApiVersion \<Rightarrow> bool" where
  "version_in_range v \<longleftrightarrow> av_major v < 1024 \<and> av_minor v < 1024 \<and> av_patch v < 4096"

definition version_less :: "ApiVersion \<Rightarrow> ApiVersion \<Rightarrow> bool" where
  "version_less v w \<longleftrightarrow> av_major v < av_major w
     \<or> av_major v = av_major w \<and> (av_minor v < av_minor w \<or> av_minor v = av_minor w \<and> av_patch v < av_patch w)"

lemma masks: "x AND 0x3FF = take_bit 10 x" "x AND 0xFFF = take_bit 12 x" for x :: u32
  by (simp_all add: take_bit_eq_mask mask_eq_exp_minus_1)

lemma take_bit_small: "x < 1024 \<Longrightarrow> take_bit 10 x = x" "x < 4096 \<Longrightarrow> take_bit 12 x = x" for x :: u32
  by (simp_all add: word_less_nat_alt take_bit_word_eq_self word_unat_eq_iff unsigned_take_bit_eq take_bit_nat_eq_self)

lemma to_from_hex: "to_hex (from_hex w) = w"
proof (rule bit_word_eqI)
  fix n assume "n < LENGTH(32)"
  then show "bit (to_hex (from_hex w)) n \<longleftrightarrow> bit w n"
    unfolding to_hex_def from_hex_def masks by (cases "n < 22") (auto simp: bit_simps not_less)
qed

lemma from_to_hex:
  assumes "version_in_range v"
  shows "from_hex (to_hex v) = v"
proof -
  have m: "take_bit 10 (av_major v) = av_major v" "take_bit 10 (av_minor v) = av_minor v" "take_bit 12 (av_patch v) = av_patch v"
    using assms by (simp_all add: version_in_range_def take_bit_small)
  have "take_bit 10 (drop_bit 22 (to_hex v)) = take_bit 10 (av_major v)"
    unfolding to_hex_def masks by (rule bit_word_eqI) (auto simp: bit_simps)
  moreover have "take_bit 10 (drop_bit 12 (to_hex v)) = take_bit 10 (av_minor v)"
    unfolding to_hex_def masks by (rule bit_word_eqI) (auto simp: bit_simps)
  moreover have "take_bit 12 (to_hex v) = take_bit 12 (av_patch v)"
    unfolding to_hex_def masks by (rule bit_word_eqI) (auto simp: bit_simps)
  ultimately show ?thesis by (simp add: from_hex_def masks m)
qed

lemma to_hex_unat:
  assumes "version_in_range v"
  shows "unat (to_hex v) = unat (av_major v) * 2 ^ 22 + unat (av_minor v) * 2 ^ 12 + unat (av_patch v)"
proof -
  have m: "take_bit 10 (av_major v) = av_major v" "take_bit 10 (av_minor v) = av_minor v" "take_bit 12 (av_patch v) = av_patch v"
    using assms by (simp_all add: version_in_range_def take_bit_small)
  have "to_hex v = push_bit 22 (take_bit 10 (av_major v)) + (push_bit 12 (take_bit 10 (av_minor v)) + take_bit 12 (av_patch v))"
    unfolding to_hex_def masks or.assoc by (subst (1 2) disjunctive_add) (auto simp: bit_simps)
  then have h: "to_hex v = av_major v * 2 ^ 22 + (av_minor v * 2 ^ 12 + av_patch v)"
    unfolding m by (simp add: push_bit_eq_mult)
  have "unat (av_major v) < 1024" "unat (av_minor v) < 1024" "unat (av_patch v) < 4096"
    using assms by (simp_all add: version_in_range_def word_less_nat_alt)
  then show ?thesis unfolding h by (simp add: unat_word_ariths)
qed

lemma packed_less:
  fixes a b c a' b' c' :: nat
  assumes "b < 1024" "c < 4096" "b' < 1024" "c' < 4096"
  shows "a * 2 ^ 22 + b * 2 ^ 12 + c < a' * 2 ^ 22 + b' * 2 ^ 12 + c' \<longleftrightarrow> a < a' \<or> a = a' \<and> (b < b' \<or> b = b' \<and> c < c')"
  using assms by (cases a a' rule: linorder_cases; cases b b' rule: linorder_cases) auto

text \<open>
  C30. Packing a version loses nothing, and the packed words have the order of the versions. Unpacking and
  packing gives every word back; for versions whose parts fit their 10, 10 and 12 bits, packing and
  unpacking gives the version back, and the comparison of packed words, by which the lower of two versions
  is chosen, is the comparison of the versions part by part.
\<close>
theorem api_version_packing:
  "to_hex (from_hex w) = w \<and> version_in_range (from_hex w)
   \<and> (version_in_range v \<longrightarrow> from_hex (to_hex v) = v)
   \<and> (version_in_range v \<and> version_in_range u \<longrightarrow> (to_hex v < to_hex u \<longleftrightarrow> version_less v u))"
proof -
  have "take_bit 10 x < 1024" "take_bit 12 x < 4096" for x :: u32
    using take_bit_nat_less_exp [of 10 "unat x"] take_bit_nat_less_exp [of 12 "unat x"]
    by (simp_all add: word_less_nat_alt unsigned_take_bit_eq)
  then have "version_in_range (from_hex w)" by (simp add: version_in_range_def from_hex_def masks)
  moreover have "to_hex v < to_hex u \<longleftrightarrow> version_less v u" if "version_in_range v" "version_in_range u"
  proof -
    have b: "unat (av_minor x) < 1024" "unat (av_patch x) < 4096" if "version_in_range x" for x
      using that by (simp_all add: version_in_range_def word_less_nat_alt)
    show ?thesis
      unfolding version_less_def word_less_nat_alt word_unat_eq_iff to_hex_unat [OF that(1)] to_hex_unat [OF that(2)]
      by (rule packed_less [OF b [OF that(1)] b [OF that(2)]])
  qed
  ultimately show ?thesis using to_from_hex from_to_hex by blast
qed

text \<open>Vulkan 1.3.217: a witness for C30.\<close>

theorem api_version_packing_witness:
  "from_hex (to_hex \<lparr>av_major = 1, av_minor = 3, av_patch = 217\<rparr>) = \<lparr>av_major = 1, av_minor = 3, av_patch = 217\<rparr>
   \<and> to_hex \<lparr>av_major = 1, av_minor = 3, av_patch = 217\<rparr> < to_hex \<lparr>av_major = 1, av_minor = 4, av_patch = 0\<rparr>"
  using api_version_packing [of 0 "\<lparr>av_major = 1, av_minor = 3, av_patch = 217\<rparr>" "\<lparr>av_major = 1, av_minor = 4, av_patch = 0\<rparr>"]
  by (simp add: version_in_range_def version_less_def)

section \<open>What the unified capabilities say\<close>

lemma unify_all_apis_maps:
  "un_union_api_versions (unify_all_apis first gs u) = fold (\<lambda>g m. m ++ ca_api_versions g) gs (un_union_api_versions u)"
  "un_union_features (unify_all_apis first gs u) = un_union_features u \<union> (\<Union>g \<in> set gs. ca_features g)"
  by (induction gs arbitrary: first u) (auto simp: unify_apis_def)

lemma unify_all_apis_later:
  "dom (un_common_api_versions (unify_all_apis False gs u)) = dom (un_common_api_versions u)"
  "un_common_features (unify_all_apis False gs u) = un_common_features u \<inter> (\<Inter>g \<in> set gs. ca_features g)"
  by (induction gs arbitrary: u) (auto simp: unify_apis_def dom_def split: option.splits)

lemma unify_all_apis_numbers:
  "un_has_display_gpu (unify_all_apis first gs u) = un_has_display_gpu u"
  "un_total_vram (unify_all_apis first gs u) = un_total_vram u"
  by (induction gs arbitrary: first u) (auto simp: unify_apis_def)

lemma unify_numbers_frame:
  assumes "unify_numbers checked g u = Some v"
  shows "un_common_api_versions v = un_common_api_versions u" "un_union_api_versions v = un_union_api_versions u"
    "un_common_features v = un_common_features u" "un_union_features v = un_union_features u"
  using assms by (auto simp: unify_numbers_def Option.bind_eq_Some_conv)

lemma unify_all_numbers_frame:
  assumes "unify_all_numbers checked gs u = Some v"
  shows "un_common_api_versions v = un_common_api_versions u \<and> un_union_api_versions v = un_union_api_versions u
    \<and> un_common_features v = un_common_features u \<and> un_union_features v = un_union_features u"
  using assms by (induction gs arbitrary: u) (auto simp: Option.bind_eq_Some_conv dest: unify_numbers_frame)

lemma add_words_unat:
  assumes "add_words True a b = Some t"
  shows "unat t = unat a + unat b"
  using assms by (auto simp: add_words_def add_overflow unat_word_ariths not_le split: if_splits)

lemma unify_all_numbers_vram:
  assumes "unify_all_numbers True gs u = Some v"
  shows "unat (un_total_vram v) = unat (un_total_vram u) + (\<Sum>g \<leftarrow> gs. unat (ca_vram_total g))"
  using assms
proof (induction gs arbitrary: u)
  case Nil
  then show ?case by simp
next
  case (Cons g gs)
  then obtain w where w: "unify_numbers True g u = Some w" "unify_all_numbers True gs w = Some v"
    by (auto simp: Option.bind_eq_Some_conv)
  have "unat (un_total_vram w) = unat (un_total_vram u) + unat (ca_vram_total g)"
    using w(1) add_words_unat by (auto simp: unify_numbers_def Option.bind_eq_Some_conv)
  then show ?case using Cons.IH [OF w(2)] by simp
qed

text \<open>
  C32. What the unified capabilities of one or more GPUs hold, in a build that checks overflow. The features
  are the intersection and the union of the features of the GPUs, and the memory is the sum. But the
  common APIs are those of the first GPU, whether or not the other GPUs have them, and the version in the
  union is that of the last GPU that has the API, whether or not it is the highest.
\<close>
theorem unified_capabilities_content:
  assumes "recompute_unified True (g # gs) = Some (Some u)"
  shows "un_common_features u = (\<Inter>h \<in> set (g # gs). ca_features h)
    \<and> un_union_features u = (\<Union>h \<in> set (g # gs). ca_features h)
    \<and> unat (un_total_vram u) = (\<Sum>h \<leftarrow> g # gs. unat (ca_vram_total h))
    \<and> dom (un_common_api_versions u) = dom (ca_api_versions g)
    \<and> un_union_api_versions u = fold (\<lambda>h m. m ++ ca_api_versions h) (g # gs) Map.empty"
proof -
  let ?i = "unified_init (length (g # gs))"
  obtain v where v: "unify_all_numbers True (g # gs) ?i = Some v"
    and u: "un_common_features u = un_common_features (unify_all_apis True (g # gs) v)"
      "un_union_features u = un_union_features (unify_all_apis True (g # gs) v)"
      "un_total_vram u = un_total_vram (unify_all_apis True (g # gs) v)"
      "un_common_api_versions u = un_common_api_versions (unify_all_apis True (g # gs) v)"
      "un_union_api_versions u = un_union_api_versions (unify_all_apis True (g # gs) v)"
    using assms by (auto simp: recompute_unified_def Option.bind_eq_Some_conv Let_def simp del: unify_all_numbers.simps unify_all_apis.simps)
  have i: "un_common_api_versions v = Map.empty" "un_union_api_versions v = Map.empty" "un_common_features v = {}"
    "un_union_features v = {}"
    using unify_all_numbers_frame [OF v] by (simp_all add: unified_init_def)
  have n: "unat (un_total_vram v) = (\<Sum>h \<leftarrow> g # gs. unat (ca_vram_total h))"
    using unify_all_numbers_vram [OF v] by (simp add: unified_init_def)
  have "dom (un_common_api_versions u) = dom (ca_api_versions g)"
    unfolding u by (simp add: unify_all_apis_later unify_apis_def i)
  moreover have "un_common_features u = (\<Inter>h \<in> set (g # gs). ca_features h)"
    unfolding u by (simp add: unify_all_apis_later unify_apis_def i)
  moreover have "un_union_features u = (\<Union>h \<in> set (g # gs). ca_features h)"
    unfolding u(2) unify_all_apis_maps i by simp
  moreover have "un_union_api_versions u = fold (\<lambda>h m. m ++ ca_api_versions h) (g # gs) Map.empty"
    unfolding u(5) unify_all_apis_maps i by simp
  moreover have "unat (un_total_vram u) = (\<Sum>h \<leftarrow> g # gs. unat (ca_vram_total h))"
    unfolding u(3) unify_all_apis_numbers by (rule n)
  ultimately show ?thesis by blast
qed

text \<open>A GPU with CUDA and a newer Vulkan, then one without: a witness for C1.\<close>

definition geforce :: GpuCapabilities where
  "geforce = (capabilities_new Nvidia)\<lparr>ca_vram_total := 8, ca_features := {Graphics, Compute},
     ca_api_versions := [Vulkan \<mapsto> \<lparr>av_major = 1, av_minor = 3, av_patch = 0\<rparr>, Cuda \<mapsto> \<lparr>av_major = 12, av_minor = 0, av_patch = 0\<rparr>]\<rparr>"

definition arc770 :: GpuCapabilities where
  "arc770 = (capabilities_new Intel)\<lparr>ca_vram_total := 16, ca_features := {Compute, Display},
     ca_api_versions := [Vulkan \<mapsto> \<lparr>av_major = 1, av_minor = 1, av_patch = 0\<rparr>]\<rparr>"

theorem unified_capabilities_content_witness:
  "\<exists>u. recompute_unified True [geforce, arc770] = Some (Some u) \<and> un_common_features u = {Compute}
     \<and> Cuda \<in> dom (un_common_api_versions u) \<and> ca_api_versions arc770 Cuda = None
     \<and> un_union_api_versions u Vulkan = Some \<lparr>av_major = 1, av_minor = 1, av_patch = 0\<rparr>"
proof -
  have "case recompute_unified True [geforce, arc770] of Some (Some u) \<Rightarrow> True | _ \<Rightarrow> False" by code_simp
  then obtain u where u: "recompute_unified True [geforce, arc770] = Some (Some u)" by (auto split: option.splits)
  have "{Graphics, Compute} \<inter> {Compute, Display} = {Compute}" by auto
  then show ?thesis
    using unified_capabilities_content [OF u] u by (auto simp: geforce_def arc770_def capabilities_new_def)
qed

lemma check_compatibility_sym: "check_compatibility i j m = check_compatibility j i m"
  by (auto simp: check_compatibility_def Let_def Int_commute split: option.split)

text \<open>The model is current after every call that returns.\<close>

lemma model_current:
  assumes "update_gpu checked i c m = Some m' \<or> remove_gpu checked i m = Some m'"
  shows "recompute_unified checked (cm_gpus m') = Some (cm_unified m')"
  using assms by (auto simp: update_gpu_def remove_gpu_def with_unified_def Let_def split: if_splits)

end
