(* ===== verification/Spec2Isabelle.thy ===== *)
theory Spec2Isabelle
  imports Nt_Mutex_Race Coherency Memory_Api Afr_Rotation Sched_Conc Load_Balancer Splitter_Table Kernel_Sched Kernel_Sync
    Frame_Pacer Gpu_Device Gpu_Health Gpu_Parse
    Rust_Fence Rust_Fence_Manager Rust_Memory Rust_Tracker Rust_Capability Rust_Api_Caps
begin

text \<open>
  A verification library for mvgal, a layer that presents several GPUs as one device. Paths below are under
  \<^verbatim>\<open>src/\<close>.

  \<^bold>\<open>The program.\<close> A C library in user space (\<^verbatim>\<open>src/userspace\<close>) finds the GPUs (\<^verbatim>\<open>daemon/gpu_manager.c\<close>),
  keeps buffers that several GPUs share (\<^verbatim>\<open>memory/\<close>), and distributes workloads over the GPUs
  (\<^verbatim>\<open>scheduler/\<close>): a client submits a workload, the scheduler queues it, takes workloads from the
  queue by priority, lets a strategy choose GPUs and completes them; fences order the work. Beside it
  stand NT synchronisation objects for Windows programs (\<^verbatim>\<open>compat/windows\<close>), a frame pacer
  (\<^verbatim>\<open>steam\<close>), a kernel module with a scheduler and fences of its own (\<^verbatim>\<open>kernel\<close>), and Rust crates
  with registries for fences, allocations and capabilities (\<^verbatim>\<open>safe\<close> and \<^verbatim>\<open>runtime/safe\<close>).

  \<^bold>\<open>How code becomes definitions.\<close> A definition has the name of the function it translates; where the kernel, C and
  Rust use one name twice, a prefix or suffix tells them apart (\<open>kernel_\<close>, \<open>_kernel\<close>, \<open>_rs\<close>). A structure is a record
  whose fields carry a short prefix; an enumeration is a datatype with the constructors of the source; \<^verbatim>\<open>uint32_t\<close> and
  \<^verbatim>\<open>uint64_t\<close> are words, so that sums wrap as in C; \<^verbatim>\<open>float\<close> is \<open>f32\<close> of \<open>Float32\<close>, with rounding. Pointers are addresses
  in a heap, a map from addresses to records, and \<^verbatim>\<open>NULL\<close> is \<open>None\<close>. An operation takes the state and
  returns it. \<open>'a run\<close> is a result or a fault: a freed or invalid pointer, an index out of
  range, a second lock of a mutex that is not recursive, or a loop that exceeds its bound. What the code asks of its environment is an argument: clock readings, the addresses
  that \<^verbatim>\<open>calloc\<close> returns, the sleeps of a blocking wait, what \<^verbatim>\<open>/sys\<close> and the drivers show, callbacks, and
  how an interrupted thread finds the shared state. Log calls are left out.

  \<^bold>\<open>Shared theories.\<close>
  \<open>Mvgal_Prelude\<close>: machine integers, error codes, time stamps, faults and lemmas on words and lists.
  \<open>Float32\<close>: binary32 arithmetic and a bound on its rounding error.
  \<open>Linked_List\<close>: doubly linked lists in a heap; the locale \<open>dnode\<close> is interpreted for buffers and for workloads.
  \<open>Cond_Wait\<close>: waits on a condition variable; the locale \<open>waitable\<close> is interpreted for fences, semaphores, NT semaphores,
  NT mutexes and peer-to-peer semaphores. \<open>Rust_Ffi\<close>: registries behind a global lock; the
  locales \<open>registry\<close> and \<open>total_registry\<close> are interpreted for allocations and for fences.

  \<^bold>\<open>Synchronisation.\<close>
  \<open>Fence_Sync\<close> (\<^verbatim>\<open>src/userspace/memory/sync.c\<close>): fences and counting semaphores. What a wait returns (C1), and that
  semaphores hand out no more than was posted (C13).
  \<open>Nt_Sync\<close> (\<^verbatim>\<open>compat/windows/mvgal_ntsync.c\<close>): events, mutexes, semaphores, timers, waits for any and for all objects. Bounds
  of a semaphore and its releases, wrapping ones included (C15), what a wait for any object takes (C16), and that
  timed waits return (C17).
  \<open>Nt_Mutex_Race\<close>: the same mutex as a step relation of the single accesses of lock, unlock and of the wait for any
  object, from any initial owner. Exclusion holds exactly if only the blocking lock is used (C14).
  \<open>Coherency\<close> (\<^verbatim>\<open>src/userspace/memory/coherency.c\<close>): cache flushes as lists of instructions (C18), domains, and peer-to-peer
  semaphores, also as a step relation (C19).

  \<^bold>\<open>Memory.\<close>
  \<open>Buffer_Model\<close> and \<open>Buffer_Alloc\<close> (\<^verbatim>\<open>memory/memory_internal.h\<close>, \<^verbatim>\<open>allocator.c\<close>): buffers, the global
  list, references, bindings, aliases, start and stop: C2, C20 to C22. \<open>Memory_Api\<close> (\<^verbatim>\<open>memory.c\<close>, \<^verbatim>\<open>dmabuf.c\<close>): the public
  interface and transfers. Written bytes are read back, and the ranges that write and read accept are given
  exactly, with the wrapping ones that they should reject (C3).

  \<^bold>\<open>Scheduling.\<close>
  \<open>Workload_Queue\<close>: workload objects and the queue; the locale \<open>fifo\<close> is interpreted on it, and taking by priority is shown to be a
  stable priority queue that leaves priority 0 behind (C9). \<open>Gpu_Select\<close>: suitability, scores, choice of a GPU (C10).
  \<open>Strategies\<close>, \<open>Afr_Rotation\<close>, \<open>Sfr_Tiling\<close> (\<^verbatim>\<open>scheduler/strategy/\<close>): the distributions; C11 and C12.
  \<open>Sched_Core\<close>, \<open>Sched_Serve\<close> (\<^verbatim>\<open>scheduler.c\<close>): start, submission, the processing loop, waiting and
  destruction as a whole; the locale \<open>strategy\<close> is what the loop needs of a distribution and is interpreted for all of
  them. C5 to C7. \<open>Sched_Conc\<close>: clients and workers in any interleaving, one critical section per step; memory safety (C4)
  and cancellation (C8). \<open>Load_Balancer\<close>: utilizations, recommendations, and when and how priorities
  change (C27). \<open>Splitter_Table\<close> (\<^verbatim>\<open>workload_splitter.c\<close>). \<open>Frame_Pacer\<close> (\<^verbatim>\<open>steam/mvgal_frame_pacer.c\<close>): client and thread in any
  interleaving (C35).

  \<^bold>\<open>GPU manager\<close> (\<^verbatim>\<open>src/userspace/daemon/gpu_manager.c\<close>).
  \<open>Gpu_Parse\<close>: names and numbers of \<^verbatim>\<open>/sys\<close> (C40); the printer of PCI names is that of
  \<^verbatim>\<open>power/power_manager.c\<close>. \<open>Gpu_Descriptor\<close>: one GPU. \<open>Gpu_Manager\<close>: scan, table, rescan, switches, callbacks (C36, C37).
  \<open>Gpu_Device\<close>: selection and logical devices (C38). \<open>Gpu_Health\<close>: thresholds, levels, monitor (C39).

  \<^bold>\<open>Kernel module.\<close>
  \<open>Kernel_Sched\<close> (\<^verbatim>\<open>kernel/mvgal_scheduler.c\<close>): the dispatcher (C26) and the submit ioctl, with what it leaves behind on every
  path (C28). \<open>Kernel_Sync\<close> (\<^verbatim>\<open>kernel/mvgal_sync.c\<close>): fences and timelines (C34). The assignment to \<^verbatim>\<open>target_gpu_index\<close> in the
  dispatcher is left out, since the structure has no such field.

  \<^bold>\<open>Rust.\<close>
  \<open>Rust_Fence\<close> (\<^verbatim>\<open>safe/fence_manager\<close>, C25), \<open>Rust_Memory\<close> (\<^verbatim>\<open>safe/memory_safety\<close>, C23), \<open>Rust_Capability\<close>
  (\<^verbatim>\<open>safe/capability_model\<close>, C29 and C31), \<open>Rust_Fence_Manager\<close>, \<open>Rust_Tracker\<close>, \<open>Rust_Api_Caps\<close> (\<^verbatim>\<open>runtime/safe\<close>; C33, C24, and
  C30 and C32). The argument \<open>checked\<close> is whether the build checks overflow: then a sum that does not fit panics, otherwise it
  wraps; the theorems say for which build they hold.

  \<^bold>\<open>Bounds.\<close> The search along a queue may visit as many nodes as the count of the queue says, which is their number in
  every state that satisfies \<open>queue_at\<close>. The processing loop takes a number of turns: the length of the queue is enough if every
  priority is above 0, and no number is enough otherwise (C6). The kernel dispatcher is the same: one turn more than the longest queue is enough if
  every workload has a GPU, and no number otherwise (C26). The checkerboard split has a bound on its rows, which the
  horizontal mode of C12 does not use. The flush loop is a partial function, and C18 gives that it returns. A blocking wait gets the list of
  its sleeps, and is \<open>None\<close> while it still sleeps: C1, C17 and C19 say when it returns.

  \<^bold>\<open>What the models take as one step.\<close> An operation that holds its lock throughout is one step. Where the code leaves its lock or
  touches an object without it, the accesses are steps of a relation: \<open>nt_step\<close>, \<open>csem_step\<close>, and the relations of \<open>Sched_Conc\<close> and
  \<open>Frame_Pacer\<close>. What \<^verbatim>\<open>/sys\<close> shows does not change during one call of the GPU manager, and a user's callback does not call it.
  Creating a logical device allocates it only once it cannot fail any more, where the code allocates first and frees on each error.
  In the ioctl the only other actor is \<^verbatim>\<open>mvgal_workload_signal\<close>, called at most once while the call waits.

  \<^bold>\<open>Not modelled.\<close> Logging, configuration files, command-line tools, user interfaces, sockets and D-Bus (input and output); the Vulkan, OpenCL, CUDA, Direct3D,
  Metal, WebGPU and SYCL wrappers, which forward to vendor libraries that are not in the repository; the kernel module's device, memory, power and vendor code, which
  calls kernel interfaces and hardware; the C++ daemon under \<^verbatim>\<open>runtime/daemon\<close>, which shares no code with the libraries here; start-up of the library as a
  sequence of the modules' start functions; the execution module's frame plans; and the power manager apart from the names of its paths.
\<close>

end
